(* ===== verification/Prelude.thy ===== *)
theory Prelude
  imports Main "HOL-Library.Word" "HOL-Library.Signed_Division" "HOL-Library.Code_Target_Nat"
begin

text \<open>
  Shared vocabulary of the development: the failures a C++ call can end in and the
  result type that carries them, fixed-width signed integers with the conversions of
  the language, byte buffers with bounds-checked reads and writes, little-endian
  encodings, and the decimal conversions of the C++ standard library
  (\<open>std::to_string\<close>, \<open>std::stoi\<close>, \<open>std::stoll\<close>).  The generic lemmas are declared
  \<open>simp\<close> or collected in the named theorem lists below.
\<close>

named_theorems cint_simps \<open>ranges and conversions of the fixed-width integers\<close>
named_theorems buffer_simps \<open>reads and writes of byte buffers\<close>
named_theorems result_simps \<open>sequencing of fallible computations\<close>


section \<open>Failures and results\<close>

text \<open>\<open>bustub::ExceptionType\<close> (common/exception.h); the prefix keeps the names apart from
  those of \<open>TypeId\<close>.\<close>

datatype ExceptionType =
    ET_INVALID | ET_OUT_OF_RANGE | ET_CONVERSION | ET_UNKNOWN_TYPE | ET_DECIMAL
  | ET_MISMATCH_TYPE | ET_DIVIDE_BY_ZERO | ET_INCOMPATIBLE_TYPE | ET_OUT_OF_MEMORY
  | ET_NOT_IMPLEMENTED | ET_EXECUTION

text \<open>How a call can end without a value: a thrown \<open>bustub::Exception\<close>, a \<open>std::logic_error\<close>
  of the \<open>UNREACHABLE\<close> and \<open>UNIMPLEMENTED\<close> macros, a \<open>std::terminate\<close> of \<open>BUSTUB_ENSURE\<close>, a failed \<open>assert\<close> (the
  default build keeps assertions), the exceptions of the standard library, or
  undefined behaviour (an out-of-bounds access, a null dereference, a trapping division).\<close>

datatype failure =
    Throw ExceptionType string
  | LogicError string
  | AssertFail
  | Terminate string
  | StdInvalidArgument
  | StdOutOfRange
  | StdLengthError
  | StdBadAlloc
  | StdBadCast
  | Undefined

type_synonym 'a result = "failure + 'a"

fun rbind :: "'a result \<Rightarrow> ('a \<Rightarrow> 'b result) \<Rightarrow> 'b result" where
  "rbind (Inl e) f = Inl e"
| "rbind (Inr x) f = f x"

definition check :: "failure \<Rightarrow> bool \<Rightarrow> 'a result \<Rightarrow> 'a result" where
  "check e b k = (if b then k else Inl e)"

fun rmapM :: "('a \<Rightarrow> 'b result) \<Rightarrow> 'a list \<Rightarrow> 'b list result" where
  "rmapM f [] = Inr []"
| "rmapM f (x # xs) = rbind (f x) (\<lambda>y. rbind (rmapM f xs) (\<lambda>ys. Inr (y # ys)))"

fun rfoldM :: "('b \<Rightarrow> 'a \<Rightarrow> 'b result) \<Rightarrow> 'b \<Rightarrow> 'a list \<Rightarrow> 'b result" where
  "rfoldM f s [] = Inr s"
| "rfoldM f s (x # xs) = rbind (f s x) (\<lambda>t. rfoldM f t xs)"

text \<open>A C++ vector access \<open>v[i]\<close> (undefined out of range).\<close>

definition at :: "'a list \<Rightarrow> nat \<Rightarrow> 'a result" where
  "at xs i = (if i < length xs then Inr (xs ! i) else Inl Undefined)"

abbreviation assert :: "bool \<Rightarrow> 'a result \<Rightarrow> 'a result" where
  "assert \<equiv> check AssertFail"

lemma check_True [simp, result_simps]: "check e True k = k"
  and check_False [simp, result_simps]: "check e False k = Inl e"
  by (simp_all add: check_def)

lemma rbind_Inr_iff [result_simps]:
  "rbind r f = Inr y \<longleftrightarrow> (\<exists>x. r = Inr x \<and> f x = Inr y)"
  by (cases r) auto

lemma check_Inr_iff [result_simps]: "check e b k = Inr y \<longleftrightarrow> b \<and> k = Inr y"
  by (simp add: check_def)

lemma rbind_right_unit [simp]: "rbind r Inr = r"
  by (cases r) auto

lemma rbind_cong: "r = r' \<Longrightarrow> (\<And>x. r' = Inr x \<Longrightarrow> f x = g x) \<Longrightarrow> rbind r f = rbind r' g"
  by (cases r') simp_all

lemma rbind_assoc: "rbind (rbind r f) g = rbind r (\<lambda>x. rbind (f x) g)"
  by (cases r) auto

lemma rmapM_Inr_iff [result_simps]:
  "rmapM f xs = Inr ys \<longleftrightarrow> length ys = length xs \<and> (\<forall>i<length xs. f (xs ! i) = Inr (ys ! i))"
proof (induction xs arbitrary: ys)
  case (Cons x xs)
  show ?case
    by (cases ys) (auto simp: rbind_Inr_iff Cons.IH nth_Cons split: nat.splits)
qed auto

lemma rmapM_Inr_map: "(\<And>x. x \<in> set xs \<Longrightarrow> f x = Inr (g x)) \<Longrightarrow> rmapM f xs = Inr (map g xs)"
  by (induction xs) auto

lemma rmapM_append:
  "rmapM f (xs @ ys) = rbind (rmapM f xs) (\<lambda>as. rbind (rmapM f ys) (\<lambda>bs. Inr (as @ bs)))"
  by (induction xs) (auto simp: rbind_assoc)

lemma rfoldM_append: "rfoldM f s (xs @ ys) = rbind (rfoldM f s xs) (\<lambda>t. rfoldM f t ys)"
  by (induction xs arbitrary: s) (auto simp: rbind_assoc)

lemma at_nth [simp]: "i < length xs \<Longrightarrow> at xs i = Inr (xs ! i)"
  by (simp add: at_def)

lemma at_Inr_iff [result_simps]: "at xs i = Inr x \<longleftrightarrow> i < length xs \<and> xs ! i = x"
  by (auto simp: at_def)


section \<open>Fixed-width signed integers\<close>

datatype cint = I8 | I16 | I32 | I64

fun bits :: "cint \<Rightarrow> nat" where
  "bits I8 = 8" | "bits I16 = 16" | "bits I32 = 32" | "bits I64 = 64"

text \<open>\<open>sizeof\<close> of the type.\<close>

fun bytes_of :: "cint \<Rightarrow> nat" where
  "bytes_of I8 = 1" | "bytes_of I16 = 2" | "bytes_of I32 = 4" | "bytes_of I64 = 8"

definition cmin :: "cint \<Rightarrow> int" where "cmin T = - (2 ^ (bits T - 1))"
definition cmax :: "cint \<Rightarrow> int" where "cmax T = 2 ^ (bits T - 1) - 1"

definition in_range :: "cint \<Rightarrow> int \<Rightarrow> bool" where
  "in_range T z \<longleftrightarrow> cmin T \<le> z \<and> z \<le> cmax T"

text \<open>Conversion to a signed type (modulo \<open>2^w\<close>, C++20 and every supported compiler before).\<close>

definition static_cast :: "cint \<Rightarrow> int \<Rightarrow> int" where
  "static_cast T z = signed_take_bit (bits T - 1) z"

text \<open>The type in which a binary operation on \<open>T1\<close> and \<open>T2\<close> is computed: both operands are
  promoted to at least \<open>int\<close>.  Signed overflow there wraps in the model (the compilers'
  behaviour in the repository's default unoptimised build; the language leaves it undefined).\<close>

fun promote :: "cint \<Rightarrow> cint \<Rightarrow> cint" where
  "promote T1 T2 = (if T1 = I64 \<or> T2 = I64 then I64 else I32)"

lemma cmin_simps [simp, cint_simps]:
  "cmin I8 = -128" "cmin I16 = -32768" "cmin I32 = -2147483648" "cmin I64 = -9223372036854775808"
  by (simp_all add: cmin_def)

lemma cmax_simps [simp, cint_simps]:
  "cmax I8 = 127" "cmax I16 = 32767" "cmax I32 = 2147483647" "cmax I64 = 9223372036854775807"
  by (simp_all add: cmax_def)

lemma static_cast_id [cint_simps]: "in_range T z \<Longrightarrow> static_cast T z = z"
  unfolding in_range_def static_cast_def cmin_def cmax_def
  by (rule signed_take_bit_int_eq_self) auto

lemma static_cast_in_range [simp]: "in_range T (static_cast T z)"
  using signed_take_bit_int_greater_eq_minus_exp [of "bits T - 1" z]
    signed_take_bit_int_less_exp [of "bits T - 1" z]
  by (simp add: in_range_def static_cast_def cmin_def cmax_def)

lemma static_cast_eq_iff: "static_cast T z = z \<longleftrightarrow> in_range T z"
  using static_cast_id static_cast_in_range by metis

lemma static_cast_static_cast:
  "bits S \<le> bits T \<Longrightarrow> static_cast S (static_cast T z) = static_cast S z"
  unfolding static_cast_def by (simp add: min_def)

lemma static_cast_unfold [cint_simps, code]:
  "static_cast T z = (z + 2 ^ (bits T - 1)) mod 2 ^ bits T - 2 ^ (bits T - 1)"
proof -
  have "Suc (bits T - 1) = bits T" by (cases T) auto
  then show ?thesis
    unfolding static_cast_def signed_take_bit_eq_take_bit_shift take_bit_eq_mod by simp
qed

lemma in_range_mono: "in_range S z \<Longrightarrow> bits S \<le> bits T \<Longrightarrow> in_range T z"
  by (cases S; cases T) (auto simp: in_range_def)

lemma bits_le_bytes: "bits S \<le> bits T \<longleftrightarrow> bytes_of S \<le> bytes_of T"
  by (cases S; cases T) auto


section \<open>Bytes and buffers\<close>

text \<open>A \<open>char\<close> buffer is an Isabelle string: its characters are exactly the bytes 0 to 255.\<close>

type_synonym buffer = string

fun le_encode :: "nat \<Rightarrow> nat \<Rightarrow> buffer" where
  "le_encode 0 k = []"
| "le_encode (Suc n) k = char_of (k mod 256) # le_encode n (k div 256)"

fun le_decode :: "buffer \<Rightarrow> nat" where
  "le_decode [] = 0"
| "le_decode (c # cs) = of_char c + 256 * le_decode cs"

definition write_at :: "buffer \<Rightarrow> nat \<Rightarrow> buffer \<Rightarrow> buffer result" where
  "write_at buf off bs = (if off + length bs \<le> length buf
     then Inr (take off buf @ bs @ drop (off + length bs) buf) else Inl Undefined)"

definition read_at :: "buffer \<Rightarrow> nat \<Rightarrow> nat \<Rightarrow> buffer result" where
  "read_at buf off n = (if off + n \<le> length buf then Inr (take n (drop off buf)) else Inl Undefined)"

lemma length_le_encode [simp]: "length (le_encode n k) = n"
  by (induction n arbitrary: k) auto

lemma le_decode_encode [simp]: "le_decode (le_encode n k) = k mod 256 ^ n"
proof (induction n arbitrary: k)
  case (Suc n)
  have "of_char (char_of (k mod 256) :: char) = k mod 256"
    by (simp add: of_char_of)
  with Suc show ?case
    by (simp add: mod_mult2_eq)
qed simp

lemma of_char_less [simp]: "(of_char c :: nat) < 256"
proof -
  have "(of_char c :: nat) mod 256 = of_char c" by (rule of_char_mod_256)
  then show ?thesis by (metis mod_less_divisor zero_less_numeral)
qed

lemma le_encode_decode [simp]: "le_encode (length bs) (le_decode bs) = bs"
proof (induction bs)
  case (Cons c bs)
  have "(of_char c :: nat) < 256" by simp
  then show ?case using Cons by simp
qed simp

lemma le_decode_less: "le_decode bs < 256 ^ length bs"
proof (induction bs)
  case (Cons c bs)
  have "(of_char c :: nat) < 256" by simp
  then show ?case using Cons by (simp del: of_char_less)
qed simp

lemma write_at_Inr_iff [buffer_simps]:
  "write_at buf off bs = Inr b \<longleftrightarrow>
     off + length bs \<le> length buf \<and> b = take off buf @ bs @ drop (off + length bs) buf"
  by (auto simp: write_at_def)

lemma read_at_Inr_iff [buffer_simps]:
  "read_at buf off n = Inr bs \<longleftrightarrow> off + n \<le> length buf \<and> bs = take n (drop off buf)"
  by (auto simp: read_at_def)

lemma length_write_at: "write_at buf off bs = Inr b \<Longrightarrow> length b = length buf"
  by (auto simp: write_at_Inr_iff)

lemma write_at_nth:
  "write_at buf off bs = Inr b \<Longrightarrow> i < length buf \<Longrightarrow>
     b ! i = (if off \<le> i \<and> i < off + length bs then bs ! (i - off) else buf ! i)"
  by (auto simp: write_at_Inr_iff nth_append)

lemma read_write_same:
  "write_at buf off bs = Inr b \<Longrightarrow> read_at b off (length bs) = Inr bs"
  by (auto simp: write_at_Inr_iff read_at_def)

lemma read_at_cong:
  assumes "length b = length buf" and "\<And>i. off \<le> i \<Longrightarrow> i < off + n \<Longrightarrow> i < length buf \<Longrightarrow> b ! i = buf ! i"
  shows "read_at b off n = read_at buf off n"
  using assms by (auto simp: read_at_def intro!: nth_equalityI)

lemma read_write_disjoint:
  assumes "write_at buf off bs = Inr b" "o' + n \<le> off \<or> off + length bs \<le> o'"
  shows "read_at b o' n = read_at buf o' n"
  using assms by (intro read_at_cong) (auto simp: length_write_at write_at_nth)


section \<open>Decimal conversions\<close>

definition digit :: "nat \<Rightarrow> char" where "digit d = char_of (48 + d)"

definition is_digit :: "char \<Rightarrow> bool" where
  "is_digit c \<longleftrightarrow> 48 \<le> (of_char c :: nat) \<and> (of_char c :: nat) \<le> 57"

definition digit_val :: "char \<Rightarrow> nat" where "digit_val c = of_char c - 48"

fun nat_to_string :: "nat \<Rightarrow> string" where
  "nat_to_string n = (if n < 10 then [digit n] else nat_to_string (n div 10) @ [digit (n mod 10)])"

declare nat_to_string.simps [simp del]

text \<open>\<open>std::to_string\<close> on a signed integer.\<close>

definition to_string :: "int \<Rightarrow> string" where
  "to_string z = (if z < 0 then ''-'' @ nat_to_string (nat (- z)) else nat_to_string (nat z))"

text \<open>\<open>isspace\<close> and \<open>tolower\<close> in the C locale.\<close>

definition is_space :: "char \<Rightarrow> bool" where
  "is_space c \<longleftrightarrow> (of_char c :: nat) = 32 \<or> (9 \<le> (of_char c :: nat) \<and> (of_char c :: nat) \<le> 13)"

definition to_lower :: "char \<Rightarrow> char" where
  "to_lower c = (if 65 \<le> (of_char c :: nat) \<and> (of_char c :: nat) \<le> 90
                 then char_of ((of_char c :: nat) + 32) else c)"

definition digits_val :: "string \<Rightarrow> nat" where
  "digits_val ds = foldl (\<lambda>a c. 10 * a + digit_val c) 0 ds"

text \<open>The subject sequence of \<open>strtol\<close> in base 10: white space, a sign, digits; what follows is
  ignored, and no digit at all is no conversion.\<close>

definition parse_sign :: "string \<Rightarrow> bool \<times> string" where
  "parse_sign s = (case s of [] \<Rightarrow> (False, s)
     | c # r \<Rightarrow> if c = CHR ''-'' then (True, r) else if c = CHR ''+'' then (False, r) else (False, s))"

definition parse_int :: "string \<Rightarrow> int option" where
  "parse_int s = (let (neg, r) = parse_sign (dropWhile is_space s); ds = takeWhile is_digit r in
     if ds = [] then None else Some (if neg then - int (digits_val ds) else int (digits_val ds)))"

definition stoi :: "string \<Rightarrow> int result" where
  "stoi s = (case parse_int s of None \<Rightarrow> Inl StdInvalidArgument
     | Some z \<Rightarrow> if in_range I32 z then Inr z else Inl StdOutOfRange)"

definition stoll :: "string \<Rightarrow> int result" where
  "stoll s = (case parse_int s of None \<Rightarrow> Inl StdInvalidArgument
     | Some z \<Rightarrow> if in_range I64 z then Inr z else Inl StdOutOfRange)"

lemma of_char_digit [simp]: "d < 10 \<Longrightarrow> (of_char (digit d) :: nat) = 48 + d"
  by (simp add: digit_def of_char_of)

lemma is_digit_digit [simp]: "d < 10 \<Longrightarrow> is_digit (digit d)"
  by (simp add: is_digit_def)

lemma digit_val_digit [simp]: "d < 10 \<Longrightarrow> digit_val (digit d) = d"
  by (simp add: digit_val_def)

lemma digits_val_snoc [simp]: "digits_val (ds @ [c]) = 10 * digits_val ds + digit_val c"
  by (simp add: digits_val_def)

lemma nat_to_string_digits: "c \<in> set (nat_to_string n) \<Longrightarrow> is_digit c"
proof (induction n rule: nat_to_string.induct)
  case (1 n)
  show ?case
  proof (cases "n < 10")
    case True
    then show ?thesis using "1.prems" by (simp add: nat_to_string.simps [of n])
  next
    case False
    then have "c \<in> set (nat_to_string (n div 10)) \<or> c = digit (n mod 10)"
      using "1.prems" by (subst (asm) nat_to_string.simps [of n]) auto
    then show ?thesis using "1.IH" False by auto
  qed
qed

lemma nat_to_string_nonempty [simp]: "nat_to_string n \<noteq> []"
  by (subst nat_to_string.simps) auto

lemma digits_val_nat_to_string [simp]: "digits_val (nat_to_string n) = n"
proof (induction n rule: nat_to_string.induct)
  case (1 n)
  show ?case
  proof (cases "n < 10")
    case True
    then show ?thesis
      by (subst nat_to_string.simps) (simp add: digits_val_def)
  next
    case False
    then show ?thesis using "1.IH"
      by (subst nat_to_string.simps) simp
  qed
qed

lemma takeWhile_nat_to_string [simp]: "takeWhile is_digit (nat_to_string n) = nat_to_string n"
  by (simp add: takeWhile_eq_all_conv nat_to_string_digits)

lemma nat_to_string_Cons:
  obtains c cs where "nat_to_string n = c # cs" "is_digit c"
proof (cases "nat_to_string n")
  case (Cons c cs)
  then have "is_digit c" by (intro nat_to_string_digits [of c n]) simp
  with Cons show ?thesis by (rule that)
qed simp

lemma digit_not_special: "is_digit c \<Longrightarrow> \<not> is_space c \<and> c \<noteq> CHR ''-'' \<and> c \<noteq> CHR ''+''"
  by (auto simp: is_digit_def is_space_def)

lemma parse_int_to_string [simp]: "parse_int (to_string z) = Some z"
proof (cases "z < 0")
  case True
  then show ?thesis
    by (simp add: parse_int_def to_string_def parse_sign_def is_space_def)
next
  case False
  obtain c cs where c: "nat_to_string (nat z) = c # cs" "is_digit c"
    by (rule nat_to_string_Cons)
  then have "parse_sign (dropWhile is_space (nat_to_string (nat z))) = (False, nat_to_string (nat z))"
    by (simp add: parse_sign_def digit_not_special)
  then show ?thesis
    using False by (simp add: parse_int_def to_string_def)
qed

lemma stoi_to_string: "stoi (to_string z) = (if in_range I32 z then Inr z else Inl StdOutOfRange)"
  by (simp add: stoi_def)

lemma stoll_to_string: "stoll (to_string z) = (if in_range I64 z then Inr z else Inl StdOutOfRange)"
  by (simp add: stoll_def)

lemma length_nat_to_string: "n < 10 ^ k \<Longrightarrow> 0 < k \<Longrightarrow> length (nat_to_string n) \<le> k"
proof (induction k arbitrary: n)
  case (Suc k)
  show ?case
  proof (cases "n < 10")
    case True
    then show ?thesis by (simp add: nat_to_string.simps [of n])
  next
    case False
    then have "0 < k" using Suc.prems(1) by (cases k) auto
    moreover have "n div 10 < 10 ^ k" using Suc.prems(1) by (simp add: less_mult_imp_div_less mult.commute)
    ultimately show ?thesis
      using Suc.IH [of "n div 10"] False by (simp add: nat_to_string.simps [of n])
  qed
qed simp

lemma length_to_string: "in_range T z \<Longrightarrow> length (to_string z) \<le> 21"
proof -
  assume "in_range T z"
  then have "nat \<bar>z\<bar> < 10 ^ 20" by (cases T) (auto simp: in_range_def)
  then have "length (nat_to_string (nat \<bar>z\<bar>)) \<le> 20" by (rule length_nat_to_string) simp
  then show ?thesis by (auto simp: to_string_def)
qed

lemma sum_take_mono: "i \<le> j \<Longrightarrow> sum_list (map f (take i xs)) \<le> (sum_list (map f (take j xs)) :: nat)"
  by (auto simp: le_iff_add take_add)

end
