(* ===== verification/Double.thy ===== *)
theory Double
  imports Prelude
begin

text \<open>
  The \<open>double\<close> of the program: IEEE 754 binary64 bit patterns with round-to-nearest-even
  arithmetic, as the x86-64 SSE2 target computes it, and the conversions of the C and C++
  library the source uses (\<open>std::to_string\<close>, \<open>std::stod\<close>, \<open>std::trunc\<close>, \<open>std::sqrt\<close>, casts
  from and to the integer types).  A pattern is decoded into sign, integer significand and
  binary exponent; an operation computes the exact result as a fraction of naturals and
  rounds it once.
\<close>

type_synonym double = "64 word"

datatype fp = FNaN bool nat | FInf bool | FFin bool nat int

definition decode :: "double \<Rightarrow> fp" where
  "decode w = (let n = unat w; s = (n div 2 ^ 63 = 1); e = n div 2 ^ 52 mod 2048; f = n mod 2 ^ 52 in
     if e = 2047 then (if f = 0 then FInf s else FNaN s f)
     else if e = 0 then FFin s f (- 1074)
     else FFin s (2 ^ 52 + f) (int e - 1075))"

definition sign_bit :: "bool \<Rightarrow> nat" where "sign_bit s = (if s then 2 ^ 63 else 0)"

fun encode :: "fp \<Rightarrow> double" where
  "encode (FNaN s p) = of_nat (sign_bit s + 2047 * 2 ^ 52 + p)"
| "encode (FInf s) = of_nat (sign_bit s + 2047 * 2 ^ 52)"
| "encode (FFin s m e) = (if m < 2 ^ 52 then of_nat (sign_bit s + m)
     else of_nat (sign_bit s + nat (e + 1075) * 2 ^ 52 + (m - 2 ^ 52)))"

fun canonical :: "fp \<Rightarrow> bool" where
  "canonical (FNaN s p) \<longleftrightarrow> 0 < p \<and> p < 2 ^ 52"
| "canonical (FInf s) \<longleftrightarrow> True"
| "canonical (FFin s m e) \<longleftrightarrow> m < 2 ^ 53 \<and> - 1074 \<le> e \<and> e \<le> 971 \<and> (m < 2 ^ 52 \<longrightarrow> e = - 1074)"


section \<open>Rounding\<close>

definition half_even :: "nat \<Rightarrow> nat \<Rightarrow> nat" where
  "half_even a b = (let q = a div b; r = a mod b in
     if 2 * r < b \<or> (2 * r = b \<and> even q) then q else q + 1)"

fun bitlen :: "nat \<Rightarrow> nat" where
  "bitlen n = (if n = 0 then 0 else Suc (bitlen (n div 2)))"

declare bitlen.simps [simp del]

text \<open>\<open>a / b * 2^(-k)\<close> as a fraction.\<close>

definition scale :: "nat \<Rightarrow> nat \<Rightarrow> int \<Rightarrow> nat \<times> nat" where
  "scale a b k = (if k \<ge> 0 then (a, b * 2 ^ nat k) else (a * 2 ^ nat (- k), b))"

text \<open>The double nearest to \<open>a / b * 2^e\<close>, ties to even, with gradual underflow and overflow to
  infinity.\<close>

definition round_fp :: "bool \<Rightarrow> nat \<Rightarrow> nat \<Rightarrow> int \<Rightarrow> fp" where
  "round_fp s a b e = (if a = 0 then FFin s 0 (- 1074) else
     let k0 = int (bitlen a) - int (bitlen b) - 53;
         (n0, d0) = scale a b k0;
         k1 = (if 2 ^ 53 * d0 \<le> n0 then k0 + 1 else k0);
         k = max k1 (- 1074 - e);
         (n, d) = scale a b k;
         m = half_even n d;
         (m', k') = (if m = 2 ^ 53 then (2 ^ 52, k + 1) else (m, k))
     in if e + k' > 971 then FInf s else FFin s m' (e + k'))"

definition apply_sign :: "bool \<Rightarrow> nat \<Rightarrow> int" where "apply_sign s m = (if s then - int m else int m)"

definition default_nan :: fp where "default_nan = FNaN True (2 ^ 51)"

definition quiet :: "bool \<Rightarrow> nat \<Rightarrow> fp" where
  "quiet s p = FNaN s (if p < 2 ^ 51 then p + 2 ^ 51 else p)"


section \<open>Arithmetic\<close>

fun fp_add :: "fp \<Rightarrow> fp \<Rightarrow> fp" where
  "fp_add (FNaN s p) y = quiet s p"
| "fp_add x (FNaN s p) = quiet s p"
| "fp_add (FInf s) (FInf t) = (if s = t then FInf s else default_nan)"
| "fp_add (FInf s) (FFin t m e) = FInf s"
| "fp_add (FFin t m e) (FInf s) = FInf s"
| "fp_add (FFin s1 m1 e1) (FFin s2 m2 e2) = (let e = min e1 e2;
     z = apply_sign s1 (m1 * 2 ^ nat (e1 - e)) + apply_sign s2 (m2 * 2 ^ nat (e2 - e)) in
     if z = 0 then FFin (s1 \<and> s2) 0 (- 1074) else round_fp (z < 0) (nat \<bar>z\<bar>) 1 e)"

fun fp_neg :: "fp \<Rightarrow> fp" where
  "fp_neg (FNaN s p) = FNaN s p"
| "fp_neg (FInf s) = FInf (\<not> s)"
| "fp_neg (FFin s m e) = FFin (\<not> s) m e"

definition fp_sub :: "fp \<Rightarrow> fp \<Rightarrow> fp" where "fp_sub x y = fp_add x (fp_neg y)"

fun fp_mul :: "fp \<Rightarrow> fp \<Rightarrow> fp" where
  "fp_mul (FNaN s p) y = quiet s p"
| "fp_mul x (FNaN s p) = quiet s p"
| "fp_mul (FInf s) (FInf t) = FInf (s \<noteq> t)"
| "fp_mul (FInf s) (FFin t m e) = (if m = 0 then default_nan else FInf (s \<noteq> t))"
| "fp_mul (FFin t m e) (FInf s) = (if m = 0 then default_nan else FInf (s \<noteq> t))"
| "fp_mul (FFin s1 m1 e1) (FFin s2 m2 e2) = round_fp (s1 \<noteq> s2) (m1 * m2) 1 (e1 + e2)"

fun fp_div :: "fp \<Rightarrow> fp \<Rightarrow> fp" where
  "fp_div (FNaN s p) y = quiet s p"
| "fp_div x (FNaN s p) = quiet s p"
| "fp_div (FInf s) (FInf t) = default_nan"
| "fp_div (FInf s) (FFin t m e) = FInf (s \<noteq> t)"
| "fp_div (FFin t m e) (FInf s) = FFin (s \<noteq> t) 0 (- 1074)"
| "fp_div (FFin s1 m1 e1) (FFin s2 m2 e2) = (if m2 = 0
     then (if m1 = 0 then default_nan else FInf (s1 \<noteq> s2))
     else round_fp (s1 \<noteq> s2) m1 m2 (e1 - e2))"

fun fp_trunc :: "fp \<Rightarrow> fp" where
  "fp_trunc (FNaN s p) = quiet s p"
| "fp_trunc (FInf s) = FInf s"
| "fp_trunc (FFin s m e) = (if e \<ge> 0 then FFin s m e else round_fp s (m div 2 ^ nat (- e)) 1 0)"

fun isqrt :: "nat \<Rightarrow> nat" where
  "isqrt n = (if n = 0 then 0 else
     let r = 2 * isqrt (n div 4) in if (r + 1) * (r + 1) \<le> n then r + 1 else r)"

declare isqrt.simps [simp del]

text \<open>The square root of \<open>m * 2^e\<close>: the exponent is made even and the significand widened by
  128 bits, so that the integer root has more than 60 bits and a sticky bit for the
  discarded remainder decides the rounding.\<close>

fun fp_sqrt :: "fp \<Rightarrow> fp" where
  "fp_sqrt (FNaN s p) = quiet s p"
| "fp_sqrt (FInf s) = (if s then default_nan else FInf False)"
| "fp_sqrt (FFin s m e) = (if m = 0 then FFin s 0 (- 1074) else if s then default_nan else
     let (m', e') = (if even e then (m, e) else (2 * m, e - 1));
         n = m' * 2 ^ 128; r = isqrt n
     in round_fp False (2 * r + (if r * r < n then 1 else 0)) 1 (e' div 2 - 65))"

text \<open>The three-way comparison; \<open>None\<close> when an operand is not a number.\<close>

fun fp_cmp :: "fp \<Rightarrow> fp \<Rightarrow> int option" where
  "fp_cmp (FNaN s p) y = None"
| "fp_cmp x (FNaN s p) = None"
| "fp_cmp (FInf s) (FInf t) = Some (if s = t then 0 else if s then - 1 else 1)"
| "fp_cmp (FInf s) (FFin t m e) = Some (if s then - 1 else 1)"
| "fp_cmp (FFin t m e) (FInf s) = Some (if s then 1 else - 1)"
| "fp_cmp (FFin s1 m1 e1) (FFin s2 m2 e2) = (let e = min e1 e2 in
     Some (sgn (apply_sign s1 (m1 * 2 ^ nat (e1 - e)) - apply_sign s2 (m2 * 2 ^ nat (e2 - e)))))"

definition dadd :: "double \<Rightarrow> double \<Rightarrow> double" where "dadd x y = encode (fp_add (decode x) (decode y))"
definition dsub :: "double \<Rightarrow> double \<Rightarrow> double" where "dsub x y = encode (fp_sub (decode x) (decode y))"
definition dmul :: "double \<Rightarrow> double \<Rightarrow> double" where "dmul x y = encode (fp_mul (decode x) (decode y))"
definition ddiv :: "double \<Rightarrow> double \<Rightarrow> double" where "ddiv x y = encode (fp_div (decode x) (decode y))"
definition dtrunc :: "double \<Rightarrow> double" where "dtrunc x = encode (fp_trunc (decode x))"
definition dsqrt :: "double \<Rightarrow> double" where "dsqrt x = encode (fp_sqrt (decode x))"
definition dcmp :: "double \<Rightarrow> double \<Rightarrow> int option" where "dcmp x y = fp_cmp (decode x) (decode y)"

text \<open>The six comparison operators of the language, on integers and on doubles.\<close>

datatype cmp_op = EQ | NE | LT | LE | GT | GE

fun cmp_int :: "cmp_op \<Rightarrow> int \<Rightarrow> int \<Rightarrow> bool" where
  "cmp_int EQ x y \<longleftrightarrow> x = y"
| "cmp_int NE x y \<longleftrightarrow> x \<noteq> y"
| "cmp_int LT x y \<longleftrightarrow> x < y"
| "cmp_int LE x y \<longleftrightarrow> x \<le> y"
| "cmp_int GT x y \<longleftrightarrow> x > y"
| "cmp_int GE x y \<longleftrightarrow> x \<ge> y"

definition cmp_double :: "cmp_op \<Rightarrow> double \<Rightarrow> double \<Rightarrow> bool" where
  "cmp_double op x y = (case dcmp x y of None \<Rightarrow> op = NE | Some c \<Rightarrow> cmp_int op c 0)"


section \<open>Conversions\<close>

definition double_of_int :: "int \<Rightarrow> double" where
  "double_of_int z = encode (round_fp (z < 0) (nat \<bar>z\<bar>) 1 0)"

fun fp_to_int :: "fp \<Rightarrow> int option" where
  "fp_to_int (FFin s m e) = Some (apply_sign s (if e \<ge> 0 then m * 2 ^ nat e else m div 2 ^ nat (- e)))"
| "fp_to_int _ = None"

text \<open>\<open>static_cast\<close> of a double to an integer type truncates; out of range it is undefined.\<close>

definition double_to_int :: "cint \<Rightarrow> double \<Rightarrow> int result" where
  "double_to_int T d = (case fp_to_int (decode d) of None \<Rightarrow> Inl Undefined
     | Some z \<Rightarrow> if in_range T z then Inr z else Inl Undefined)"

definition pad0 :: "nat \<Rightarrow> string \<Rightarrow> string" where
  "pad0 w s = replicate (w - length s) (CHR ''0'') @ s"

text \<open>\<open>std::to_string(double)\<close>: the \<open>%f\<close> format, six digits after the point.\<close>

fun fp_to_string :: "fp \<Rightarrow> string" where
  "fp_to_string (FNaN s p) = (if s then ''-nan'' else ''nan'')"
| "fp_to_string (FInf s) = (if s then ''-inf'' else ''inf'')"
| "fp_to_string (FFin s m e) = (let q = (if e \<ge> 0 then m * 2 ^ nat e * 10 ^ 6
       else half_even (m * 10 ^ 6) (2 ^ nat (- e)))
     in (if s then ''-'' else '''') @ nat_to_string (q div 10 ^ 6) @ ''.''
        @ pad0 6 (nat_to_string (q mod 10 ^ 6)))"

definition double_to_string :: "double \<Rightarrow> string" where
  "double_to_string d = fp_to_string (decode d)"

subsection \<open>Parsing\<close>

definition hex_val :: "char \<Rightarrow> nat option" where
  "hex_val c = (if is_digit c then Some (digit_val c)
     else let k = (of_char (to_lower c) :: nat) in if 97 \<le> k \<and> k \<le> 102 then Some (k - 87) else None)"

definition is_hex :: "char \<Rightarrow> bool" where "is_hex c \<longleftrightarrow> hex_val c \<noteq> None"

definition hex_digits_val :: "string \<Rightarrow> nat" where
  "hex_digits_val ds = foldl (\<lambda>a c. 16 * a + the (hex_val c)) 0 ds"

text \<open>A digit sequence with an optional point: the digits without the point, how many of them
  follow it, and the rest of the input.\<close>

definition split_point :: "(char \<Rightarrow> bool) \<Rightarrow> string \<Rightarrow> string \<times> nat \<times> string" where
  "split_point p s = (let ip = takeWhile p s; r = dropWhile p s in
     case r of c # r' \<Rightarrow> (if c = CHR ''.'' then let fp = takeWhile p r' in (ip @ fp, length fp, dropWhile p r')
                          else (ip, 0, r))
             | [] \<Rightarrow> (ip, 0, []))"

text \<open>The optional exponent part introduced by the given (lower case) letter.\<close>

definition parse_exp :: "char \<Rightarrow> string \<Rightarrow> int" where
  "parse_exp x r = (case r of [] \<Rightarrow> 0 | c # r' \<Rightarrow> if to_lower c \<noteq> x then 0 else
     let (neg, d) = parse_sign r'; ds = takeWhile is_digit d in
     if ds = [] then 0 else if neg then - int (digits_val ds) else int (digits_val ds))"

definition lower :: "string \<Rightarrow> string" where "lower = map to_lower"

text \<open>\<open>std::stod\<close>: \<open>std::invalid_argument\<close> when nothing is converted, \<open>std::out_of_range\<close> when
  \<open>strtod\<close> sets \<open>ERANGE\<close> (overflow, or an inexact result below the normal range).\<close>

definition finish_stod :: "bool \<Rightarrow> nat \<Rightarrow> nat \<Rightarrow> int \<Rightarrow> double result" where
  "finish_stod s a b e = (case round_fp s a b e of
       FFin t m e' \<Rightarrow> (if a \<noteq> 0 \<and> m < 2 ^ 52 \<and>
            (let (n, d) = scale a b (e' - e) in n \<noteq> m * d) then Inl StdOutOfRange
          else Inr (encode (FFin t m e')))
     | _ \<Rightarrow> Inl StdOutOfRange)"

definition stod :: "string \<Rightarrow> double result" where
  "stod str = (let (s, r) = parse_sign (dropWhile is_space str) in
     if take 3 (lower r) = ''inf'' then Inr (encode (FInf s))
     else if take 3 (lower r) = ''nan'' then Inr (encode (FNaN s (2 ^ 51)))
     else let (hd, hn, hr) = split_point is_hex (drop 2 r) in
       if take 2 (lower r) = ''0x'' \<and> hd \<noteq> [] then
         finish_stod s (hex_digits_val hd) 1 (parse_exp (CHR ''p'') hr - 4 * int hn)
       else let (ds, fn, rest) = split_point is_digit r;
                x = parse_exp (CHR ''e'') rest - int fn in
         if ds = [] then Inl StdInvalidArgument
         else if x \<ge> 0 then finish_stod s (digits_val ds * 10 ^ nat x) 1 0
         else finish_stod s (digits_val ds) (10 ^ nat (- x)) 0)"

subsection \<open>The shortest decimal form\<close>

text \<open>\<open>fmt::format("{}", d)\<close> of the vendored fmt library: the shortest digit sequence that
  reads back as the same double (the closest one of that length), in fixed notation while the
  decimal exponent is in \<open>[-4, 16)\<close>.  \<open>short_digits a b w n\<close> tries the two \<open>n\<close>-digit
  neighbours of \<open>a / b\<close>; 17 digits always suffice for a double.\<close>

definition dec_exp :: "nat \<Rightarrow> nat \<Rightarrow> int" where
  "dec_exp a b = (if b \<le> a then int (length (nat_to_string (a div b))) - 1
     else case find (\<lambda>j. b \<le> a * 10 ^ j) [1..<400] of Some j \<Rightarrow> - int j | None \<Rightarrow> 0)"

definition dec_frac :: "nat \<Rightarrow> nat \<Rightarrow> int \<Rightarrow> nat \<times> nat" where
  "dec_frac a b x = (if x \<ge> 0 then (a, b * 10 ^ nat x) else (a * 10 ^ nat (- x), b))"

definition reads_back :: "fp \<Rightarrow> nat \<Rightarrow> int \<Rightarrow> bool" where
  "reads_back v d x = ((let (n, k) = dec_frac d 1 (- x) in round_fp False n k 0) = v)"

definition short_digits :: "nat \<Rightarrow> nat \<Rightarrow> fp \<Rightarrow> nat \<Rightarrow> (nat \<times> int) option" where
  "short_digits a b v n = (let x = dec_exp a b - int n + 1; (c, d) = dec_frac a b x;
       lo = c div d; near = half_even c d; far = (if near = lo then lo + 1 else lo);
       norm = (\<lambda>k. if k = 10 ^ n then (10 ^ (n - 1), x + 1) else (k, x)) in
     if reads_back v near x then Some (norm near)
     else if reads_back v far x then Some (norm far) else None)"

definition find_short :: "nat \<Rightarrow> nat \<Rightarrow> fp \<Rightarrow> nat \<times> int" where
  "find_short a b v = (case find (\<lambda>n. short_digits a b v n \<noteq> None) [1..<18] of
     Some n \<Rightarrow> the (short_digits a b v n) | None \<Rightarrow> (0, 0))"

definition fmt_exp :: "int \<Rightarrow> string" where
  "fmt_exp x = (if x < 0 then ''-'' else ''+'') @ pad0 2 (nat_to_string (nat \<bar>x\<bar>))"

definition fmt_decimal :: "nat \<Rightarrow> int \<Rightarrow> string" where
  "fmt_decimal d x = (let ds = nat_to_string d; n = int (length ds); oe = x + n - 1 in
     if oe < - 4 \<or> oe \<ge> 16 then
       take 1 ds @ (if n = 1 then [] else ''.'' @ drop 1 ds) @ ''e'' @ fmt_exp oe
     else if x \<ge> 0 then ds @ replicate (nat x) (CHR ''0'')
     else if x + n > 0 then take (nat (x + n)) ds @ ''.'' @ drop (nat (x + n)) ds
     else ''0.'' @ replicate (nat (- (x + n))) (CHR ''0'') @ ds)"

fun fmt_fp :: "fp \<Rightarrow> string" where
  "fmt_fp (FNaN s p) = (if s then ''-nan'' else ''nan'')"
| "fmt_fp (FInf s) = (if s then ''-inf'' else ''inf'')"
| "fmt_fp (FFin s m e) = (if s then ''-'' else []) @ (if m = 0 then ''0'' else
     let (a, b) = scale m 1 (- e); (d, x) = find_short a b (FFin False m e) in fmt_decimal d x)"

definition fmt_double :: "double \<Rightarrow> string" where "fmt_double d = fmt_fp (decode d)"

section \<open>Encoding and exactness\<close>

lemma bitlen_bounds: "0 < n \<Longrightarrow> 2 ^ (bitlen n - 1) \<le> n \<and> n < 2 ^ bitlen n \<and> 0 < bitlen n"
proof (induction n rule: bitlen.induct)
  case (1 n)
  show ?case
  proof (cases "n div 2 = 0")
    case True
    then have "n = 1" using 1 by simp
    then show ?thesis by (simp add: bitlen.simps [of "Suc 0"] bitlen.simps [of 0])
  next
    case False
    then obtain k where k: "bitlen (n div 2) = Suc k" and le: "2 ^ k \<le> n div 2" and lt: "n div 2 < 2 ^ Suc k"
      using 1 by (cases "bitlen (n div 2)") auto
    have "bitlen n = Suc (Suc k)" using 1 k by (simp add: bitlen.simps [of n])
    then show ?thesis using le lt by (simp add: div_less_iff_less_mult)
  qed
qed

lemma bitlen_le: "n < 2 ^ k \<Longrightarrow> bitlen n \<le> k"
proof (cases "n = 0")
  case True then show ?thesis by (simp add: bitlen.simps)
next
  case False
  assume "n < 2 ^ k"
  moreover have "2 ^ (bitlen n - 1) \<le> n" "0 < bitlen n" using bitlen_bounds False by auto
  ultimately have "(2::nat) ^ (bitlen n - 1) < 2 ^ k" by linarith
  then have "bitlen n - 1 < k" by simp
  then show ?thesis by linarith
qed

lemma half_even_1 [simp]: "half_even n 1 = n" "half_even n (Suc 0) = n"
  by (simp_all add: half_even_def)

lemma round_fp_exact:
  assumes "a < 2 ^ 53"
  shows "\<exists>j. round_fp s a 1 0 = FFin s (a * 2 ^ j) (- int j) \<and> canonical (FFin s (a * 2 ^ j) (- int j))"
proof (cases "a = 0")
  case True
  then show ?thesis by (intro exI [of _ 1074]) (simp add: round_fp_def)
next
  case False
  define b where "b = bitlen a"
  have b: "2 ^ (b - 1) \<le> a" "a < 2 ^ b" "0 < b" "b \<le> 53"
    using bitlen_bounds [of a] bitlen_le [OF assms] False by (auto simp: b_def)
  define j where "j = 53 - b"
  have lo: "2 ^ 52 \<le> a * 2 ^ j" and hi: "a * 2 ^ j < 2 ^ 53"
  proof -
    have "(2::nat) ^ (b - 1) * 2 ^ j = 2 ^ 52" "(2::nat) ^ b * 2 ^ j = 2 ^ 53"
      using b by (simp_all add: j_def flip: power_add)
    then show "2 ^ 52 \<le> a * 2 ^ j" "a * 2 ^ j < 2 ^ 53"
      using b(1,2) by (metis mult_le_mono1, metis mult_less_mono1 zero_less_numeral zero_less_power)
  qed
  have bl1: "bitlen 1 = 1" by (simp add: bitlen.simps [of "Suc 0"] bitlen.simps [of 0])
  have k0: "int (bitlen a) - int (bitlen 1) - 53 = - int (Suc j)"
    using b by (simp add: bl1 [simplified] j_def b_def [symmetric])
  have sc0: "scale a 1 (- int (Suc j)) = (a * 2 ^ Suc j, 1)" by (simp add: scale_def nat_add_distrib del: power_Suc)
  have big: "2 ^ 53 * 1 \<le> a * 2 ^ Suc j" using lo by simp
  have sc: "scale a 1 (- int j) = (a * 2 ^ j, 1)" by (cases j) (simp_all add: scale_def nat_add_distrib del: power_Suc)
  have mx: "max (- int (Suc j) + 1) (- 1074 - 0) = - int j" using b by (simp add: j_def)
  have "round_fp s a 1 0 = FFin s (a * 2 ^ j) (- int j)"
    unfolding round_fp_def Let_def k0 sc0 using False big hi mx sc by simp
  then show ?thesis using lo hi b by (intro exI [of _ j]) (simp add: j_def)
qed

lemma decode_encode:
  assumes "canonical (FFin s m e)"
  shows "decode (encode (FFin s m e)) = FFin s m e"
proof (cases "m < 2 ^ 52")
  case True
  define N where "N = sign_bit s + m"
  have "N < 2 ^ 64" using True by (auto simp: N_def sign_bit_def)
  then have u: "unat (of_nat N :: 64 word) = N" by (simp add: unat_of_nat)
  have N: "N = (if s then 2048 else 0) * 2 ^ 52 + m" by (simp add: N_def sign_bit_def)
  have q: "N div 2 ^ 52 = (if s then 2048 else 0)" "N mod 2 ^ 52 = m"
    unfolding N using True by (simp_all add: div_add1_eq)
  have "N div 2 ^ 63 = N div 2 ^ 52 div 2048" by (simp add: div_mult2_eq [symmetric])
  with q have "N div 2 ^ 63 = (if s then 1 else 0)" "N div 2 ^ 52 mod 2048 = 0" "N mod 2 ^ 52 = m"
    by simp_all
  then show ?thesis using True assms by (simp add: decode_def u Let_def flip: N_def)
next
  case False
  define E F where "E = nat (e + 1075)" and "F = m - 2 ^ 52"
  have E: "0 < E" "E < 2047" "int E = e + 1075" and F: "F < 2 ^ 52" "2 ^ 52 + F = m"
    using assms False by (auto simp: E_def F_def)
  define N where "N = sign_bit s + E * 2 ^ 52 + F"
  have N: "N = ((if s then 2048 else 0) + E) * 2 ^ 52 + F" by (simp add: N_def sign_bit_def)
  have q: "N div 2 ^ 52 = (if s then 2048 else 0) + E" "N mod 2 ^ 52 = F"
    unfolding N div_mult_self3 [OF power_not_zero [OF zero_neq_numeral [symmetric]]] mod_mult_self3
    using F(1) by simp_all
  have lt: "N < 2 ^ 64" using q(1) E by (simp add: div_less_iff_less_mult split: if_splits)
  then have u: "unat (of_nat N :: 64 word) = N" by (simp add: unat_of_nat)
  have s: "N div 2 ^ 63 = (if s then 1 else 0)"
  proof -
    have "N div 2 ^ 63 = N div 2 ^ 52 div 2048" by (simp add: div_mult2_eq [symmetric])
    moreover have "(2048 + E) div 2048 = 1" using E by linarith
    ultimately show ?thesis using q(1) E by simp
  qed
  have m: "N div 2 ^ 52 mod 2048 = E" using q(1) E by simp
  have "encode (FFin s m e) = of_nat N" using False by (simp add: N_def E_def F_def)
  moreover have "decode (of_nat N) = FFin s (2 ^ 52 + F) (int E - 1075)"
    using E(1,2) by (simp add: decode_def u Let_def m q(2) s del: power_numeral)
  ultimately show ?thesis using E F by simp
qed

lemma double_of_int_decode:
  assumes "\<bar>z\<bar> < 2 ^ 53"
  shows "\<exists>j. decode (double_of_int z) = FFin (z < 0) (nat \<bar>z\<bar> * 2 ^ j) (- int j)"
proof -
  have "nat \<bar>z\<bar> < 2 ^ 53" using assms by (simp add: nat_less_iff)
  from round_fp_exact [OF this, of "z < 0"] show ?thesis
    by (metis decode_encode double_of_int_def)
qed

lemma apply_sign_abs: "apply_sign (z < 0) (nat \<bar>z\<bar> * n) = z * int n"
  by (auto simp: apply_sign_def)

lemma fp_cmp_scaled:
  "fp_cmp (FFin (x < 0) (nat \<bar>x\<bar> * 2 ^ i) (- int i)) (FFin (y < 0) (nat \<bar>y\<bar> * 2 ^ j) (- int j)) = Some (sgn (x - y))"
proof -
  define J where "J = max i j"
  have e: "min (- int i) (- int j) = - int J" "nat (- int i - - int J) = J - i" "nat (- int j - - int J) = J - j"
    by (auto simp: J_def max_def)
  have p: "i + (J - i) = J" "j + (J - j) = J" by (auto simp: J_def)
  have x: "nat \<bar>x\<bar> * 2 ^ i * 2 ^ (J - i) = nat \<bar>x\<bar> * 2 ^ J" and y: "nat \<bar>y\<bar> * 2 ^ j * 2 ^ (J - j) = nat \<bar>y\<bar> * 2 ^ J"
    by (simp_all add: mult.assoc p flip: power_add)
  show ?thesis
    unfolding fp_cmp.simps Let_def e x y apply_sign_abs
    by (simp add: left_diff_distrib [symmetric] sgn_mult)
qed

text \<open>Integers below \<open>2^53\<close> convert to doubles without loss: comparing the doubles compares the
  integers, and truncating gives the integer back.\<close>

lemma cmp_double_of_int:
  assumes "\<bar>x\<bar> < 2 ^ 53" "\<bar>y\<bar> < 2 ^ 53"
  shows "cmp_double op (double_of_int x) (double_of_int y) = cmp_int op x y"
proof -
  obtain i j where "decode (double_of_int x) = FFin (x < 0) (nat \<bar>x\<bar> * 2 ^ i) (- int i)"
    "decode (double_of_int y) = FFin (y < 0) (nat \<bar>y\<bar> * 2 ^ j) (- int j)"
    using double_of_int_decode assms by metis
  then have "dcmp (double_of_int x) (double_of_int y) = Some (sgn (x - y))"
    by (simp add: dcmp_def fp_cmp_scaled del: fp_cmp.simps)
  then show ?thesis by (cases op) (auto simp: cmp_double_def sgn_if)
qed

lemma double_to_int_of_int:
  assumes "\<bar>z\<bar> < 2 ^ 53" "in_range T z"
  shows "double_to_int T (double_of_int z) = Inr z"
proof -
  obtain j where j: "decode (double_of_int z) = FFin (z < 0) (nat \<bar>z\<bar> * 2 ^ j) (- int j)"
    using double_of_int_decode assms by metis
  have "fp_to_int (decode (double_of_int z)) = Some z"
    unfolding j using apply_sign_abs [of z 1] by (cases "j = 0") auto
  then show ?thesis using assms(2) by (simp add: double_to_int_def)
qed

end
