(* ===== verification/Values.thy ===== *)
theory Values
  imports Double
begin

text \<open>
  The values of the type system: \<open>TypeId\<close> (type/type_id.h), the limits and NULL encodings
  (type/limits.h), the \<open>Value\<close> object with its constructors and predicates (type/value.h,
  type/value.cpp), and the functions of \<open>Type\<close> that do not dispatch on an instance
  (type/type.cpp).

  A \<open>Value\<close> keeps the eight bytes of its \<open>value_\<close> union as a 64-bit word; the member that a
  varlen value stores there is a pointer, modelled by the bytes it points to (\<open>None\<close> for a null
  pointer), because the source never compares or offsets these pointers.  The bytes of the
  union that a narrower member leaves unwritten are zero in the model; \<open>GetAs\<close> reads only the
  bytes of the requested width.
\<close>

section \<open>Type identifiers and limits\<close>

datatype TypeId =
  INVALID | BOOLEAN | TINYINT | SMALLINT | INTEGER | BIGINT | DECIMAL | VARCHAR | TIMESTAMP | VECTOR

datatype CmpBool = CmpFalse | CmpTrue | CmpNull

definition GetCmpBool :: "bool \<Rightarrow> CmpBool" where
  "GetCmpBool b = (if b then CmpTrue else CmpFalse)"

text \<open>\<open>BUSTUB_INTn_MIN\<close>, \<open>BUSTUB_INTn_MAX\<close> and \<open>BUSTUB_INTn_NULL\<close>: the least machine integer is
  taken as NULL, so the least value is one above it.\<close>

definition BUSTUB_INT_MIN :: "cint \<Rightarrow> int" where "BUSTUB_INT_MIN T = cmin T + 1"
definition BUSTUB_INT_MAX :: "cint \<Rightarrow> int" where "BUSTUB_INT_MAX T = cmax T"
definition BUSTUB_INT_NULL :: "cint \<Rightarrow> int" where "BUSTUB_INT_NULL T = cmin T"

definition DBL_MAX :: double where "DBL_MAX = 0x7FEFFFFFFFFFFFFF"
definition DBL_LOWEST :: double where "DBL_LOWEST = 0xFFEFFFFFFFFFFFFF"
definition FLT_LOWEST :: double where "FLT_LOWEST = 0xC7EFFFFFE0000000"
definition BUSTUB_DECIMAL_MIN :: double where "BUSTUB_DECIMAL_MIN = FLT_LOWEST"
definition BUSTUB_DECIMAL_MAX :: double where "BUSTUB_DECIMAL_MAX = DBL_MAX"
definition BUSTUB_DECIMAL_NULL :: double where "BUSTUB_DECIMAL_NULL = DBL_LOWEST"
definition BUSTUB_BOOLEAN_NULL :: int where "BUSTUB_BOOLEAN_NULL = - 128"
definition BUSTUB_TIMESTAMP_NULL :: nat where "BUSTUB_TIMESTAMP_NULL = 18446744073709551615"
definition BUSTUB_TIMESTAMP_MAX :: nat where "BUSTUB_TIMESTAMP_MAX = 11231999986399999999"
definition BUSTUB_VALUE_NULL :: nat where "BUSTUB_VALUE_NULL = 4294967295"
definition BUSTUB_VARCHAR_MAX_LEN :: nat where "BUSTUB_VARCHAR_MAX_LEN = 4294967295"

lemmas limit_defs = BUSTUB_INT_MIN_def BUSTUB_INT_MAX_def BUSTUB_INT_NULL_def
  BUSTUB_BOOLEAN_NULL_def BUSTUB_VALUE_NULL_def BUSTUB_VARCHAR_MAX_LEN_def

section \<open>The Value object\<close>

record Value =
  type_id :: TypeId
  raw :: "64 word"
  varlen :: "buffer option"
  size_len :: nat
  manage_data :: bool

definition GetTypeId :: "Value \<Rightarrow> TypeId" where "GetTypeId v = type_id v"

definition IsNull :: "Value \<Rightarrow> bool" where "IsNull v \<longleftrightarrow> size_len v = BUSTUB_VALUE_NULL"

text \<open>\<open>GetAs<intN_t>\<close>, \<open>GetAs<uint64_t>\<close> and \<open>GetAs<double>\<close>; the members \<open>value_.tinyint_\<close>,
  \<open>value_.smallint_\<close>, \<open>value_.integer_\<close>, \<open>value_.bigint_\<close> and \<open>value_.boolean_\<close> are the reads at
  the corresponding width.\<close>

definition GetAs :: "cint \<Rightarrow> Value \<Rightarrow> int" where
  "GetAs T v = static_cast T (uint (raw v))"

definition GetAs_uint64 :: "Value \<Rightarrow> nat" where "GetAs_uint64 v = unat (raw v)"

definition GetAs_double :: "Value \<Rightarrow> double" where "GetAs_double v = raw v"

text \<open>\<open>explicit Value(const TypeId type)\<close>\<close>

definition Value_ctor :: "TypeId \<Rightarrow> Value" where
  "Value_ctor ty = \<lparr> type_id = ty, raw = 0, varlen = None, size_len = BUSTUB_VALUE_NULL,
                     manage_data = False \<rparr>"

definition store_int :: "cint \<Rightarrow> int \<Rightarrow> 64 word" where
  "store_int T z = word_of_int (z mod 2 ^ bits T)"

definition null_len :: "bool \<Rightarrow> nat" where "null_len b = (if b then BUSTUB_VALUE_NULL else 0)"

definition set_int :: "TypeId \<Rightarrow> cint \<Rightarrow> int \<Rightarrow> int \<Rightarrow> Value" where
  "set_int ty T null i = (let m = static_cast T i in (Value_ctor ty)
     \<lparr> raw := store_int T m, size_len := null_len (m = null) \<rparr>)"

definition set_timestamp :: "int \<Rightarrow> Value" where
  "set_timestamp i = (let m = nat (i mod 2 ^ 64) in (Value_ctor TIMESTAMP)
     \<lparr> raw := of_nat m, size_len := null_len (m = BUSTUB_TIMESTAMP_NULL) \<rparr>)"

text \<open>The integer cases that the constructors for \<open>int8_t\<close>, \<open>int16_t\<close>, \<open>int32_t\<close> and \<open>int64_t\<close>
  share; the argument is converted to the member's type on assignment.\<close>

fun Value_integral :: "TypeId \<Rightarrow> int \<Rightarrow> Value option" where
  "Value_integral BOOLEAN i = Some (set_int BOOLEAN I8 BUSTUB_BOOLEAN_NULL i)"
| "Value_integral TINYINT i = Some (set_int TINYINT I8 (BUSTUB_INT_NULL I8) i)"
| "Value_integral SMALLINT i = Some (set_int SMALLINT I16 (BUSTUB_INT_NULL I16) i)"
| "Value_integral INTEGER i = Some (set_int INTEGER I32 (BUSTUB_INT_NULL I32) i)"
| "Value_integral BIGINT i = Some (set_int BIGINT I64 (BUSTUB_INT_NULL I64) i)"
| "Value_integral _ i = None"

definition incompatible :: "string \<Rightarrow> 'a result" where
  "incompatible m = Inl (Throw ET_INCOMPATIBLE_TYPE m)"

definition Value_int8 :: "TypeId \<Rightarrow> int \<Rightarrow> Value result" where
  "Value_int8 ty i = (case Value_integral ty i of Some v \<Rightarrow> Inr v
     | None \<Rightarrow> incompatible ''Invalid Type for one-byte Value constructor'')"

definition Value_int16 :: "TypeId \<Rightarrow> int \<Rightarrow> Value result" where
  "Value_int16 ty i = (if ty = TIMESTAMP then Inr (set_timestamp i) else
     case Value_integral ty i of Some v \<Rightarrow> Inr v
     | None \<Rightarrow> incompatible ''Invalid Type for two-byte Value constructor'')"

definition Value_int32 :: "TypeId \<Rightarrow> int \<Rightarrow> Value result" where
  "Value_int32 ty i = (if ty = TIMESTAMP then Inr (set_timestamp i) else
     case Value_integral ty i of Some v \<Rightarrow> Inr v
     | None \<Rightarrow> incompatible ''Invalid Type for integer_ Value constructor'')"

definition Value_int64 :: "TypeId \<Rightarrow> int \<Rightarrow> Value result" where
  "Value_int64 ty i = (if ty = TIMESTAMP then Inr (set_timestamp i) else
     case Value_integral ty i of Some v \<Rightarrow> Inr v
     | None \<Rightarrow> incompatible ''Invalid Type for eight-byte Value constructor'')"

definition Value_uint64 :: "TypeId \<Rightarrow> nat \<Rightarrow> Value result" where
  "Value_uint64 ty i = (case ty of
       BIGINT \<Rightarrow> Inr (set_int BIGINT I64 (BUSTUB_INT_NULL I64) (int i))
     | TIMESTAMP \<Rightarrow> Inr (set_timestamp (int i))
     | _ \<Rightarrow> incompatible ''Invalid Type for timestamp_ Value constructor'')"

text \<open>The constructor that overload resolution picks for an argument of type \<open>T\<close>.\<close>

fun Value_of :: "cint \<Rightarrow> TypeId \<Rightarrow> int \<Rightarrow> Value result" where
  "Value_of I8 = Value_int8" | "Value_of I16 = Value_int16"
| "Value_of I32 = Value_int32" | "Value_of I64 = Value_int64"

definition Value_double :: "TypeId \<Rightarrow> double \<Rightarrow> Value result" where
  "Value_double ty d = (case ty of
       DECIMAL \<Rightarrow> Inr ((Value_ctor DECIMAL)
         \<lparr> raw := d, size_len := null_len (cmp_double EQ d BUSTUB_DECIMAL_NULL) \<rparr>)
     | _ \<Rightarrow> incompatible ''Invalid Type for double Value constructor'')"

definition Value_varlen :: "TypeId \<Rightarrow> buffer option \<Rightarrow> nat \<Rightarrow> bool \<Rightarrow> Value result" where
  "Value_varlen ty data len manage = (if ty = VARCHAR \<or> ty = VECTOR then
     (case data of
        None \<Rightarrow> Inr (Value_ctor ty)
      | Some bs \<Rightarrow>
          if manage then
            assert (len < BUSTUB_VARCHAR_MAX_LEN)
              (rbind (read_at bs 0 len) (\<lambda>cp.
                 Inr ((Value_ctor ty) \<lparr> varlen := Some cp, size_len := len, manage_data := True \<rparr>)))
          else Inr ((Value_ctor ty) \<lparr> varlen := Some bs, size_len := len \<rparr>))
     else incompatible ''Invalid Type  for variable-length Value constructor'')"

text \<open>The length of the copy is a \<open>uint32_t\<close> that includes the terminating NUL of \<open>c_str()\<close>.\<close>

definition Value_string :: "TypeId \<Rightarrow> string \<Rightarrow> Value result" where
  "Value_string ty s = (case ty of
       VARCHAR \<Rightarrow> (let len = (length s + 1) mod 2 ^ 32 in
         Inr ((Value_ctor VARCHAR) \<lparr> varlen := Some (take len (s @ [char_of (0::nat)])),
                size_len := len, manage_data := True \<rparr>))
     | _ \<Rightarrow> incompatible ''Invalid Type  for variable-length Value constructor'')"

definition Value_vector :: "TypeId \<Rightarrow> double list \<Rightarrow> Value result" where
  "Value_vector ty ds = (case ty of
       VECTOR \<Rightarrow> Inr ((Value_ctor VECTOR)
         \<lparr> varlen := Some (concat (map (\<lambda>d. le_encode 8 (unat d)) ds)),
           size_len := (length ds * 8) mod 2 ^ 32, manage_data := True \<rparr>)
     | _ \<Rightarrow> incompatible ''Invalid Type  for variable-length Value constructor'')"

text \<open>The copy constructor; copying a managed varlen reads \<open>len_\<close> bytes of the original.\<close>

definition Value_copy :: "Value \<Rightarrow> Value result" where
  "Value_copy other = (if type_id other = VARCHAR \<or> type_id other = VECTOR then
     (if size_len other = BUSTUB_VALUE_NULL then Inr (other \<lparr> varlen := None \<rparr>)
      else if manage_data other then
        (case varlen other of None \<Rightarrow> Inl Undefined
         | Some bs \<Rightarrow> rbind (read_at bs 0 (size_len other)) (\<lambda>cp. Inr (other \<lparr> varlen := Some cp \<rparr>)))
      else Inr other)
     else Inr other)"

fun CheckInteger_ty :: "TypeId \<Rightarrow> bool" where
  "CheckInteger_ty ty \<longleftrightarrow> ty \<in> {TINYINT, SMALLINT, INTEGER, BIGINT}"

definition CheckInteger :: "Value \<Rightarrow> bool" where
  "CheckInteger v \<longleftrightarrow> CheckInteger_ty (type_id v)"

fun comparable_ty :: "TypeId \<Rightarrow> TypeId \<Rightarrow> bool" where
  "comparable_ty BOOLEAN t \<longleftrightarrow> t = BOOLEAN \<or> t = VARCHAR"
| "comparable_ty VARCHAR t \<longleftrightarrow> True"
| "comparable_ty s t \<longleftrightarrow> s \<in> {TINYINT, SMALLINT, INTEGER, BIGINT, DECIMAL} \<and>
     t \<in> {TINYINT, SMALLINT, INTEGER, BIGINT, DECIMAL, VARCHAR}"

definition CheckComparable :: "Value \<Rightarrow> Value \<Rightarrow> bool" where
  "CheckComparable v o' \<longleftrightarrow> comparable_ty (type_id v) (type_id o')"


section \<open>Functions of \<open>Type\<close> on type identifiers\<close>

definition GetTypeSize :: "TypeId \<Rightarrow> nat result" where
  "GetTypeSize ty = (case ty of BOOLEAN \<Rightarrow> Inr 1 | TINYINT \<Rightarrow> Inr 1 | SMALLINT \<Rightarrow> Inr 2
     | INTEGER \<Rightarrow> Inr 4 | BIGINT \<Rightarrow> Inr 8 | DECIMAL \<Rightarrow> Inr 8 | TIMESTAMP \<Rightarrow> Inr 8
     | VARCHAR \<Rightarrow> Inr 0 | _ \<Rightarrow> Inl (Throw ET_UNKNOWN_TYPE ''Unknown type.''))"

definition IsCoercableFrom :: "TypeId \<Rightarrow> TypeId \<Rightarrow> bool" where
  "IsCoercableFrom self ty = (case self of
       INVALID \<Rightarrow> False
     | BOOLEAN \<Rightarrow> True
     | TIMESTAMP \<Rightarrow> ty = VARCHAR \<or> ty = TIMESTAMP
     | VARCHAR \<Rightarrow> ty \<in> {BOOLEAN, TINYINT, SMALLINT, INTEGER, BIGINT, DECIMAL, TIMESTAMP, VARCHAR}
     | VECTOR \<Rightarrow> ty = VECTOR
     | _ \<Rightarrow> ty \<in> {TINYINT, SMALLINT, INTEGER, BIGINT, DECIMAL, VARCHAR})"

fun TypeIdToString :: "TypeId \<Rightarrow> string" where
  "TypeIdToString INVALID = ''INVALID''"
| "TypeIdToString BOOLEAN = ''BOOLEAN''"
| "TypeIdToString TINYINT = ''TINYINT''"
| "TypeIdToString SMALLINT = ''SMALLINT''"
| "TypeIdToString INTEGER = ''INTEGER''"
| "TypeIdToString BIGINT = ''BIGINT''"
| "TypeIdToString DECIMAL = ''DECIMAL''"
| "TypeIdToString TIMESTAMP = ''TIMESTAMP''"
| "TypeIdToString VARCHAR = ''VARCHAR''"
| "TypeIdToString VECTOR = ''VECTOR''"

definition GetMinValue :: "TypeId \<Rightarrow> Value result" where
  "GetMinValue ty = (case ty of
       BOOLEAN \<Rightarrow> Value_int32 ty 0
     | TINYINT \<Rightarrow> Value_int8 ty (BUSTUB_INT_MIN I8)
     | SMALLINT \<Rightarrow> Value_int16 ty (BUSTUB_INT_MIN I16)
     | INTEGER \<Rightarrow> Value_int32 ty (BUSTUB_INT_MIN I32)
     | BIGINT \<Rightarrow> Value_int64 ty (BUSTUB_INT_MIN I64)
     | DECIMAL \<Rightarrow> Value_double ty BUSTUB_DECIMAL_MIN
     | TIMESTAMP \<Rightarrow> Value_int32 ty 0
     | VARCHAR \<Rightarrow> Value_string ty []
     | _ \<Rightarrow> Inl (Throw ET_MISMATCH_TYPE ''Cannot get minimal value.''))"

definition GetMaxValue :: "TypeId \<Rightarrow> Value result" where
  "GetMaxValue ty = (case ty of
       BOOLEAN \<Rightarrow> Value_int32 ty 1
     | TINYINT \<Rightarrow> Value_int8 ty (BUSTUB_INT_MAX I8)
     | SMALLINT \<Rightarrow> Value_int16 ty (BUSTUB_INT_MAX I16)
     | INTEGER \<Rightarrow> Value_int32 ty (BUSTUB_INT_MAX I32)
     | BIGINT \<Rightarrow> Value_int64 ty (BUSTUB_INT_MAX I64)
     | DECIMAL \<Rightarrow> Value_double ty BUSTUB_DECIMAL_MAX
     | TIMESTAMP \<Rightarrow> Value_uint64 ty BUSTUB_TIMESTAMP_MAX
     | VARCHAR \<Rightarrow> Value_varlen ty None 0 False
     | _ \<Rightarrow> Inl (Throw ET_MISMATCH_TYPE ''Cannot get max value.''))"


section \<open>Basic facts\<close>

text \<open>The integer type ids and the machine type of their union member.\<close>

fun member_of :: "TypeId \<Rightarrow> cint option" where
  "member_of BOOLEAN = Some I8" | "member_of TINYINT = Some I8" | "member_of SMALLINT = Some I16"
| "member_of INTEGER = Some I32" | "member_of BIGINT = Some I64" | "member_of _ = None"

lemma GetAs_in_range [simp]: "in_range T (GetAs T v)"
  by (simp add: GetAs_def)

lemma uint_store_int: "uint (store_int T z) = z mod 2 ^ bits T"
proof -
  have "z mod 2 ^ bits T < 2 ^ 64"
    by (cases T) (auto intro: order_less_le_trans [OF pos_mod_bound])
  then show ?thesis
    by (simp add: store_int_def uint_word_of_int_eq take_bit_int_eq_self)
qed

lemma static_cast_mod [simp]: "static_cast T (z mod 2 ^ bits T) = static_cast T z"
  by (simp add: static_cast_unfold mod_add_left_eq)

lemma static_cast_idem [simp]: "static_cast T (static_cast T z) = static_cast T z"
  by (simp add: static_cast_id)

lemma GetAs_store_int [simp]: "GetAs T (v \<lparr> raw := store_int T z \<rparr>) = static_cast T z"
  by (simp add: GetAs_def uint_store_int)

lemma set_int_sel [simp]:
  "type_id (set_int ty T nul i) = ty"
  "GetAs T (set_int ty T nul i) = static_cast T i"
  "IsNull (set_int ty T nul i) \<longleftrightarrow> static_cast T i = nul"
  by (simp_all add: set_int_def Let_def Value_ctor_def IsNull_def null_len_def BUSTUB_VALUE_NULL_def
      GetAs_def uint_store_int)

lemma Value_of_Inr:
  assumes "member_of ty = Some T" "in_range T i"
  shows "Value_of S ty i = Inr (set_int ty T (cmin T) i)"
  using assms
  by (cases ty; cases S)
    (auto simp: Value_int8_def Value_int16_def Value_int32_def Value_int64_def limit_defs)

end
