(* ===== verification/TypeOps.thy ===== *)
theory TypeOps
  imports Values
begin

text \<open>
  The operations of the type instances that need no conversion between types: \<open>IsZero\<close>,
  \<open>OperateNull\<close>, \<open>ToString\<close>, \<open>Copy\<close>, \<open>IsInlined\<close>, \<open>GetData\<close>, \<open>GetStorageSize\<close>, \<open>SerializeTo\<close>
  and \<open>DeserializeFrom\<close> of src/type/*_type.cpp, and the dispatch of type/value.h through
  \<open>Type::GetInstance\<close>.  A storage pointer is a buffer with an offset.
\<close>

definition not_implemented :: "string \<Rightarrow> 'a result" where
  "not_implemented m = Inl (Throw ET_NOT_IMPLEMENTED m)"

definition type_error :: "'a result" where
  "type_error = Inl (Throw ET_INVALID ''type error'')"

abbreviation decimal_null :: "Value result" where
  "decimal_null \<equiv> Value_double DECIMAL BUSTUB_DECIMAL_NULL"

section \<open>IsZero\<close>

definition TinyintType_IsZero :: "Value \<Rightarrow> bool result" where
  "TinyintType_IsZero v = Inr (GetAs I8 v = 0)"

definition SmallintType_IsZero :: "Value \<Rightarrow> bool result" where
  "SmallintType_IsZero v = Inr (GetAs I16 v = 0)"

definition IntegerType_IsZero :: "Value \<Rightarrow> bool result" where
  "IntegerType_IsZero v = Inr (GetAs I32 v = 0)"

definition BigintType_IsZero :: "Value \<Rightarrow> bool result" where
  "BigintType_IsZero v = Inr (GetAs I64 v = 0)"

definition DecimalType_IsZero :: "Value \<Rightarrow> bool result" where
  "DecimalType_IsZero v = Inr (cmp_double EQ (GetAs_double v) (double_of_int 0))"

text \<open>\<open>Value::IsZero\<close>: only the numeric types override \<open>Type::IsZero\<close>.\<close>

definition Value_IsZero :: "Value \<Rightarrow> bool result" where
  "Value_IsZero v = (case type_id v of
       TINYINT \<Rightarrow> TinyintType_IsZero v
     | SMALLINT \<Rightarrow> SmallintType_IsZero v
     | INTEGER \<Rightarrow> IntegerType_IsZero v
     | BIGINT \<Rightarrow> BigintType_IsZero v
     | DECIMAL \<Rightarrow> DecimalType_IsZero v
     | _ \<Rightarrow> not_implemented ''isZero not implemented'')"

section \<open>OperateNull\<close>

definition TinyintType_OperateNull :: "Value \<Rightarrow> Value \<Rightarrow> Value result" where
  "TinyintType_OperateNull left right = (case type_id right of
       TINYINT \<Rightarrow> Value_int8 TINYINT (BUSTUB_INT_NULL I8)
     | SMALLINT \<Rightarrow> Value_int16 SMALLINT (BUSTUB_INT_NULL I16)
     | INTEGER \<Rightarrow> Value_int32 INTEGER (BUSTUB_INT_NULL I32)
     | BIGINT \<Rightarrow> Value_int64 BIGINT (BUSTUB_INT_NULL I64)
     | DECIMAL \<Rightarrow> decimal_null
     | _ \<Rightarrow> type_error)"

definition SmallintType_OperateNull :: "Value \<Rightarrow> Value \<Rightarrow> Value result" where
  "SmallintType_OperateNull left right = (case type_id right of
       TINYINT \<Rightarrow> Value_int16 SMALLINT (BUSTUB_INT_NULL I16)
     | SMALLINT \<Rightarrow> Value_int16 SMALLINT (BUSTUB_INT_NULL I16)
     | INTEGER \<Rightarrow> Value_int32 INTEGER (BUSTUB_INT_NULL I32)
     | BIGINT \<Rightarrow> Value_int64 BIGINT (BUSTUB_INT_NULL I64)
     | DECIMAL \<Rightarrow> decimal_null
     | _ \<Rightarrow> type_error)"

definition IntegerType_OperateNull :: "Value \<Rightarrow> Value \<Rightarrow> Value result" where
  "IntegerType_OperateNull left right = (case type_id right of
       TINYINT \<Rightarrow> Value_int32 INTEGER (BUSTUB_INT_NULL I32)
     | SMALLINT \<Rightarrow> Value_int32 INTEGER (BUSTUB_INT_NULL I32)
     | INTEGER \<Rightarrow> Value_int32 INTEGER (BUSTUB_INT_NULL I32)
     | BIGINT \<Rightarrow> Value_int64 BIGINT (BUSTUB_INT_NULL I64)
     | DECIMAL \<Rightarrow> decimal_null
     | _ \<Rightarrow> type_error)"

definition BigintType_OperateNull :: "Value \<Rightarrow> Value \<Rightarrow> Value result" where
  "BigintType_OperateNull left right = (case type_id right of
       TINYINT \<Rightarrow> Value_int64 BIGINT (BUSTUB_INT_NULL I64)
     | SMALLINT \<Rightarrow> Value_int64 BIGINT (BUSTUB_INT_NULL I64)
     | INTEGER \<Rightarrow> Value_int64 BIGINT (BUSTUB_INT_NULL I64)
     | BIGINT \<Rightarrow> Value_int64 BIGINT (BUSTUB_INT_NULL I64)
     | DECIMAL \<Rightarrow> decimal_null
     | _ \<Rightarrow> type_error)"

definition DecimalType_OperateNull :: "Value \<Rightarrow> Value \<Rightarrow> Value result" where
  "DecimalType_OperateNull left right = decimal_null"

definition Value_OperateNull :: "Value \<Rightarrow> Value \<Rightarrow> Value result" where
  "Value_OperateNull v o' = (case type_id v of
       TINYINT \<Rightarrow> TinyintType_OperateNull v o'
     | SMALLINT \<Rightarrow> SmallintType_OperateNull v o'
     | INTEGER \<Rightarrow> IntegerType_OperateNull v o'
     | BIGINT \<Rightarrow> BigintType_OperateNull v o'
     | DECIMAL \<Rightarrow> DecimalType_OperateNull v o'
     | _ \<Rightarrow> not_implemented ''OperateNull not implemented'')"

section \<open>Varlen data\<close>

definition VarlenType_GetData :: "Value \<Rightarrow> buffer option result" where
  "VarlenType_GetData v = Inr (varlen v)"

definition VarlenType_GetStorageSize :: "Value \<Rightarrow> nat" where
  "VarlenType_GetStorageSize v = size_len v"

definition VectorType_GetData :: "Value \<Rightarrow> buffer option result" where
  "VectorType_GetData v = Inr (varlen v)"

definition VectorType_GetStorageSize :: "Value \<Rightarrow> nat" where
  "VectorType_GetStorageSize v = size_len v"

definition Value_GetData :: "Value \<Rightarrow> buffer option result" where
  "Value_GetData v = (case type_id v of
       VARCHAR \<Rightarrow> VarlenType_GetData v
     | VECTOR \<Rightarrow> VectorType_GetData v
     | _ \<Rightarrow> not_implemented ''GetData from value not implemented'')"

definition Value_GetStorageSize :: "Value \<Rightarrow> nat result" where
  "Value_GetStorageSize v = (case type_id v of
       VARCHAR \<Rightarrow> Inr (VarlenType_GetStorageSize v)
     | VECTOR \<Rightarrow> Inr (VectorType_GetStorageSize v)
     | _ \<Rightarrow> not_implemented ''GetStorageSize not implemented'')"

text \<open>Reading \<open>n\<close> bytes through the \<open>varlen_\<close> pointer.\<close>

definition deref :: "buffer option \<Rightarrow> nat \<Rightarrow> nat \<Rightarrow> buffer result" where
  "deref p off n = (case p of None \<Rightarrow> if n = 0 then Inr [] else Inl Undefined | Some bs \<Rightarrow> read_at bs off n)"

definition VectorType_GetVector :: "Value \<Rightarrow> double list result" where
  "VectorType_GetVector v = rmapM (\<lambda>i. rbind (deref (varlen v) (8 * i) 8) (\<lambda>bs. Inr (of_nat (le_decode bs))))
     [0..<size_len v div 8]"

section \<open>ToString\<close>

definition TinyintType_ToString :: "Value \<Rightarrow> string result" where
  "TinyintType_ToString v = assert (CheckInteger v)
     (if IsNull v then Inr ''tinyint_null'' else Inr (to_string (GetAs I8 v)))"

definition SmallintType_ToString :: "Value \<Rightarrow> string result" where
  "SmallintType_ToString v = assert (CheckInteger v) (case type_id v of
       TINYINT \<Rightarrow> if IsNull v then Inr ''tinyint_null'' else Inr (to_string (GetAs I8 v))
     | SMALLINT \<Rightarrow> if IsNull v then Inr ''smallint_null'' else Inr (to_string (GetAs I16 v))
     | INTEGER \<Rightarrow> if IsNull v then Inr ''integer_null'' else Inr (to_string (GetAs I32 v))
     | BIGINT \<Rightarrow> if IsNull v then Inr ''bigint_null'' else Inr (to_string (GetAs I64 v))
     | _ \<Rightarrow> type_error)"

definition IntegerType_ToString :: "Value \<Rightarrow> string result" where
  "IntegerType_ToString v = assert (CheckInteger v)
     (if IsNull v then Inr ''integer_null'' else Inr (to_string (GetAs I32 v)))"

definition BigintType_ToString :: "Value \<Rightarrow> string result" where
  "BigintType_ToString v = assert (CheckInteger v)
     (if IsNull v then Inr ''bigint_null'' else Inr (to_string (GetAs I64 v)))"

definition BooleanType_ToString :: "Value \<Rightarrow> string result" where
  "BooleanType_ToString v = (if GetAs I8 v = 1 then Inr ''true''
     else if GetAs I8 v = 0 then Inr ''false'' else Inr ''boolean_null'')"

definition DecimalType_ToString :: "Value \<Rightarrow> string result" where
  "DecimalType_ToString v = (if IsNull v then Inr ''decimal_null''
     else Inr (double_to_string (GetAs_double v)))"

definition VarlenType_ToString :: "Value \<Rightarrow> string result" where
  "VarlenType_ToString v = (let len = VarlenType_GetStorageSize v in
     if IsNull v then Inr ''varlen_null''
     else if len = BUSTUB_VARCHAR_MAX_LEN then Inr ''varlen_max''
     else if len = 0 then Inr []
     else deref (varlen v) 0 (len - 1))"

text \<open>The packed timestamp is \<open>((((month * 32 + day) * 27 + tz + 12) * 10000 + year) * 100000 + seconds
  of the day) * 1000000 + microseconds\<close>.  The formatted date has 26 characters, so the sign of
  the zone lands right after it and the terminator after the sign.\<close>

definition fmt0 :: "nat \<Rightarrow> nat \<Rightarrow> string" where
  "fmt0 w n = pad0 w (nat_to_string n)"

definition TimestampType_ToString :: "Value \<Rightarrow> string result" where
  "TimestampType_ToString v = (if IsNull v then Inr ''timestamp_null'' else
     let tm = GetAs_uint64 v;
         micro = tm mod 1000000; tm1 = tm div 1000000;
         second = tm1 mod 100000; sec = second mod 60;
         minute = second div 60 mod 60; hour = second div 60 div 60 mod 24;
         tm2 = tm1 div 100000; year = tm2 mod 10000; tm3 = tm2 div 10000;
         tz = int (tm3 mod 27) - 12; tm4 = tm3 div 27;
         day = tm4 mod 32; month = tm4 div 32 mod 65536;
         str = fmt0 4 year @ ''-'' @ fmt0 2 month @ ''-'' @ fmt0 2 day @ '' '' @ fmt0 2 hour @ '':''
               @ fmt0 2 minute @ '':'' @ fmt0 2 sec @ ''.'' @ fmt0 6 micro
     in Inr (take 26 str @ (if tz \<ge> 0 then ''+'' else ''-'') @ fmt0 2 (nat \<bar>tz\<bar>)))"

text \<open>\<open>fmt::join(v, ",")\<close>\<close>

fun join_comma :: "string list \<Rightarrow> string" where
  "join_comma [] = []"
| "join_comma [s] = s"
| "join_comma (s # t # r) = s @ '','' @ join_comma (t # r)"

definition VectorType_ToString :: "Value \<Rightarrow> string result" where
  "VectorType_ToString v = (let len = VectorType_GetStorageSize v in
     if IsNull v then Inr ''vector_null''
     else if len = BUSTUB_VARCHAR_MAX_LEN then Inr ''vector_max''
     else if len = 0 then Inr []
     else rbind (VectorType_GetVector v) (\<lambda>ds. Inr (''['' @ join_comma (map fmt_double ds) @ '']'')))"

text \<open>\<open>Type::GetInstance(ty)->ToString(val)\<close>; \<open>Value::ToString\<close> uses the instance of the value's own type.\<close>

definition Type_ToString :: "TypeId \<Rightarrow> Value \<Rightarrow> string result" where
  "Type_ToString ty v = (case ty of
       TINYINT \<Rightarrow> TinyintType_ToString v
     | SMALLINT \<Rightarrow> SmallintType_ToString v
     | INTEGER \<Rightarrow> IntegerType_ToString v
     | BIGINT \<Rightarrow> BigintType_ToString v
     | BOOLEAN \<Rightarrow> BooleanType_ToString v
     | DECIMAL \<Rightarrow> DecimalType_ToString v
     | VARCHAR \<Rightarrow> VarlenType_ToString v
     | TIMESTAMP \<Rightarrow> TimestampType_ToString v
     | VECTOR \<Rightarrow> VectorType_ToString v
     | INVALID \<Rightarrow> not_implemented ''ToString not implemented'')"

definition Value_ToString :: "Value \<Rightarrow> string result" where
  "Value_ToString v = Type_ToString (type_id v) v"

section \<open>Copy\<close>

definition TinyintType_Copy :: "Value \<Rightarrow> Value result" where
  "TinyintType_Copy v = assert (CheckInteger v) (Value_int8 TINYINT (GetAs I8 v))"

definition SmallintType_Copy :: "Value \<Rightarrow> Value result" where
  "SmallintType_Copy v = assert (CheckInteger v) (Value_int16 SMALLINT (GetAs I16 v))"

definition IntegerType_Copy :: "Value \<Rightarrow> Value result" where
  "IntegerType_Copy v = assert (CheckInteger v) (Value_int32 (type_id v) (GetAs I32 v))"

definition BigintType_Copy :: "Value \<Rightarrow> Value result" where
  "BigintType_Copy v = Value_int64 BIGINT (GetAs I64 v)"

definition BooleanType_Copy :: "Value \<Rightarrow> Value result" where
  "BooleanType_Copy v = Value_int8 BOOLEAN (GetAs I8 v)"

definition DecimalType_Copy :: "Value \<Rightarrow> Value result" where
  "DecimalType_Copy v = Value_double DECIMAL (GetAs_double v)"

definition VarlenType_Copy :: "Value \<Rightarrow> Value result" where
  "VarlenType_Copy v = Value_copy v"

definition TimestampType_Copy :: "Value \<Rightarrow> Value result" where
  "TimestampType_Copy v = Value_copy v"

definition VectorType_Copy :: "Value \<Rightarrow> Value result" where
  "VectorType_Copy v = Value_copy v"

definition Value_Copy :: "Value \<Rightarrow> Value result" where
  "Value_Copy v = (case type_id v of
       TINYINT \<Rightarrow> TinyintType_Copy v
     | SMALLINT \<Rightarrow> SmallintType_Copy v
     | INTEGER \<Rightarrow> IntegerType_Copy v
     | BIGINT \<Rightarrow> BigintType_Copy v
     | BOOLEAN \<Rightarrow> BooleanType_Copy v
     | DECIMAL \<Rightarrow> DecimalType_Copy v
     | VARCHAR \<Rightarrow> VarlenType_Copy v
     | TIMESTAMP \<Rightarrow> TimestampType_Copy v
     | VECTOR \<Rightarrow> VectorType_Copy v
     | _ \<Rightarrow> not_implemented ''Copy not implemented'')"

section \<open>IsInlined\<close>

definition Type_IsInlined :: "TypeId \<Rightarrow> bool result" where
  "Type_IsInlined ty = (case ty of
       VARCHAR \<Rightarrow> Inr False
     | VECTOR \<Rightarrow> Inr False
     | INVALID \<Rightarrow> not_implemented ''IsLined not implemented''
     | _ \<Rightarrow> Inr True)"

section \<open>Serialisation\<close>

definition TinyintType_SerializeTo :: "Value \<Rightarrow> buffer \<Rightarrow> nat \<Rightarrow> buffer result" where
  "TinyintType_SerializeTo v storage off = write_at storage off (le_encode 1 (nat (GetAs I8 v mod 2 ^ 8)))"

definition SmallintType_SerializeTo :: "Value \<Rightarrow> buffer \<Rightarrow> nat \<Rightarrow> buffer result" where
  "SmallintType_SerializeTo v storage off = write_at storage off (le_encode 2 (nat (GetAs I16 v mod 2 ^ 16)))"

definition IntegerType_SerializeTo :: "Value \<Rightarrow> buffer \<Rightarrow> nat \<Rightarrow> buffer result" where
  "IntegerType_SerializeTo v storage off = write_at storage off (le_encode 4 (nat (GetAs I32 v mod 2 ^ 32)))"

definition BigintType_SerializeTo :: "Value \<Rightarrow> buffer \<Rightarrow> nat \<Rightarrow> buffer result" where
  "BigintType_SerializeTo v storage off = write_at storage off (le_encode 8 (nat (GetAs I64 v mod 2 ^ 64)))"

definition BooleanType_SerializeTo :: "Value \<Rightarrow> buffer \<Rightarrow> nat \<Rightarrow> buffer result" where
  "BooleanType_SerializeTo v storage off = write_at storage off (le_encode 1 (nat (GetAs I8 v mod 2 ^ 8)))"

definition DecimalType_SerializeTo :: "Value \<Rightarrow> buffer \<Rightarrow> nat \<Rightarrow> buffer result" where
  "DecimalType_SerializeTo v storage off = write_at storage off (le_encode 8 (unat (GetAs_double v)))"

definition TimestampType_SerializeTo :: "Value \<Rightarrow> buffer \<Rightarrow> nat \<Rightarrow> buffer result" where
  "TimestampType_SerializeTo v storage off = write_at storage off (le_encode 8 (GetAs_uint64 v))"

text \<open>The length prefix, then the bytes; a NULL value writes the prefix only.\<close>

definition VarlenType_SerializeTo :: "Value \<Rightarrow> buffer \<Rightarrow> nat \<Rightarrow> buffer result" where
  "VarlenType_SerializeTo v storage off = (let len = VarlenType_GetStorageSize v in
     if len = BUSTUB_VALUE_NULL then write_at storage off (le_encode 4 len)
     else rbind (write_at storage off (le_encode 4 len)) (\<lambda>st.
          rbind (deref (varlen v) 0 len) (\<lambda>bs. write_at st (off + 4) bs)))"

definition VectorType_SerializeTo :: "Value \<Rightarrow> buffer \<Rightarrow> nat \<Rightarrow> buffer result" where
  "VectorType_SerializeTo v storage off = (let len = VectorType_GetStorageSize v in
     if len = BUSTUB_VALUE_NULL then write_at storage off (le_encode 4 len)
     else rbind (write_at storage off (le_encode 4 len)) (\<lambda>st.
          rbind (deref (varlen v) 0 len) (\<lambda>bs. write_at st (off + 4) bs)))"

definition Value_SerializeTo :: "Value \<Rightarrow> buffer \<Rightarrow> nat \<Rightarrow> buffer result" where
  "Value_SerializeTo v storage off = (case type_id v of
       TINYINT \<Rightarrow> TinyintType_SerializeTo v storage off
     | SMALLINT \<Rightarrow> SmallintType_SerializeTo v storage off
     | INTEGER \<Rightarrow> IntegerType_SerializeTo v storage off
     | BIGINT \<Rightarrow> BigintType_SerializeTo v storage off
     | BOOLEAN \<Rightarrow> BooleanType_SerializeTo v storage off
     | DECIMAL \<Rightarrow> DecimalType_SerializeTo v storage off
     | VARCHAR \<Rightarrow> VarlenType_SerializeTo v storage off
     | TIMESTAMP \<Rightarrow> TimestampType_SerializeTo v storage off
     | VECTOR \<Rightarrow> VectorType_SerializeTo v storage off
     | _ \<Rightarrow> not_implemented ''SerializeTo not implemented'')"

definition TinyintType_DeserializeFrom :: "buffer \<Rightarrow> nat \<Rightarrow> Value result" where
  "TinyintType_DeserializeFrom storage off = rbind (read_at storage off 1) (\<lambda>bs.
     Value_int8 TINYINT (static_cast I8 (int (le_decode bs))))"

definition SmallintType_DeserializeFrom :: "buffer \<Rightarrow> nat \<Rightarrow> Value result" where
  "SmallintType_DeserializeFrom storage off = rbind (read_at storage off 2) (\<lambda>bs.
     Value_int16 SMALLINT (static_cast I16 (int (le_decode bs))))"

definition IntegerType_DeserializeFrom :: "buffer \<Rightarrow> nat \<Rightarrow> Value result" where
  "IntegerType_DeserializeFrom storage off = rbind (read_at storage off 4) (\<lambda>bs.
     Value_int32 INTEGER (static_cast I32 (int (le_decode bs))))"

definition BigintType_DeserializeFrom :: "buffer \<Rightarrow> nat \<Rightarrow> Value result" where
  "BigintType_DeserializeFrom storage off = rbind (read_at storage off 8) (\<lambda>bs.
     Value_int64 BIGINT (static_cast I64 (int (le_decode bs))))"

definition BooleanType_DeserializeFrom :: "buffer \<Rightarrow> nat \<Rightarrow> Value result" where
  "BooleanType_DeserializeFrom storage off = rbind (read_at storage off 1) (\<lambda>bs.
     Value_int8 BOOLEAN (static_cast I8 (int (le_decode bs))))"

definition DecimalType_DeserializeFrom :: "buffer \<Rightarrow> nat \<Rightarrow> Value result" where
  "DecimalType_DeserializeFrom storage off = rbind (read_at storage off 8) (\<lambda>bs.
     Value_double DECIMAL (of_nat (le_decode bs)))"

definition TimestampType_DeserializeFrom :: "buffer \<Rightarrow> nat \<Rightarrow> Value result" where
  "TimestampType_DeserializeFrom storage off = rbind (read_at storage off 8) (\<lambda>bs.
     Value_uint64 TIMESTAMP (le_decode bs))"

definition VarlenType_DeserializeFrom :: "buffer \<Rightarrow> nat \<Rightarrow> Value result" where
  "VarlenType_DeserializeFrom storage off = rbind (read_at storage off 4) (\<lambda>bs.
     let len = le_decode bs in
     if len = BUSTUB_VALUE_NULL then Value_varlen VARCHAR None len False
     else Value_varlen VARCHAR (Some (drop (off + 4) storage)) len True)"

definition VectorType_DeserializeFrom :: "buffer \<Rightarrow> nat \<Rightarrow> Value result" where
  "VectorType_DeserializeFrom storage off = rbind (read_at storage off 4) (\<lambda>bs.
     let len = le_decode bs in
     if len = BUSTUB_VALUE_NULL then Value_varlen VECTOR None len False
     else Value_varlen VECTOR (Some (drop (off + 4) storage)) len True)"

definition Value_DeserializeFrom :: "buffer \<Rightarrow> nat \<Rightarrow> TypeId \<Rightarrow> Value result" where
  "Value_DeserializeFrom storage off ty = (case ty of
       TINYINT \<Rightarrow> TinyintType_DeserializeFrom storage off
     | SMALLINT \<Rightarrow> SmallintType_DeserializeFrom storage off
     | INTEGER \<Rightarrow> IntegerType_DeserializeFrom storage off
     | BIGINT \<Rightarrow> BigintType_DeserializeFrom storage off
     | BOOLEAN \<Rightarrow> BooleanType_DeserializeFrom storage off
     | DECIMAL \<Rightarrow> DecimalType_DeserializeFrom storage off
     | VARCHAR \<Rightarrow> VarlenType_DeserializeFrom storage off
     | TIMESTAMP \<Rightarrow> TimestampType_DeserializeFrom storage off
     | VECTOR \<Rightarrow> VectorType_DeserializeFrom storage off
     | INVALID \<Rightarrow> not_implemented ''DeserializeFrom not implemented'')"

section \<open>Well-formed values\<close>

text \<open>What the constructors establish: the NULL flag agrees with the NULL encoding of the stored
  member, and a varlen value owns exactly \<open>len_\<close> bytes.\<close>

definition wf_value :: "Value \<Rightarrow> bool" where
  "wf_value v = (case type_id v of
       INVALID \<Rightarrow> False
     | DECIMAL \<Rightarrow> Value_double DECIMAL (raw v) = Inr v
     | TIMESTAMP \<Rightarrow> v = set_timestamp (uint (raw v))
     | VARCHAR \<Rightarrow> v = Value_ctor VARCHAR \<or> (raw v = 0 \<and> manage_data v \<and> size_len v < BUSTUB_VALUE_NULL \<and>
         (case varlen v of Some bs \<Rightarrow> length bs = size_len v | None \<Rightarrow> False))
     | VECTOR \<Rightarrow> v = Value_ctor VECTOR \<or> (raw v = 0 \<and> manage_data v \<and> size_len v < BUSTUB_VALUE_NULL \<and>
         (case varlen v of Some bs \<Rightarrow> length bs = size_len v | None \<Rightarrow> False))
     | _ \<Rightarrow> (case member_of (type_id v) of Some T \<Rightarrow> v = set_int (type_id v) T (cmin T) (GetAs T v)
             | None \<Rightarrow> False))"

text \<open>The bytes a value occupies in serialised form.\<close>

definition ser_size :: "Value \<Rightarrow> nat" where
  "ser_size v = (case GetTypeSize (type_id v) of
       Inr n \<Rightarrow> if type_id v = VARCHAR then 4 + (if IsNull v then 0 else size_len v) else n
     | Inl _ \<Rightarrow> 4 + (if IsNull v then 0 else size_len v))"

text \<open>Serialising at an offset touches only the bytes of the value, and reading them back gives
  the value.\<close>

lemma le_int_round:
  "nat (z mod 2 ^ 8) mod 256 = nat (z mod 2 ^ 8)" "nat (z mod 2 ^ 16) mod 256 ^ 2 = nat (z mod 2 ^ 16)"
  "nat (z mod 2 ^ 32) mod 256 ^ 4 = nat (z mod 2 ^ 32)" "nat (z mod 2 ^ 64) mod 256 ^ 8 = nat (z mod 2 ^ 64)"
  by (simp_all add: nat_less_iff)

lemma write_at_ok: "off + length bs \<le> length buf \<Longrightarrow>
   \<exists>b. write_at buf off bs = Inr b \<and> length b = length buf \<and> read_at b off (length bs) = Inr bs \<and>
     (\<forall>i. i < off \<or> off + length bs \<le> i \<longrightarrow> i < length buf \<longrightarrow> b ! i = buf ! i)"
  by (auto simp: write_at_def read_at_def nth_append)

definition roundtrips :: "Value \<Rightarrow> buffer \<Rightarrow> nat \<Rightarrow> bool" where
  "roundtrips v buf off = (\<exists>b. Value_SerializeTo v buf off = Inr b \<and> length b = length buf \<and>
     (\<forall>i. i < off \<or> off + ser_size v \<le> i \<longrightarrow> i < length buf \<longrightarrow> b ! i = buf ! i) \<and>
     Value_DeserializeFrom b off (type_id v) = Inr v)"

lemma static_cast_mod_lit [simp]:
  "static_cast I8 (z mod 256) = static_cast I8 z" "static_cast I16 (z mod 65536) = static_cast I16 z"
  "static_cast I32 (z mod 4294967296) = static_cast I32 z"
  "static_cast I64 (z mod 18446744073709551616) = static_cast I64 z"
  using static_cast_mod [of I8 z] static_cast_mod [of I16 z] static_cast_mod [of I32 z]
    static_cast_mod [of I64 z] by simp_all

lemma static_cast_GetAs [simp]: "static_cast T (GetAs T v) = GetAs T v"
  by (simp add: GetAs_def)

lemma Value_intN_member [simp]:
  "Value_int8 BOOLEAN i = Inr (set_int BOOLEAN I8 (cmin I8) i)"
  "Value_int8 TINYINT i = Inr (set_int TINYINT I8 (cmin I8) i)"
  "Value_int16 SMALLINT i = Inr (set_int SMALLINT I16 (cmin I16) i)"
  "Value_int32 INTEGER i = Inr (set_int INTEGER I32 (cmin I32) i)"
  "Value_int64 BIGINT i = Inr (set_int BIGINT I64 (cmin I64) i)"
  by (simp_all add: Value_int8_def Value_int16_def Value_int32_def Value_int64_def limit_defs)

lemma roundtrip_int:
  assumes "wf_value v" "member_of (type_id v) = Some T" "off + bytes_of T \<le> length buf"
  shows "roundtrips v buf off"
proof -
  define bs where "bs = le_encode (bytes_of T) (nat (GetAs T v mod 2 ^ bits T))"
  obtain b where b: "write_at buf off bs = Inr b" "length b = length buf" "read_at b off (length bs) = Inr bs"
     "\<forall>i. i < off \<or> off + length bs \<le> i \<longrightarrow> i < length buf \<longrightarrow> b ! i = buf ! i"
    using write_at_ok [of off bs buf] assms by (auto simp: bs_def)
  have v: "v = set_int (type_id v) T (cmin T) (GetAs T v)"
    using assms by (cases "type_id v") (auto simp: wf_value_def)
  have "static_cast T (int (le_decode bs)) = GetAs T v"
    unfolding bs_def by (cases T) (simp_all add: le_int_round)
  then show ?thesis unfolding roundtrips_def using assms(2) b v
    by (cases "type_id v")
      (auto simp: Value_SerializeTo_def Value_DeserializeFrom_def bs_def ser_size_def GetTypeSize_def
        TinyintType_SerializeTo_def SmallintType_SerializeTo_def IntegerType_SerializeTo_def
        BigintType_SerializeTo_def BooleanType_SerializeTo_def
        TinyintType_DeserializeFrom_def SmallintType_DeserializeFrom_def IntegerType_DeserializeFrom_def
        BigintType_DeserializeFrom_def BooleanType_DeserializeFrom_def)
qed

lemma roundtrip_word:
  assumes "wf_value v" "type_id v = DECIMAL \<or> type_id v = TIMESTAMP" "off + 8 \<le> length buf"
  shows "roundtrips v buf off"
proof -
  define bs where "bs = le_encode 8 (unat (raw v))"
  obtain b where b: "write_at buf off bs = Inr b" "length b = length buf" "read_at b off (length bs) = Inr bs"
     "\<forall>i. i < off \<or> off + length bs \<le> i \<longrightarrow> i < length buf \<longrightarrow> b ! i = buf ! i"
    using write_at_ok [of off bs buf] assms(3) by (auto simp: bs_def)
  have "unat (raw v) < 2 ^ LENGTH(64)" by (rule unsigned_less)
  then have "unat (raw v) < 256 ^ 8" by simp
  then have dec: "le_decode bs = unat (raw v)" unfolding bs_def le_decode_encode by (rule mod_less)
  have ser: "Value_SerializeTo v buf off = write_at buf off bs" and sz: "ser_size v = 8"
    using assms(2) by (auto simp: Value_SerializeTo_def DecimalType_SerializeTo_def ser_size_def
        TimestampType_SerializeTo_def GetAs_double_def GetAs_uint64_def bs_def GetTypeSize_def)
  have len: "length bs = 8" by (simp add: bs_def)
  have "type_id v = DECIMAL \<Longrightarrow> Value_double DECIMAL (raw v) = Inr v"
    and "type_id v = TIMESTAMP \<Longrightarrow> set_timestamp (uint (raw v)) = v"
    using assms(1) by (simp_all add: wf_value_def)
  then have "Value_DeserializeFrom b off (type_id v) = Inr v"
    using assms(2) b(3) dec
    by (auto simp: Value_DeserializeFrom_def DecimalType_DeserializeFrom_def len Value_uint64_def
        TimestampType_DeserializeFrom_def simp flip: uint_nat)
  with b ser sz len show ?thesis unfolding roundtrips_def by auto
qed

lemma Value_ctor_sel [simp]:
  "type_id (Value_ctor ty) = ty" "raw (Value_ctor ty) = 0" "varlen (Value_ctor ty) = None"
  "size_len (Value_ctor ty) = BUSTUB_VALUE_NULL" "manage_data (Value_ctor ty) = False" "IsNull (Value_ctor ty)"
  by (simp_all add: Value_ctor_def IsNull_def)

lemma le4: "len \<le> BUSTUB_VALUE_NULL \<Longrightarrow> le_decode (le_encode 4 len) = len"
  by (simp add: BUSTUB_VALUE_NULL_def)

lemma wf_varlen_cases:
  assumes "wf_value v" "type_id v = VARCHAR \<or> type_id v = VECTOR"
  obtains "v = Value_ctor (type_id v)"
  | bs where "varlen v = Some bs" "length bs = size_len v" "size_len v < BUSTUB_VALUE_NULL" "\<not> IsNull v"
      "v = (Value_ctor (type_id v)) \<lparr> varlen := Some bs, size_len := size_len v, manage_data := True \<rparr>"
  using assms by (cases v) (auto simp: wf_value_def Value_ctor_def IsNull_def split: option.splits)

lemma roundtrip_varlen:
  assumes wf: "wf_value v" and ty: "type_id v = VARCHAR \<or> type_id v = VECTOR"
    and room: "off + ser_size v \<le> length buf"
  shows "roundtrips v buf off"
  using wf ty
proof (cases rule: wf_varlen_cases)
  case 1
  have sz: "ser_size v = 4" using ty by (subst 1) (auto simp: ser_size_def GetTypeSize_def)
  let ?bs = "le_encode 4 BUSTUB_VALUE_NULL"
  obtain b where b: "write_at buf off ?bs = Inr b" "length b = length buf" "read_at b off 4 = Inr ?bs"
     "\<forall>i. i < off \<or> off + 4 \<le> i \<longrightarrow> i < length buf \<longrightarrow> b ! i = buf ! i"
    using write_at_ok [of off ?bs buf] room sz by auto
  have len: "size_len v = BUSTUB_VALUE_NULL" by (subst 1) simp
  have d: "Value_varlen (type_id v) None n False = Inr v" for n
    using ty 1 by (auto simp: Value_varlen_def)
  have "le_decode ?bs = BUSTUB_VALUE_NULL" by (rule le4) simp
  with b d ty len sz show ?thesis unfolding roundtrips_def
    by (auto simp: Value_SerializeTo_def Value_DeserializeFrom_def VarlenType_SerializeTo_def
        VectorType_SerializeTo_def VarlenType_DeserializeFrom_def VectorType_DeserializeFrom_def
        VarlenType_GetStorageSize_def VectorType_GetStorageSize_def Let_def simp del: le_decode_encode)
next
  case (2 bs)
  let ?n = "size_len v" and ?pre = "le_encode 4 (size_len v)"
  have sz: "ser_size v = 4 + ?n" using ty 2 by (auto simp: ser_size_def GetTypeSize_def)
  obtain b1 where b1: "write_at buf off ?pre = Inr b1" "length b1 = length buf" "read_at b1 off 4 = Inr ?pre"
     "\<forall>i. i < off \<or> off + 4 \<le> i \<longrightarrow> i < length buf \<longrightarrow> b1 ! i = buf ! i"
    using write_at_ok [of off ?pre buf] room sz by auto
  obtain b where b: "write_at b1 (off + 4) bs = Inr b" "length b = length b1" "read_at b (off + 4) ?n = Inr bs"
     "\<forall>i. i < off + 4 \<or> off + 4 + ?n \<le> i \<longrightarrow> i < length b1 \<longrightarrow> b ! i = b1 ! i"
    using write_at_ok [of "off + 4" bs b1] room sz b1 2 by auto
  have pre: "read_at b off 4 = Inr ?pre"
    using read_write_disjoint [OF b(1), of off 4] b1(3) by simp
  have dec: "le_decode ?pre = ?n" using 2 by (intro le4) simp
  have "read_at (drop (off + 4) b) 0 ?n = Inr bs"
    using b(3) by (auto simp: read_at_def split: if_splits)
  then have d: "Value_varlen (type_id v) (Some (drop (off + 4) b)) ?n True = Inr v"
    using ty 2 by (auto simp: Value_varlen_def BUSTUB_VARCHAR_MAX_LEN_def BUSTUB_VALUE_NULL_def)
  have "deref (varlen v) 0 ?n = Inr bs" using 2 by (simp add: deref_def read_at_def)
  with b b1 d ty dec pre sz 2(3) show ?thesis unfolding roundtrips_def
    by (auto simp: Value_SerializeTo_def Value_DeserializeFrom_def VarlenType_SerializeTo_def
        VectorType_SerializeTo_def VarlenType_DeserializeFrom_def VectorType_DeserializeFrom_def
        VarlenType_GetStorageSize_def VectorType_GetStorageSize_def Let_def simp del: le_decode_encode)
qed

lemma roundtrips_wf:
  assumes "wf_value v" and "off + ser_size v \<le> length buf"
  shows "roundtrips v buf off"
proof (cases "type_id v = VARCHAR \<or> type_id v = VECTOR")
  case True
  then show ?thesis using assms by (intro roundtrip_varlen)
next
  case False
  then show ?thesis
    using assms roundtrip_word [of v off buf] roundtrip_int [of v _ off buf]
    by (cases "type_id v") (auto simp: ser_size_def GetTypeSize_def wf_value_def [of v])
qed

text \<open>A well-formed value of any type, serialised into a buffer with enough room at an offset,
  writes in bounds, leaves every byte outside its own range unchanged, and deserialises from the
  same offset, with the same type, to the value itself.\<close>

theorem serialize_roundtrip:
  assumes "wf_value v" and "off + ser_size v \<le> length buf"
  shows "\<exists>b. Value_SerializeTo v buf off = Inr b \<and> length b = length buf \<and>
     (\<forall>i. i < off \<or> off + ser_size v \<le> i \<longrightarrow> i < length buf \<longrightarrow> b ! i = buf ! i) \<and>
     Value_DeserializeFrom b off (type_id v) = Inr v"
  using roundtrips_wf [OF assms] by (simp add: roundtrips_def)

theorem serialize_roundtrip_witness:
  "\<exists>b. Value_SerializeTo (set_int INTEGER I32 (cmin I32) 7) ''abcdefgh'' 2 = Inr b \<and>
     Value_DeserializeFrom b 2 INTEGER = Inr (set_int INTEGER I32 (cmin I32) 7)"
proof -
  have "wf_value (set_int INTEGER I32 (cmin I32) 7)" "ser_size (set_int INTEGER I32 (cmin I32) 7) = 4"
    by code_simp+
  then show ?thesis
    using serialize_roundtrip [of "set_int INTEGER I32 (cmin I32) 7" 2 "''abcdefgh''"] by auto
qed

section \<open>Integer operands\<close>

text \<open>The member type of an integer type id, and the integer a value denotes.\<close>

definition ity :: "Value \<Rightarrow> cint" where
  "ity v = (case member_of (type_id v) of Some T \<Rightarrow> T | None \<Rightarrow> I8)"

definition int_val :: "Value \<Rightarrow> int" where "int_val v = GetAs (ity v) v"

definition wider :: "Value \<Rightarrow> Value \<Rightarrow> Value" where
  "wider l r = (if bytes_of (ity l) \<ge> bytes_of (ity r) then l else r)"

definition int_result :: "Value \<Rightarrow> Value \<Rightarrow> int \<Rightarrow> Value" where
  "int_result l r z = (let w = wider l r in set_int (type_id w) (ity w) (cmin (ity w)) z)"

definition int_operand :: "Value \<Rightarrow> bool" where
  "int_operand v \<longleftrightarrow> wf_value v \<and> CheckInteger v \<and> \<not> IsNull v"

lemma int_operand_cases [consumes 1, case_names TINYINT SMALLINT INTEGER BIGINT]:
  assumes "int_operand v"
  obtains "type_id v = TINYINT" "ity v = I8" "int_val v = GetAs I8 v" "\<not> IsNull v"
  | "type_id v = SMALLINT" "ity v = I16" "int_val v = GetAs I16 v" "\<not> IsNull v"
  | "type_id v = INTEGER" "ity v = I32" "int_val v = GetAs I32 v" "\<not> IsNull v"
  | "type_id v = BIGINT" "ity v = I64" "int_val v = GetAs I64 v" "\<not> IsNull v"
  using assms by (auto simp: int_operand_def CheckInteger_def ity_def int_val_def)

lemma int_operand_range:
  assumes "int_operand v" shows "cmin (ity v) < int_val v" "int_val v \<le> cmax (ity v)"
proof -
  have "member_of (type_id v) = Some (ity v)" and wf: "wf_value v" and "\<not> IsNull v"
    using assms by (auto simp: int_operand_def CheckInteger_def ity_def)
  then have "v = set_int (type_id v) (ity v) (cmin (ity v)) (GetAs (ity v) v)"
    by (cases "type_id v") (auto simp: wf_value_def)
  then have "IsNull v \<longleftrightarrow> GetAs (ity v) v = cmin (ity v)"
    by (metis set_int_sel(3) static_cast_GetAs)
  moreover have "in_range (ity v) (int_val v)" by (simp add: int_val_def)
  ultimately show "cmin (ity v) < int_val v" "int_val v \<le> cmax (ity v)"
    using \<open>\<not> IsNull v\<close> by (auto simp: in_range_def int_val_def)
qed

lemma int_operand_member: "int_operand v \<Longrightarrow> member_of (type_id v) = Some (ity v)"
  by (auto simp: int_operand_def CheckInteger_def ity_def)

lemma int_operands_ok:
  assumes "int_operand l" "int_operand r"
  shows "CheckInteger l" "CheckComparable l r" "\<not> IsNull l" "\<not> IsNull r"
  using assms by (auto simp: int_operand_def CheckInteger_def CheckComparable_def)

lemma wf_set_int: "member_of ty = Some T \<Longrightarrow> in_range T i \<Longrightarrow> wf_value (set_int ty T (cmin T) i)"
  by (cases ty) (auto simp: wf_value_def static_cast_id)

lemma int_operand_set_int [simp]:
  "member_of ty = Some T \<Longrightarrow> ty \<noteq> BOOLEAN \<Longrightarrow> cmin T < i \<Longrightarrow> i \<le> cmax T \<Longrightarrow>
     int_operand (set_int ty T (cmin T) i) \<and> int_val (set_int ty T (cmin T) i) = i"
  using wf_set_int [of ty T i]
  by (cases ty) (auto simp: int_operand_def CheckInteger_def in_range_def static_cast_id
      int_val_def ity_def)

lemma int_operand_eq: "int_operand v \<Longrightarrow> v = set_int (type_id v) (ity v) (cmin (ity v)) (int_val v)"
  by (cases "type_id v") (auto simp: int_operand_def wf_value_def CheckInteger_def ity_def int_val_def)

end
