(* ===== verification/TypeCasts.thy ===== *)
theory TypeCasts
  imports TypeOps
begin

text \<open>
  \<open>CastAs\<close> of every type instance (src/type/*_type.cpp) and \<open>Value::CastAs\<close>.  The conversions of
  the string library that \<open>VarlenType::CastAs\<close> calls end in \<open>std::invalid_argument\<close> or
  \<open>std::out_of_range\<close>; the source catches the second only.
\<close>

definition out_of_range :: "'a result" where
  "out_of_range = Inl (Throw ET_OUT_OF_RANGE ''Numeric value out of range.'')"

definition invalid :: "string \<Rightarrow> 'a result" where
  "invalid m = Inl (Throw ET_INVALID m)"

text \<open>\<open>try { ... } catch (std::out_of_range &e) { throw Exception(OUT_OF_RANGE, ...); }\<close>\<close>

definition catch_out_of_range :: "'a result \<Rightarrow> 'a result" where
  "catch_out_of_range r = (if r = Inl StdOutOfRange then out_of_range else r)"

text \<open>\<open>return {TypeId::VARCHAR, nullptr, 0, false}\<close> for NULL, otherwise the string form.\<close>

definition cast_varchar :: "Value \<Rightarrow> Value result" where
  "cast_varchar v = (if IsNull v then Value_varlen VARCHAR None 0 False
     else rbind (Value_ToString v) (Value_string VARCHAR))"

text \<open>The narrowing cast from the member type \<open>S\<close> with its range check, and the widening cast.\<close>

definition cast_narrow :: "cint \<Rightarrow> cint \<Rightarrow> TypeId \<Rightarrow> Value \<Rightarrow> Value result" where
  "cast_narrow S T ty v = (if IsNull v then Value_of T ty (BUSTUB_INT_NULL T)
     else if GetAs S v > BUSTUB_INT_MAX T \<or> GetAs S v < BUSTUB_INT_MIN T then out_of_range
     else Value_of T ty (static_cast T (GetAs S v)))"

definition cast_widen :: "cint \<Rightarrow> cint \<Rightarrow> TypeId \<Rightarrow> Value \<Rightarrow> Value result" where
  "cast_widen S T ty v = (if IsNull v then Value_of T ty (BUSTUB_INT_NULL T)
     else Value_of T ty (static_cast T (GetAs S v)))"

definition cast_self :: "cint \<Rightarrow> TypeId \<Rightarrow> (Value \<Rightarrow> Value result) \<Rightarrow> Value \<Rightarrow> Value result" where
  "cast_self T ty copy v = (if IsNull v then Value_of T ty (BUSTUB_INT_NULL T) else copy v)"

definition cast_decimal :: "cint \<Rightarrow> Value \<Rightarrow> Value result" where
  "cast_decimal S v = (if IsNull v then decimal_null
     else Value_double DECIMAL (double_of_int (GetAs S v)))"

definition TinyintType_CastAs :: "Value \<Rightarrow> TypeId \<Rightarrow> Value result" where
  "TinyintType_CastAs v ty = (case ty of
       TINYINT \<Rightarrow> cast_self I8 ty TinyintType_Copy v
     | SMALLINT \<Rightarrow> cast_widen I8 I16 ty v
     | INTEGER \<Rightarrow> cast_widen I8 I32 ty v
     | BIGINT \<Rightarrow> cast_widen I8 I64 ty v
     | DECIMAL \<Rightarrow> cast_decimal I8 v
     | VARCHAR \<Rightarrow> cast_varchar v
     | _ \<Rightarrow> invalid (''tinyint is not coercable to '' @ TypeIdToString ty))"

definition SmallintType_CastAs :: "Value \<Rightarrow> TypeId \<Rightarrow> Value result" where
  "SmallintType_CastAs v ty = (case ty of
       TINYINT \<Rightarrow> cast_narrow I16 I8 ty v
     | SMALLINT \<Rightarrow> cast_self I16 ty SmallintType_Copy v
     | INTEGER \<Rightarrow> cast_widen I16 I32 ty v
     | BIGINT \<Rightarrow> cast_widen I16 I64 ty v
     | DECIMAL \<Rightarrow> cast_decimal I16 v
     | VARCHAR \<Rightarrow> cast_varchar v
     | _ \<Rightarrow> invalid (''smallint is not coercable to '' @ TypeIdToString ty))"

definition IntegerType_CastAs :: "Value \<Rightarrow> TypeId \<Rightarrow> Value result" where
  "IntegerType_CastAs v ty = (case ty of
       TINYINT \<Rightarrow> cast_narrow I32 I8 ty v
     | SMALLINT \<Rightarrow> cast_narrow I32 I16 ty v
     | INTEGER \<Rightarrow> cast_widen I32 I32 ty v
     | BIGINT \<Rightarrow> cast_widen I32 I64 ty v
     | DECIMAL \<Rightarrow> cast_decimal I32 v
     | VARCHAR \<Rightarrow> cast_varchar v
     | _ \<Rightarrow> invalid (''Integer is not coercable to '' @ TypeIdToString ty))"

definition BigintType_CastAs :: "Value \<Rightarrow> TypeId \<Rightarrow> Value result" where
  "BigintType_CastAs v ty = (case ty of
       TINYINT \<Rightarrow> cast_narrow I64 I8 ty v
     | SMALLINT \<Rightarrow> cast_narrow I64 I16 ty v
     | INTEGER \<Rightarrow> cast_narrow I64 I32 ty v
     | BIGINT \<Rightarrow> cast_self I64 ty BigintType_Copy v
     | DECIMAL \<Rightarrow> cast_decimal I64 v
     | VARCHAR \<Rightarrow> cast_varchar v
     | _ \<Rightarrow> invalid (''bigint is not coercable to '' @ TypeIdToString ty))"

definition BooleanType_CastAs :: "Value \<Rightarrow> TypeId \<Rightarrow> Value result" where
  "BooleanType_CastAs v ty = (case ty of
       BOOLEAN \<Rightarrow> BooleanType_Copy v
     | VARCHAR \<Rightarrow> cast_varchar v
     | _ \<Rightarrow> invalid (''BOOLEAN is not coercable to '' @ TypeIdToString ty))"

text \<open>The range checks of \<open>DecimalType::CastAs\<close> compare as doubles; a value outside is rejected before the cast.\<close>

definition cast_double_to :: "cint \<Rightarrow> TypeId \<Rightarrow> Value \<Rightarrow> Value result" where
  "cast_double_to T ty v = (if IsNull v then Value_of T ty (BUSTUB_INT_NULL T)
     else if cmp_double GT (GetAs_double v) (double_of_int (BUSTUB_INT_MAX T)) \<or>
             cmp_double LT (GetAs_double v) (double_of_int (BUSTUB_INT_MIN T)) then out_of_range
     else rbind (double_to_int T (GetAs_double v)) (Value_of T ty))"

definition cast_double_to_bigint :: "TypeId \<Rightarrow> Value \<Rightarrow> Value result" where
  "cast_double_to_bigint ty v = (if IsNull v then Value_int64 ty (BUSTUB_INT_NULL I64)
     else if cmp_double GE (GetAs_double v) (double_of_int (BUSTUB_INT_MAX I64)) \<or>
             cmp_double LT (GetAs_double v) (double_of_int (BUSTUB_INT_MIN I64)) then out_of_range
     else rbind (double_to_int I64 (GetAs_double v)) (Value_int64 ty))"

definition DecimalType_CastAs :: "Value \<Rightarrow> TypeId \<Rightarrow> Value result" where
  "DecimalType_CastAs v ty = (case ty of
       TINYINT \<Rightarrow> cast_double_to I8 ty v
     | SMALLINT \<Rightarrow> cast_double_to I16 ty v
     | INTEGER \<Rightarrow> cast_double_to I32 ty v
     | BIGINT \<Rightarrow> cast_double_to_bigint ty v
     | DECIMAL \<Rightarrow> Value_Copy v
     | VARCHAR \<Rightarrow> cast_varchar v
     | _ \<Rightarrow> invalid (''DECIMAL is not coercable to '' @ TypeIdToString ty))"

definition VarlenType_CastAs :: "Value \<Rightarrow> TypeId \<Rightarrow> Value result" where
  "VarlenType_CastAs v ty = (case ty of
       BOOLEAN \<Rightarrow> rbind (Value_ToString v) (\<lambda>s. let str = lower s in
         if str = ''true'' \<or> str = ''1'' \<or> str = ''t'' then Value_int32 ty 1
         else if str = ''false'' \<or> str = ''0'' \<or> str = ''f'' then Value_int32 ty 0
         else invalid ''Boolean value format error.'')
     | TINYINT \<Rightarrow> rbind (Value_ToString v) (\<lambda>str.
         rbind (catch_out_of_range (rbind (stoi str) (\<lambda>z. Inr (static_cast I8 z)))) (\<lambda>tinyint.
           if tinyint < BUSTUB_INT_MIN I8 then out_of_range else Value_int8 ty tinyint))
     | SMALLINT \<Rightarrow> rbind (Value_ToString v) (\<lambda>str.
         rbind (catch_out_of_range (rbind (stoi str) (\<lambda>z. Inr (static_cast I16 z)))) (\<lambda>smallint.
           if smallint < BUSTUB_INT_MIN I16 then out_of_range else Value_int16 ty smallint))
     | INTEGER \<Rightarrow> rbind (Value_ToString v) (\<lambda>str.
         rbind (catch_out_of_range (stoi str)) (\<lambda>integer.
           if integer > BUSTUB_INT_MAX I32 \<or> integer < BUSTUB_INT_MIN I32 then out_of_range
           else Value_int32 ty integer))
     | BIGINT \<Rightarrow> rbind (Value_ToString v) (\<lambda>str.
         rbind (catch_out_of_range (stoll str)) (\<lambda>bigint.
           if bigint > BUSTUB_INT_MAX I64 \<or> bigint < BUSTUB_INT_MIN I64 then out_of_range
           else Value_int64 ty bigint))
     | DECIMAL \<Rightarrow> rbind (Value_ToString v) (\<lambda>str.
         rbind (catch_out_of_range (stod str)) (\<lambda>res.
           if cmp_double GT res BUSTUB_DECIMAL_MAX \<or> cmp_double LT res BUSTUB_DECIMAL_MIN then out_of_range
           else Value_double ty res))
     | VARCHAR \<Rightarrow> Value_Copy v
     | _ \<Rightarrow> invalid (''VARCHAR is not coercable to '' @ TypeIdToString ty))"

text \<open>The message of the fall-through case calls \<open>ToString\<close> of the target type on the timestamp.\<close>

definition TimestampType_CastAs :: "Value \<Rightarrow> TypeId \<Rightarrow> Value result" where
  "TimestampType_CastAs v ty = (case ty of
       TIMESTAMP \<Rightarrow> TimestampType_Copy v
     | VARCHAR \<Rightarrow> if IsNull v then Value_varlen VARCHAR None 0 False
         else rbind (Value_ToString v) (Value_string VARCHAR)
     | _ \<Rightarrow> rbind (Type_ToString ty v) (\<lambda>s. invalid (''TIMESTAMP is not coercable to '' @ s)))"

definition VectorType_CastAs :: "Value \<Rightarrow> TypeId \<Rightarrow> Value result" where
  "VectorType_CastAs v ty = Inl (LogicError ''vector type cast not supported'')"

definition CastAs :: "Value \<Rightarrow> TypeId \<Rightarrow> Value result" where
  "CastAs v ty = (case type_id v of
       TINYINT \<Rightarrow> TinyintType_CastAs v ty
     | SMALLINT \<Rightarrow> SmallintType_CastAs v ty
     | INTEGER \<Rightarrow> IntegerType_CastAs v ty
     | BIGINT \<Rightarrow> BigintType_CastAs v ty
     | BOOLEAN \<Rightarrow> BooleanType_CastAs v ty
     | DECIMAL \<Rightarrow> DecimalType_CastAs v ty
     | VARCHAR \<Rightarrow> VarlenType_CastAs v ty
     | TIMESTAMP \<Rightarrow> TimestampType_CastAs v ty
     | VECTOR \<Rightarrow> VectorType_CastAs v ty
     | INVALID \<Rightarrow> not_implemented ''CastAs not implemented'')"

section \<open>Casts between integers and strings\<close>

lemma Value_string_ok:
  assumes "length s + 1 < BUSTUB_VALUE_NULL"
  obtains v where "Value_string VARCHAR s = Inr v" "wf_value v" "type_id v = VARCHAR" "\<not> IsNull v"
    "Value_ToString v = Inr s" "varlen v = Some (s @ [char_of (0::nat)])" "size_len v = length s + 1"
proof -
  define v where "v = (Value_ctor VARCHAR) \<lparr> varlen := Some (s @ [char_of (0::nat)]),
     size_len := length s + 1, manage_data := True \<rparr>"
  have len: "(length s + 1) mod 2 ^ 32 = length s + 1" using assms by (simp add: BUSTUB_VALUE_NULL_def)
  have "Value_string VARCHAR s = Inr v"
    unfolding Value_string_def v_def len by (simp add: Let_def)
  moreover have "wf_value v" "type_id v = VARCHAR" "\<not> IsNull v" "varlen v = Some (s @ [char_of (0::nat)])"
      "size_len v = length s + 1"
    using assms by (simp_all add: v_def wf_value_def IsNull_def)
  moreover from this assms have "Value_ToString v = Inr s"
    by (simp add: Value_ToString_def Type_ToString_def VarlenType_ToString_def
        VarlenType_GetStorageSize_def deref_def read_at_def BUSTUB_VARCHAR_MAX_LEN_def BUSTUB_VALUE_NULL_def)
  ultimately show ?thesis using that by blast
qed

lemmas int_cast_methods = TinyintType_CastAs_def SmallintType_CastAs_def IntegerType_CastAs_def
  BigintType_CastAs_def

text \<open>Casting a non-NULL integer between the four integer types keeps its value whenever the
  target can hold it, and throws OUT_OF_RANGE otherwise; the value reserved for NULL is never
  produced.\<close>

theorem CastAs_int:
  assumes "int_operand v" "member_of ty = Some T" "ty \<noteq> BOOLEAN"
  shows "CastAs v ty = (if cmin T < int_val v \<and> int_val v \<le> cmax T
     then Inr (set_int ty T (cmin T) (int_val v)) else out_of_range)"
proof -
  have r: "cmin (ity v) < int_val v" "int_val v \<le> cmax (ity v)" "\<not> IsNull v"
    using int_operand_range [OF assms(1)] assms(1) by (auto simp: int_operand_def)
  have c: "cast_narrow (ity v) T ty v = (if cmin T < int_val v \<and> int_val v \<le> cmax T
     then Inr (set_int ty T (cmin T) (int_val v)) else out_of_range)"
    using assms(2) r
    by (auto simp: cast_narrow_def limit_defs int_val_def [symmetric] static_cast_id in_range_def Value_of_Inr)
  have w: "cast_widen (ity v) T ty v = Inr (set_int ty T (cmin T) (int_val v))" if "bits (ity v) \<le> bits T"
    using assms(2) r in_range_mono [OF _ that, of "int_val v"]
    by (auto simp: cast_widen_def int_val_def [symmetric] static_cast_id in_range_def Value_of_Inr)
  have s: "type_id v = ty \<Longrightarrow> Value_Copy v = Inr (set_int ty T (cmin T) (int_val v))"
    using assms
    by (cases ty) (auto simp: Value_Copy_def TinyintType_Copy_def SmallintType_Copy_def IntegerType_Copy_def
        BigintType_Copy_def int_val_def ity_def CheckInteger_def)
  from assms(1) show ?thesis
  proof (cases rule: int_operand_cases)
    case TINYINT
    then show ?thesis using assms(2,3) r c w s by (cases ty)
      (auto simp: CastAs_def int_cast_methods cast_self_def Value_Copy_def)
  next
    case SMALLINT
    then show ?thesis using assms(2,3) r c w s by (cases ty)
      (auto simp: CastAs_def int_cast_methods cast_self_def Value_Copy_def)
  next
    case INTEGER
    then show ?thesis using assms(2,3) r c w s by (cases ty)
      (auto simp: CastAs_def int_cast_methods cast_self_def Value_Copy_def)
  next
    case BIGINT
    then show ?thesis using assms(2,3) r c w s by (cases ty)
      (auto simp: CastAs_def int_cast_methods cast_self_def Value_Copy_def)
  qed
qed

theorem CastAs_int_witness:
  "CastAs (set_int INTEGER I32 (cmin I32) 127) TINYINT = Inr (set_int TINYINT I8 (cmin I8) 127) \<and>
   CastAs (set_int INTEGER I32 (cmin I32) (- 128)) TINYINT = out_of_range"
proof -
  have o: "int_operand (set_int INTEGER I32 (cmin I32) 127)" "int_operand (set_int INTEGER I32 (cmin I32) (- 128))"
    "member_of TINYINT = Some I8" "TINYINT \<noteq> BOOLEAN" by code_simp+
  show ?thesis unfolding CastAs_int [OF o(1,3,4)] CastAs_int [OF o(2,3,4)] by code_simp
qed

lemma Value_ToString_int: "int_operand v \<Longrightarrow> Value_ToString v = Inr (to_string (int_val v))"
  by (erule int_operand_cases) (auto simp: int_operand_def CheckInteger_def Value_ToString_def Type_ToString_def
      TinyintType_ToString_def SmallintType_ToString_def IntegerType_ToString_def BigintType_ToString_def)

lemma CastAs_varchar_int:
  assumes "Value_ToString s = Inr (to_string z)" "type_id s = VARCHAR" "cmin T < z" "z \<le> cmax T"
    "member_of ty = Some T" "ty \<noteq> BOOLEAN"
  shows "CastAs s ty = Inr (set_int ty T (cmin T) z)"
  using assms
  by (cases ty) (auto simp: CastAs_def VarlenType_CastAs_def stoi_to_string stoll_to_string in_range_def
      catch_out_of_range_def static_cast_id limit_defs)

text \<open>C38: Casting a non-NULL integer to VARCHAR and back to its own type gives the same value, for all
  four integer types.\<close>

theorem CastAs_varchar_roundtrip:
  assumes "int_operand v"
  shows "\<exists>s. CastAs v VARCHAR = Inr s \<and> type_id s = VARCHAR \<and> wf_value s \<and> CastAs s (type_id v) = Inr v"
proof -
  have r: "cmin (ity v) < int_val v" "int_val v \<le> cmax (ity v)" "\<not> IsNull v"
    using int_operand_range [OF assms] assms by (auto simp: int_operand_def)
  then have "in_range (ity v) (int_val v)" by (simp add: in_range_def)
  then have "length (to_string (int_val v)) + 1 < BUSTUB_VALUE_NULL"
    using length_to_string by (fastforce simp: BUSTUB_VALUE_NULL_def)
  then obtain s where s: "Value_string VARCHAR (to_string (int_val v)) = Inr s" "wf_value s" "type_id s = VARCHAR"
    "Value_ToString s = Inr (to_string (int_val v))" by (rule Value_string_ok)
  have "CastAs v VARCHAR = Inr s"
    using assms s(1) r(3) Value_ToString_int [OF assms]
    by (cases v rule: int_operand_cases) (simp_all add: CastAs_def int_cast_methods cast_varchar_def)
  moreover have "CastAs s (type_id v) = Inr (set_int (type_id v) (ity v) (cmin (ity v)) (int_val v))"
    using s r int_operand_member [OF assms] assms
    by (intro CastAs_varchar_int) (auto simp: int_operand_def CheckInteger_def)
  ultimately show ?thesis using s int_operand_eq [OF assms] by auto
qed

theorem CastAs_varchar_roundtrip_witness:
  "\<exists>s. CastAs (set_int BIGINT I64 (cmin I64) (- 42)) VARCHAR = Inr s \<and>
     CastAs s BIGINT = Inr (set_int BIGINT I64 (cmin I64) (- 42))"
proof -
  have o: "int_operand (set_int BIGINT I64 (cmin I64) (- 42))" by code_simp
  show ?thesis using CastAs_varchar_roundtrip [OF o] by auto
qed

text \<open>Casting a NULL VARCHAR to a numeric type ends in an uncaught \<open>std::invalid_argument\<close>: the
  cast parses the text \<open>varlen_null\<close> that \<open>ToString\<close> gives for NULL, instead of returning NULL as
  every other cast does.\<close>

theorem CastAs_null_varchar:
  "ty \<in> {TINYINT, SMALLINT, INTEGER, BIGINT, DECIMAL} \<Longrightarrow> CastAs (Value_ctor VARCHAR) ty = Inl StdInvalidArgument"
  apply (elim insertE; simp)
      apply code_simp+
  done

theorem CastAs_null_varchar_witness:
  "CastAs (Value_ctor VARCHAR) INTEGER = Inl StdInvalidArgument"
  by (rule CastAs_null_varchar) simp

text \<open>Casting a numeric string to TINYINT does not check the range: every 32-bit integer is
  accepted and reduced modulo 256 (only a reduction to the NULL encoding is rejected).\<close>

theorem CastAs_varchar_narrow_wraps:
  assumes "in_range I32 z" "static_cast I8 z \<noteq> cmin I8"
  shows "\<exists>s. Value_string VARCHAR (to_string z) = Inr s \<and>
     CastAs s TINYINT = Inr (set_int TINYINT I8 (cmin I8) (static_cast I8 z))"
proof -
  have "length (to_string z) + 1 < BUSTUB_VALUE_NULL"
    using length_to_string [OF assms(1)] by (simp add: BUSTUB_VALUE_NULL_def)
  then obtain s where s: "Value_string VARCHAR (to_string z) = Inr s" "type_id s = VARCHAR"
    "Value_ToString s = Inr (to_string z)" by (rule Value_string_ok)
  have "cmin I8 < static_cast I8 z"
    using assms(2) static_cast_in_range [of I8 z] by (auto simp: in_range_def)
  then show ?thesis using s assms(1)
    by (auto simp: CastAs_def VarlenType_CastAs_def stoi_to_string catch_out_of_range_def limit_defs)
qed

theorem CastAs_varchar_narrow_wraps_witness:
  "\<exists>s. Value_string VARCHAR (to_string 300) = Inr s \<and>
     CastAs s TINYINT = Inr (set_int TINYINT I8 (cmin I8) 44)"
proof -
  have o: "in_range I32 300" "static_cast I8 300 \<noteq> cmin I8" "static_cast I8 300 = 44" by code_simp+
  show ?thesis using CastAs_varchar_narrow_wraps [OF o(1,2)] unfolding o(3) .
qed

end
