(* ===== verification/TypeCompare.thy ===== *)
theory TypeCompare
  imports TypeCasts
begin

text \<open>
  The six comparisons of every type instance (the \<open>*_COMPARE_FUNC\<close> macros and the
  \<open>Compare*\<close> methods of src/type/*_type.cpp), \<open>TypeUtil::CompareStrings\<close> (type/type_util.h) and
  the dispatch of type/value.h.  The operator of a macro is a \<^typ>\<open>cmp_op\<close>; the methods
  differ only in it, as the macro invocations do.
\<close>

section \<open>The integer types\<close>

text \<open>The macro for the type with member type \<open>S\<close> and id \<open>self\<close>: the integer operands are compared
  after the usual arithmetic conversions, which preserve both values; against a \<open>double\<close> the
  integer is converted; a string is cast to the left type first.\<close>

definition COMPARE_FUNC :: "cint \<Rightarrow> TypeId \<Rightarrow> cmp_op \<Rightarrow> Value \<Rightarrow> Value \<Rightarrow> CmpBool result" where
  "COMPARE_FUNC S self op left right = (case type_id right of
       TINYINT \<Rightarrow> Inr (GetCmpBool (cmp_int op (GetAs S left) (GetAs I8 right)))
     | SMALLINT \<Rightarrow> Inr (GetCmpBool (cmp_int op (GetAs S left) (GetAs I16 right)))
     | INTEGER \<Rightarrow> Inr (GetCmpBool (cmp_int op (GetAs S left) (GetAs I32 right)))
     | BIGINT \<Rightarrow> Inr (GetCmpBool (cmp_int op (GetAs S left) (GetAs I64 right)))
     | DECIMAL \<Rightarrow> Inr (GetCmpBool (cmp_double op (double_of_int (GetAs S left)) (GetAs_double right)))
     | VARCHAR \<Rightarrow> rbind (CastAs right self) (\<lambda>r_value.
         Inr (GetCmpBool (cmp_int op (GetAs S left) (GetAs S r_value))))
     | _ \<Rightarrow> type_error)"

definition TINYINT_COMPARE_FUNC :: "cmp_op \<Rightarrow> Value \<Rightarrow> Value \<Rightarrow> CmpBool result" where
  "TINYINT_COMPARE_FUNC = COMPARE_FUNC I8 TINYINT"

definition SMALLINT_COMPARE_FUNC :: "cmp_op \<Rightarrow> Value \<Rightarrow> Value \<Rightarrow> CmpBool result" where
  "SMALLINT_COMPARE_FUNC = COMPARE_FUNC I16 SMALLINT"

definition INT_COMPARE_FUNC :: "cmp_op \<Rightarrow> Value \<Rightarrow> Value \<Rightarrow> CmpBool result" where
  "INT_COMPARE_FUNC = COMPARE_FUNC I32 INTEGER"

definition BIGINT_COMPARE_FUNC :: "cmp_op \<Rightarrow> Value \<Rightarrow> Value \<Rightarrow> CmpBool result" where
  "BIGINT_COMPARE_FUNC = COMPARE_FUNC I64 BIGINT"

text \<open>The assertions and the NULL test that open every comparison.\<close>

definition cmp_guard :: "Value \<Rightarrow> Value \<Rightarrow> CmpBool result \<Rightarrow> CmpBool result" where
  "cmp_guard left right k = assert (CheckComparable left right)
     (if IsNull left \<or> IsNull right then Inr CmpNull else k)"

definition int_cmp_guard :: "Value \<Rightarrow> Value \<Rightarrow> CmpBool result \<Rightarrow> CmpBool result" where
  "int_cmp_guard left right k = assert (CheckInteger left) (cmp_guard left right k)"

definition TinyintType_CompareEquals :: "Value \<Rightarrow> Value \<Rightarrow> CmpBool result" where
  "TinyintType_CompareEquals left right = int_cmp_guard left right (TINYINT_COMPARE_FUNC EQ left right)"

definition TinyintType_CompareNotEquals :: "Value \<Rightarrow> Value \<Rightarrow> CmpBool result" where
  "TinyintType_CompareNotEquals left right = int_cmp_guard left right (TINYINT_COMPARE_FUNC NE left right)"

definition TinyintType_CompareLessThan :: "Value \<Rightarrow> Value \<Rightarrow> CmpBool result" where
  "TinyintType_CompareLessThan left right = int_cmp_guard left right (TINYINT_COMPARE_FUNC LT left right)"

definition TinyintType_CompareLessThanEquals :: "Value \<Rightarrow> Value \<Rightarrow> CmpBool result" where
  "TinyintType_CompareLessThanEquals left right = int_cmp_guard left right (TINYINT_COMPARE_FUNC LE left right)"

definition TinyintType_CompareGreaterThan :: "Value \<Rightarrow> Value \<Rightarrow> CmpBool result" where
  "TinyintType_CompareGreaterThan left right = int_cmp_guard left right (TINYINT_COMPARE_FUNC GT left right)"

definition TinyintType_CompareGreaterThanEquals :: "Value \<Rightarrow> Value \<Rightarrow> CmpBool result" where
  "TinyintType_CompareGreaterThanEquals left right = int_cmp_guard left right (TINYINT_COMPARE_FUNC GE left right)"

definition SmallintType_CompareEquals :: "Value \<Rightarrow> Value \<Rightarrow> CmpBool result" where
  "SmallintType_CompareEquals left right = int_cmp_guard left right (SMALLINT_COMPARE_FUNC EQ left right)"

definition SmallintType_CompareNotEquals :: "Value \<Rightarrow> Value \<Rightarrow> CmpBool result" where
  "SmallintType_CompareNotEquals left right = int_cmp_guard left right (SMALLINT_COMPARE_FUNC NE left right)"

definition SmallintType_CompareLessThan :: "Value \<Rightarrow> Value \<Rightarrow> CmpBool result" where
  "SmallintType_CompareLessThan left right = int_cmp_guard left right (SMALLINT_COMPARE_FUNC LT left right)"

definition SmallintType_CompareLessThanEquals :: "Value \<Rightarrow> Value \<Rightarrow> CmpBool result" where
  "SmallintType_CompareLessThanEquals left right = int_cmp_guard left right (SMALLINT_COMPARE_FUNC LE left right)"

definition SmallintType_CompareGreaterThan :: "Value \<Rightarrow> Value \<Rightarrow> CmpBool result" where
  "SmallintType_CompareGreaterThan left right = int_cmp_guard left right (SMALLINT_COMPARE_FUNC GT left right)"

definition SmallintType_CompareGreaterThanEquals :: "Value \<Rightarrow> Value \<Rightarrow> CmpBool result" where
  "SmallintType_CompareGreaterThanEquals left right = int_cmp_guard left right (SMALLINT_COMPARE_FUNC GE left right)"

definition IntegerType_CompareEquals :: "Value \<Rightarrow> Value \<Rightarrow> CmpBool result" where
  "IntegerType_CompareEquals left right = int_cmp_guard left right (INT_COMPARE_FUNC EQ left right)"

definition IntegerType_CompareNotEquals :: "Value \<Rightarrow> Value \<Rightarrow> CmpBool result" where
  "IntegerType_CompareNotEquals left right = int_cmp_guard left right (INT_COMPARE_FUNC NE left right)"

definition IntegerType_CompareLessThan :: "Value \<Rightarrow> Value \<Rightarrow> CmpBool result" where
  "IntegerType_CompareLessThan left right = int_cmp_guard left right (INT_COMPARE_FUNC LT left right)"

definition IntegerType_CompareLessThanEquals :: "Value \<Rightarrow> Value \<Rightarrow> CmpBool result" where
  "IntegerType_CompareLessThanEquals left right = int_cmp_guard left right (INT_COMPARE_FUNC LE left right)"

definition IntegerType_CompareGreaterThan :: "Value \<Rightarrow> Value \<Rightarrow> CmpBool result" where
  "IntegerType_CompareGreaterThan left right = int_cmp_guard left right (INT_COMPARE_FUNC GT left right)"

definition IntegerType_CompareGreaterThanEquals :: "Value \<Rightarrow> Value \<Rightarrow> CmpBool result" where
  "IntegerType_CompareGreaterThanEquals left right = int_cmp_guard left right (INT_COMPARE_FUNC GE left right)"

definition BigintType_CompareEquals :: "Value \<Rightarrow> Value \<Rightarrow> CmpBool result" where
  "BigintType_CompareEquals left right = int_cmp_guard left right (BIGINT_COMPARE_FUNC EQ left right)"

definition BigintType_CompareNotEquals :: "Value \<Rightarrow> Value \<Rightarrow> CmpBool result" where
  "BigintType_CompareNotEquals left right = int_cmp_guard left right (BIGINT_COMPARE_FUNC NE left right)"

definition BigintType_CompareLessThan :: "Value \<Rightarrow> Value \<Rightarrow> CmpBool result" where
  "BigintType_CompareLessThan left right = int_cmp_guard left right (BIGINT_COMPARE_FUNC LT left right)"

definition BigintType_CompareLessThanEquals :: "Value \<Rightarrow> Value \<Rightarrow> CmpBool result" where
  "BigintType_CompareLessThanEquals left right = int_cmp_guard left right (BIGINT_COMPARE_FUNC LE left right)"

definition BigintType_CompareGreaterThan :: "Value \<Rightarrow> Value \<Rightarrow> CmpBool result" where
  "BigintType_CompareGreaterThan left right = int_cmp_guard left right (BIGINT_COMPARE_FUNC GT left right)"

definition BigintType_CompareGreaterThanEquals :: "Value \<Rightarrow> Value \<Rightarrow> CmpBool result" where
  "BigintType_CompareGreaterThanEquals left right = int_cmp_guard left right (BIGINT_COMPARE_FUNC GE left right)"

section \<open>DECIMAL\<close>

definition DECIMAL_COMPARE_FUNC :: "cmp_op \<Rightarrow> Value \<Rightarrow> Value \<Rightarrow> CmpBool result" where
  "DECIMAL_COMPARE_FUNC op left right = (case type_id right of
       TINYINT \<Rightarrow> Inr (GetCmpBool (cmp_double op (GetAs_double left) (double_of_int (GetAs I8 right))))
     | SMALLINT \<Rightarrow> Inr (GetCmpBool (cmp_double op (GetAs_double left) (double_of_int (GetAs I16 right))))
     | INTEGER \<Rightarrow> Inr (GetCmpBool (cmp_double op (GetAs_double left) (double_of_int (GetAs I32 right))))
     | BIGINT \<Rightarrow> Inr (GetCmpBool (cmp_double op (GetAs_double left) (double_of_int (GetAs I64 right))))
     | DECIMAL \<Rightarrow> Inr (GetCmpBool (cmp_double op (GetAs_double left) (GetAs_double right)))
     | VARCHAR \<Rightarrow> rbind (CastAs right DECIMAL) (\<lambda>r_value.
         Inr (GetCmpBool (cmp_double op (GetAs_double left) (GetAs_double r_value))))
     | _ \<Rightarrow> type_error)"

definition DecimalType_CompareEquals :: "Value \<Rightarrow> Value \<Rightarrow> CmpBool result" where
  "DecimalType_CompareEquals left right = cmp_guard left right (DECIMAL_COMPARE_FUNC EQ left right)"

definition DecimalType_CompareNotEquals :: "Value \<Rightarrow> Value \<Rightarrow> CmpBool result" where
  "DecimalType_CompareNotEquals left right = cmp_guard left right (DECIMAL_COMPARE_FUNC NE left right)"

definition DecimalType_CompareLessThan :: "Value \<Rightarrow> Value \<Rightarrow> CmpBool result" where
  "DecimalType_CompareLessThan left right = cmp_guard left right (DECIMAL_COMPARE_FUNC LT left right)"

definition DecimalType_CompareLessThanEquals :: "Value \<Rightarrow> Value \<Rightarrow> CmpBool result" where
  "DecimalType_CompareLessThanEquals left right = cmp_guard left right (DECIMAL_COMPARE_FUNC LE left right)"

definition DecimalType_CompareGreaterThan :: "Value \<Rightarrow> Value \<Rightarrow> CmpBool result" where
  "DecimalType_CompareGreaterThan left right = cmp_guard left right (DECIMAL_COMPARE_FUNC GT left right)"

definition DecimalType_CompareGreaterThanEquals :: "Value \<Rightarrow> Value \<Rightarrow> CmpBool result" where
  "DecimalType_CompareGreaterThanEquals left right = cmp_guard left right (DECIMAL_COMPARE_FUNC GE left right)"

section \<open>BOOLEAN\<close>

definition BOOLEAN_COMPARE_FUNC :: "cmp_op \<Rightarrow> Value \<Rightarrow> Value \<Rightarrow> CmpBool result" where
  "BOOLEAN_COMPARE_FUNC op left right = rbind (CastAs right BOOLEAN) (\<lambda>r_value.
     Inr (GetCmpBool (cmp_int op (GetAs I8 left) (GetAs I8 r_value))))"

definition BooleanType_CompareEquals :: "Value \<Rightarrow> Value \<Rightarrow> CmpBool result" where
  "BooleanType_CompareEquals left right = cmp_guard left right (BOOLEAN_COMPARE_FUNC EQ left right)"

definition BooleanType_CompareNotEquals :: "Value \<Rightarrow> Value \<Rightarrow> CmpBool result" where
  "BooleanType_CompareNotEquals left right = cmp_guard left right (BOOLEAN_COMPARE_FUNC NE left right)"

definition BooleanType_CompareLessThan :: "Value \<Rightarrow> Value \<Rightarrow> CmpBool result" where
  "BooleanType_CompareLessThan left right = cmp_guard left right (BOOLEAN_COMPARE_FUNC LT left right)"

definition BooleanType_CompareLessThanEquals :: "Value \<Rightarrow> Value \<Rightarrow> CmpBool result" where
  "BooleanType_CompareLessThanEquals left right = cmp_guard left right (BOOLEAN_COMPARE_FUNC LE left right)"

definition BooleanType_CompareGreaterThan :: "Value \<Rightarrow> Value \<Rightarrow> CmpBool result" where
  "BooleanType_CompareGreaterThan left right = cmp_guard left right (BOOLEAN_COMPARE_FUNC GT left right)"

definition BooleanType_CompareGreaterThanEquals :: "Value \<Rightarrow> Value \<Rightarrow> CmpBool result" where
  "BooleanType_CompareGreaterThanEquals left right = cmp_guard left right (BOOLEAN_COMPARE_FUNC GE left right)"

section \<open>VARCHAR\<close>

text \<open>\<open>memcmp\<close> on the first \<open>n\<close> bytes: the sign of the first difference, bytes unsigned.  Lengths are
  \<open>int\<close> parameters, so a length of \<open>2^31\<close> or more fails the assertion.\<close>

fun memcmp :: "buffer \<Rightarrow> buffer \<Rightarrow> nat \<Rightarrow> int" where
  "memcmp (a # as) (b # bs) (Suc n) = (if a = b then memcmp as bs n
     else if (of_char a :: nat) < of_char b then - 1 else 1)"
| "memcmp _ _ _ = 0"

lemma memcmp_code [code]:
  "memcmp as bs n = (case as of [] \<Rightarrow> 0 | a # as' \<Rightarrow> (case bs of [] \<Rightarrow> 0 | b # bs' \<Rightarrow>
     if n = 0 then 0 else if a = b then memcmp as' bs' (n - 1) else if (of_char a :: nat) < of_char b then - 1 else 1))"
  by (cases n) (simp_all split: list.split)

definition CompareStrings :: "buffer option \<Rightarrow> int \<Rightarrow> buffer option \<Rightarrow> int \<Rightarrow> int result" where
  "CompareStrings str1 len1 str2 len2 = assert (str1 \<noteq> None) (assert (len1 \<ge> 0)
     (assert (str2 \<noteq> None) (assert (len2 \<ge> 0)
       (let n = nat (min len1 len2) in
        rbind (deref str1 0 n) (\<lambda>a. rbind (deref str2 0 n) (\<lambda>b.
          let ret = memcmp a b n in
          Inr (if ret = 0 \<and> len1 \<noteq> len2 then len1 - len2 else ret)))))))"

text \<open>\<open>GetStorageSize(v) - 1\<close> as a \<open>uint32_t\<close>, converted to the \<open>int\<close> parameter.\<close>

definition str_len :: "Value \<Rightarrow> int" where
  "str_len v = static_cast I32 ((int (VarlenType_GetStorageSize v) - 1) mod 2 ^ 32)"

definition VARLEN_COMPARE_FUNC :: "cmp_op \<Rightarrow> Value \<Rightarrow> Value \<Rightarrow> CmpBool result" where
  "VARLEN_COMPARE_FUNC op left right = rbind (Value_GetData left) (\<lambda>str1.
     rbind (if type_id right = VARCHAR then Inr right else CastAs right VARCHAR) (\<lambda>r_value.
       rbind (Value_GetData r_value) (\<lambda>str2.
         rbind (CompareStrings str1 (str_len left) str2 (str_len r_value)) (\<lambda>c.
           Inr (GetCmpBool (cmp_int op c 0))))))"

definition VarlenType_CompareEquals :: "Value \<Rightarrow> Value \<Rightarrow> CmpBool result" where
  "VarlenType_CompareEquals left right = cmp_guard left right (VARLEN_COMPARE_FUNC EQ left right)"

definition VarlenType_CompareNotEquals :: "Value \<Rightarrow> Value \<Rightarrow> CmpBool result" where
  "VarlenType_CompareNotEquals left right = cmp_guard left right (VARLEN_COMPARE_FUNC NE left right)"

definition VarlenType_CompareLessThan :: "Value \<Rightarrow> Value \<Rightarrow> CmpBool result" where
  "VarlenType_CompareLessThan left right = cmp_guard left right (VARLEN_COMPARE_FUNC LT left right)"

definition VarlenType_CompareLessThanEquals :: "Value \<Rightarrow> Value \<Rightarrow> CmpBool result" where
  "VarlenType_CompareLessThanEquals left right = cmp_guard left right (VARLEN_COMPARE_FUNC LE left right)"

definition VarlenType_CompareGreaterThan :: "Value \<Rightarrow> Value \<Rightarrow> CmpBool result" where
  "VarlenType_CompareGreaterThan left right = cmp_guard left right (VARLEN_COMPARE_FUNC GT left right)"

definition VarlenType_CompareGreaterThanEquals :: "Value \<Rightarrow> Value \<Rightarrow> CmpBool result" where
  "VarlenType_CompareGreaterThanEquals left right = cmp_guard left right (VARLEN_COMPARE_FUNC GE left right)"

section \<open>TIMESTAMP and VECTOR\<close>

definition TimestampType_CompareEquals :: "Value \<Rightarrow> Value \<Rightarrow> CmpBool result" where
  "TimestampType_CompareEquals left right = cmp_guard left right
     (Inr (GetCmpBool (GetAs_uint64 left = GetAs_uint64 right)))"

definition TimestampType_CompareNotEquals :: "Value \<Rightarrow> Value \<Rightarrow> CmpBool result" where
  "TimestampType_CompareNotEquals left right = assert (CheckComparable left right)
     (if IsNull right then Inr CmpNull
      else Inr (GetCmpBool (GetAs_uint64 left \<noteq> GetAs_uint64 right)))"

definition TimestampType_CompareLessThan :: "Value \<Rightarrow> Value \<Rightarrow> CmpBool result" where
  "TimestampType_CompareLessThan left right = cmp_guard left right
     (Inr (GetCmpBool (GetAs_uint64 left < GetAs_uint64 right)))"

definition TimestampType_CompareLessThanEquals :: "Value \<Rightarrow> Value \<Rightarrow> CmpBool result" where
  "TimestampType_CompareLessThanEquals left right = cmp_guard left right
     (Inr (GetCmpBool (GetAs_uint64 left \<le> GetAs_uint64 right)))"

definition TimestampType_CompareGreaterThan :: "Value \<Rightarrow> Value \<Rightarrow> CmpBool result" where
  "TimestampType_CompareGreaterThan left right = cmp_guard left right
     (Inr (GetCmpBool (GetAs I64 left > GetAs I64 right)))"

definition TimestampType_CompareGreaterThanEquals :: "Value \<Rightarrow> Value \<Rightarrow> CmpBool result" where
  "TimestampType_CompareGreaterThanEquals left right = cmp_guard left right
     (Inr (GetCmpBool (GetAs_uint64 left \<ge> GetAs_uint64 right)))"

definition VectorType_CompareEquals :: "Value \<Rightarrow> Value \<Rightarrow> CmpBool result" where
  "VectorType_CompareEquals left right = Inl (LogicError ''vector type comparison not supported'')"

definition VectorType_CompareNotEquals :: "Value \<Rightarrow> Value \<Rightarrow> CmpBool result" where
  "VectorType_CompareNotEquals left right = Inl (LogicError ''vector type comparison not supported'')"

definition VectorType_CompareLessThan :: "Value \<Rightarrow> Value \<Rightarrow> CmpBool result" where
  "VectorType_CompareLessThan left right = Inl (LogicError ''vector type comparison not supported'')"

definition VectorType_CompareLessThanEquals :: "Value \<Rightarrow> Value \<Rightarrow> CmpBool result" where
  "VectorType_CompareLessThanEquals left right = Inl (LogicError ''vector type comparison not supported'')"

definition VectorType_CompareGreaterThan :: "Value \<Rightarrow> Value \<Rightarrow> CmpBool result" where
  "VectorType_CompareGreaterThan left right = Inl (LogicError ''vector type comparison not supported'')"

definition VectorType_CompareGreaterThanEquals :: "Value \<Rightarrow> Value \<Rightarrow> CmpBool result" where
  "VectorType_CompareGreaterThanEquals left right = Inl (LogicError ''vector type comparison not supported'')"

section \<open>Dispatch\<close>

definition CompareEquals :: "Value \<Rightarrow> Value \<Rightarrow> CmpBool result" where
  "CompareEquals v o' = (case type_id v of
       TINYINT \<Rightarrow> TinyintType_CompareEquals v o'
     | SMALLINT \<Rightarrow> SmallintType_CompareEquals v o'
     | INTEGER \<Rightarrow> IntegerType_CompareEquals v o'
     | BIGINT \<Rightarrow> BigintType_CompareEquals v o'
     | BOOLEAN \<Rightarrow> BooleanType_CompareEquals v o'
     | DECIMAL \<Rightarrow> DecimalType_CompareEquals v o'
     | VARCHAR \<Rightarrow> VarlenType_CompareEquals v o'
     | TIMESTAMP \<Rightarrow> TimestampType_CompareEquals v o'
     | VECTOR \<Rightarrow> VectorType_CompareEquals v o'
     | INVALID \<Rightarrow> not_implemented ''CompareEquals not implemented'')"

definition CompareNotEquals :: "Value \<Rightarrow> Value \<Rightarrow> CmpBool result" where
  "CompareNotEquals v o' = (case type_id v of
       TINYINT \<Rightarrow> TinyintType_CompareNotEquals v o'
     | SMALLINT \<Rightarrow> SmallintType_CompareNotEquals v o'
     | INTEGER \<Rightarrow> IntegerType_CompareNotEquals v o'
     | BIGINT \<Rightarrow> BigintType_CompareNotEquals v o'
     | BOOLEAN \<Rightarrow> BooleanType_CompareNotEquals v o'
     | DECIMAL \<Rightarrow> DecimalType_CompareNotEquals v o'
     | VARCHAR \<Rightarrow> VarlenType_CompareNotEquals v o'
     | TIMESTAMP \<Rightarrow> TimestampType_CompareNotEquals v o'
     | VECTOR \<Rightarrow> VectorType_CompareNotEquals v o'
     | INVALID \<Rightarrow> not_implemented ''CompareNotEquals not implemented'')"

definition CompareLessThan :: "Value \<Rightarrow> Value \<Rightarrow> CmpBool result" where
  "CompareLessThan v o' = (case type_id v of
       TINYINT \<Rightarrow> TinyintType_CompareLessThan v o'
     | SMALLINT \<Rightarrow> SmallintType_CompareLessThan v o'
     | INTEGER \<Rightarrow> IntegerType_CompareLessThan v o'
     | BIGINT \<Rightarrow> BigintType_CompareLessThan v o'
     | BOOLEAN \<Rightarrow> BooleanType_CompareLessThan v o'
     | DECIMAL \<Rightarrow> DecimalType_CompareLessThan v o'
     | VARCHAR \<Rightarrow> VarlenType_CompareLessThan v o'
     | TIMESTAMP \<Rightarrow> TimestampType_CompareLessThan v o'
     | VECTOR \<Rightarrow> VectorType_CompareLessThan v o'
     | INVALID \<Rightarrow> not_implemented ''CompareLessThan not implemented'')"

definition CompareLessThanEquals :: "Value \<Rightarrow> Value \<Rightarrow> CmpBool result" where
  "CompareLessThanEquals v o' = (case type_id v of
       TINYINT \<Rightarrow> TinyintType_CompareLessThanEquals v o'
     | SMALLINT \<Rightarrow> SmallintType_CompareLessThanEquals v o'
     | INTEGER \<Rightarrow> IntegerType_CompareLessThanEquals v o'
     | BIGINT \<Rightarrow> BigintType_CompareLessThanEquals v o'
     | BOOLEAN \<Rightarrow> BooleanType_CompareLessThanEquals v o'
     | DECIMAL \<Rightarrow> DecimalType_CompareLessThanEquals v o'
     | VARCHAR \<Rightarrow> VarlenType_CompareLessThanEquals v o'
     | TIMESTAMP \<Rightarrow> TimestampType_CompareLessThanEquals v o'
     | VECTOR \<Rightarrow> VectorType_CompareLessThanEquals v o'
     | INVALID \<Rightarrow> not_implemented ''CompareLessThanEqual not implemented'')"

definition CompareGreaterThan :: "Value \<Rightarrow> Value \<Rightarrow> CmpBool result" where
  "CompareGreaterThan v o' = (case type_id v of
       TINYINT \<Rightarrow> TinyintType_CompareGreaterThan v o'
     | SMALLINT \<Rightarrow> SmallintType_CompareGreaterThan v o'
     | INTEGER \<Rightarrow> IntegerType_CompareGreaterThan v o'
     | BIGINT \<Rightarrow> BigintType_CompareGreaterThan v o'
     | BOOLEAN \<Rightarrow> BooleanType_CompareGreaterThan v o'
     | DECIMAL \<Rightarrow> DecimalType_CompareGreaterThan v o'
     | VARCHAR \<Rightarrow> VarlenType_CompareGreaterThan v o'
     | TIMESTAMP \<Rightarrow> TimestampType_CompareGreaterThan v o'
     | VECTOR \<Rightarrow> VectorType_CompareGreaterThan v o'
     | INVALID \<Rightarrow> not_implemented ''CompareGreaterThan not implemented'')"

definition CompareGreaterThanEquals :: "Value \<Rightarrow> Value \<Rightarrow> CmpBool result" where
  "CompareGreaterThanEquals v o' = (case type_id v of
       TINYINT \<Rightarrow> TinyintType_CompareGreaterThanEquals v o'
     | SMALLINT \<Rightarrow> SmallintType_CompareGreaterThanEquals v o'
     | INTEGER \<Rightarrow> IntegerType_CompareGreaterThanEquals v o'
     | BIGINT \<Rightarrow> BigintType_CompareGreaterThanEquals v o'
     | BOOLEAN \<Rightarrow> BooleanType_CompareGreaterThanEquals v o'
     | DECIMAL \<Rightarrow> DecimalType_CompareGreaterThanEquals v o'
     | VARCHAR \<Rightarrow> VarlenType_CompareGreaterThanEquals v o'
     | TIMESTAMP \<Rightarrow> TimestampType_CompareGreaterThanEquals v o'
     | VECTOR \<Rightarrow> VectorType_CompareGreaterThanEquals v o'
     | INVALID \<Rightarrow> not_implemented ''CompareGreaterThanEqual not implemented'')"

definition CompareExactlyEquals :: "Value \<Rightarrow> Value \<Rightarrow> bool result" where
  "CompareExactlyEquals v o' = (if IsNull v \<and> IsNull o' then Inr True
     else rbind (CompareEquals v o') (\<lambda>c. Inr (c = CmpTrue)))"

text \<open>The comparison for an operator, used by the statements below.\<close>

fun Compare :: "cmp_op \<Rightarrow> Value \<Rightarrow> Value \<Rightarrow> CmpBool result" where
  "Compare EQ = CompareEquals" | "Compare NE = CompareNotEquals" | "Compare LT = CompareLessThan"
| "Compare LE = CompareLessThanEquals" | "Compare GT = CompareGreaterThan"
| "Compare GE = CompareGreaterThanEquals"

section \<open>Three-valued comparisons\<close>

lemmas compare_dispatch = CompareEquals_def CompareNotEquals_def CompareLessThan_def
  CompareLessThanEquals_def CompareGreaterThan_def CompareGreaterThanEquals_def

lemmas int_compare_methods =
  TinyintType_CompareEquals_def TinyintType_CompareNotEquals_def TinyintType_CompareLessThan_def
  TinyintType_CompareLessThanEquals_def TinyintType_CompareGreaterThan_def
  TinyintType_CompareGreaterThanEquals_def
  SmallintType_CompareEquals_def SmallintType_CompareNotEquals_def SmallintType_CompareLessThan_def
  SmallintType_CompareLessThanEquals_def SmallintType_CompareGreaterThan_def
  SmallintType_CompareGreaterThanEquals_def
  IntegerType_CompareEquals_def IntegerType_CompareNotEquals_def IntegerType_CompareLessThan_def
  IntegerType_CompareLessThanEquals_def IntegerType_CompareGreaterThan_def
  IntegerType_CompareGreaterThanEquals_def
  BigintType_CompareEquals_def BigintType_CompareNotEquals_def BigintType_CompareLessThan_def
  BigintType_CompareLessThanEquals_def BigintType_CompareGreaterThan_def
  BigintType_CompareGreaterThanEquals_def
  TINYINT_COMPARE_FUNC_def SMALLINT_COMPARE_FUNC_def INT_COMPARE_FUNC_def BIGINT_COMPARE_FUNC_def

lemmas other_compare_methods =
  DecimalType_CompareEquals_def DecimalType_CompareNotEquals_def DecimalType_CompareLessThan_def
  DecimalType_CompareLessThanEquals_def DecimalType_CompareGreaterThan_def
  DecimalType_CompareGreaterThanEquals_def
  BooleanType_CompareEquals_def BooleanType_CompareNotEquals_def BooleanType_CompareLessThan_def
  BooleanType_CompareLessThanEquals_def BooleanType_CompareGreaterThan_def
  BooleanType_CompareGreaterThanEquals_def
  VarlenType_CompareEquals_def VarlenType_CompareNotEquals_def VarlenType_CompareLessThan_def
  VarlenType_CompareLessThanEquals_def VarlenType_CompareGreaterThan_def
  VarlenType_CompareGreaterThanEquals_def
  TimestampType_CompareEquals_def TimestampType_CompareNotEquals_def TimestampType_CompareLessThan_def
  TimestampType_CompareLessThanEquals_def TimestampType_CompareGreaterThan_def
  TimestampType_CompareGreaterThanEquals_def

lemma Compare_unfold:
  "type_id l \<notin> {INVALID, TIMESTAMP, VECTOR} \<Longrightarrow> Compare op l r = (case type_id l of
     TINYINT \<Rightarrow> int_cmp_guard l r (COMPARE_FUNC I8 TINYINT op l r)
   | SMALLINT \<Rightarrow> int_cmp_guard l r (COMPARE_FUNC I16 SMALLINT op l r)
   | INTEGER \<Rightarrow> int_cmp_guard l r (COMPARE_FUNC I32 INTEGER op l r)
   | BIGINT \<Rightarrow> int_cmp_guard l r (COMPARE_FUNC I64 BIGINT op l r)
   | DECIMAL \<Rightarrow> cmp_guard l r (DECIMAL_COMPARE_FUNC op l r)
   | BOOLEAN \<Rightarrow> cmp_guard l r (BOOLEAN_COMPARE_FUNC op l r)
   | VARCHAR \<Rightarrow> cmp_guard l r (VARLEN_COMPARE_FUNC op l r)
   | _ \<Rightarrow> type_error)"
  by (cases op; cases "type_id l")
    (simp_all add: compare_dispatch int_compare_methods other_compare_methods)

lemma Compare_int_vals:
  assumes "int_operand l" "int_operand r"
  shows "Compare op l r = Inr (GetCmpBool (cmp_int op (int_val l) (int_val r)))"
proof -
  have "COMPARE_FUNC (ity l) self op l r = Inr (GetCmpBool (cmp_int op (int_val l) (int_val r)))" for self
    using assms(2) by (cases rule: int_operand_cases) (auto simp: COMPARE_FUNC_def int_val_def)
  with assms(1) show ?thesis using int_operands_ok [OF assms]
    by (cases rule: int_operand_cases) (simp_all add: Compare_unfold int_cmp_guard_def cmp_guard_def)
qed

text \<open>Every comparison of two non-NULL integers of any of the four widths compares their
  mathematical values.\<close>

theorem Compare_int:
  assumes "int_operand l" "int_operand r"
  shows "Compare op l r = Inr (GetCmpBool (cmp_int op (int_val l) (int_val r)))"
  using assms by (rule Compare_int_vals)

theorem Compare_int_witness:
  "Compare LT (set_int TINYINT I8 (cmin I8) (- 1)) (set_int BIGINT I64 (cmin I64) 4294967295) = Inr CmpTrue"
proof -
  have o: "int_operand (set_int TINYINT I8 (cmin I8) (- 1))" "int_operand (set_int BIGINT I64 (cmin I64) 4294967295)"
    by code_simp+
  show ?thesis unfolding Compare_int [OF o] by code_simp
qed

lemma Compare_null_vals:
  assumes "CheckComparable l r" "IsNull l \<or> IsNull r"
  shows "Compare op l r = Inr CmpNull"
  using assms
  by (subst Compare_unfold) (cases "type_id l"; auto simp: int_cmp_guard_def cmp_guard_def CheckInteger_def
      CheckComparable_def)+

text \<open>A comparison of comparable values with a NULL on either side is CmpNull, whatever the
  operator and the types.\<close>

theorem Compare_null:
  assumes "CheckComparable l r" "IsNull l \<or> IsNull r"
  shows "Compare op l r = Inr CmpNull"
  using assms by (rule Compare_null_vals)

theorem Compare_null_witness:
  "Compare EQ (set_int INTEGER I32 (cmin I32) 5) (Value_ctor VARCHAR) = Inr CmpNull"
proof -
  have "CheckComparable (set_int INTEGER I32 (cmin I32) 5) (Value_ctor VARCHAR)" by code_simp
  then show ?thesis by (rule Compare_null) simp
qed

text \<open>Comparing a TIMESTAMP with anything fails an assertion: \<open>CheckComparable\<close> has no case for
  it, so the six comparison methods of \<open>TimestampType\<close> are unreachable in a debug build.\<close>

theorem Compare_timestamp_asserts:
  "type_id l = TIMESTAMP \<Longrightarrow> Compare op l r = Inl AssertFail"
  by (cases op) (simp_all add: compare_dispatch other_compare_methods cmp_guard_def CheckComparable_def)

theorem Compare_timestamp_asserts_witness:
  "Compare EQ (set_timestamp 5) (set_timestamp 5) = Inl AssertFail"
proof -
  have "type_id (set_timestamp 5) = TIMESTAMP" by code_simp
  then show ?thesis by (rule Compare_timestamp_asserts)
qed

subsection \<open>Strings\<close>

text \<open>The order of two strings as a three-way comparison of their bytes.\<close>

fun lex_cmp :: "string \<Rightarrow> string \<Rightarrow> int" where
  "lex_cmp [] [] = 0"
| "lex_cmp [] (b # bs) = - 1"
| "lex_cmp (a # as) [] = 1"
| "lex_cmp (a # as) (b # bs) = (if a = b then lex_cmp as bs
     else if (of_char a :: nat) < of_char b then - 1 else 1)"

lemma memcmp_lex:
  "sgn (let ret = memcmp (take n s) (take n t) n in
      if ret = 0 \<and> length s \<noteq> length t then int (length s) - int (length t) else ret) = lex_cmp s t"
  if "n = min (length s) (length t)"
  using that
proof (induction s t arbitrary: n rule: lex_cmp.induct)
  case (4 a as b bs)
  then obtain m where "n = Suc m" "m = min (length as) (length bs)" by auto
  then show ?case using "4.IH" [of m] by (auto simp: Let_def)
qed (auto simp: Let_def)

lemma lex_cmp_eq_0: "lex_cmp s t = 0 \<longleftrightarrow> s = t"
  by (induction s t rule: lex_cmp.induct) auto

lemma lex_cmp_lexord:
  "lex_cmp s t < 0 \<longleftrightarrow> (s, t) \<in> lexord {(a, b). (of_char a :: nat) < of_char b}"
  by (induction s t rule: lex_cmp.induct) auto

lemma lex_cmp_swap: "lex_cmp t s = - lex_cmp s t"
proof (induction s t rule: lex_cmp.induct)
  case (4 a as b bs)
  have "a \<noteq> b \<Longrightarrow> (of_char a :: nat) \<noteq> of_char b" by (simp add: of_char_eq_iff)
  then show ?case using 4 by auto
qed auto

lemma cmp_int_sgn: "cmp_int op (sgn z) 0 = cmp_int op z 0"
  by (cases op) (auto simp: sgn_if)

text \<open>A \<open>VARCHAR\<close> value holding the string \<open>s\<close>.\<close>

definition str_value :: "string \<Rightarrow> Value" where
  "str_value s = (Value_ctor VARCHAR) \<lparr> varlen := Some (s @ [char_of (0::nat)]),
     size_len := length s + 1, manage_data := True \<rparr>"

lemma Value_string_str_value:
  "length s + 1 < 2 ^ 32 \<Longrightarrow> Value_string VARCHAR s = Inr (str_value s)"
  by (simp add: Value_string_def str_value_def)

lemma Compare_str_vals:
  assumes "length s < 2 ^ 31" "length t < 2 ^ 31"
  shows "Compare op (str_value s) (str_value t) = Inr (GetCmpBool (cmp_int op (lex_cmp s t) 0))
     \<and> (lex_cmp s t = 0 \<longleftrightarrow> s = t)
     \<and> (lex_cmp s t < 0 \<longleftrightarrow> (s, t) \<in> lexord {(a, b). (of_char a :: nat) < of_char b})"
proof -
  let ?n = "min (length s) (length t)"
  have len: "str_len (str_value u) = int (length u)" if "length u < 2 ^ 31" for u
  proof -
    have "in_range I32 (int (length u))" using that by (simp add: in_range_def)
    then show ?thesis using that
      by (simp add: str_len_def VarlenType_GetStorageSize_def str_value_def static_cast_id)
  qed
  have n: "nat (min (int (length s)) (int (length t))) = ?n" by simp
  have der: "deref (varlen (str_value u)) 0 ?n = Inr (take ?n u)" if "?n \<le> length u" for u
    using that by (simp add: deref_def str_value_def read_at_def)
  have cs: "\<exists>c. CompareStrings (varlen (str_value s)) (int (length s)) (varlen (str_value t)) (int (length t)) = Inr c
      \<and> sgn c = lex_cmp s t"
    using memcmp_lex [OF refl, of s t]
    by (simp add: CompareStrings_def Let_def n der) (auto simp: str_value_def split: if_splits)
  have v: "type_id (str_value u) = VARCHAR" "\<not> IsNull (str_value u)" if "length u < 2 ^ 31" for u
    using that by (simp_all add: str_value_def IsNull_def BUSTUB_VALUE_NULL_def)
  from cs obtain c where c: "CompareStrings (varlen (str_value s)) (int (length s)) (varlen (str_value t))
      (int (length t)) = Inr c" "sgn c = lex_cmp s t" by auto
  have "VARLEN_COMPARE_FUNC op (str_value s) (str_value t) = Inr (GetCmpBool (cmp_int op c 0))"
    using assms by (simp add: VARLEN_COMPARE_FUNC_def Value_GetData_def v VarlenType_GetData_def len c)
  then show ?thesis
    using assms c(2) cmp_int_sgn [of op c] lex_cmp_eq_0 lex_cmp_lexord
    by (simp add: Compare_unfold v cmp_guard_def CheckComparable_def)
qed

text \<open>Comparing two VARCHAR values compares their bytes lexicographically: equality is equality
  of the strings, and less-than is the lexicographic order on unsigned bytes.\<close>

theorem Compare_varchar:
  assumes "length s < 2 ^ 31" "length t < 2 ^ 31"
  shows "Compare op (str_value s) (str_value t) = Inr (GetCmpBool (cmp_int op (lex_cmp s t) 0))
     \<and> (lex_cmp s t = 0 \<longleftrightarrow> s = t)
     \<and> (lex_cmp s t < 0 \<longleftrightarrow> (s, t) \<in> lexord {(a, b). (of_char a :: nat) < of_char b})"
  using assms by (rule Compare_str_vals)

theorem Compare_varchar_witness:
  "Compare LT (str_value ''ab'') (str_value ''b'') = Inr CmpTrue"
proof -
  have l: "length ''ab'' < 2 ^ 31" "length ''b'' < 2 ^ 31" by simp_all
  have "cmp_int LT (lex_cmp ''ab'' ''b'') 0" by code_simp
  then show ?thesis using Compare_varchar [OF l, of LT] by (simp add: GetCmpBool_def)
qed

subsection \<open>Integers against decimals\<close>

lemma decode_DBL_LOWEST: "decode DBL_LOWEST = FFin True (2 ^ 53 - 1) 971"
  by code_simp

lemma double_of_int_not_null:
  assumes "\<bar>z\<bar> < 2 ^ 53" shows "\<not> cmp_double EQ (double_of_int z) BUSTUB_DECIMAL_NULL"
proof -
  obtain j where j: "decode (double_of_int z) = FFin (z < 0) (nat \<bar>z\<bar> * 2 ^ j) (- int j)"
    using double_of_int_decode assms by metis
  let ?M = "2 ^ 53 - 1 :: nat"
  have e: "min (- int j) 971 = - int j" "nat (- int j - - int j) = 0" "nat (971 - - int j) = 971 + j"
    by (simp_all add: nat_add_distrib)
  have "fp_cmp (decode (double_of_int z)) (FFin True ?M 971) =
      Some (sgn (z * int (2 ^ j) + int ?M * int (2 ^ (971 + j))))"
    unfolding j fp_cmp.simps Let_def e using apply_sign_abs [of z "2 ^ j"] by (simp add: apply_sign_def)
  moreover have "z * int (2 ^ j) + int ?M * int (2 ^ (971 + j)) = (z + int ?M * 2 ^ 971) * 2 ^ j"
    by (simp add: distrib_right power_add)
  moreover have "0 < z + int ?M * 2 ^ 971"
  proof -
    have "- (2 ^ 53) < z" using assms by simp
    moreover have "(2::int) ^ 53 \<le> int ?M * 2 ^ 971" by simp
    ultimately show ?thesis by linarith
  qed
  ultimately have "dcmp (double_of_int z) BUSTUB_DECIMAL_NULL = Some 1"
    by (simp add: dcmp_def BUSTUB_DECIMAL_NULL_def decode_DBL_LOWEST sgn_mult)
  then show ?thesis by (simp add: cmp_double_def)
qed

definition dec_value :: "double \<Rightarrow> Value" where
  "dec_value d = (Value_ctor DECIMAL) \<lparr> raw := d, size_len := null_len (cmp_double EQ d BUSTUB_DECIMAL_NULL) \<rparr>"

lemma dec_value_sel [simp]:
  "type_id (dec_value d) = DECIMAL" "GetAs_double (dec_value d) = d"
  "IsNull (dec_value d) \<longleftrightarrow> cmp_double EQ d BUSTUB_DECIMAL_NULL"
  by (simp_all add: dec_value_def GetAs_double_def IsNull_def null_len_def BUSTUB_VALUE_NULL_def)

lemma Value_double_dec_value [simp]: "Value_double DECIMAL d = Inr (dec_value d)"
  by (simp add: Value_double_def dec_value_def)

lemma CastAs_int_decimal:
  assumes "int_operand v" shows "CastAs v DECIMAL = Inr (dec_value (double_of_int (int_val v)))"
  using assms by (cases rule: int_operand_cases)
    (auto simp: CastAs_def int_cast_methods cast_decimal_def)

text \<open>An integer of magnitude below \<open>2^53\<close> compared, on either side, with the DECIMAL that another
  such integer casts to gives the same answer as comparing the integers: the conversions to
  double lose nothing.\<close>

theorem Compare_int_decimal:
  assumes "int_operand l" "int_operand r" "\<bar>int_val l\<bar> < 2 ^ 53" "\<bar>int_val r\<bar> < 2 ^ 53"
  shows "\<exists>d. CastAs r DECIMAL = Inr d \<and>
     Compare op l d = Inr (GetCmpBool (cmp_int op (int_val l) (int_val r))) \<and>
     Compare op d l = Inr (GetCmpBool (cmp_int op (int_val r) (int_val l)))"
proof -
  let ?d = "dec_value (double_of_int (int_val r))"
  have nn: "\<not> IsNull ?d" using double_of_int_not_null [OF assms(4)] by simp
  have 1: "Compare op l ?d = Inr (GetCmpBool (cmp_int op (int_val l) (int_val r)))"
    using assms(1) nn cmp_double_of_int [OF assms(3,4)]
    by (cases rule: int_operand_cases)
      (simp_all add: Compare_unfold int_cmp_guard_def cmp_guard_def CheckInteger_def CheckComparable_def
        COMPARE_FUNC_def)
  have 2: "Compare op ?d l = Inr (GetCmpBool (cmp_int op (int_val r) (int_val l)))"
    using assms(1) nn cmp_double_of_int [OF assms(4,3)]
    by (cases rule: int_operand_cases)
      (simp_all add: Compare_unfold cmp_guard_def CheckComparable_def DECIMAL_COMPARE_FUNC_def)
  show ?thesis using CastAs_int_decimal [OF assms(2)] 1 2 by blast
qed

theorem Compare_int_decimal_witness:
  "\<exists>d. CastAs (set_int INTEGER I32 (cmin I32) 7) DECIMAL = Inr d \<and>
     Compare LT (set_int BIGINT I64 (cmin I64) 3) d = Inr CmpTrue"
proof -
  have o: "int_operand (set_int BIGINT I64 (cmin I64) 3)" "int_operand (set_int INTEGER I32 (cmin I32) 7)"
    "\<bar>int_val (set_int BIGINT I64 (cmin I64) 3)\<bar> < 2 ^ 53" "\<bar>int_val (set_int INTEGER I32 (cmin I32) 7)\<bar> < 2 ^ 53"
    "cmp_int LT (int_val (set_int BIGINT I64 (cmin I64) 3)) (int_val (set_int INTEGER I32 (cmin I32) 7))"
    by code_simp+
  show ?thesis using Compare_int_decimal [OF o(1-4), of LT] o(5) by (auto simp: GetCmpBool_def)
qed

end
