(* ===== verification/TypeArith.thy ===== *)
theory TypeArith
  imports TypeCompare
begin

text \<open>
  Arithmetic: the templates \<open>AddValue\<close>, \<open>SubtractValue\<close>, \<open>MultiplyValue\<close>, \<open>DivideValue\<close> and
  \<open>ModuloValue\<close> of type/integer_parent_type.h, the \<open>*_MODIFY_FUNC\<close> macros, \<open>Add\<close>, \<open>Subtract\<close>,
  \<open>Multiply\<close>, \<open>Divide\<close>, \<open>Modulo\<close>, \<open>Sqrt\<close>, \<open>Min\<close> and \<open>Max\<close> of the type instances, and the dispatch of
  type/value.h.
\<close>

section \<open>The templates\<close>

text \<open>\<open>x + y\<close> is computed in the promoted type; \<open>sum1\<close> and \<open>sum2\<close> are its conversions to the
  operand types; \<open>sizeof\<close> selects the result type.\<close>

definition AddValue :: "cint \<Rightarrow> cint \<Rightarrow> Value \<Rightarrow> Value \<Rightarrow> Value result" where
  "AddValue T1 T2 left right = (let x = GetAs T1 left; y = GetAs T2 right;
       s = static_cast (promote T1 T2) (x + y);
       sum1 = static_cast T1 s; sum2 = static_cast T2 s in
     if s \<noteq> sum1 \<and> s \<noteq> sum2 then out_of_range
     else if bytes_of T1 \<ge> bytes_of T2 then
       (if (x > 0 \<and> y > 0 \<and> sum1 < 0) \<or> (x < 0 \<and> y < 0 \<and> sum1 > 0) then out_of_range
        else Value_of T1 (type_id left) sum1)
     else if (x > 0 \<and> y > 0 \<and> sum2 < 0) \<or> (x < 0 \<and> y < 0 \<and> sum2 > 0) then out_of_range
     else Value_of T2 (type_id right) sum2)"

definition SubtractValue :: "cint \<Rightarrow> cint \<Rightarrow> Value \<Rightarrow> Value \<Rightarrow> Value result" where
  "SubtractValue T1 T2 left right = (let x = GetAs T1 left; y = GetAs T2 right;
       s = static_cast (promote T1 T2) (x - y);
       diff1 = static_cast T1 s; diff2 = static_cast T2 s in
     if s \<noteq> diff1 \<and> s \<noteq> diff2 then out_of_range
     else if bytes_of T1 \<ge> bytes_of T2 then
       (if (x > 0 \<and> y < 0 \<and> diff1 < 0) \<or> (x < 0 \<and> y > 0 \<and> diff1 > 0) then out_of_range
        else Value_of T1 (type_id left) diff1)
     else if (x > 0 \<and> y < 0 \<and> diff2 < 0) \<or> (x < 0 \<and> y > 0 \<and> diff2 > 0) then out_of_range
     else Value_of T2 (type_id right) diff2)"

text \<open>Division of machine integers truncates towards zero and traps on zero and on the one
  quotient that does not fit the promoted type.\<close>

definition int_div :: "cint \<Rightarrow> int \<Rightarrow> int \<Rightarrow> int result" where
  "int_div P x y = (if y = 0 \<or> \<not> in_range P (x sdiv y) then Inl Undefined else Inr (x sdiv y))"

definition int_mod :: "cint \<Rightarrow> int \<Rightarrow> int \<Rightarrow> int result" where
  "int_mod P x y = (if y = 0 \<or> \<not> in_range P (x sdiv y) then Inl Undefined else Inr (x smod y))"

definition MultiplyValue :: "cint \<Rightarrow> cint \<Rightarrow> Value \<Rightarrow> Value \<Rightarrow> Value result" where
  "MultiplyValue T1 T2 left right = (let x = GetAs T1 left; y = GetAs T2 right; P = promote T1 T2;
       s = static_cast P (x * y);
       prod1 = static_cast T1 s; prod2 = static_cast T2 s in
     if s \<noteq> prod1 \<and> s \<noteq> prod2 then out_of_range
     else if bytes_of T1 \<ge> bytes_of T2 then
       rbind (if y \<noteq> 0 then rbind (int_div P prod1 y) (\<lambda>q. Inr (q \<noteq> x)) else Inr False) (\<lambda>ovf.
         if ovf then out_of_range else Value_of T1 (type_id left) prod1)
     else rbind (if y \<noteq> 0 then rbind (int_div P prod2 y) (\<lambda>q. Inr (q \<noteq> x)) else Inr False) (\<lambda>ovf.
         if ovf then out_of_range else Value_of T2 (type_id right) prod2))"

definition DivideValue :: "cint \<Rightarrow> cint \<Rightarrow> Value \<Rightarrow> Value \<Rightarrow> Value result" where
  "DivideValue T1 T2 left right = (let x = GetAs T1 left; y = GetAs T2 right in
     if y = 0 then Inl (Throw ET_DIVIDE_BY_ZERO ''Division by zero.'')
     else rbind (int_div (promote T1 T2) x y) (\<lambda>q.
       let quot1 = static_cast T1 q; quot2 = static_cast T2 q in
       if bytes_of T1 \<ge> bytes_of T2 then Value_of T1 (type_id left) quot1
       else Value_of T2 (type_id right) quot2))"

definition ModuloValue :: "cint \<Rightarrow> cint \<Rightarrow> Value \<Rightarrow> Value \<Rightarrow> Value result" where
  "ModuloValue T1 T2 left right = (let x = GetAs T1 left; y = GetAs T2 right in
     if y = 0 then Inl (Throw ET_DIVIDE_BY_ZERO ''Division by zero.'')
     else rbind (int_mod (promote T1 T2) x y) (\<lambda>q.
       let quot1 = static_cast T1 q; quot2 = static_cast T2 q in
       if bytes_of T1 \<ge> bytes_of T2 then Value_of T1 (type_id left) quot1
       else Value_of T2 (type_id right) quot2))"

definition ValMod :: "double \<Rightarrow> double \<Rightarrow> double" where
  "ValMod x y = dsub x (dmul (dtrunc (ddiv x y)) y)"

section \<open>The integer types\<close>

text \<open>The macro for the type with member type \<open>S\<close> and id \<open>self\<close>, a template \<open>METHOD\<close> and the double
  operation.\<close>

definition MODIFY_FUNC :: "cint \<Rightarrow> TypeId \<Rightarrow> (cint \<Rightarrow> cint \<Rightarrow> Value \<Rightarrow> Value \<Rightarrow> Value result) \<Rightarrow>
    (double \<Rightarrow> double \<Rightarrow> double) \<Rightarrow> Value \<Rightarrow> Value \<Rightarrow> Value result" where
  "MODIFY_FUNC S self METHOD dop left right = (case type_id right of
       TINYINT \<Rightarrow> METHOD S I8 left right
     | SMALLINT \<Rightarrow> METHOD S I16 left right
     | INTEGER \<Rightarrow> METHOD S I32 left right
     | BIGINT \<Rightarrow> METHOD S I64 left right
     | DECIMAL \<Rightarrow> Value_double DECIMAL (dop (double_of_int (GetAs S left)) (GetAs_double right))
     | VARCHAR \<Rightarrow> rbind (CastAs right self) (METHOD S S left)
     | _ \<Rightarrow> type_error)"

definition TINYINT_MODIFY_FUNC :: "(cint \<Rightarrow> cint \<Rightarrow> Value \<Rightarrow> Value \<Rightarrow> Value result) \<Rightarrow>
    (double \<Rightarrow> double \<Rightarrow> double) \<Rightarrow> Value \<Rightarrow> Value \<Rightarrow> Value result" where
  "TINYINT_MODIFY_FUNC = MODIFY_FUNC I8 TINYINT"

definition SMALLINT_MODIFY_FUNC :: "(cint \<Rightarrow> cint \<Rightarrow> Value \<Rightarrow> Value \<Rightarrow> Value result) \<Rightarrow>
    (double \<Rightarrow> double \<Rightarrow> double) \<Rightarrow> Value \<Rightarrow> Value \<Rightarrow> Value result" where
  "SMALLINT_MODIFY_FUNC = MODIFY_FUNC I16 SMALLINT"

definition INT_MODIFY_FUNC :: "(cint \<Rightarrow> cint \<Rightarrow> Value \<Rightarrow> Value \<Rightarrow> Value result) \<Rightarrow>
    (double \<Rightarrow> double \<Rightarrow> double) \<Rightarrow> Value \<Rightarrow> Value \<Rightarrow> Value result" where
  "INT_MODIFY_FUNC = MODIFY_FUNC I32 INTEGER"

definition BIGINT_MODIFY_FUNC :: "(cint \<Rightarrow> cint \<Rightarrow> Value \<Rightarrow> Value \<Rightarrow> Value result) \<Rightarrow>
    (double \<Rightarrow> double \<Rightarrow> double) \<Rightarrow> Value \<Rightarrow> Value \<Rightarrow> Value result" where
  "BIGINT_MODIFY_FUNC = MODIFY_FUNC I64 BIGINT"


text \<open>The assertions and the NULL test that open every arithmetic method, and the zero test of
  \<open>Divide\<close> and \<open>Modulo\<close>.\<close>

definition arith_guard :: "Value \<Rightarrow> Value \<Rightarrow> Value result \<Rightarrow> Value result" where
  "arith_guard left right k = assert (CheckComparable left right)
     (if IsNull left \<or> IsNull right then Value_OperateNull left right else k)"

definition int_arith_guard :: "Value \<Rightarrow> Value \<Rightarrow> Value result \<Rightarrow> Value result" where
  "int_arith_guard left right k = assert (CheckInteger left) (arith_guard left right k)"

definition zero_guard :: "Value \<Rightarrow> Value result \<Rightarrow> Value result" where
  "zero_guard right k = rbind (Value_IsZero right) (\<lambda>z. if z
     then Inl (Throw ET_DIVIDE_BY_ZERO ''Division by zero on right-hand side'') else k)"

definition TinyintType_Add :: "Value \<Rightarrow> Value \<Rightarrow> Value result" where
  "TinyintType_Add left right = int_arith_guard left right (TINYINT_MODIFY_FUNC AddValue dadd left right)"

definition TinyintType_Subtract :: "Value \<Rightarrow> Value \<Rightarrow> Value result" where
  "TinyintType_Subtract left right = int_arith_guard left right (TINYINT_MODIFY_FUNC SubtractValue dsub left right)"

definition TinyintType_Multiply :: "Value \<Rightarrow> Value \<Rightarrow> Value result" where
  "TinyintType_Multiply left right = int_arith_guard left right (TINYINT_MODIFY_FUNC MultiplyValue dmul left right)"

definition TinyintType_Divide :: "Value \<Rightarrow> Value \<Rightarrow> Value result" where
  "TinyintType_Divide left right = int_arith_guard left right
     (zero_guard right (TINYINT_MODIFY_FUNC DivideValue ddiv left right))"

definition TinyintType_Modulo :: "Value \<Rightarrow> Value \<Rightarrow> Value result" where
  "TinyintType_Modulo left right = int_arith_guard left right
     (zero_guard right (TINYINT_MODIFY_FUNC ModuloValue ValMod left right))"

definition TinyintType_Sqrt :: "Value \<Rightarrow> Value result" where
  "TinyintType_Sqrt v = assert (CheckInteger v) (if IsNull v then decimal_null
     else if GetAs I8 v < 0 then Inl (Throw ET_DECIMAL ''Cannot take square root of a negative number.'')
     else Value_double DECIMAL (dsqrt (double_of_int (GetAs I8 v))))"

definition SmallintType_Add :: "Value \<Rightarrow> Value \<Rightarrow> Value result" where
  "SmallintType_Add left right = int_arith_guard left right (SMALLINT_MODIFY_FUNC AddValue dadd left right)"

definition SmallintType_Subtract :: "Value \<Rightarrow> Value \<Rightarrow> Value result" where
  "SmallintType_Subtract left right = int_arith_guard left right (SMALLINT_MODIFY_FUNC SubtractValue dsub left right)"

definition SmallintType_Multiply :: "Value \<Rightarrow> Value \<Rightarrow> Value result" where
  "SmallintType_Multiply left right = int_arith_guard left right (SMALLINT_MODIFY_FUNC MultiplyValue dmul left right)"

definition SmallintType_Divide :: "Value \<Rightarrow> Value \<Rightarrow> Value result" where
  "SmallintType_Divide left right = int_arith_guard left right
     (zero_guard right (SMALLINT_MODIFY_FUNC DivideValue ddiv left right))"

definition SmallintType_Modulo :: "Value \<Rightarrow> Value \<Rightarrow> Value result" where
  "SmallintType_Modulo left right = int_arith_guard left right
     (zero_guard right (SMALLINT_MODIFY_FUNC ModuloValue ValMod left right))"

definition SmallintType_Sqrt :: "Value \<Rightarrow> Value result" where
  "SmallintType_Sqrt v = assert (CheckInteger v) (if IsNull v then decimal_null
     else if GetAs I16 v < 0 then Inl (Throw ET_DECIMAL ''Cannot take square root of a negative number.'')
     else Value_double DECIMAL (dsqrt (double_of_int (GetAs I16 v))))"

definition IntegerType_Add :: "Value \<Rightarrow> Value \<Rightarrow> Value result" where
  "IntegerType_Add left right = int_arith_guard left right (INT_MODIFY_FUNC AddValue dadd left right)"

definition IntegerType_Subtract :: "Value \<Rightarrow> Value \<Rightarrow> Value result" where
  "IntegerType_Subtract left right = int_arith_guard left right (INT_MODIFY_FUNC SubtractValue dsub left right)"

definition IntegerType_Multiply :: "Value \<Rightarrow> Value \<Rightarrow> Value result" where
  "IntegerType_Multiply left right = int_arith_guard left right (INT_MODIFY_FUNC MultiplyValue dmul left right)"

definition IntegerType_Divide :: "Value \<Rightarrow> Value \<Rightarrow> Value result" where
  "IntegerType_Divide left right = int_arith_guard left right
     (zero_guard right (INT_MODIFY_FUNC DivideValue ddiv left right))"

definition IntegerType_Modulo :: "Value \<Rightarrow> Value \<Rightarrow> Value result" where
  "IntegerType_Modulo left right = int_arith_guard left right
     (zero_guard right (INT_MODIFY_FUNC ModuloValue ValMod left right))"

definition IntegerType_Sqrt :: "Value \<Rightarrow> Value result" where
  "IntegerType_Sqrt v = assert (CheckInteger v) (if IsNull v then IntegerType_OperateNull v v
     else if GetAs I32 v < 0 then Inl (Throw ET_DECIMAL ''Cannot take square root of a negative number.'')
     else Value_double DECIMAL (dsqrt (double_of_int (GetAs I32 v))))"

definition BigintType_Add :: "Value \<Rightarrow> Value \<Rightarrow> Value result" where
  "BigintType_Add left right = int_arith_guard left right (BIGINT_MODIFY_FUNC AddValue dadd left right)"

definition BigintType_Subtract :: "Value \<Rightarrow> Value \<Rightarrow> Value result" where
  "BigintType_Subtract left right = int_arith_guard left right (BIGINT_MODIFY_FUNC SubtractValue dsub left right)"

definition BigintType_Multiply :: "Value \<Rightarrow> Value \<Rightarrow> Value result" where
  "BigintType_Multiply left right = int_arith_guard left right (BIGINT_MODIFY_FUNC MultiplyValue dmul left right)"

definition BigintType_Divide :: "Value \<Rightarrow> Value \<Rightarrow> Value result" where
  "BigintType_Divide left right = int_arith_guard left right
     (zero_guard right (BIGINT_MODIFY_FUNC DivideValue ddiv left right))"

definition BigintType_Modulo :: "Value \<Rightarrow> Value \<Rightarrow> Value result" where
  "BigintType_Modulo left right = int_arith_guard left right
     (zero_guard right (BIGINT_MODIFY_FUNC ModuloValue ValMod left right))"

definition BigintType_Sqrt :: "Value \<Rightarrow> Value result" where
  "BigintType_Sqrt v = assert (CheckInteger v) (if IsNull v then decimal_null
     else if GetAs I64 v < 0 then Inl (Throw ET_DECIMAL ''Cannot take square root of a negative number.'')
     else Value_double DECIMAL (dsqrt (double_of_int (GetAs I64 v))))"

text \<open>\<open>IntegerParentType::Min\<close> and \<open>Max\<close>, inherited by the four integer types.\<close>

definition IntegerParentType_Min :: "Value \<Rightarrow> Value \<Rightarrow> Value result" where
  "IntegerParentType_Min left right = int_arith_guard left right
     (rbind (CompareLessThan left right) (\<lambda>c. if c = CmpTrue then Value_Copy left else Value_Copy right))"

definition IntegerParentType_Max :: "Value \<Rightarrow> Value \<Rightarrow> Value result" where
  "IntegerParentType_Max left right = int_arith_guard left right
     (rbind (CompareGreaterThanEquals left right) (\<lambda>c. if c = CmpTrue then Value_Copy left else Value_Copy right))"

section \<open>DECIMAL\<close>

definition DECIMAL_MODIFY_FUNC :: "(double \<Rightarrow> double \<Rightarrow> double) \<Rightarrow> Value \<Rightarrow> Value \<Rightarrow> Value result" where
  "DECIMAL_MODIFY_FUNC dop left right = (case type_id right of
       TINYINT \<Rightarrow> Value_double DECIMAL (dop (GetAs_double left) (double_of_int (GetAs I8 right)))
     | SMALLINT \<Rightarrow> Value_double DECIMAL (dop (GetAs_double left) (double_of_int (GetAs I16 right)))
     | INTEGER \<Rightarrow> Value_double DECIMAL (dop (GetAs_double left) (double_of_int (GetAs I32 right)))
     | BIGINT \<Rightarrow> Value_double DECIMAL (dop (GetAs_double left) (double_of_int (GetAs I64 right)))
     | DECIMAL \<Rightarrow> Value_double DECIMAL (dop (GetAs_double left) (GetAs_double right))
     | VARCHAR \<Rightarrow> rbind (CastAs right DECIMAL) (\<lambda>r_value.
         Value_double DECIMAL (dop (GetAs_double left) (GetAs_double r_value)))
     | _ \<Rightarrow> type_error)"

definition DecimalType_Add :: "Value \<Rightarrow> Value \<Rightarrow> Value result" where
  "DecimalType_Add left right = arith_guard left right (DECIMAL_MODIFY_FUNC dadd left right)"

definition DecimalType_Subtract :: "Value \<Rightarrow> Value \<Rightarrow> Value result" where
  "DecimalType_Subtract left right = arith_guard left right (DECIMAL_MODIFY_FUNC dsub left right)"

definition DecimalType_Multiply :: "Value \<Rightarrow> Value \<Rightarrow> Value result" where
  "DecimalType_Multiply left right = arith_guard left right (DECIMAL_MODIFY_FUNC dmul left right)"

definition DecimalType_Divide :: "Value \<Rightarrow> Value \<Rightarrow> Value result" where
  "DecimalType_Divide left right = arith_guard left right
     (zero_guard right (DECIMAL_MODIFY_FUNC ddiv left right))"

definition DecimalType_Modulo :: "Value \<Rightarrow> Value \<Rightarrow> Value result" where
  "DecimalType_Modulo left right = arith_guard left right
     (zero_guard right (DECIMAL_MODIFY_FUNC ValMod left right))"

definition DecimalType_Min :: "Value \<Rightarrow> Value \<Rightarrow> Value result" where
  "DecimalType_Min left right = arith_guard left right
     (rbind (CompareLessThanEquals left right) (\<lambda>c. if c = CmpTrue then Value_Copy left else Value_Copy right))"

definition DecimalType_Max :: "Value \<Rightarrow> Value \<Rightarrow> Value result" where
  "DecimalType_Max left right = arith_guard left right
     (rbind (CompareGreaterThanEquals left right) (\<lambda>c. if c = CmpTrue then Value_Copy left else Value_Copy right))"

definition DecimalType_Sqrt :: "Value \<Rightarrow> Value result" where
  "DecimalType_Sqrt v = (if IsNull v then decimal_null
     else if cmp_double LT (GetAs_double v) (double_of_int 0)
       then Inl (Throw ET_DECIMAL ''Cannot take square root of a negative number.'')
     else Value_double DECIMAL (dsqrt (GetAs_double v)))"

section \<open>VARCHAR, TIMESTAMP and VECTOR\<close>

definition VarlenType_Min :: "Value \<Rightarrow> Value \<Rightarrow> Value result" where
  "VarlenType_Min left right = arith_guard left right
     (rbind (CompareLessThan left right) (\<lambda>c. if c = CmpTrue then Value_Copy left else Value_Copy right))"

definition VarlenType_Max :: "Value \<Rightarrow> Value \<Rightarrow> Value result" where
  "VarlenType_Max left right = arith_guard left right
     (rbind (CompareGreaterThan left right) (\<lambda>c. if c = CmpTrue then Value_Copy left else Value_Copy right))"

definition TimestampType_Min :: "Value \<Rightarrow> Value \<Rightarrow> Value result" where
  "TimestampType_Min left right = arith_guard left right
     (rbind (CompareLessThan left right) (\<lambda>c. if c = CmpTrue then Value_Copy left else Value_Copy right))"

definition TimestampType_Max :: "Value \<Rightarrow> Value \<Rightarrow> Value result" where
  "TimestampType_Max left right = arith_guard left right
     (rbind (CompareGreaterThanEquals left right) (\<lambda>c. if c = CmpTrue then Value_Copy left else Value_Copy right))"

definition VectorType_Min :: "Value \<Rightarrow> Value \<Rightarrow> Value result" where
  "VectorType_Min left right = Inl (LogicError ''vector type comparison not supported'')"

definition VectorType_Max :: "Value \<Rightarrow> Value \<Rightarrow> Value result" where
  "VectorType_Max left right = Inl (LogicError ''vector type comparison not supported'')"

section \<open>Dispatch\<close>

definition Value_Add :: "Value \<Rightarrow> Value \<Rightarrow> Value result" where
  "Value_Add v o' = (case type_id v of
       TINYINT \<Rightarrow> TinyintType_Add v o'
     | SMALLINT \<Rightarrow> SmallintType_Add v o'
     | INTEGER \<Rightarrow> IntegerType_Add v o'
     | BIGINT \<Rightarrow> BigintType_Add v o'
     | DECIMAL \<Rightarrow> DecimalType_Add v o'
     | _ \<Rightarrow> not_implemented ''Add not implemented'')"

definition Value_Subtract :: "Value \<Rightarrow> Value \<Rightarrow> Value result" where
  "Value_Subtract v o' = (case type_id v of
       TINYINT \<Rightarrow> TinyintType_Subtract v o'
     | SMALLINT \<Rightarrow> SmallintType_Subtract v o'
     | INTEGER \<Rightarrow> IntegerType_Subtract v o'
     | BIGINT \<Rightarrow> BigintType_Subtract v o'
     | DECIMAL \<Rightarrow> DecimalType_Subtract v o'
     | _ \<Rightarrow> not_implemented ''Subtract not implemented'')"

definition Value_Multiply :: "Value \<Rightarrow> Value \<Rightarrow> Value result" where
  "Value_Multiply v o' = (case type_id v of
       TINYINT \<Rightarrow> TinyintType_Multiply v o'
     | SMALLINT \<Rightarrow> SmallintType_Multiply v o'
     | INTEGER \<Rightarrow> IntegerType_Multiply v o'
     | BIGINT \<Rightarrow> BigintType_Multiply v o'
     | DECIMAL \<Rightarrow> DecimalType_Multiply v o'
     | _ \<Rightarrow> not_implemented ''Multiply not implemented'')"

definition Value_Divide :: "Value \<Rightarrow> Value \<Rightarrow> Value result" where
  "Value_Divide v o' = (case type_id v of
       TINYINT \<Rightarrow> TinyintType_Divide v o'
     | SMALLINT \<Rightarrow> SmallintType_Divide v o'
     | INTEGER \<Rightarrow> IntegerType_Divide v o'
     | BIGINT \<Rightarrow> BigintType_Divide v o'
     | DECIMAL \<Rightarrow> DecimalType_Divide v o'
     | _ \<Rightarrow> not_implemented ''Divide not implemented'')"

definition Value_Modulo :: "Value \<Rightarrow> Value \<Rightarrow> Value result" where
  "Value_Modulo v o' = (case type_id v of
       TINYINT \<Rightarrow> TinyintType_Modulo v o'
     | SMALLINT \<Rightarrow> SmallintType_Modulo v o'
     | INTEGER \<Rightarrow> IntegerType_Modulo v o'
     | BIGINT \<Rightarrow> BigintType_Modulo v o'
     | DECIMAL \<Rightarrow> DecimalType_Modulo v o'
     | _ \<Rightarrow> not_implemented ''Modulo not implemented'')"

definition Value_Sqrt :: "Value \<Rightarrow> Value result" where
  "Value_Sqrt v = (case type_id v of
       TINYINT \<Rightarrow> TinyintType_Sqrt v
     | SMALLINT \<Rightarrow> SmallintType_Sqrt v
     | INTEGER \<Rightarrow> IntegerType_Sqrt v
     | BIGINT \<Rightarrow> BigintType_Sqrt v
     | DECIMAL \<Rightarrow> DecimalType_Sqrt v
     | _ \<Rightarrow> not_implemented ''Sqrt not implemented'')"

definition Value_Min :: "Value \<Rightarrow> Value \<Rightarrow> Value result" where
  "Value_Min v o' = (case type_id v of
       TINYINT \<Rightarrow> IntegerParentType_Min v o'
     | SMALLINT \<Rightarrow> IntegerParentType_Min v o'
     | INTEGER \<Rightarrow> IntegerParentType_Min v o'
     | BIGINT \<Rightarrow> IntegerParentType_Min v o'
     | DECIMAL \<Rightarrow> DecimalType_Min v o'
     | VARCHAR \<Rightarrow> VarlenType_Min v o'
     | TIMESTAMP \<Rightarrow> TimestampType_Min v o'
     | VECTOR \<Rightarrow> VectorType_Min v o'
     | _ \<Rightarrow> not_implemented ''Min not implemented'')"

definition Value_Max :: "Value \<Rightarrow> Value \<Rightarrow> Value result" where
  "Value_Max v o' = (case type_id v of
       TINYINT \<Rightarrow> IntegerParentType_Max v o'
     | SMALLINT \<Rightarrow> IntegerParentType_Max v o'
     | INTEGER \<Rightarrow> IntegerParentType_Max v o'
     | BIGINT \<Rightarrow> IntegerParentType_Max v o'
     | DECIMAL \<Rightarrow> DecimalType_Max v o'
     | VARCHAR \<Rightarrow> VarlenType_Max v o'
     | TIMESTAMP \<Rightarrow> TimestampType_Max v o'
     | VECTOR \<Rightarrow> VectorType_Max v o'
     | _ \<Rightarrow> not_implemented ''Max not implemented'')"

section \<open>Exactness of the integer templates\<close>

text \<open>Wrapping the sum of two in-range operands: at most one period is added or removed.\<close>

lemma static_cast_overflow:
  assumes "\<not> in_range T z" "2 * cmin T < z" "z < 2 * cmax T + 2"
  shows "static_cast T z = (if z > 0 then z - 2 ^ bits T else z + 2 ^ bits T)"
proof -
  have p: "(2::int) ^ bits T = 2 * 2 ^ (bits T - 1)" by (cases T) auto
  show ?thesis
  proof (cases "z > 0")
    case True
    then have "(z + 2 ^ (bits T - 1)) mod 2 ^ bits T = z + 2 ^ (bits T - 1) - 2 ^ bits T"
      using assms p by (intro int_mod_pos_eq [where q = 1]) (auto simp: in_range_def cmin_def cmax_def)
    then show ?thesis using True by (simp add: static_cast_unfold)
  next
    case False
    then have "(z + 2 ^ (bits T - 1)) mod 2 ^ bits T = z + 2 ^ (bits T - 1) + 2 ^ bits T"
      using assms p by (intro int_mod_pos_eq [where q = "-1"]) (auto simp: in_range_def cmin_def cmax_def)
    then show ?thesis using False by (simp add: static_cast_unfold)
  qed
qed

definition addsub_check :: "cint \<Rightarrow> int \<Rightarrow> int \<Rightarrow> int \<Rightarrow> bool" where
  "addsub_check T x y s \<longleftrightarrow> (x > 0 \<and> y > 0 \<and> static_cast T s < 0) \<or> (x < 0 \<and> y < 0 \<and> static_cast T s > 0)"

lemma wrapped_sum:
  fixes x y :: int
  assumes "cmin T1 < x" "x \<le> cmax T1" "cmin T2 < y" "y \<le> cmax T2" "W = (if bytes_of T1 \<ge> bytes_of T2 then T1 else T2)"
  defines "s \<equiv> static_cast (promote T1 T2) (x + y)"
  shows "in_range W (x + y) \<Longrightarrow> s = x + y \<and> static_cast W s = x + y \<and> \<not> addsub_check W x y s"
    and "\<not> in_range W (x + y) \<Longrightarrow>
      (s \<noteq> static_cast T1 s \<and> s \<noteq> static_cast T2 s) \<or> addsub_check W x y s"
proof -
  have W: "bits W \<le> bits (promote T1 T2)" "bits T1 \<le> bits W" "bits T2 \<le> bits W"
    "bits W = 32 \<or> bits W = 64 \<Longrightarrow> W = promote T1 T2"
    using assms(5) by (cases T1; cases T2; simp)+
  have xy: "in_range W x" "in_range W y" "cmin W < x" "cmin W < y"
    using assms(1-4) in_range_mono [OF _ W(2), of x] in_range_mono [OF _ W(3), of y] W(2,3)
    by (auto simp: in_range_def) (cases T1; cases T2; cases W; simp)+
  {
    assume r: "in_range W (x + y)"
    then have "s = x + y" unfolding s_def by (intro static_cast_id in_range_mono [OF _ W(1)])
    with r show "s = x + y \<and> static_cast W s = x + y \<and> \<not> addsub_check W x y s"
      by (auto simp: addsub_check_def static_cast_id)
  }
  assume nr: "\<not> in_range W (x + y)"
  show "(s \<noteq> static_cast T1 s \<and> s \<noteq> static_cast T2 s) \<or> addsub_check W x y s"
  proof (cases "W = promote T1 T2")
    case True
    then have s: "s = (if x + y > 0 then x + y - 2 ^ bits W else x + y + 2 ^ bits W)"
      unfolding s_def using xy nr by (subst True [symmetric], intro static_cast_overflow) (auto simp: in_range_def)
    have "static_cast W s = s" unfolding s_def True by simp
    then have "addsub_check W x y s"
      using s nr xy by (cases W) (auto simp: addsub_check_def in_range_def split: if_splits)
    then show ?thesis ..
  next
    case False
    then have "W = I8 \<or> W = I16" using W(4) by (cases W) auto
    then have "in_range (promote T1 T2) (x + y)" using xy by (auto simp: in_range_def)
    then have "s = x + y" unfolding s_def by (rule static_cast_id)
    then show ?thesis
      using nr in_range_mono [OF _ W(2)] in_range_mono [OF _ W(3)] by (metis static_cast_eq_iff)
  qed
qed

lemma Value_of_wider:
  assumes "int_operand l" "int_operand r" "in_range (ity (wider l r)) z"
  shows "Value_of T (type_id (wider l r)) z = Inr (int_result l r z)"
proof -
  have "int_operand (wider l r)" using assms by (simp add: wider_def)
  then show ?thesis using assms(3) by (simp add: Value_of_Inr int_operand_member int_result_def Let_def)
qed

text \<open>The common shape of \<open>AddValue\<close> and \<open>SubtractValue\<close>, the second with the negated operand.\<close>

lemma addsub_template:
  assumes "int_operand l" "int_operand r" "cmin (ity r) < y" "y \<le> cmax (ity r)"
  defines "s \<equiv> static_cast (promote (ity l) (ity r)) (int_val l + y)"
  shows "(if s \<noteq> static_cast (ity l) s \<and> s \<noteq> static_cast (ity r) s then out_of_range
      else if addsub_check (ity (wider l r)) (int_val l) y s then out_of_range
      else Value_of (ity (wider l r)) (type_id (wider l r)) (static_cast (ity (wider l r)) s)) =
     (if in_range (ity (wider l r)) (int_val l + y)
      then Inr (int_result l r (int_val l + y)) else out_of_range)"
proof -
  have W: "ity (wider l r) = (if bytes_of (ity l) \<ge> bytes_of (ity r) then ity l else ity r)"
    by (simp add: wider_def)
  note ws = wrapped_sum [OF int_operand_range [OF assms(1)] assms(3,4) W, folded s_def]
  show ?thesis
  proof (cases "in_range (ity (wider l r)) (int_val l + y)")
    case True
    then have "s = static_cast (ity l) s \<or> s = static_cast (ity r) s"
      using ws(1) W by (metis (full_types))
    then show ?thesis using True ws(1) Value_of_wider [OF assms(1,2) True] by auto
  next
    case False
    then show ?thesis using ws(2) by auto
  qed
qed

lemma AddValue_spec:
  assumes "int_operand l" "int_operand r"
  shows "AddValue (ity l) (ity r) l r = (if in_range (ity (wider l r)) (int_val l + int_val r)
      then Inr (int_result l r (int_val l + int_val r)) else out_of_range)"
  unfolding addsub_template [OF assms int_operand_range [OF assms(2)], symmetric]
  by (simp add: AddValue_def Let_def wider_def addsub_check_def int_val_def [symmetric]
      del: promote.simps)

lemma SubtractValue_spec:
  assumes "int_operand l" "int_operand r"
  shows "SubtractValue (ity l) (ity r) l r = (if in_range (ity (wider l r)) (int_val l - int_val r)
      then Inr (int_result l r (int_val l - int_val r)) else out_of_range)"
proof -
  have "cmin (ity r) < - int_val r" "- int_val r \<le> cmax (ity r)"
    using int_operand_range [OF assms(2)] by (auto simp: cmin_def cmax_def)
  note sub = addsub_template [OF assms this, symmetric]
  show ?thesis unfolding diff_conv_add_uminus sub
    by (simp add: SubtractValue_def Let_def wider_def addsub_check_def int_val_def [symmetric]
        del: promote.simps)
qed

lemma static_cast_period: "\<exists>k. static_cast T z = z - k * 2 ^ bits T"
proof -
  have "(z + 2 ^ (bits T - 1)) mod 2 ^ bits T =
      z + 2 ^ (bits T - 1) - (z + 2 ^ (bits T - 1)) div 2 ^ bits T * 2 ^ bits T"
    by (simp add: minus_div_mult_eq_mod)
  then show ?thesis by (auto simp: static_cast_unfold)
qed

text \<open>The overflow test of \<open>MultiplyValue\<close>: dividing the wrapped product by one factor gives back the
  other exactly when nothing was lost.\<close>

lemma wrapped_product_test:
  fixes x y :: int
  assumes "cmin W < x" "x \<le> cmax W" "cmin W < y" "y \<le> cmax W" "y \<noteq> 0"
  defines "s \<equiv> static_cast W (x * y)"
  shows "in_range W (x * y) \<Longrightarrow> int_div W s y = Inr x"
    and "\<not> in_range W (x * y) \<Longrightarrow> \<exists>q. int_div W s y = Inr q \<and> q \<noteq> x"
proof -
  have eq: "s sdiv y * y + s smod y = s" by (rule sdiv_mult_smod_eq)
  have rem: "\<bar>s smod y\<bar> < \<bar>y\<bar>" using smod_int_range [OF \<open>y \<noteq> 0\<close>, of s] by auto
  {
    assume "in_range W (x * y)"
    then have s: "s = x * y" unfolding s_def by (rule static_cast_id)
    have "(s sdiv y - x) * y = - (s smod y)" using eq unfolding s by (simp add: left_diff_distrib)
    then have "\<bar>s sdiv y - x\<bar> * \<bar>y\<bar> < 1 * \<bar>y\<bar>" using rem by (simp flip: abs_mult)
    then have "\<bar>s sdiv y - x\<bar> < 1" by (rule mult_right_less_imp_less) simp
    then have "s sdiv y = x" by simp
    then show "int_div W s y = Inr x" using assms by (auto simp: int_div_def in_range_def)
  }
  assume nr: "\<not> in_range W (x * y)"
  obtain k where k: "s = x * y - k * 2 ^ bits W" using static_cast_period s_def by metis
  have "k \<noteq> 0" using k nr static_cast_in_range [of W "x * y"] unfolding s_def by auto
  then have big: "2 ^ bits W \<le> \<bar>k * 2 ^ bits W\<bar>" by (simp add: abs_mult)
  have yb: "\<bar>y\<bar> < 2 ^ bits W" using assms by (cases W) auto
  have "s sdiv y \<noteq> x"
  proof
    assume "s sdiv y = x"
    then have "s smod y = - (k * 2 ^ bits W)" using eq k by (simp add: mult.commute)
    then show False using rem big yb by simp
  qed
  moreover have "in_range W (s sdiv y)"
  proof (cases "s = cmin W")
    case False
    then have "\<bar>s\<bar> \<le> cmax W" using static_cast_in_range [of W "x * y"] unfolding s_def
      by (auto simp: in_range_def cmin_def cmax_def)
    then show ?thesis using sdiv_int_range [of s y] by (cases W) (auto simp: in_range_def)
  next
    case True
    have "y \<noteq> - 1" using nr assms(1,2) by (cases W) (auto simp: in_range_def)
    then show ?thesis
    proof (cases "y = 1")
      case False
      with \<open>y \<noteq> - 1\<close> \<open>y \<noteq> 0\<close> have "2 \<le> \<bar>y\<bar>" by auto
      then have "\<bar>s\<bar> div \<bar>y\<bar> \<le> \<bar>s\<bar> div 2" by (intro zdiv_mono2) auto
      then have "\<bar>s sdiv y\<bar> \<le> \<bar>s\<bar> div 2"
        using \<open>y \<noteq> 0\<close>
        by (simp add: signed_divide_int_def abs_mult abs_sgn_eq abs_of_nonneg pos_imp_zdiv_nonneg_iff)
      then show ?thesis unfolding True by (cases W) (auto simp: in_range_def)
    qed (use nr assms in \<open>auto simp: in_range_def\<close>)
  qed
  ultimately show "\<exists>q. int_div W s y = Inr q \<and> q \<noteq> x"
    using \<open>y \<noteq> 0\<close> by (auto simp: int_div_def)
qed

lemma MultiplyValue_spec:
  assumes "int_operand l" "int_operand r"
  shows "MultiplyValue (ity l) (ity r) l r = (if in_range (ity (wider l r)) (int_val l * int_val r)
      then Inr (int_result l r (int_val l * int_val r)) else out_of_range)"
proof -
  let ?x = "int_val l" and ?y = "int_val r" and ?W = "ity (wider l r)"
  let ?P = "promote (ity l) (ity r)"
  define s where "s = static_cast ?P (?x * ?y)"
  have W: "?W = (if bytes_of (ity l) \<ge> bytes_of (ity r) then ity l else ity r)"
    by (simp add: wider_def)
  have unf: "MultiplyValue (ity l) (ity r) l r =
     (if s \<noteq> static_cast (ity l) s \<and> s \<noteq> static_cast (ity r) s then out_of_range
      else rbind (if ?y \<noteq> 0 then rbind (int_div ?P (static_cast ?W s) ?y) (\<lambda>q. Inr (q \<noteq> ?x)) else Inr False)
        (\<lambda>ovf. if ovf then out_of_range else Value_of ?W (type_id (wider l r)) (static_cast ?W s)))"
    unfolding s_def wider_def
    by (simp add: MultiplyValue_def Let_def int_val_def [symmetric] del: promote.simps cong: if_cong)
  have bw: "bits ?W \<le> bits ?P" "bits (ity l) \<le> bits ?W" "bits (ity r) \<le> bits ?W"
    unfolding W by (cases "ity l"; cases "ity r"; simp)+
  have rng: "cmin ?W < ?x" "?x \<le> cmax ?W" "cmin ?W < ?y" "?y \<le> cmax ?W"
    using int_operand_range [OF assms(1)] int_operand_range [OF assms(2)]
    unfolding W by (cases "ity l"; cases "ity r"; simp)+
  have rngP: "cmin ?P < ?x" "?x \<le> cmax ?P" "cmin ?P < ?y" "?y \<le> cmax ?P"
    using rng bw(1) by (cases ?W; cases ?P; simp)+
  show ?thesis
  proof (cases "in_range ?W (?x * ?y)")
    case True
    then have inP: "in_range ?P (?x * ?y)" by (rule in_range_mono [OF _ bw(1)])
    then have s: "s = ?x * ?y" unfolding s_def by (rule static_cast_id)
    have sW: "static_cast ?W s = s" unfolding s using True by (rule static_cast_id)
    then have "s = static_cast (ity l) s \<or> s = static_cast (ity r) s" using W by (metis (full_types))
    moreover have "?y \<noteq> 0 \<Longrightarrow> int_div ?P s ?y = Inr ?x"
      using wrapped_product_test(1) [OF rngP] inP by (simp add: s_def)
    ultimately show ?thesis
      using True Value_of_wider [OF assms True] unfolding unf sW by (auto simp: s)
  next
    case False
    then have y: "?y \<noteq> 0" by (auto simp: in_range_def cmin_def cmax_def)
    show ?thesis
    proof (cases "?W = ?P")
      case True
      then have "static_cast ?W s = s" by (simp add: s_def del: promote.simps)
      moreover obtain q where "int_div ?P s ?y = Inr q" "q \<noteq> ?x"
        using wrapped_product_test(2) [OF rngP y] False unfolding True s_def by blast
      ultimately show ?thesis using False y unfolding unf by auto
    next
      case neq: False
      then have "?W = I8 \<or> ?W = I16"
        unfolding W by (cases "ity l"; cases "ity r"; simp)
      then have "\<bar>?x\<bar> \<le> 32768" "\<bar>?y\<bar> \<le> 32768" using rng by auto
      then have "\<bar>?x * ?y\<bar> \<le> 32768 * 32768" unfolding abs_mult by (intro mult_mono) auto
      then have "in_range I32 (?x * ?y)" by (auto simp: in_range_def)
      then have "in_range ?P (?x * ?y)" by (rule in_range_mono) (simp split: if_splits)
      then have "s = ?x * ?y" unfolding s_def by (rule static_cast_id)
      then have "s \<noteq> static_cast (ity l) s \<and> s \<noteq> static_cast (ity r) s"
        using False in_range_mono [OF _ bw(2)] in_range_mono [OF _ bw(3)] by (metis static_cast_eq_iff)
      then show ?thesis using False unfolding unf by simp
    qed
  qed
qed

text \<open>Division by a nonzero operand never traps, because the least machine integer is NULL.\<close>

lemma quotient_fits:
  assumes "int_operand l" "int_operand r" "int_val r \<noteq> 0"
  shows "in_range (ity (wider l r)) (int_val l sdiv int_val r)"
    and "in_range (promote (ity l) (ity r)) (int_val l sdiv int_val r)"
    and "in_range (ity (wider l r)) (int_val l smod int_val r)"
proof -
  have W: "ity (wider l r) = (if bytes_of (ity l) \<ge> bytes_of (ity r) then ity l else ity r)"
    by (simp add: wider_def)
  have x: "\<bar>int_val l\<bar> \<le> cmax (ity l)" and y: "\<bar>int_val r\<bar> \<le> cmax (ity r)"
    using int_operand_range [OF assms(1)] int_operand_range [OF assms(2)]
    by (auto simp: cmin_def cmax_def)
  show *: "in_range (ity (wider l r)) (int_val l sdiv int_val r)"
    using x sdiv_int_range [of "int_val l" "int_val r"] unfolding W
    by (cases "ity l"; cases "ity r"; auto simp: in_range_def)
  show "in_range (promote (ity l) (ity r)) (int_val l sdiv int_val r)"
    using * unfolding W by (rule in_range_mono) (cases "ity l"; cases "ity r"; simp)
  show "in_range (ity (wider l r)) (int_val l smod int_val r)"
    using y smod_int_range [OF assms(3), of "int_val l"] unfolding W
    by (cases "ity l"; cases "ity r"; auto simp: in_range_def)
qed

lemma DivideValue_spec:
  assumes "int_operand l" "int_operand r" "int_val r \<noteq> 0"
  shows "DivideValue (ity l) (ity r) l r = Inr (int_result l r (int_val l sdiv int_val r))"
proof -
  have "DivideValue (ity l) (ity r) l r = Value_of (ity (wider l r)) (type_id (wider l r))
      (static_cast (ity (wider l r)) (int_val l sdiv int_val r))"
    using quotient_fits(2) [OF assms] assms(3)
    by (simp add: DivideValue_def Let_def wider_def int_val_def [symmetric] int_div_def del: promote.simps)
  then show ?thesis
    using quotient_fits(1) [OF assms] by (simp add: static_cast_id Value_of_wider [OF assms(1,2)])
qed

lemma ModuloValue_spec:
  assumes "int_operand l" "int_operand r" "int_val r \<noteq> 0"
  shows "ModuloValue (ity l) (ity r) l r = Inr (int_result l r (int_val l smod int_val r))"
proof -
  have "ModuloValue (ity l) (ity r) l r = Value_of (ity (wider l r)) (type_id (wider l r))
      (static_cast (ity (wider l r)) (int_val l smod int_val r))"
    using quotient_fits(2) [OF assms] assms(3)
    by (simp add: ModuloValue_def Let_def wider_def int_val_def [symmetric] int_mod_def del: promote.simps)
  then show ?thesis
    using quotient_fits(3) [OF assms] by (simp add: static_cast_id Value_of_wider [OF assms(1,2)])
qed

section \<open>The methods on integer operands\<close>

lemma MODIFY_FUNC_int:
  "int_operand r \<Longrightarrow> MODIFY_FUNC S self METHOD dop l r = METHOD S (ity r) l r"
  by (erule int_operand_cases) (auto simp: MODIFY_FUNC_def)

lemma int_arith_guard_ok:
  "int_operand l \<Longrightarrow> int_operand r \<Longrightarrow> int_arith_guard l r k = k"
  by (simp add: int_arith_guard_def arith_guard_def int_operands_ok)

lemma zero_guard_int:
  "int_operand r \<Longrightarrow> zero_guard r k = (if int_val r = 0
     then Inl (Throw ET_DIVIDE_BY_ZERO ''Division by zero on right-hand side'') else k)"
  by (erule int_operand_cases) (auto simp: zero_guard_def Value_IsZero_def TinyintType_IsZero_def
      SmallintType_IsZero_def IntegerType_IsZero_def BigintType_IsZero_def)

lemmas int_arith_methods =
  TINYINT_MODIFY_FUNC_def SMALLINT_MODIFY_FUNC_def INT_MODIFY_FUNC_def BIGINT_MODIFY_FUNC_def
  TinyintType_Add_def SmallintType_Add_def IntegerType_Add_def BigintType_Add_def
  TinyintType_Subtract_def SmallintType_Subtract_def IntegerType_Subtract_def BigintType_Subtract_def
  TinyintType_Multiply_def SmallintType_Multiply_def IntegerType_Multiply_def BigintType_Multiply_def
  TinyintType_Divide_def SmallintType_Divide_def IntegerType_Divide_def BigintType_Divide_def
  TinyintType_Modulo_def SmallintType_Modulo_def IntegerType_Modulo_def BigintType_Modulo_def

lemma int_arith_dispatch:
  assumes "int_operand l" "int_operand r"
  shows "Value_Add l r = AddValue (ity l) (ity r) l r"
    and "Value_Subtract l r = SubtractValue (ity l) (ity r) l r"
    and "Value_Multiply l r = MultiplyValue (ity l) (ity r) l r"
    and "Value_Divide l r = zero_guard r (DivideValue (ity l) (ity r) l r)"
    and "Value_Modulo l r = zero_guard r (ModuloValue (ity l) (ity r) l r)"
  using assms
  by (cases l rule: int_operand_cases;
      simp add: Value_Add_def Value_Subtract_def Value_Multiply_def Value_Divide_def Value_Modulo_def
        int_arith_methods int_arith_guard_ok MODIFY_FUNC_int)+



text \<open>Subtraction is exact or throws OUT_OF_RANGE in the same way.\<close>

theorem Value_Subtract_exact:
  assumes "int_operand l" "int_operand r"
  shows "Value_Subtract l r = (if in_range (ity (wider l r)) (int_val l - int_val r)
    then Inr (int_result l r (int_val l - int_val r)) else out_of_range)"
  using assms by (simp add: int_arith_dispatch SubtractValue_spec)

theorem Value_Subtract_exact_witness:
  "Value_Subtract (set_int BIGINT I64 (cmin I64) 5) (set_int INTEGER I32 (cmin I32) 7) =
     Inr (set_int BIGINT I64 (cmin I64) (- 2))"
proof -
  have o: "int_operand (set_int BIGINT I64 (cmin I64) 5)" "int_operand (set_int INTEGER I32 (cmin I32) 7)"
    by code_simp+
  show ?thesis unfolding Value_Subtract_exact [OF o] by code_simp
qed

text \<open>Multiplication is exact or throws OUT_OF_RANGE: the test that divides the wrapped product
  by one factor detects every overflow, and never traps on non-NULL operands.\<close>

theorem Value_Multiply_exact:
  assumes "int_operand l" "int_operand r"
  shows "Value_Multiply l r = (if in_range (ity (wider l r)) (int_val l * int_val r)
    then Inr (int_result l r (int_val l * int_val r)) else out_of_range)"
  using assms by (simp add: int_arith_dispatch MultiplyValue_spec)

theorem Value_Multiply_exact_witness:
  "Value_Multiply (set_int INTEGER I32 (cmin I32) 65536) (set_int INTEGER I32 (cmin I32) 65536) = out_of_range"
proof -
  have o: "int_operand (set_int INTEGER I32 (cmin I32) 65536)" by code_simp
  show ?thesis unfolding Value_Multiply_exact [OF o o] by code_simp
qed

text \<open>Dividing by a nonzero integer never traps: quotient and remainder are those of division
  truncated towards zero, and both fit the wider operand's type.\<close>

theorem Value_Divide_Modulo:
  assumes "int_operand l" "int_operand r" "int_val r \<noteq> 0"
  shows "\<exists>q m. Value_Divide l r = Inr (int_result l r q) \<and> Value_Modulo l r = Inr (int_result l r m) \<and>
    q * int_val r + m = int_val l \<and> \<bar>m\<bar> < \<bar>int_val r\<bar> \<and> (m \<noteq> 0 \<longrightarrow> sgn m = sgn (int_val l)) \<and>
    in_range (ity (wider l r)) q \<and> in_range (ity (wider l r)) m"
proof -
  have nn: "0 \<le> k mod \<bar>int_val r\<bar>" for k using assms(3) by simp
  have "\<bar>int_val l smod int_val r\<bar> < \<bar>int_val r\<bar>"
    using smod_int_range [OF assms(3), of "int_val l"] by auto
  moreover have "int_val l smod int_val r \<noteq> 0 \<Longrightarrow> sgn (int_val l smod int_val r) = sgn (int_val l)"
    by (auto simp: smod_int_alt_def sgn_mult sgn_if split: if_splits)
      (use nn [of "int_val l"] nn [of "- int_val l"] in linarith)+
  ultimately show ?thesis
    using assms quotient_fits [OF assms] sdiv_mult_smod_eq [of "int_val l" "int_val r"]
    by (auto simp: int_arith_dispatch zero_guard_int DivideValue_spec ModuloValue_spec)
qed

theorem Value_Divide_Modulo_witness:
  "\<exists>q m. Value_Divide (set_int INTEGER I32 (cmin I32) (- 7)) (set_int TINYINT I8 (cmin I8) 2) =
      Inr (int_result (set_int INTEGER I32 (cmin I32) (- 7)) (set_int TINYINT I8 (cmin I8) 2) q) \<and>
    q * 2 + m = - 7"
proof -
  have o: "int_operand (set_int INTEGER I32 (cmin I32) (- 7))" "int_operand (set_int TINYINT I8 (cmin I8) 2)"
    "int_val (set_int INTEGER I32 (cmin I32) (- 7)) = - 7" "int_val (set_int TINYINT I8 (cmin I8) 2) = 2"
    by code_simp+
  then show ?thesis using Value_Divide_Modulo [OF o(1,2)] by auto
qed

text \<open>A sum that is exactly the least machine integer of the result type does not raise
  OUT_OF_RANGE, although it lies below \<open>BUSTUB_INTn_MIN\<close>: the result is SQL NULL.\<close>

theorem Value_Add_min_is_NULL:
  assumes "int_operand l" "int_operand r" "int_val l + int_val r = cmin (ity (wider l r))"
  shows "\<exists>v. Value_Add l r = Inr v \<and> IsNull v"
proof -
  have "in_range (ity (wider l r)) (int_val l + int_val r)"
    using assms(3) by (cases "ity (wider l r)") (auto simp: in_range_def)
  then show ?thesis
    using assms by (simp add: int_arith_dispatch AddValue_spec int_result_def Let_def static_cast_id)
qed

theorem Value_Add_min_is_NULL_witness:
  "\<exists>v. Value_Add (set_int INTEGER I32 (cmin I32) (- 2147483647)) (set_int INTEGER I32 (cmin I32) (- 1)) = Inr v
     \<and> IsNull v"
proof -
  have o: "int_operand (set_int INTEGER I32 (cmin I32) (- 2147483647))"
    "int_operand (set_int INTEGER I32 (cmin I32) (- 1))"
    "int_val (set_int INTEGER I32 (cmin I32) (- 2147483647)) + int_val (set_int INTEGER I32 (cmin I32) (- 1)) =
      cmin (ity (wider (set_int INTEGER I32 (cmin I32) (- 2147483647)) (set_int INTEGER I32 (cmin I32) (- 1))))"
    by code_simp+
  show ?thesis by (rule Value_Add_min_is_NULL [OF o])
qed

end
