(* ===== verification/ValueFactory.thy ===== *)
theory ValueFactory
  imports TypeArith
begin

text \<open>
  \<open>ValueFactory\<close> (type/value_factory.h): the \<open>Get*Value\<close> constructors, \<open>GetNullValueByType\<close>,
  \<open>GetZeroValueByType\<close>, and the explicit casts \<open>CastAs*\<close>, which, unlike \<open>Value::CastAs\<close>, turn a
  \<open>std::invalid_argument\<close> of the number parsers into an \<open>Exception\<close>.
\<close>

definition Clone :: "Value \<Rightarrow> Value result" where "Clone src = Value_Copy src"

definition GetTinyIntValue :: "int \<Rightarrow> Value result" where "GetTinyIntValue z = Value_int8 TINYINT z"
definition GetSmallIntValue :: "int \<Rightarrow> Value result" where "GetSmallIntValue z = Value_int16 SMALLINT z"
definition GetIntegerValue :: "int \<Rightarrow> Value result" where "GetIntegerValue z = Value_int32 INTEGER z"
definition GetBigIntValue :: "int \<Rightarrow> Value result" where "GetBigIntValue z = Value_int64 BIGINT z"
definition GetTimestampValue :: "int \<Rightarrow> Value result" where "GetTimestampValue z = Value_int64 TIMESTAMP z"
definition GetDecimalValue :: "double \<Rightarrow> Value result" where "GetDecimalValue d = Value_double DECIMAL d"

definition CmpBool_int :: "CmpBool \<Rightarrow> int" where
  "CmpBool_int c = (case c of CmpFalse \<Rightarrow> 0 | CmpTrue \<Rightarrow> 1 | CmpNull \<Rightarrow> 2)"

text \<open>The three overloads of \<open>GetBooleanValue\<close>: for \<open>CmpBool\<close>, \<open>bool\<close> and \<open>int8_t\<close>.\<close>

definition GetBooleanValue_cmp :: "CmpBool \<Rightarrow> Value result" where
  "GetBooleanValue_cmp c = Value_int8 BOOLEAN (if c = CmpNull then BUSTUB_BOOLEAN_NULL else CmpBool_int c)"

definition GetBooleanValue_bool :: "bool \<Rightarrow> Value result" where
  "GetBooleanValue_bool b = Value_int8 BOOLEAN (if b then 1 else 0)"

definition GetBooleanValue_int8 :: "int \<Rightarrow> Value result" where
  "GetBooleanValue_int8 z = Value_int8 BOOLEAN z"

text \<open>The overloads of \<open>GetVarcharValue\<close>: a NUL-terminated C string (the bytes up to its first NUL,
  or the null pointer), a pointer with a length, and a \<open>std::string\<close>.\<close>

definition GetVarcharValue_len :: "buffer option \<Rightarrow> nat \<Rightarrow> bool \<Rightarrow> Value result" where
  "GetVarcharValue_len p len manage = Value_varlen VARCHAR p len manage"

definition strlen :: "buffer \<Rightarrow> nat" where
  "strlen p = length (takeWhile (\<lambda>c. c \<noteq> char_of (0::nat)) p)"

definition GetVarcharValue_ptr :: "buffer option \<Rightarrow> bool \<Rightarrow> Value result" where
  "GetVarcharValue_ptr p manage =
     GetVarcharValue_len p (case p of None \<Rightarrow> 0 | Some bs \<Rightarrow> (strlen bs + 1) mod 2 ^ 32) manage"

definition GetVarcharValue :: "string \<Rightarrow> Value result" where
  "GetVarcharValue s = Value_string VARCHAR s"

definition GetVectorValue :: "double list \<Rightarrow> Value result" where
  "GetVectorValue ds = Value_vector VECTOR ds"

definition GetNullValueByType :: "TypeId \<Rightarrow> Value result" where
  "GetNullValueByType ty = (case ty of
       BOOLEAN \<Rightarrow> GetBooleanValue_int8 BUSTUB_BOOLEAN_NULL
     | TINYINT \<Rightarrow> GetTinyIntValue (BUSTUB_INT_NULL I8)
     | SMALLINT \<Rightarrow> GetSmallIntValue (BUSTUB_INT_NULL I16)
     | INTEGER \<Rightarrow> GetIntegerValue (BUSTUB_INT_NULL I32)
     | BIGINT \<Rightarrow> GetBigIntValue (BUSTUB_INT_NULL I64)
     | DECIMAL \<Rightarrow> GetDecimalValue BUSTUB_DECIMAL_NULL
     | VARCHAR \<Rightarrow> GetVarcharValue_ptr None False
     | _ \<Rightarrow> Inl (Throw ET_UNKNOWN_TYPE ''Attempting to create invalid null type''))"

definition GetZeroValueByType :: "TypeId \<Rightarrow> Value result" where
  "GetZeroValueByType ty = (case ty of
       BOOLEAN \<Rightarrow> GetBooleanValue_bool False
     | TINYINT \<Rightarrow> GetTinyIntValue 0
     | SMALLINT \<Rightarrow> GetSmallIntValue 0
     | INTEGER \<Rightarrow> GetIntegerValue 0
     | BIGINT \<Rightarrow> GetBigIntValue 0
     | DECIMAL \<Rightarrow> GetDecimalValue (double_of_int 0)
     | VARCHAR \<Rightarrow> GetVarcharValue ''0''
     | _ \<Rightarrow> Inl (Throw ET_UNKNOWN_TYPE ''Unknown type for GetZeroValueType''))"

section \<open>Numeric casts\<close>

text \<open>\<open>throw Exception(ToString(value) + " is not coercable to ...")\<close>\<close>

definition not_coercable :: "Value \<Rightarrow> string \<Rightarrow> Value result" where
  "not_coercable v name = rbind (Value_ToString v) (\<lambda>s. invalid (s @ '' is not coercable to '' @ name @ ''.''))"

text \<open>The two catch clauses around a parser call.\<close>

definition catch_parse :: "string \<Rightarrow> string \<Rightarrow> 'a result \<Rightarrow> 'a result" where
  "catch_parse name str r = (case r of
       Inl e \<Rightarrow> if e = StdOutOfRange then out_of_range
               else if e = StdInvalidArgument
                 then invalid (''Invalid input syntax for '' @ name @ '': '' @ [char_of (39::nat)] @ str @ [char_of (39::nat)])
               else r
     | Inr _ \<Rightarrow> r)"

text \<open>The range tests: an integer member against the target's bounds, and a double against the bounds
  converted to double.\<close>

definition range_int :: "cint \<Rightarrow> int \<Rightarrow> Value result \<Rightarrow> Value result" where
  "range_int T z k = (if z > BUSTUB_INT_MAX T \<or> z < BUSTUB_INT_MIN T then out_of_range else k)"

definition range_double :: "cint \<Rightarrow> double \<Rightarrow> Value result \<Rightarrow> Value result" where
  "range_double T d k = (if cmp_double GT d (double_of_int (BUSTUB_INT_MAX T)) \<or>
     cmp_double LT d (double_of_int (BUSTUB_INT_MIN T)) then out_of_range else k)"

definition CastAsBigInt :: "Value \<Rightarrow> Value result" where
  "CastAsBigInt v = (if IsCoercableFrom BIGINT (type_id v) then
     if IsNull v then GetBigIntValue (BUSTUB_INT_NULL I64) else
     (case type_id v of
       TINYINT \<Rightarrow> GetBigIntValue (GetAs I8 v)
     | SMALLINT \<Rightarrow> GetBigIntValue (GetAs I16 v)
     | INTEGER \<Rightarrow> GetBigIntValue (GetAs I32 v)
     | BIGINT \<Rightarrow> GetBigIntValue (GetAs I64 v)
     | DECIMAL \<Rightarrow> range_double I64 (GetAs_double v) (rbind (double_to_int I64 (GetAs_double v)) GetBigIntValue)
     | VARCHAR \<Rightarrow> rbind (Value_ToString v) (\<lambda>str. rbind (catch_parse ''bigint'' str (stoll str)) (\<lambda>z.
           range_int I64 z (GetBigIntValue z)))
     | _ \<Rightarrow> not_coercable v ''BIGINT'')
     else not_coercable v ''BIGINT'')"

definition CastAsInteger :: "Value \<Rightarrow> Value result" where
  "CastAsInteger v = (if IsCoercableFrom INTEGER (type_id v) then
     if IsNull v then GetIntegerValue (BUSTUB_INT_NULL I32) else
     (case type_id v of
       TINYINT \<Rightarrow> GetIntegerValue (GetAs I8 v)
     | SMALLINT \<Rightarrow> GetIntegerValue (GetAs I16 v)
     | INTEGER \<Rightarrow> GetIntegerValue (GetAs I32 v)
     | BIGINT \<Rightarrow> range_int I32 (GetAs I64 v) (GetIntegerValue (static_cast I32 (GetAs I64 v)))
     | DECIMAL \<Rightarrow> range_double I32 (GetAs_double v) (rbind (double_to_int I32 (GetAs_double v)) GetIntegerValue)
     | VARCHAR \<Rightarrow> rbind (Value_ToString v) (\<lambda>str. rbind (catch_parse ''integer'' str (stoi str)) (\<lambda>z.
           range_int I32 z (GetIntegerValue z)))
     | _ \<Rightarrow> not_coercable v ''INTEGER'')
     else not_coercable v ''INTEGER'')"

definition CastAsSmallInt :: "Value \<Rightarrow> Value result" where
  "CastAsSmallInt v = (if IsCoercableFrom SMALLINT (type_id v) then
     if IsNull v then GetSmallIntValue (BUSTUB_INT_NULL I16) else
     (case type_id v of
       TINYINT \<Rightarrow> GetSmallIntValue (GetAs I8 v)
     | SMALLINT \<Rightarrow> GetSmallIntValue (GetAs I16 v)
     | INTEGER \<Rightarrow> range_int I16 (GetAs I32 v) (GetSmallIntValue (static_cast I16 (GetAs I32 v)))
     | BIGINT \<Rightarrow> range_int I16 (GetAs I64 v) (GetSmallIntValue (static_cast I16 (GetAs I64 v)))
     | DECIMAL \<Rightarrow> range_double I16 (GetAs_double v) (rbind (double_to_int I16 (GetAs_double v)) GetSmallIntValue)
     | VARCHAR \<Rightarrow> rbind (Value_ToString v) (\<lambda>str.
         rbind (catch_parse ''smallint'' str (rbind (stoi str) (\<lambda>z. Inr (static_cast I16 z)))) (\<lambda>z.
           if z < BUSTUB_INT_MIN I16 then out_of_range else GetSmallIntValue z))
     | _ \<Rightarrow> not_coercable v ''SMALLINT'')
     else not_coercable v ''SMALLINT'')"

definition CastAsTinyInt :: "Value \<Rightarrow> Value result" where
  "CastAsTinyInt v = (if IsCoercableFrom TINYINT (type_id v) then
     if IsNull v then GetTinyIntValue (BUSTUB_INT_NULL I8) else
     (case type_id v of
       TINYINT \<Rightarrow> GetTinyIntValue (GetAs I8 v)
     | SMALLINT \<Rightarrow> range_int I8 (GetAs I16 v) (GetTinyIntValue (static_cast I8 (GetAs I16 v)))
     | INTEGER \<Rightarrow> range_int I8 (GetAs I32 v) (GetTinyIntValue (static_cast I8 (GetAs I32 v)))
     | BIGINT \<Rightarrow> range_int I8 (GetAs I64 v) (GetTinyIntValue (static_cast I8 (GetAs I64 v)))
     | DECIMAL \<Rightarrow> range_double I8 (GetAs_double v) (rbind (double_to_int I8 (GetAs_double v)) GetTinyIntValue)
     | VARCHAR \<Rightarrow> rbind (Value_ToString v) (\<lambda>str.
         rbind (catch_parse ''tinyint'' str (rbind (stoi str) (\<lambda>z. Inr (static_cast I8 z)))) (\<lambda>z.
           if z < BUSTUB_INT_MIN I8 then out_of_range else GetTinyIntValue z))
     | _ \<Rightarrow> not_coercable v ''TINYINT'')
     else not_coercable v ''TINYINT'')"

definition CastAsDecimal :: "Value \<Rightarrow> Value result" where
  "CastAsDecimal v = (if IsCoercableFrom DECIMAL (type_id v) then
     if IsNull v then GetDecimalValue BUSTUB_DECIMAL_NULL else
     (case type_id v of
       TINYINT \<Rightarrow> GetDecimalValue (double_of_int (GetAs I8 v))
     | SMALLINT \<Rightarrow> GetDecimalValue (double_of_int (GetAs I16 v))
     | INTEGER \<Rightarrow> GetDecimalValue (double_of_int (GetAs I32 v))
     | BIGINT \<Rightarrow> GetDecimalValue (double_of_int (GetAs I64 v))
     | DECIMAL \<Rightarrow> GetDecimalValue (GetAs_double v)
     | VARCHAR \<Rightarrow> rbind (Value_ToString v) (\<lambda>str. rbind (catch_parse ''decimal'' str (stod str)) (\<lambda>res.
         if cmp_double GT res BUSTUB_DECIMAL_MAX \<or> cmp_double LT res BUSTUB_DECIMAL_MIN then out_of_range
         else GetDecimalValue res))
     | _ \<Rightarrow> not_coercable v ''DECIMAL'')
     else not_coercable v ''DECIMAL'')"

definition CastAsVarchar :: "Value \<Rightarrow> Value result" where
  "CastAsVarchar v = (if IsCoercableFrom VARCHAR (type_id v) then
     if IsNull v then GetVarcharValue_ptr None False else
     if type_id v \<in> {BOOLEAN, TINYINT, SMALLINT, INTEGER, BIGINT, DECIMAL, VARCHAR}
     then rbind (Value_ToString v) GetVarcharValue
     else not_coercable v ''VARCHAR''
     else not_coercable v ''VARCHAR'')"

definition CastAsBoolean :: "Value \<Rightarrow> Value result" where
  "CastAsBoolean v = (if IsCoercableFrom BOOLEAN (type_id v) then
     if IsNull v then GetBooleanValue_int8 BUSTUB_BOOLEAN_NULL else
     (case type_id v of
       BOOLEAN \<Rightarrow> GetBooleanValue_int8 (GetAs I8 v)
     | VARCHAR \<Rightarrow> rbind (Value_ToString v) (\<lambda>s. let str = lower s in
         if str = ''true'' \<or> str = ''1'' \<or> str = ''t'' then GetBooleanValue_bool True
         else if str = ''false'' \<or> str = ''0'' \<or> str = ''f'' then GetBooleanValue_bool False
         else invalid ''Boolean value format error.'')
     | _ \<Rightarrow> not_coercable v ''BOOLEAN'')
     else not_coercable v ''BOOLEAN'')"

section \<open>Timestamps\<close>

definition sub :: "string \<Rightarrow> nat \<Rightarrow> nat \<Rightarrow> string" where "sub s i n = take n (drop i s)"

definition digit_positions :: "nat list" where
  "digit_positions = [0, 1, 2, 3, 5, 6, 8, 9, 11, 12, 14, 15, 17, 18, 20, 21, 22, 23, 24, 25, 27, 28]"

definition is_leap :: "nat \<Rightarrow> bool" where
  "is_leap year \<longleftrightarrow> (year mod 4 = 0 \<and> year mod 100 \<noteq> 0) \<or> year mod 400 = 0"

definition max_day :: "nat list" where "max_day = [0, 31, 28, 31, 30, 31, 30, 31, 31, 30, 31, 30, 31]"
definition max_day_lunar :: "nat list" where "max_day_lunar = [0, 31, 29, 31, 30, 31, 30, 31, 31, 30, 31, 30, 31]"

text \<open>Each assignment to \<open>res\<close> is modulo \<open>2^64\<close>; \<open>timezone\<close> is the \<open>uint32_t\<close> value of \<open>tz + 12\<close>.\<close>

definition pack_timestamp :: "nat \<Rightarrow> nat \<Rightarrow> nat \<Rightarrow> nat \<Rightarrow> nat \<Rightarrow> nat \<Rightarrow> nat \<Rightarrow> int \<Rightarrow> nat" where
  "pack_timestamp year month day hour minute sec micro tz = (let timezone = nat ((tz + 12) mod 2 ^ 32) in
     ((((((month * 32 + day) * 27 + timezone) * 10000 + year) * 100000)
        + (hour * 3600 + minute * 60 + sec)) * 1000000 + micro) mod 2 ^ 64)"

text \<open>The string is checked character by character first, so the \<open>sscanf\<close> call reads its eight
  fields at fixed positions and never fails.\<close>

definition parse_timestamp :: "string \<Rightarrow> Value result" where
  "parse_timestamp str0 = (let str = (if length str0 = 22 then sub str0 0 19 @ ''.000000'' @ sub str0 19 3 else str0) in
     if length str \<noteq> 29 then invalid ''Timestamp format error.''
     else if str ! 10 \<noteq> CHR '' '' \<or> str ! 4 \<noteq> CHR ''-'' \<or> str ! 7 \<noteq> CHR ''-'' \<or> str ! 13 \<noteq> CHR '':'' \<or>
        str ! 16 \<noteq> CHR '':'' \<or> str ! 19 \<noteq> CHR ''.'' \<or> (str ! 26 \<noteq> CHR ''+'' \<and> str ! 26 \<noteq> CHR ''-'')
       then invalid ''Timestamp format error.''
     else if \<not> list_all (\<lambda>i. is_digit (str ! i)) digit_positions then invalid ''Timestamp format error.''
     else let year = digits_val (sub str 0 4); month = digits_val (sub str 5 2); day = digits_val (sub str 8 2);
              hour = digits_val (sub str 11 2); minute = digits_val (sub str 14 2); sec = digits_val (sub str 17 2);
              micro = digits_val (sub str 20 6);
              tz = (if str ! 26 = CHR ''-'' then - int (digits_val (sub str 27 2)) else int (digits_val (sub str 27 2)))
       in if year > 9999 \<or> month > 12 \<or> day > 31 \<or> hour > 23 \<or> minute > 59 \<or> sec > 59 \<or> micro > 999999 \<or>
             day = 0 \<or> month = 0 then Inl (Throw ET_OUT_OF_RANGE ''Timestamp value out of range.'')
          else if (if is_leap year then day > max_day_lunar ! month else day > max_day ! month)
            then Inl (Throw ET_OUT_OF_RANGE ''Timestamp value out of range.'')
          else if tz > 26 then invalid ''Timestamp format error.''
          else GetTimestampValue (static_cast I64 (int (pack_timestamp year month day hour minute sec micro tz))))"

definition CastAsTimestamp :: "Value \<Rightarrow> Value result" where
  "CastAsTimestamp v = (if IsCoercableFrom TIMESTAMP (type_id v) then
     if IsNull v then GetTimestampValue (static_cast I64 (int BUSTUB_TIMESTAMP_NULL)) else
     (case type_id v of
       TIMESTAMP \<Rightarrow> GetTimestampValue (static_cast I64 (int (GetAs_uint64 v)))
     | VARCHAR \<Rightarrow> rbind (Value_ToString v) parse_timestamp
     | _ \<Rightarrow> not_coercable v ''TIMESTAMP'')
     else not_coercable v ''TIMESTAMP'')"

section \<open>Timestamp round trip\<close>

lemma digits_val_zeros [simp]: "digits_val (replicate n (CHR ''0'') @ s) = digits_val s"
  by (induction n) (simp_all add: digits_val_def digit_val_def)

lemma fmt0_val [simp]: "digits_val (fmt0 w n) = n"
  by (simp add: fmt0_def pad0_def)

lemma length_fmt0 [simp]: "n < 10 ^ w \<Longrightarrow> 0 < w \<Longrightarrow> length (fmt0 w n) = w"
  using length_nat_to_string [of n w] by (simp add: fmt0_def pad0_def)

lemma is_digit_zero [simp]: "is_digit (CHR ''0'')" by (simp add: is_digit_def)

lemma fmt0_digits [simp]: "list_all is_digit (fmt0 w n)"
  by (auto simp: list_all_iff fmt0_def pad0_def nat_to_string_digits)

lemma nth_fmt0_digit [simp]: "n < 10 ^ w \<Longrightarrow> i < w \<Longrightarrow> is_digit (fmt0 w n ! i)"
  using fmt0_digits [of w n] by (simp add: list_all_length)

definition timestamp_text :: "nat \<Rightarrow> nat \<Rightarrow> nat \<Rightarrow> nat \<Rightarrow> nat \<Rightarrow> nat \<Rightarrow> nat \<Rightarrow> int \<Rightarrow> string" where
  "timestamp_text year month day hour minute sec micro tz =
     fmt0 4 year @ ''-'' @ fmt0 2 month @ ''-'' @ fmt0 2 day @ '' '' @ fmt0 2 hour @ '':'' @ fmt0 2 minute @ '':''
       @ fmt0 2 sec @ ''.'' @ fmt0 6 micro @ (if tz \<ge> 0 then ''+'' else ''-'') @ fmt0 2 (nat \<bar>tz\<bar>)"

definition valid_timestamp :: "nat \<Rightarrow> nat \<Rightarrow> nat \<Rightarrow> nat \<Rightarrow> nat \<Rightarrow> nat \<Rightarrow> nat \<Rightarrow> int \<Rightarrow> bool" where
  "valid_timestamp year month day hour minute sec micro tz \<longleftrightarrow>
     year \<le> 9999 \<and> 1 \<le> month \<and> month \<le> 12 \<and> 1 \<le> day \<and>
     day \<le> (if is_leap year then max_day_lunar ! month else max_day ! month) \<and>
     hour \<le> 23 \<and> minute \<le> 59 \<and> sec \<le> 59 \<and> micro \<le> 999999 \<and> - 12 \<le> tz \<and> tz \<le> 14"

lemma valid_day: "valid_timestamp year month day hour minute sec micro tz \<Longrightarrow> day \<le> 31"
proof -
  assume v: "valid_timestamp year month day hour minute sec micro tz"
  have "list_all (\<lambda>d. d \<le> 31) max_day" "list_all (\<lambda>d. d \<le> 31) max_day_lunar"
    "length max_day = 13" "length max_day_lunar = 13" by (simp_all add: max_day_def max_day_lunar_def)
  moreover have "month < 13" using v by (simp add: valid_timestamp_def)
  ultimately have "max_day ! month \<le> 31" "max_day_lunar ! month \<le> 31" by (simp_all add: list_all_length)
  then show ?thesis using v by (auto simp: valid_timestamp_def split: if_splits)
qed

lemma parse_timestamp_text:
  assumes "valid_timestamp year month day hour minute sec micro tz"
  shows "parse_timestamp (timestamp_text year month day hour minute sec micro tz) =
    GetTimestampValue (static_cast I64 (int (pack_timestamp year month day hour minute sec micro tz)))"
proof -
  let ?s = "timestamp_text year month day hour minute sec micro tz"
  have len: "length (fmt0 4 year) = 4" "length (fmt0 2 month) = 2" "length (fmt0 2 day) = 2"
    "length (fmt0 2 hour) = 2" "length (fmt0 2 minute) = 2" "length (fmt0 2 sec) = 2"
    "length (fmt0 6 micro) = 6" "length (fmt0 2 (nat \<bar>tz\<bar>)) = 2"
    using assms valid_day [OF assms] by (auto simp: valid_timestamp_def)
  then have "length ?s = 29" by (simp add: timestamp_text_def)
  moreover have sub: "sub ?s 0 4 = fmt0 4 year" "sub ?s 5 2 = fmt0 2 month" "sub ?s 8 2 = fmt0 2 day"
    "sub ?s 11 2 = fmt0 2 hour" "sub ?s 14 2 = fmt0 2 minute" "sub ?s 17 2 = fmt0 2 sec"
    "sub ?s 20 6 = fmt0 6 micro" "sub ?s 27 2 = fmt0 2 (nat \<bar>tz\<bar>)"
    using len by (simp_all add: timestamp_text_def sub_def)
  moreover have "?s ! 10 = CHR '' ''" "?s ! 4 = CHR ''-''" "?s ! 7 = CHR ''-''" "?s ! 13 = CHR '':''"
     "?s ! 16 = CHR '':''" "?s ! 19 = CHR ''.''" "?s ! 26 = (if tz \<ge> 0 then CHR ''+'' else CHR ''-'')"
    using len by (simp_all add: timestamp_text_def nth_append)
  moreover have "list_all (\<lambda>i. is_digit (?s ! i)) digit_positions"
    using len assms valid_day [OF assms] 
    by (auto simp: timestamp_text_def nth_append digit_positions_def valid_timestamp_def nat_less_iff)
  ultimately show ?thesis
    using assms valid_day [OF assms]
    by (auto simp: parse_timestamp_def Let_def valid_timestamp_def split: if_splits)
qed

lemma div_mod_pack:
  "r < k \<Longrightarrow> (q * k + r) mod k = (r :: nat)" "r < k \<Longrightarrow> (q * k + r) div k = (q :: nat)"
  by auto

lemma unpack_timestamp:
  assumes "valid_timestamp year month day hour minute sec micro tz"
  shows "Value_ToString (set_timestamp (int (pack_timestamp year month day hour minute sec micro tz))) =
    Inr (timestamp_text year month day hour minute sec micro tz)"
proof -
  let ?z = "nat (tz + 12)" and ?secs = "hour * 3600 + minute * 60 + sec"
  let ?t3 = "(month * 32 + day) * 27 + ?z"
  let ?t1 = "(?t3 * 10000 + year) * 100000 + ?secs"
  let ?tm = "?t1 * 1000000 + micro"
  note v = assms [unfolded valid_timestamp_def] valid_day [OF assms]
  have z: "nat ((tz + 12) mod 2 ^ 32) = ?z" "?z < 27" using v by (auto simp: nat_less_iff)
  have secs: "?secs < 86400" using v by simp
  have b: "?tm < 11300000000000000000" using v z(2) secs by simp
  then have pk: "pack_timestamp year month day hour minute sec micro tz = ?tm"
    unfolding pack_timestamp_def Let_def z by (intro mod_less) simp
  define tm where "tm = ?tm"
  have bt: "tm < 11300000000000000000" using b by (simp only: tm_def)
  then have un: "unat (of_nat tm :: 64 word) = tm" by (simp add: unat_of_nat)
  have nn: "\<not> IsNull (set_timestamp (int tm))" "GetAs_uint64 (set_timestamp (int tm)) = tm"
      "type_id (set_timestamp (int tm)) = TIMESTAMP"
    using bt un by (simp_all add: set_timestamp_def Let_def IsNull_def null_len_def BUSTUB_TIMESTAMP_NULL_def
        BUSTUB_VALUE_NULL_def GetAs_uint64_def nat_mod_distrib)
  have d: "tm mod 1000000 = micro" "tm div 1000000 = ?t1"
    unfolding tm_def by (rule div_mod_pack, use v in simp)+
  have d1: "?t1 mod 100000 = ?secs" "?t1 div 100000 = ?t3 * 10000 + year"
    by (rule div_mod_pack, use secs in simp)+
  have d2: "(?t3 * 10000 + year) mod 10000 = year" "(?t3 * 10000 + year) div 10000 = ?t3"
    by (rule div_mod_pack, use v in simp)+
  have d3: "?t3 mod 27 = ?z" "?t3 div 27 = month * 32 + day" by (rule div_mod_pack [OF z(2)])+
  have d4: "(month * 32 + day) mod 32 = day" "(month * 32 + day) div 32 mod 65536 = month" using v by simp_all
  have t: "?secs mod 60 = sec" "?secs div 60 mod 60 = minute" "?secs div 60 div 60 mod 24 = hour"
  proof -
    have q: "?secs = (hour * 60 + minute) * 60 + sec" by simp
    have "?secs div 60 = hour * 60 + minute" "?secs mod 60 = sec" unfolding q
      by (rule div_mod_pack, use v in simp)+
    then show "?secs mod 60 = sec" "?secs div 60 mod 60 = minute" "?secs div 60 div 60 mod 24 = hour"
      using v by simp_all
  qed
  have tz: "int ?z - 12 = tz" using v by simp
  have len: "length (fmt0 4 year) = 4" "length (fmt0 2 month) = 2" "length (fmt0 2 day) = 2"
    "length (fmt0 2 hour) = 2" "length (fmt0 2 minute) = 2" "length (fmt0 2 sec) = 2" "length (fmt0 6 micro) = 6"
    using v by auto
  show ?thesis
    unfolding pk tm_def [symmetric] Value_ToString_def Type_ToString_def nn(3) TypeId.case
      TimestampType_ToString_def Let_def nn(2) d d1 d2 d3 d4 t tz
    using nn(1) len by (simp add: timestamp_text_def)
qed



text \<open>Zones from +15 to +26 pass the check of \<open>CastAsTimestamp\<close> but do not fit the 27 zones of the
  packed form: the excess carries into the day, and the value prints as another day and zone.\<close>

theorem timestamp_zone_carries:
  "(case CastAsTimestamp (str_value ''2020-01-01 00:00:00.000000+20'') of Inr v \<Rightarrow> Value_ToString v | Inl e \<Rightarrow> Inl e)
     = Inr ''2020-01-02 00:00:00.000000-07''"
  by code_simp

end
