(* ===== verification/Schemas.thy ===== *)
theory Schemas
  imports ValueFactory
begin

text \<open>
  Columns and schemas (catalog/column.h, catalog/column.cpp, catalog/schema.h,
  catalog/schema.cpp): the fixed-size part of a tuple gives every inlined column its bytes and
  every uninlined column (VARCHAR, VECTOR) a four-byte offset.
\<close>

section \<open>Columns\<close>

record Column =
  column_name :: string
  column_type :: TypeId
  col_length :: nat
  column_offset :: nat

text \<open>The result type of \<open>TypeSize\<close> is \<open>uint8_t\<close>: lengths are reduced modulo 256.\<close>

definition TypeSize :: "TypeId \<Rightarrow> nat \<Rightarrow> nat result" where
  "TypeSize ty len = (case ty of BOOLEAN \<Rightarrow> Inr 1 | TINYINT \<Rightarrow> Inr 1 | SMALLINT \<Rightarrow> Inr 2
     | INTEGER \<Rightarrow> Inr 4 | BIGINT \<Rightarrow> Inr 8 | DECIMAL \<Rightarrow> Inr 8 | TIMESTAMP \<Rightarrow> Inr 8
     | VARCHAR \<Rightarrow> Inr (len mod 256)
     | VECTOR \<Rightarrow> Inr (len * 8 mod 256)
     | INVALID \<Rightarrow> Inl (LogicError ''Cannot get size of invalid type''))"

definition Column_fixed :: "string \<Rightarrow> TypeId \<Rightarrow> Column result" where
  "Column_fixed name ty = rbind (TypeSize ty 0) (\<lambda>n.
     assert (ty \<noteq> VARCHAR) (assert (ty \<noteq> VECTOR)
       (Inr \<lparr> column_name = name, column_type = ty, col_length = n, column_offset = 0 \<rparr>)))"

definition Column_varlen :: "string \<Rightarrow> TypeId \<Rightarrow> nat \<Rightarrow> Column result" where
  "Column_varlen name ty len = rbind (TypeSize ty len) (\<lambda>n.
     assert (ty = VARCHAR \<or> ty = VECTOR)
       (Inr \<lparr> column_name = name, column_type = ty, col_length = n, column_offset = 0 \<rparr>))"

text \<open>The renaming constructor and \<open>WithColumnName\<close> keep everything but the name.\<close>

definition Column_rename :: "string \<Rightarrow> Column \<Rightarrow> Column" where
  "Column_rename name c = c \<lparr> column_name := name \<rparr>"

definition WithColumnName :: "Column \<Rightarrow> string \<Rightarrow> Column" where
  "WithColumnName c name = c \<lparr> column_name := name \<rparr>"

definition Column_IsInlined :: "Column \<Rightarrow> bool" where
  "Column_IsInlined c \<longleftrightarrow> column_type c \<noteq> VARCHAR \<and> column_type c \<noteq> VECTOR"

definition Column_ToString :: "bool \<Rightarrow> Column \<Rightarrow> string" where
  "Column_ToString simplified c = (if simplified then
       column_name c @ '':'' @ TypeIdToString (column_type c)
       @ (if column_type c = VARCHAR then ''('' @ nat_to_string (col_length c) @ '')'' else [])
       @ (if column_type c = VECTOR then ''('' @ nat_to_string (col_length c div 8) @ '')'' else [])
     else ''Column['' @ column_name c @ '', '' @ TypeIdToString (column_type c) @ '', ''
       @ ''Offset:'' @ nat_to_string (column_offset c) @ '', ''
       @ ''Length:'' @ nat_to_string (col_length c) @ '']'')"

text \<open>\<open>Value::GetColumn\<close>\<close>

definition Value_GetColumn :: "Value \<Rightarrow> Column result" where
  "Value_GetColumn v = (if type_id v = VARCHAR \<or> type_id v = VECTOR
     then rbind (Value_GetStorageSize v) (\<lambda>n. Column_varlen ''<val>'' (type_id v) n)
     else Column_fixed ''<val>'' (type_id v))"


section \<open>Schemas\<close>

record Schema =
  sch_length :: nat
  columns :: "Column list"
  tuple_is_inlined :: bool
  uninlined_columns :: "nat list"

text \<open>The bytes of a column in the fixed-size part; offsets are \<open>uint32_t\<close>.\<close>

definition col_width :: "Column \<Rightarrow> nat" where
  "col_width c = (if Column_IsInlined c then col_length c else 4)"

fun schema_loop :: "Column list \<Rightarrow> nat \<Rightarrow> nat \<Rightarrow> Schema \<Rightarrow> Schema" where
  "schema_loop [] index curr_offset s = s \<lparr> sch_length := curr_offset \<rparr>"
| "schema_loop (c # cs) index curr_offset s =
     (let s1 = (if Column_IsInlined c then s
                else s \<lparr> tuple_is_inlined := False, uninlined_columns := uninlined_columns s @ [index] \<rparr>);
          c' = c \<lparr> column_offset := curr_offset \<rparr>
      in schema_loop cs (index + 1) ((curr_offset + col_width c) mod 2 ^ 32)
           (s1 \<lparr> columns := columns s1 @ [c'] \<rparr>))"

definition Schema_ctor :: "Column list \<Rightarrow> Schema" where
  "Schema_ctor cs = schema_loop cs 0 0
     \<lparr> sch_length = 0, columns = [], tuple_is_inlined = True, uninlined_columns = [] \<rparr>"

definition CopySchema :: "Schema \<Rightarrow> nat list \<Rightarrow> Schema result" where
  "CopySchema from attrs = rbind (rmapM (at (columns from)) attrs) (\<lambda>cols. Inr (Schema_ctor cols))"

definition GetColumn :: "Schema \<Rightarrow> nat \<Rightarrow> Column result" where
  "GetColumn s i = at (columns s) i"

fun find_col :: "string \<Rightarrow> Column list \<Rightarrow> nat \<Rightarrow> nat option" where
  "find_col name [] i = None"
| "find_col name (c # cs) i = (if column_name c = name then Some i else find_col name cs (i + 1))"

definition TryGetColIdx :: "Schema \<Rightarrow> string \<Rightarrow> nat option" where
  "TryGetColIdx s name = find_col name (columns s) 0"

definition GetColIdx :: "Schema \<Rightarrow> string \<Rightarrow> nat result" where
  "GetColIdx s name = (case TryGetColIdx s name of Some i \<Rightarrow> Inr i
     | None \<Rightarrow> Inl (LogicError ''Column does not exist''))"

definition GetColumnCount :: "Schema \<Rightarrow> nat" where
  "GetColumnCount s = length (columns s) mod 2 ^ 32"

definition GetInlinedStorageSize :: "Schema \<Rightarrow> nat" where
  "GetInlinedStorageSize s = sch_length s"

fun intercalate :: "string \<Rightarrow> string list \<Rightarrow> string" where
  "intercalate sep [] = []"
| "intercalate sep [s] = s"
| "intercalate sep (s # t # r) = s @ sep @ intercalate sep (t # r)"

definition Schema_ToString :: "bool \<Rightarrow> Schema \<Rightarrow> string" where
  "Schema_ToString simplified s = (if simplified then
       ''('' @ intercalate '', '' (map (Column_ToString True) (columns s)) @ '')''
     else ''Schema['' @ ''NumColumns:'' @ nat_to_string (GetColumnCount s) @ '', ''
       @ ''IsInlined:'' @ (if tuple_is_inlined s then ''1'' else ''0'') @ '', ''
       @ ''Length:'' @ nat_to_string (sch_length s) @ '']''
       @ '' :: ('' @ intercalate '', '' (map (Column_ToString True) (columns s)) @ '')'')"

section \<open>The layout of the fixed-size part\<close>

definition col_start :: "Column list \<Rightarrow> nat \<Rightarrow> nat" where
  "col_start cs k = sum_list (map col_width (take k cs))"

lemma col_start_0 [simp]: "col_start cs 0 = 0"
  and col_start_Suc: "k < length cs \<Longrightarrow> col_start cs (Suc k) = col_start cs k + col_width (cs ! k)"
  by (simp_all add: col_start_def take_Suc_conv_app_nth)

lemma col_start_Cons [simp]: "col_start (c # cs) (Suc k) = col_width c + col_start cs k"
  by (simp add: col_start_def)

lemma col_start_mono: "i \<le> j \<Longrightarrow> col_start cs i \<le> col_start cs j"
  unfolding col_start_def by (rule sum_take_mono)

lemma col_end_le: "i < j \<Longrightarrow> j \<le> length cs \<Longrightarrow> col_start cs i + col_width (cs ! i) \<le> col_start cs j"
  using col_start_mono [of "Suc i" j cs] col_start_Suc [of i cs] by simp

lemma schema_loop_spec:
  assumes "off + col_start cs (length cs) < 2 ^ 32"
  shows "schema_loop cs n off s = \<lparr> sch_length = off + col_start cs (length cs),
     columns = columns s @ map (\<lambda>i. (cs ! i) \<lparr> column_offset := off + col_start cs i \<rparr>) [0..<length cs],
     tuple_is_inlined = (tuple_is_inlined s \<and> list_all Column_IsInlined cs),
     uninlined_columns = uninlined_columns s @ map ((+) n) (filter (\<lambda>i. \<not> Column_IsInlined (cs ! i)) [0..<length cs]) \<rparr>"
  using assms
proof (induction cs arbitrary: n off s)
  case (Cons c cs)
  have up: "[0..<length (c # cs)] = 0 # map Suc [0..<length cs]"
    by (simp add: upt_conv_Cons map_Suc_upt del: upt_Suc)
  have lt: "(off + col_width c) mod 2 ^ 32 = off + col_width c" using Cons.prems by simp
  have pre: "off + col_width c + col_start cs (length cs) < 2 ^ 32" using Cons.prems by simp
  show ?case unfolding schema_loop.simps Let_def lt Cons.IH [OF pre] up
    by (auto simp: filter_map o_def add.assoc)
qed (cases s, simp)

lemma Schema_ctor_spec:
  assumes "col_start cs (length cs) < 2 ^ 32"
  shows "Schema_ctor cs = \<lparr> sch_length = col_start cs (length cs),
     columns = map (\<lambda>i. (cs ! i) \<lparr> column_offset := col_start cs i \<rparr>) [0..<length cs],
     tuple_is_inlined = list_all Column_IsInlined cs,
     uninlined_columns = filter (\<lambda>i. \<not> Column_IsInlined (cs ! i)) [0..<length cs] \<rparr>"
proof -
  have id: "map ((+) (0::nat)) xs = xs" for xs by (simp add: map_idI)
  show ?thesis
    unfolding Schema_ctor_def using schema_loop_spec [of 0 cs 0] assms by (simp add: id)
qed

text \<open>The constructor of a schema lays the columns out left to right without gap or overlap:
  while the fixed-size part is shorter than \<open>2^32\<close> bytes, every column ends at or before the start
  of each later one and within the recorded length, and the uninlined columns are exactly those
  recorded as such.\<close>

theorem Schema_layout:
  assumes "col_start cs (length cs) < 2 ^ 32" "j < length cs"
  shows "GetColumn (Schema_ctor cs) j = Inr ((cs ! j) \<lparr> column_offset := col_start cs j \<rparr>) \<and>
    col_start cs j + col_width (cs ! j) \<le> GetInlinedStorageSize (Schema_ctor cs) \<and>
    (\<forall>i < j. col_start cs i + col_width (cs ! i) \<le> col_start cs j) \<and>
    (j \<in> set (uninlined_columns (Schema_ctor cs)) \<longleftrightarrow> \<not> Column_IsInlined (cs ! j))"
  using assms col_end_le [of _ j cs] col_end_le [of j "length cs" cs]
  by (simp add: Schema_ctor_spec GetColumn_def GetInlinedStorageSize_def)

theorem Schema_layout_witness:
  "GetColumn (Schema_ctor [\<lparr> column_name = ''a'', column_type = VARCHAR, col_length = 32, column_offset = 0 \<rparr>,
      \<lparr> column_name = ''b'', column_type = INTEGER, col_length = 4, column_offset = 0 \<rparr>]) 1 =
     Inr \<lparr> column_name = ''b'', column_type = INTEGER, col_length = 4, column_offset = 4 \<rparr>"
  (is "GetColumn (Schema_ctor ?cs) 1 = _")
proof -
  have "col_start ?cs (length ?cs) < 2 ^ 32" "1 < length ?cs" "col_start ?cs 1 = 4" by code_simp+
  then show ?thesis using Schema_layout [of ?cs 1] by simp
qed

text \<open>The storage size of a VARCHAR column is its declared length modulo 256, because \<open>TypeSize\<close>
  returns a \<open>uint8_t\<close>: a column declared \<open>VARCHAR(256)\<close> records length 0.\<close>

theorem Column_varlen_truncates:
  "Column_varlen name VARCHAR len =
     Inr \<lparr> column_name = name, column_type = VARCHAR, col_length = len mod 256, column_offset = 0 \<rparr>"
  by (simp add: Column_varlen_def TypeSize_def)

end
