(* ===== verification/Tuples.thy ===== *)
theory Tuples
  imports Schemas
begin

text \<open>
  Record identifiers and tuples (common/rid.h, storage/table/tuple.h, storage/table/tuple.cpp).
  A tuple is a byte vector: the fixed-size part laid out by the schema, then the length-prefixed
  bytes of the uninlined values, whose offsets the fixed-size part stores.
\<close>

section \<open>Record identifiers\<close>

record RID =
  page_id :: int
  slot_num :: nat

definition INVALID_PAGE_ID :: int where "INVALID_PAGE_ID = - 1"

definition RID_of_int64 :: "int \<Rightarrow> RID" where
  "RID_of_int64 r = \<lparr> page_id = static_cast I32 (r div 2 ^ 32), slot_num = nat (r mod 2 ^ 32) \<rparr>"

text \<open>\<open>page_id_ << 32 | slot_num_\<close>, the operands having no bit in common.\<close>

definition RID_Get :: "RID \<Rightarrow> int" where
  "RID_Get r = page_id r * 2 ^ 32 + int (slot_num r)"

section \<open>Tuples\<close>

record TupleMeta =
  ts :: int
  is_deleted :: bool

record Tuple =
  rid :: RID
  data :: buffer

definition Tuple_Empty :: Tuple where
  "Tuple_Empty = \<lparr> rid = \<lparr> page_id = INVALID_PAGE_ID, slot_num = 0 \<rparr>, data = [] \<rparr>"

definition SetRid :: "Tuple \<Rightarrow> RID \<Rightarrow> Tuple" where "SetRid t r = t \<lparr> rid := r \<rparr>"

definition GetLength :: "Tuple \<Rightarrow> nat" where "GetLength t = length (data t) mod 2 ^ 32"

text \<open>The size of an uninlined value after its length prefix: none for NULL.\<close>

definition payload_len :: "Value \<Rightarrow> nat result" where
  "payload_len v = rbind (Value_GetStorageSize v) (\<lambda>len. Inr (if len = BUSTUB_VALUE_NULL then 0 else len))"

definition tuple_size_step :: "Value list \<Rightarrow> nat \<Rightarrow> nat \<Rightarrow> nat result" where
  "tuple_size_step values sz i = rbind (at values i) (\<lambda>v. rbind (payload_len v) (\<lambda>len.
     Inr ((sz + 4 + len) mod 2 ^ 32)))"

definition tuple_write_step :: "Value list \<Rightarrow> Schema \<Rightarrow> buffer \<times> nat \<Rightarrow> nat \<Rightarrow> (buffer \<times> nat) result" where
  "tuple_write_step values schema = (\<lambda>(dat, offset) i.
     rbind (GetColumn schema i) (\<lambda>col. rbind (at values i) (\<lambda>v.
       if \<not> Column_IsInlined col then
         rbind (write_at dat (column_offset col) (le_encode 4 offset)) (\<lambda>d1.
         rbind (Value_SerializeTo v d1 offset) (\<lambda>d2.
         rbind (payload_len v) (\<lambda>len.
           Inr (d2, (offset + 4 + len) mod 2 ^ 32))))
       else rbind (Value_SerializeTo v dat (column_offset col)) (\<lambda>d1. Inr (d1, offset)))))"

definition Tuple_ctor :: "Value list \<Rightarrow> Schema \<Rightarrow> Tuple result" where
  "Tuple_ctor values schema = assert (length values = GetColumnCount schema)
     (rbind (rfoldM (tuple_size_step values) (GetInlinedStorageSize schema) (uninlined_columns schema)) (\<lambda>sz.
      rbind (rfoldM (tuple_write_step values schema)
               (replicate sz (char_of (0::nat)), GetInlinedStorageSize schema)
               [0..<GetColumnCount schema])
        (\<lambda>(dat, offset). Inr \<lparr> rid = \<lparr> page_id = INVALID_PAGE_ID, slot_num = 0 \<rparr>, data = dat \<rparr>)))"

definition Tuple_from_bytes :: "RID \<Rightarrow> buffer \<Rightarrow> nat \<Rightarrow> Tuple result" where
  "Tuple_from_bytes r bytes sz = rbind (read_at bytes 0 sz) (\<lambda>bs. Inr \<lparr> rid = r, data = bs \<rparr>)"

text \<open>\<open>GetDataPtr\<close> as an offset into the tuple's bytes; the stored offset is read as an \<open>int32_t\<close>.\<close>

definition GetDataPtr :: "Tuple \<Rightarrow> Schema \<Rightarrow> nat \<Rightarrow> nat result" where
  "GetDataPtr t schema i = rbind (GetColumn schema i) (\<lambda>col.
     if Column_IsInlined col then Inr (column_offset col)
     else rbind (read_at (data t) (column_offset col) 4) (\<lambda>bs.
       let offset = static_cast I32 (int (le_decode bs)) in
       if offset < 0 then Inl Undefined else Inr (nat offset)))"

definition GetValue :: "Tuple \<Rightarrow> Schema \<Rightarrow> nat \<Rightarrow> Value result" where
  "GetValue t schema i = rbind (GetColumn schema i) (\<lambda>col. rbind (GetDataPtr t schema i) (\<lambda>p.
     Value_DeserializeFrom (data t) p (column_type col)))"

definition KeyFromTuple :: "Tuple \<Rightarrow> Schema \<Rightarrow> Schema \<Rightarrow> nat list \<Rightarrow> Tuple result" where
  "KeyFromTuple t schema key_schema key_attrs =
     rbind (rmapM (GetValue t schema) key_attrs) (\<lambda>values. Tuple_ctor values key_schema)"

definition Tuple_IsNull :: "Tuple \<Rightarrow> Schema \<Rightarrow> nat \<Rightarrow> bool result" where
  "Tuple_IsNull t schema i = rbind (GetValue t schema i) (\<lambda>v. Inr (IsNull v))"

definition Tuple_ToString :: "Tuple \<Rightarrow> Schema \<Rightarrow> string result" where
  "Tuple_ToString t schema = rbind (rmapM (\<lambda>i. rbind (Tuple_IsNull t schema i) (\<lambda>n.
       if n then Inr ''<NULL>'' else rbind (GetValue t schema i) Value_ToString)) [0..<GetColumnCount schema])
     (\<lambda>ss. Inr (''('' @ intercalate '', '' ss @ '')''))"

definition Tuple_SerializeTo :: "Tuple \<Rightarrow> buffer \<Rightarrow> nat \<Rightarrow> buffer result" where
  "Tuple_SerializeTo t storage off = rbind (write_at storage off (le_encode 4 (length (data t)))) (\<lambda>st.
     write_at st (off + 4) (data t))"

definition Tuple_DeserializeFrom :: "Tuple \<Rightarrow> buffer \<Rightarrow> nat \<Rightarrow> Tuple result" where
  "Tuple_DeserializeFrom t storage off = rbind (read_at storage off 4) (\<lambda>bs.
     rbind (read_at storage (off + 4) (le_decode bs)) (\<lambda>d. Inr (t \<lparr> data := d \<rparr>)))"

definition IsTupleContentEqual :: "Tuple \<Rightarrow> Tuple \<Rightarrow> bool" where
  "IsTupleContentEqual a b \<longleftrightarrow> data a = data b"


section \<open>The types of stored values\<close>

lemma set_int_type [simp]: "type_id (set_int ty T n i) = ty"
  by (simp add: set_int_def Let_def Value_ctor_def)

lemma set_timestamp_type [simp]: "type_id (set_timestamp i) = TIMESTAMP"
  by (simp add: set_timestamp_def Let_def Value_ctor_def)

lemma Value_integral_type: "Value_integral ty i = Some v \<Longrightarrow> type_id v = ty"
  by (cases ty) auto

lemma Value_make_type:
  "Value_int8 ty i = Inr v \<Longrightarrow> type_id v = ty" "Value_int16 ty i = Inr v \<Longrightarrow> type_id v = ty"
  "Value_int32 ty i = Inr v \<Longrightarrow> type_id v = ty" "Value_int64 ty i = Inr v \<Longrightarrow> type_id v = ty"
  "Value_uint64 ty n = Inr v \<Longrightarrow> type_id v = ty" "Value_double ty d = Inr v \<Longrightarrow> type_id v = ty"
  "Value_varlen ty p n m = Inr v \<Longrightarrow> type_id v = ty" "Value_string ty str = Inr v \<Longrightarrow> type_id v = ty"
  "Value_vector ty ds = Inr v \<Longrightarrow> type_id v = ty"
  by (auto simp: Value_int8_def Value_int16_def Value_int32_def Value_int64_def Value_uint64_def Value_double_def
      Value_varlen_def Value_string_def Value_vector_def incompatible_def Value_ctor_def Let_def check_def rbind_Inr_iff
      split: option.splits if_splits TypeId.splits dest: Value_integral_type)

lemma Deserialize_type: "Value_DeserializeFrom buf off ty = Inr v \<Longrightarrow> type_id v = ty"
  by (cases ty) (auto simp: Value_DeserializeFrom_def TinyintType_DeserializeFrom_def SmallintType_DeserializeFrom_def
      IntegerType_DeserializeFrom_def BigintType_DeserializeFrom_def BooleanType_DeserializeFrom_def DecimalType_DeserializeFrom_def
      TimestampType_DeserializeFrom_def VarlenType_DeserializeFrom_def VectorType_DeserializeFrom_def not_implemented_def
      rbind_Inr_iff Let_def split: if_splits dest: Value_make_type)

lemma GetValue_type: "GetValue t s i = Inr v \<Longrightarrow> i < length (columns s) \<and> type_id v = column_type (columns s ! i)"
  by (auto simp: GetValue_def GetColumn_def rbind_Inr_iff at_Inr_iff dest: Deserialize_type)


section \<open>Constructing a tuple and reading it back\<close>

text \<open>Values that fit the columns: each well formed, of the column's type, and the size of every
  inlined column that of its type (as the column constructors set it).\<close>

definition fits :: "Column \<Rightarrow> Value \<Rightarrow> bool" where
  "fits c v \<longleftrightarrow> wf_value v \<and> type_id v = column_type c \<and>
     (Column_IsInlined c \<longrightarrow> GetTypeSize (column_type c) = Inr (col_length c))"

definition var_size :: "Column list \<Rightarrow> Value list \<Rightarrow> nat \<Rightarrow> nat" where
  "var_size cs vs k = sum_list (map (\<lambda>i. if Column_IsInlined (cs ! i) then 0 else ser_size (vs ! i)) [0..<k])"

definition var_start :: "Column list \<Rightarrow> Value list \<Rightarrow> nat \<Rightarrow> nat" where
  "var_start cs vs k = col_start cs (length cs) + var_size cs vs k"

lemma var_start_Suc:
  "var_start cs vs (Suc k) = var_start cs vs k + (if Column_IsInlined (cs ! k) then 0 else ser_size (vs ! k))"
  by (simp add: var_start_def var_size_def)

lemma var_start_mono: "i \<le> j \<Longrightarrow> var_start cs vs i \<le> var_start cs vs j"
  by (induction rule: dec_induct) (auto simp: var_start_Suc)

lemma var_end_le:
  "i < j \<Longrightarrow> \<not> Column_IsInlined (cs ! i) \<Longrightarrow> var_start cs vs i + ser_size (vs ! i) \<le> var_start cs vs j"
  using var_start_mono [of "Suc i" j cs vs] var_start_Suc [of cs vs i] by simp

lemma ser_size_inlined:
  "fits c v \<Longrightarrow> Column_IsInlined c \<Longrightarrow> ser_size v = col_width c"
  by (auto simp: fits_def ser_size_def col_width_def Column_IsInlined_def)

lemma payload_len_uninlined:
  "fits c v \<Longrightarrow> \<not> Column_IsInlined c \<Longrightarrow> payload_len v = Inr (ser_size v - 4) \<and> 4 \<le> ser_size v"
  by (auto simp: fits_def payload_len_def Value_GetStorageSize_def Column_IsInlined_def ser_size_def
      GetTypeSize_def IsNull_def VarlenType_GetStorageSize_def VectorType_GetStorageSize_def)

text \<open>Deserialising depends only on the bytes of the value.\<close>

lemma DeserializeFrom_frame:
  assumes wf: "wf_value v" and d: "Value_DeserializeFrom a off (type_id v) = Inr v"
    and len: "length b = length a" and room: "off + ser_size v \<le> length a"
    and eq: "\<And>i. off \<le> i \<Longrightarrow> i < off + ser_size v \<Longrightarrow> b ! i = a ! i"
  shows "Value_DeserializeFrom b off (type_id v) = Inr v"
proof -
  have rd: "read_at b p n = read_at a p n" if "off \<le> p" "p + n \<le> off + ser_size v" for p n
    using that by (intro read_at_cong len eq) auto
  show ?thesis
  proof (cases "type_id v = VARCHAR \<or> type_id v = VECTOR")
    case False
    then have "Value_DeserializeFrom b off (type_id v) = Value_DeserializeFrom a off (type_id v)"
      using wf rd [of off "ser_size v"]
      by (cases "type_id v") (simp_all add: Value_DeserializeFrom_def ser_size_def GetTypeSize_def wf_value_def
          TinyintType_DeserializeFrom_def SmallintType_DeserializeFrom_def IntegerType_DeserializeFrom_def
          BigintType_DeserializeFrom_def BooleanType_DeserializeFrom_def DecimalType_DeserializeFrom_def
          TimestampType_DeserializeFrom_def)
    then show ?thesis using d by simp
  next
    case ty: True
    have sz: "ser_size v = 4 + (if IsNull v then 0 else size_len v)"
      using ty by (auto simp: ser_size_def GetTypeSize_def)
    have hd: "read_at b off 4 = read_at a off 4" using rd [of off 4] sz by simp
    have tl: "read_at (drop (off + 4) b) 0 (size_len v) = read_at (drop (off + 4) a) 0 (size_len v)"
      if "\<not> IsNull v"
      using rd [of "off + 4" "size_len v"] sz that room len
      by (auto simp: read_at_def add.commute split: if_splits)
    obtain bs where bs: "read_at a off 4 = Inr bs" using room sz by (auto simp: read_at_def)
    have "le_decode bs = size_len v" if "\<not> IsNull v"
      using d ty bs that
      by (auto simp: Value_DeserializeFrom_def VarlenType_DeserializeFrom_def VectorType_DeserializeFrom_def
          Let_def Value_varlen_def result_simps split: if_splits)
    then show ?thesis using d ty bs hd tl
      by (cases "IsNull v") (auto simp: IsNull_def Value_DeserializeFrom_def VarlenType_DeserializeFrom_def
          VectorType_DeserializeFrom_def Let_def Value_varlen_def result_simps split: if_splits)
  qed
qed

text \<open>What a partially written tuple holds of column \<open>i\<close>.\<close>

definition holds :: "Column list \<Rightarrow> Value list \<Rightarrow> buffer \<Rightarrow> nat \<Rightarrow> bool" where
  "holds cs vs d i \<longleftrightarrow> (if Column_IsInlined (cs ! i)
     then Value_DeserializeFrom d (col_start cs i) (type_id (vs ! i)) = Inr (vs ! i)
     else read_at d (col_start cs i) 4 = Inr (le_encode 4 (var_start cs vs i)) \<and>
       Value_DeserializeFrom d (var_start cs vs i) (type_id (vs ! i)) = Inr (vs ! i))"

definition tuple_inv :: "Column list \<Rightarrow> Value list \<Rightarrow> nat \<Rightarrow> buffer \<times> nat \<Rightarrow> bool" where
  "tuple_inv cs vs k = (\<lambda>(d, off). length d = var_start cs vs (length cs) \<and>
     off = var_start cs vs k \<and> (\<forall>i<k. holds cs vs d i))"

lemma holds_frame:
  assumes fit: "fits (cs ! i) (vs ! i)" and i: "i < k" "k < length cs" and h: "holds cs vs d i"
    and len: "length d' = length d" "length d = var_start cs vs (length cs)"
    and eq: "\<And>j. j < length d \<Longrightarrow> \<not> (col_start cs k \<le> j \<and> j < col_start cs k + col_width (cs ! k)) \<Longrightarrow>
       \<not> (\<not> Column_IsInlined (cs ! k) \<and> var_start cs vs k \<le> j \<and> j < var_start cs vs k + ser_size (vs ! k)) \<Longrightarrow>
       d' ! j = d ! j"
  shows "holds cs vs d' i"
proof -
  have wf: "wf_value (vs ! i)" using fit by (simp add: fits_def)
  have c1: "col_start cs i + col_width (cs ! i) \<le> col_start cs k" using i by (intro col_end_le) auto
  have c2: "col_start cs k + col_width (cs ! k) \<le> col_start cs (length cs)" using i by (intro col_end_le) auto
  have v1: "var_start cs vs i + ser_size (vs ! i) \<le> var_start cs vs k" if "\<not> Column_IsInlined (cs ! i)"
    using i that by (intro var_end_le) auto
  have v0: "col_start cs (length cs) \<le> var_start cs vs j" for j by (simp add: var_start_def)
  have v2: "var_start cs vs k \<le> var_start cs vs (length cs)" using i by (intro var_start_mono) auto
  show ?thesis
  proof (cases "Column_IsInlined (cs ! i)")
    case True
    have sz: "ser_size (vs ! i) = col_width (cs ! i)" by (rule ser_size_inlined [OF fit True])
    have e: "d' ! j = d ! j" if "col_start cs i \<le> j" "j < col_start cs i + ser_size (vs ! i)" for j
      using that c1 c2 sz v0 [of k] v0 [of "length cs"] len by (intro eq) linarith+
    have "col_start cs i + ser_size (vs ! i) \<le> length d"
      using c1 c2 sz v0 [of "length cs"] len by linarith
    from DeserializeFrom_frame [OF wf _ len(1) this e]
    have "Value_DeserializeFrom d' (col_start cs i) (type_id (vs ! i)) = Inr (vs ! i)"
      using h True by (simp add: holds_def)
    then show ?thesis using True by (simp add: holds_def)
  next
    case False
    have w: "col_width (cs ! i) = 4" using False by (simp add: col_width_def)
    have "read_at d' (col_start cs i) 4 = read_at d (col_start cs i) 4"
      using c1 w c2 v0 [of k] len(1) by (intro read_at_cong eq) auto
    moreover have "Value_DeserializeFrom d' (var_start cs vs i) (type_id (vs ! i)) = Inr (vs ! i)"
    proof (rule DeserializeFrom_frame [OF wf _ len(1)])
      show "var_start cs vs i + ser_size (vs ! i) \<le> length d" using v1 [OF False] v2 len by linarith
      show "d' ! j = d ! j" if "var_start cs vs i \<le> j" "j < var_start cs vs i + ser_size (vs ! i)" for j
        using that c2 v0 [of i] v1 [OF False] v2 len by (intro eq) linarith+
      show "Value_DeserializeFrom d (var_start cs vs i) (type_id (vs ! i)) = Inr (vs ! i)"
        using h False by (simp add: holds_def)
    qed
    ultimately show ?thesis using h False by (simp add: holds_def)
  qed
qed

lemma GetColumn_ctor:
  "col_start cs (length cs) < 2 ^ 32 \<Longrightarrow> i < length cs \<Longrightarrow>
     GetColumn (Schema_ctor cs) i = Inr ((cs ! i) \<lparr> column_offset := col_start cs i \<rparr>)"
  by (simp add: GetColumn_def Schema_ctor_spec)

lemma IsInlined_offset [simp]: "Column_IsInlined (c \<lparr> column_offset := n \<rparr>) = Column_IsInlined c"
  by (simp add: Column_IsInlined_def)

lemma tuple_write_step_inv:
  assumes fit: "fits (cs ! k) (vs ! k)" "\<forall>i<k. fits (cs ! i) (vs ! i)"
    and len: "length vs = length cs" and k: "k < length cs"
    and small: "var_start cs vs (length cs) < 2 ^ 31" and inv: "tuple_inv cs vs k (d, off)"
  shows "\<exists>d' off'. tuple_write_step vs (Schema_ctor cs) (d, off) k = Inr (d', off') \<and>
     tuple_inv cs vs (Suc k) (d', off')"
proof -
  have wf: "wf_value (vs ! k)" and ty: "type_id (vs ! k) = column_type (cs ! k)" using fit by (auto simp: fits_def)
  have ld: "length d = var_start cs vs (length cs)" and off: "off = var_start cs vs k"
    and hs: "\<And>i. i < k \<Longrightarrow> holds cs vs d i" using inv by (auto simp: tuple_inv_def)
  have c2: "col_start cs k + col_width (cs ! k) \<le> col_start cs (length cs)" using k by (intro col_end_le) auto
  have v0: "col_start cs (length cs) \<le> var_start cs vs j" for j by (simp add: var_start_def)
  have s32: "col_start cs (length cs) < 2 ^ 32" using v0 [of "length cs"] small by simp
  note gc = GetColumn_ctor [OF s32 k]
  show ?thesis
  proof (cases "Column_IsInlined (cs ! k)")
    case True
    have sz: "ser_size (vs ! k) = col_width (cs ! k)" by (rule ser_size_inlined [OF fit(1) True])
    have "col_start cs k + ser_size (vs ! k) \<le> length d" using c2 v0 [of "length cs"] sz ld by simp
    from roundtrips_wf [OF wf this] obtain d' where d': "Value_SerializeTo (vs ! k) d (col_start cs k) = Inr d'"
      "length d' = length d" "Value_DeserializeFrom d' (col_start cs k) (type_id (vs ! k)) = Inr (vs ! k)"
      and fr: "\<And>i. i < col_start cs k \<or> col_start cs k + ser_size (vs ! k) \<le> i \<Longrightarrow> i < length d \<Longrightarrow> d' ! i = d ! i"
      by (auto simp: roundtrips_def)
    have "holds cs vs d' i" if "i < k" for i
      using holds_frame [OF _ that k hs [OF that] d'(2) ld] fit(2) that fr sz by fastforce
    moreover have "holds cs vs d' k" using True d'(3) by (simp add: holds_def)
    ultimately have "tuple_inv cs vs (Suc k) (d', off)"
      using ld d'(2) off True by (auto simp: tuple_inv_def var_start_Suc less_Suc_eq)
    then show ?thesis using gc True d'(1) len k by (auto simp: tuple_write_step_def)
  next
    case False
    have w: "col_width (cs ! k) = 4" using False by (simp add: col_width_def)
    have pl: "payload_len (vs ! k) = Inr (ser_size (vs ! k) - 4)" "4 \<le> ser_size (vs ! k)"
      using payload_len_uninlined [OF fit(1) False] by auto
    have ve: "var_start cs vs k + ser_size (vs ! k) \<le> var_start cs vs (length cs)"
      using k False by (intro var_end_le) auto
    have "col_start cs k + length (le_encode 4 off) \<le> length d" using c2 w v0 [of "length cs"] ld by simp
    from write_at_ok [OF this] obtain d1 where d1: "write_at d (col_start cs k) (le_encode 4 off) = Inr d1"
      "length d1 = length d" "read_at d1 (col_start cs k) 4 = Inr (le_encode 4 off)"
      and fr1: "\<And>i. i < col_start cs k \<or> col_start cs k + 4 \<le> i \<Longrightarrow> i < length d \<Longrightarrow> d1 ! i = d ! i"
      by auto
    have "off + ser_size (vs ! k) \<le> length d1" using ve off ld d1(2) by simp
    from roundtrips_wf [OF wf this] obtain d' where d': "Value_SerializeTo (vs ! k) d1 off = Inr d'"
      "length d' = length d1" "Value_DeserializeFrom d' off (type_id (vs ! k)) = Inr (vs ! k)"
      and fr: "\<And>i. i < off \<or> off + ser_size (vs ! k) \<le> i \<Longrightarrow> i < length d1 \<Longrightarrow> d' ! i = d1 ! i"
      by (auto simp: roundtrips_def)
    have eq: "d' ! j = d ! j" if "j < length d" "\<not> (col_start cs k \<le> j \<and> j < col_start cs k + 4)"
      "\<not> (off \<le> j \<and> j < off + ser_size (vs ! k))" for j
      using that fr [of j] fr1 [of j] d1(2) by auto
    have "holds cs vs d' i" if "i < k" for i
      using fit(2) that hs d1(2) d'(2) ld eq False w off
      by (intro holds_frame [OF _ that k hs [OF that]]) auto
    moreover have "read_at d' (col_start cs k) 4 = Inr (le_encode 4 off)"
      unfolding d1(3) [symmetric] using d'(2) d1(2) c2 w v0 [of k] off
      by (intro read_at_cong fr) auto
    then have "holds cs vs d' k" using False d'(3) off by (simp add: holds_def)
    ultimately have "tuple_inv cs vs (Suc k) (d', off + ser_size (vs ! k))"
      using ld d'(2) d1(2) off False by (auto simp: tuple_inv_def var_start_Suc less_Suc_eq)
    moreover have "(off + 4 + (ser_size (vs ! k) - 4)) mod 2 ^ 32 = off + ser_size (vs ! k)"
      using pl(2) ve small off by simp
    ultimately show ?thesis using gc False d1(1) d'(1) len k pl(1)
      by (auto simp: tuple_write_step_def)
  qed
qed

lemma tuple_write_loop:
  assumes fit: "\<forall>i<length cs. fits (cs ! i) (vs ! i)" and len: "length vs = length cs"
    and small: "var_start cs vs (length cs) < 2 ^ 31" and init: "tuple_inv cs vs 0 st" and k: "k \<le> length cs"
  shows "\<exists>st'. rfoldM (tuple_write_step vs (Schema_ctor cs)) st [0..<k] = Inr st' \<and> tuple_inv cs vs k st'"
  using k
proof (induction k)
  case (Suc k)
  then obtain d off where "rfoldM (tuple_write_step vs (Schema_ctor cs)) st [0..<k] = Inr (d, off)"
    "tuple_inv cs vs k (d, off)" by force
  then show ?case
    using tuple_write_step_inv [of cs k vs d off] fit len small Suc.prems by (auto simp: rfoldM_append)
qed (use init in simp)

lemma tuple_size_loop:
  assumes fit: "\<forall>i<length cs. fits (cs ! i) (vs ! i)" and len: "length vs = length cs"
    and small: "var_start cs vs (length cs) < 2 ^ 31" and k: "k \<le> length cs"
  shows "rfoldM (tuple_size_step vs) (col_start cs (length cs))
     (filter (\<lambda>i. \<not> Column_IsInlined (cs ! i)) [0..<k]) = Inr (var_start cs vs k)"
  using k
proof (induction k)
  case (Suc k)
  have le: "var_start cs vs (Suc k) \<le> var_start cs vs (length cs)" using Suc.prems by (intro var_start_mono)
  show ?case
  proof (cases "Column_IsInlined (cs ! k)")
    case True
    then show ?thesis using Suc by (simp add: var_start_Suc)
  next
    case False
    have pl: "payload_len (vs ! k) = Inr (ser_size (vs ! k) - 4)" "4 \<le> ser_size (vs ! k)"
      using payload_len_uninlined [OF _ False] fit Suc.prems by auto
    have "(var_start cs vs k + 4 + (ser_size (vs ! k) - 4)) mod 2 ^ 32 = var_start cs vs (Suc k)"
      using pl(2) le small False by (simp add: var_start_Suc)
    then show ?thesis using Suc False pl(1) len by (simp add: rfoldM_append tuple_size_step_def)
  qed
qed (simp add: var_start_def var_size_def)

lemma GetValue_holds:
  assumes "holds cs vs d i" "i < length cs" "fits (cs ! i) (vs ! i)" "var_start cs vs (length cs) < 2 ^ 31"
  shows "GetValue \<lparr> rid = r, data = d \<rparr> (Schema_ctor cs) i = Inr (vs ! i)"
proof -
  have v: "var_start cs vs i \<le> var_start cs vs (length cs)" using assms(2) by (intro var_start_mono) simp
  have s32: "col_start cs (length cs) < 2 ^ 32" using assms(4) by (simp add: var_start_def)
  have ty: "column_type (cs ! i) = type_id (vs ! i)" using assms(3) by (simp add: fits_def)
  have dec: "le_decode (le_encode 4 (var_start cs vs i)) = var_start cs vs i" using v assms(4) by simp
  have "in_range I32 (int (var_start cs vs i))" using v assms(4) by (simp add: in_range_def)
  then show ?thesis
    using assms(1) GetColumn_ctor [OF s32 assms(2)] ty dec
    by (auto simp: GetValue_def GetDataPtr_def holds_def static_cast_id simp del: le_decode_encode split: if_splits)
qed

lemma Tuple_ctor_ok:
  assumes fit: "\<forall>i<length cs. fits (cs ! i) (vs ! i)" and len: "length vs = length cs" "length cs < 2 ^ 32"
    and small: "var_start cs vs (length cs) < 2 ^ 31"
  shows "\<exists>t. Tuple_ctor vs (Schema_ctor cs) = Inr t \<and> length (data t) = var_start cs vs (length cs) \<and>
     (\<forall>i<length cs. GetValue t (Schema_ctor cs) i = Inr (vs ! i))"
proof -
  have s32: "col_start cs (length cs) < 2 ^ 32" using small by (simp add: var_start_def)
  let ?st = "(replicate (var_start cs vs (length cs)) (char_of (0::nat)), col_start cs (length cs))"
  have "tuple_inv cs vs 0 ?st" by (simp add: tuple_inv_def var_start_def var_size_def)
  from tuple_write_loop [OF fit len(1) small this order_refl] obtain d off
    where d: "rfoldM (tuple_write_step vs (Schema_ctor cs)) ?st [0..<length cs] = Inr (d, off)"
      "tuple_inv cs vs (length cs) (d, off)" by force
  have cnt: "GetColumnCount (Schema_ctor cs) = length cs" using s32 len(2) by (simp add: GetColumnCount_def Schema_ctor_spec)
  have sel: "GetInlinedStorageSize (Schema_ctor cs) = col_start cs (length cs)"
    "uninlined_columns (Schema_ctor cs) = filter (\<lambda>i. \<not> Column_IsInlined (cs ! i)) [0..<length cs]"
    using s32 by (simp_all add: Schema_ctor_spec GetInlinedStorageSize_def)
  have "Tuple_ctor vs (Schema_ctor cs) = Inr \<lparr> rid = \<lparr> page_id = INVALID_PAGE_ID, slot_num = 0 \<rparr>, data = d \<rparr>"
    using tuple_size_loop [OF fit len(1) small order_refl] d(1) len(1)
    by (simp add: Tuple_ctor_def cnt sel)
  moreover have "GetValue \<lparr> rid = r, data = d \<rparr> (Schema_ctor cs) i = Inr (vs ! i)" if "i < length cs" for r i
    using d(2) fit that small by (intro GetValue_holds) (auto simp: tuple_inv_def)
  ultimately show ?thesis using d(2) by (auto simp: tuple_inv_def)
qed


definition ex_columns :: "Column list" where
  "ex_columns = [\<lparr> column_name = ''name'', column_type = VARCHAR, col_length = 32, column_offset = 0 \<rparr>,
     \<lparr> column_name = ''age'', column_type = INTEGER, col_length = 4, column_offset = 0 \<rparr>]"

definition ex_values :: "Value list" where
  "ex_values = [str_value ''bo'', set_int INTEGER I32 (cmin I32) 42]"

lemma ex_fits: "\<forall>i<length ex_columns. fits (ex_columns ! i) (ex_values ! i)"
proof -
  have "fits (ex_columns ! 0) (ex_values ! 0)" "fits (ex_columns ! 1) (ex_values ! 1)" "length ex_columns = 2"
    by code_simp+
  then show ?thesis by (auto simp: less_Suc_eq numeral_2_eq_2)
qed


text \<open>The key tuple extracted for a list of attributes holds, under the key schema, exactly the
  values of those attributes.\<close>

theorem KeyFromTuple_values:
  assumes "\<forall>i<length attrs. GetValue t schema (attrs ! i) = Inr (vs ! i) \<and> fits (ks ! i) (vs ! i)"
    "length vs = length attrs" "length ks = length attrs" "length ks < 2 ^ 32"
    "var_start ks vs (length ks) < 2 ^ 31"
  shows "\<exists>k. KeyFromTuple t schema (Schema_ctor ks) attrs = Inr k \<and>
     (\<forall>i<length attrs. GetValue k (Schema_ctor ks) i = GetValue t schema (attrs ! i))"
proof -
  have "rmapM (GetValue t schema) attrs = Inr vs" using assms by (simp add: rmapM_Inr_iff)
  moreover obtain k where "Tuple_ctor vs (Schema_ctor ks) = Inr k"
    "\<forall>i<length ks. GetValue k (Schema_ctor ks) i = Inr (vs ! i)"
    using Tuple_ctor_ok [of ks vs] assms by auto
  ultimately show ?thesis using assms by (auto simp: KeyFromTuple_def)
qed

theorem KeyFromTuple_values_witness:
  "\<exists>t k. Tuple_ctor ex_values (Schema_ctor ex_columns) = Inr t \<and>
     KeyFromTuple t (Schema_ctor ex_columns) (Schema_ctor [ex_columns ! 1]) [1] = Inr k \<and>
     GetValue k (Schema_ctor [ex_columns ! 1]) 0 = Inr (set_int INTEGER I32 (cmin I32) 42)"
proof -
  have l: "length ex_values = length ex_columns" "length ex_columns < 2 ^ 32"
    "var_start ex_columns ex_values (length ex_columns) < 2 ^ 31" "1 < length ex_columns"
    "ex_values ! 1 = set_int INTEGER I32 (cmin I32) 42" by code_simp+
  obtain t where t: "Tuple_ctor ex_values (Schema_ctor ex_columns) = Inr t"
    "GetValue t (Schema_ctor ex_columns) 1 = Inr (ex_values ! 1)"
    using Tuple_ctor_ok [OF ex_fits l(1-3)] l(4) by auto
  have "fits (ex_columns ! 1) (ex_values ! 1)" using ex_fits l(4) by auto
  moreover have "var_start [ex_columns ! 1] [ex_values ! 1] 1 < 2 ^ 31" by code_simp
  ultimately show ?thesis
    using KeyFromTuple_values [of "[1]" t "Schema_ctor ex_columns" "[ex_values ! 1]" "[ex_columns ! 1]"] t l(5)
    by auto
qed

text \<open>Serialising a tuple (fewer than \<open>2^31\<close> bytes) into a buffer with room for it and
  deserialising from the same place gives back its bytes; every other byte of the buffer is kept.\<close>

theorem Tuple_serialize_roundtrip:
  assumes "length (data t) < 2 ^ 31" "off + 4 + length (data t) \<le> length buf"
  shows "\<exists>b. Tuple_SerializeTo t buf off = Inr b \<and> length b = length buf \<and>
    (\<forall>i. i < off \<or> off + 4 + length (data t) \<le> i \<longrightarrow> i < length buf \<longrightarrow> b ! i = buf ! i) \<and>
    Tuple_DeserializeFrom u b off = Inr (u \<lparr> data := data t \<rparr>)"
proof -
  let ?n = "length (data t)" and ?pre = "le_encode 4 (length (data t))"
  obtain b1 where b1: "write_at buf off ?pre = Inr b1" "length b1 = length buf" "read_at b1 off 4 = Inr ?pre"
     "\<forall>i. i < off \<or> off + 4 \<le> i \<longrightarrow> i < length buf \<longrightarrow> b1 ! i = buf ! i"
    using write_at_ok [of off ?pre buf] assms by auto
  obtain b where b: "write_at b1 (off + 4) (data t) = Inr b" "length b = length b1"
     "read_at b (off + 4) ?n = Inr (data t)"
     "\<forall>i. i < off + 4 \<or> off + 4 + ?n \<le> i \<longrightarrow> i < length b1 \<longrightarrow> b ! i = b1 ! i"
    using write_at_ok [of "off + 4" "data t" b1] assms b1(2) by auto
  have pre: "read_at b off 4 = Inr ?pre" using read_write_disjoint [OF b(1), of off 4] b1(3) by simp
  have dec: "le_decode ?pre = ?n" using assms(1) by simp
  show ?thesis
    using b b1 pre dec by (auto simp: Tuple_SerializeTo_def Tuple_DeserializeFrom_def simp del: le_decode_encode)
qed

theorem Tuple_serialize_roundtrip_witness:
  "\<exists>b. Tuple_SerializeTo (Tuple_Empty \<lparr> data := ''xyz'' \<rparr>) ''0123456789'' 1 = Inr b \<and>
     Tuple_DeserializeFrom Tuple_Empty b 1 = Inr (Tuple_Empty \<lparr> data := ''xyz'' \<rparr>)"
  using Tuple_serialize_roundtrip [of "Tuple_Empty \<lparr> data := ''xyz'' \<rparr>" 1 "''0123456789''" Tuple_Empty] by auto

text \<open>Packing a record identifier into 64 bits and unpacking it is the identity, negative page
  ids included.\<close>

theorem RID_roundtrip:
  assumes "in_range I32 (page_id r)" "slot_num r < 2 ^ 32"
  shows "RID_of_int64 (RID_Get r) = r \<and> in_range I64 (RID_Get r)"
proof -
  have "RID_Get r div 2 ^ 32 = page_id r" "RID_Get r mod 2 ^ 32 = int (slot_num r)"
    using assms(2) by (simp_all add: RID_Get_def)
  moreover have "in_range I64 (RID_Get r)"
    using assms by (auto simp: in_range_def RID_Get_def)
  ultimately show ?thesis using assms(1) by (cases r) (simp add: RID_of_int64_def static_cast_id)
qed

theorem RID_roundtrip_witness:
  "RID_of_int64 (RID_Get \<lparr> page_id = - 1, slot_num = 5 \<rparr>) = \<lparr> page_id = - 1, slot_num = 5 \<rparr>"
  using RID_roundtrip [of "\<lparr> page_id = - 1, slot_num = 5 \<rparr>"] by (simp add: in_range_def)

end
