(* ===== verification/Expressions.thy ===== *)
theory Expressions
  imports Tuples
begin

text \<open>
  Expressions (include/execution/expressions): the expression tree, the checks of its constructors,
  its return types, evaluation over one tuple (\<open>Evaluate\<close>) and over the two tuples of a join
  (\<open>EvaluateJoin\<close>), printing, and the planner's factory of binary expressions and aggregate calls
  (planner/expression_factory.cpp).  A tuple pointer may be null, as in the executor of \<open>VALUES\<close>.
\<close>

section \<open>Expression trees\<close>

datatype ComparisonType = Equal | NotEqual | LessThan | LessThanOrEqual | GreaterThan | GreaterThanOrEqual
datatype ArithmeticType = Plus | Minus
datatype LogicType = And | Or
datatype StringExpressionType = Lower | Upper

text \<open>The children are the arguments of type \<open>expr\<close>; the remaining arguments are the fields of the
  class.  \<open>ColumnValueExpression\<close> carries its return type, the others determine it.\<close>

datatype expr =
    ConstantValueExpression Value
  | ColumnValueExpression nat nat Column
  | ComparisonExpression ComparisonType expr expr
  | ArithmeticExpression ArithmeticType expr expr
  | LogicExpression LogicType expr expr
  | StringExpression StringExpressionType expr
  | ArrayExpression "expr list"

fun GetReturnType :: "expr \<Rightarrow> Column result" where
  "GetReturnType (ConstantValueExpression v) = Value_GetColumn v"
| "GetReturnType (ColumnValueExpression t c col) = Inr col"
| "GetReturnType (ComparisonExpression ty l r) = Column_fixed ''<val>'' BOOLEAN"
| "GetReturnType (ArithmeticExpression ty l r) = Column_fixed ''<val>'' INTEGER"
| "GetReturnType (LogicExpression ty l r) = Column_fixed ''<val>'' BOOLEAN"
| "GetReturnType (StringExpression ty a) = Column_varlen ''<val>'' VARCHAR 256"
| "GetReturnType (ArrayExpression es) = Column_varlen ''<val>'' VECTOR (length es mod 2 ^ 32)"

fun GetChildren :: "expr \<Rightarrow> expr list" where
  "GetChildren (ComparisonExpression ty l r) = [l, r]"
| "GetChildren (ArithmeticExpression ty l r) = [l, r]"
| "GetChildren (LogicExpression ty l r) = [l, r]"
| "GetChildren (StringExpression ty a) = [a]"
| "GetChildren (ArrayExpression es) = es"
| "GetChildren e = []"

text \<open>\<open>CloneWithChildren\<close> copies the node without running its constructor again; giving it another
  number of children leaves an expression whose evaluation reads past its children.\<close>

fun CloneWithChildren :: "expr \<Rightarrow> expr list \<Rightarrow> expr result" where
  "CloneWithChildren (ComparisonExpression ty l r) cs =
     (case cs of [a, b] \<Rightarrow> Inr (ComparisonExpression ty a b) | _ \<Rightarrow> Inl Undefined)"
| "CloneWithChildren (ArithmeticExpression ty l r) cs =
     (case cs of [a, b] \<Rightarrow> Inr (ArithmeticExpression ty a b) | _ \<Rightarrow> Inl Undefined)"
| "CloneWithChildren (LogicExpression ty l r) cs =
     (case cs of [a, b] \<Rightarrow> Inr (LogicExpression ty a b) | _ \<Rightarrow> Inl Undefined)"
| "CloneWithChildren (StringExpression ty e) cs =
     (case cs of [a] \<Rightarrow> Inr (StringExpression ty a) | _ \<Rightarrow> Inl Undefined)"
| "CloneWithChildren (ArrayExpression es) cs =
     (if length cs = length es then Inr (ArrayExpression cs) else Inl Undefined)"
| "CloneWithChildren e cs = (if cs = [] then Inr e else Inl Undefined)"

section \<open>Constructors\<close>

definition has_type :: "TypeId \<Rightarrow> expr \<Rightarrow> bool result" where
  "has_type ty e = rbind (GetReturnType e) (\<lambda>c. Inr (column_type c = ty))"

definition ConstantValueExpression_ctor :: "Value \<Rightarrow> expr result" where
  "ConstantValueExpression_ctor v = rbind (Value_GetColumn v) (\<lambda>_. Inr (ConstantValueExpression v))"

definition ArithmeticExpression_ctor :: "expr \<Rightarrow> expr \<Rightarrow> ArithmeticType \<Rightarrow> expr result" where
  "ArithmeticExpression_ctor l r ty = rbind (has_type INTEGER l) (\<lambda>a. rbind (has_type INTEGER r) (\<lambda>b.
     if \<not> a \<or> \<not> b then not_implemented ''only support integer for now'' else Inr (ArithmeticExpression ty l r)))"

definition LogicExpression_ctor :: "expr \<Rightarrow> expr \<Rightarrow> LogicType \<Rightarrow> expr result" where
  "LogicExpression_ctor l r ty = rbind (has_type BOOLEAN l) (\<lambda>a. rbind (has_type BOOLEAN r) (\<lambda>b.
     if \<not> a \<or> \<not> b then not_implemented ''expect boolean from either side'' else Inr (LogicExpression ty l r)))"

definition StringExpression_ctor :: "expr \<Rightarrow> StringExpressionType \<Rightarrow> expr result" where
  "StringExpression_ctor a ty = rbind (has_type VARCHAR a) (\<lambda>b.
     check (Terminate ''unexpected arg'') b (Inr (StringExpression ty a)))"

section \<open>Evaluation\<close>

definition PerformComparison :: "ComparisonType \<Rightarrow> Value \<Rightarrow> Value \<Rightarrow> CmpBool result" where
  "PerformComparison ty lhs rhs = (case ty of
       Equal \<Rightarrow> CompareEquals lhs rhs
     | NotEqual \<Rightarrow> CompareNotEquals lhs rhs
     | LessThan \<Rightarrow> CompareLessThan lhs rhs
     | LessThanOrEqual \<Rightarrow> CompareLessThanEquals lhs rhs
     | GreaterThan \<Rightarrow> CompareGreaterThan lhs rhs
     | GreaterThanOrEqual \<Rightarrow> CompareGreaterThanEquals lhs rhs)"

text \<open>The operands are converted to \<open>int32_t\<close> and the result is an \<open>int\<close>, which wraps around.\<close>

definition Arithmetic_PerformComputation :: "ArithmeticType \<Rightarrow> Value \<Rightarrow> Value \<Rightarrow> int option" where
  "Arithmetic_PerformComputation ty lhs rhs = (if IsNull lhs \<or> IsNull rhs then None
     else Some (static_cast I32 (case ty of
         Plus \<Rightarrow> GetAs I32 lhs + GetAs I32 rhs
       | Minus \<Rightarrow> GetAs I32 lhs - GetAs I32 rhs)))"

text \<open>\<open>GetAs<bool>\<close>\<close>

definition GetAs_bool :: "Value \<Rightarrow> bool" where
  "GetAs_bool v \<longleftrightarrow> GetAs I8 v \<noteq> 0"

definition GetBoolAsCmpBool :: "Value \<Rightarrow> CmpBool" where
  "GetBoolAsCmpBool v = (if IsNull v then CmpNull else if GetAs_bool v then CmpTrue else CmpFalse)"

definition Logic_PerformComputation :: "LogicType \<Rightarrow> Value \<Rightarrow> Value \<Rightarrow> CmpBool" where
  "Logic_PerformComputation ty lhs rhs =
     (let l = GetBoolAsCmpBool lhs; r = GetBoolAsCmpBool rhs in case ty of
        And \<Rightarrow> if l = CmpFalse \<or> r = CmpFalse then CmpFalse
               else if l = CmpTrue \<and> r = CmpTrue then CmpTrue else CmpNull
      | Or \<Rightarrow> if l = CmpFalse \<and> r = CmpFalse then CmpFalse
              else if l = CmpTrue \<or> r = CmpTrue then CmpTrue else CmpNull)"

definition Compute :: "StringExpressionType \<Rightarrow> string \<Rightarrow> string" where
  "Compute ty val = []"

text \<open>\<open>GetAs<char *>\<close> followed by the conversion to \<open>std::string\<close>, which throws on a null pointer and
  reads up to the terminator.\<close>

definition string_of_value :: "Value \<Rightarrow> string result" where
  "string_of_value v = (case varlen v of None \<Rightarrow> Inl (LogicError ''basic_string: construction from null is not valid'')
     | Some b \<Rightarrow> check Undefined (char_of (0 :: nat) \<in> set b) (Inr (take (strlen b) b)))"

definition integer_or_null :: "int option \<Rightarrow> Value result" where
  "integer_or_null res = (case res of None \<Rightarrow> GetNullValueByType INTEGER | Some z \<Rightarrow> GetIntegerValue z)"

definition array_element :: "Value \<Rightarrow> double result" where
  "array_element v = (if type_id v \<noteq> DECIMAL
     then Inl (Throw ET_INVALID ''vector value can only be constructed from decimal type'') else Inr (GetAs_double v))"

fun Evaluate :: "Tuple option \<Rightarrow> Schema \<Rightarrow> expr \<Rightarrow> Value result"
and Evaluate_list :: "Tuple option \<Rightarrow> Schema \<Rightarrow> expr list \<Rightarrow> double list result" where
  "Evaluate t s (ConstantValueExpression v) = Inr v"
| "Evaluate t s (ColumnValueExpression tup col ret) =
     (case t of None \<Rightarrow> Inl Undefined | Some tuple \<Rightarrow> GetValue tuple s col)"
| "Evaluate t s (ComparisonExpression ty l r) = rbind (Evaluate t s l) (\<lambda>lhs. rbind (Evaluate t s r) (\<lambda>rhs.
     rbind (PerformComparison ty lhs rhs) GetBooleanValue_cmp))"
| "Evaluate t s (ArithmeticExpression ty l r) = rbind (Evaluate t s l) (\<lambda>lhs. rbind (Evaluate t s r) (\<lambda>rhs.
     integer_or_null (Arithmetic_PerformComputation ty lhs rhs)))"
| "Evaluate t s (LogicExpression ty l r) = rbind (Evaluate t s l) (\<lambda>lhs. rbind (Evaluate t s r) (\<lambda>rhs.
     GetBooleanValue_cmp (Logic_PerformComputation ty lhs rhs)))"
| "Evaluate t s (StringExpression ty a) = rbind (Evaluate t s a) (\<lambda>val. rbind (string_of_value val) (\<lambda>str.
     GetVarcharValue (Compute ty str)))"
| "Evaluate t s (ArrayExpression es) = rbind (Evaluate_list t s es) (\<lambda>ds. GetVectorValue ds)"
| "Evaluate_list t s [] = Inr []"
| "Evaluate_list t s (e # es) = rbind (Evaluate t s e) (\<lambda>v. rbind (array_element v) (\<lambda>d.
     rbind (Evaluate_list t s es) (\<lambda>ds. Inr (d # ds))))"

text \<open>In \<open>ArrayExpression::EvaluateJoin\<close> the vector is resized, not reserved: the elements are
  appended after as many zeros.\<close>

fun EvaluateJoin :: "Tuple option \<Rightarrow> Schema \<Rightarrow> Tuple option \<Rightarrow> Schema \<Rightarrow> expr \<Rightarrow> Value result"
and EvaluateJoin_list :: "Tuple option \<Rightarrow> Schema \<Rightarrow> Tuple option \<Rightarrow> Schema \<Rightarrow> expr list \<Rightarrow> double list result" where
  "EvaluateJoin lt ls rt rs (ConstantValueExpression v) = Inr v"
| "EvaluateJoin lt ls rt rs (ColumnValueExpression tup col ret) =
     (if tup = 0 then (case lt of None \<Rightarrow> Inl Undefined | Some tuple \<Rightarrow> GetValue tuple ls col)
      else (case rt of None \<Rightarrow> Inl Undefined | Some tuple \<Rightarrow> GetValue tuple rs col))"
| "EvaluateJoin lt ls rt rs (ComparisonExpression ty l r) = rbind (EvaluateJoin lt ls rt rs l) (\<lambda>lhs.
     rbind (EvaluateJoin lt ls rt rs r) (\<lambda>rhs. rbind (PerformComparison ty lhs rhs) GetBooleanValue_cmp))"
| "EvaluateJoin lt ls rt rs (ArithmeticExpression ty l r) = rbind (EvaluateJoin lt ls rt rs l) (\<lambda>lhs.
     rbind (EvaluateJoin lt ls rt rs r) (\<lambda>rhs. integer_or_null (Arithmetic_PerformComputation ty lhs rhs)))"
| "EvaluateJoin lt ls rt rs (LogicExpression ty l r) = rbind (EvaluateJoin lt ls rt rs l) (\<lambda>lhs.
     rbind (EvaluateJoin lt ls rt rs r) (\<lambda>rhs. GetBooleanValue_cmp (Logic_PerformComputation ty lhs rhs)))"
| "EvaluateJoin lt ls rt rs (StringExpression ty a) = rbind (EvaluateJoin lt ls rt rs a) (\<lambda>val.
     rbind (string_of_value val) (\<lambda>str. GetVarcharValue (Compute ty str)))"
| "EvaluateJoin lt ls rt rs (ArrayExpression es) = rbind (EvaluateJoin_list lt ls rt rs es) (\<lambda>ds.
     GetVectorValue (replicate (length es) 0 @ ds))"
| "EvaluateJoin_list lt ls rt rs [] = Inr []"
| "EvaluateJoin_list lt ls rt rs (e # es) = rbind (EvaluateJoin lt ls rt rs e) (\<lambda>v. rbind (array_element v) (\<lambda>d.
     rbind (EvaluateJoin_list lt ls rt rs es) (\<lambda>ds. Inr (d # ds))))"

section \<open>Printing\<close>

definition ComparisonType_name :: "ComparisonType \<Rightarrow> string" where
  "ComparisonType_name c = (case c of Equal \<Rightarrow> ''='' | NotEqual \<Rightarrow> ''!='' | LessThan \<Rightarrow> ''<'' | LessThanOrEqual \<Rightarrow> ''<=''
     | GreaterThan \<Rightarrow> ''>'' | GreaterThanOrEqual \<Rightarrow> ''>='')"

definition ArithmeticType_name :: "ArithmeticType \<Rightarrow> string" where
  "ArithmeticType_name c = (case c of Plus \<Rightarrow> ''+'' | Minus \<Rightarrow> ''-'')"

definition LogicType_name :: "LogicType \<Rightarrow> string" where
  "LogicType_name c = (case c of And \<Rightarrow> ''and'' | Or \<Rightarrow> ''or'')"

definition StringExpressionType_name :: "StringExpressionType \<Rightarrow> string" where
  "StringExpressionType_name c = (case c of Upper \<Rightarrow> ''upper'' | Lower \<Rightarrow> ''lower'')"

fun expr_ToString :: "expr \<Rightarrow> string result"
and exprs_ToString :: "expr list \<Rightarrow> string list result" where
  "expr_ToString (ConstantValueExpression v) = Value_ToString v"
| "expr_ToString (ColumnValueExpression t c col) = Inr (''#'' @ nat_to_string t @ ''.'' @ nat_to_string c)"
| "expr_ToString (ComparisonExpression ty l r) = rbind (expr_ToString l) (\<lambda>a. rbind (expr_ToString r) (\<lambda>b.
     Inr (''('' @ a @ ComparisonType_name ty @ b @ '')'')))"
| "expr_ToString (ArithmeticExpression ty l r) = rbind (expr_ToString l) (\<lambda>a. rbind (expr_ToString r) (\<lambda>b.
     Inr (''('' @ a @ ArithmeticType_name ty @ b @ '')'')))"
| "expr_ToString (LogicExpression ty l r) = rbind (expr_ToString l) (\<lambda>a. rbind (expr_ToString r) (\<lambda>b.
     Inr (''('' @ a @ LogicType_name ty @ b @ '')'')))"
| "expr_ToString (StringExpression ty e) = rbind (expr_ToString e) (\<lambda>a.
     Inr (StringExpressionType_name ty @ ''('' @ a @ '')''))"
| "expr_ToString (ArrayExpression es) = rbind (exprs_ToString es) (\<lambda>ss. Inr (''['' @ intercalate '','' ss @ '']''))"
| "exprs_ToString [] = Inr []"
| "exprs_ToString (e # es) = rbind (expr_ToString e) (\<lambda>a. rbind (exprs_ToString es) (\<lambda>ss. Inr (a # ss)))"

section \<open>The planner's factory\<close>

datatype AggregationType = CountStarAggregate | CountAggregate | SumAggregate | MinAggregate | MaxAggregate
datatype WindowFunctionType = W_CountStarAggregate | W_CountAggregate | W_SumAggregate | W_MinAggregate | W_MaxAggregate | W_Rank

definition GetAggCallFromFactory :: "string \<Rightarrow> expr list \<Rightarrow> (AggregationType \<times> expr list) result" where
  "GetAggCallFromFactory func_name args =
     (if args = [] \<and> func_name = ''count_star'' then Inr (CountStarAggregate, [])
      else if length args = 1 \<and> func_name = ''min'' then Inr (MinAggregate, args)
      else if length args = 1 \<and> func_name = ''max'' then Inr (MaxAggregate, args)
      else if length args = 1 \<and> func_name = ''sum'' then Inr (SumAggregate, args)
      else if length args = 1 \<and> func_name = ''count'' then Inr (CountAggregate, args)
      else Inl (Throw ET_INVALID (''unsupported agg_call '' @ func_name @ '' with '' @ nat_to_string (length args) @ '' args'')))"

definition GetWindowAggCallFromFactory :: "string \<Rightarrow> expr list \<Rightarrow> (WindowFunctionType \<times> expr list) result" where
  "GetWindowAggCallFromFactory func_name args =
     (if args = [] \<and> func_name = ''count_star'' then Inr (W_CountStarAggregate, [])
      else if args = [] \<and> func_name = ''rank'' then Inr (W_Rank, [])
      else if length args = 1 \<and> func_name = ''min'' then Inr (W_MinAggregate, args)
      else if length args = 1 \<and> func_name = ''max'' then Inr (W_MaxAggregate, args)
      else if length args = 1 \<and> func_name = ''sum'' then Inr (W_SumAggregate, args)
      else if length args = 1 \<and> func_name = ''count'' then Inr (W_CountAggregate, args)
      else Inl (Throw ET_INVALID (''unsupported window_call '' @ func_name @ '' with '' @ nat_to_string (length args) @ '' args'')))"

definition GetBinaryExpressionFromFactory :: "string \<Rightarrow> expr \<Rightarrow> expr \<Rightarrow> expr result" where
  "GetBinaryExpressionFromFactory op_name l r =
     (if op_name = ''='' \<or> op_name = ''=='' then Inr (ComparisonExpression Equal l r)
      else if op_name = ''!='' \<or> op_name = ''<>'' then Inr (ComparisonExpression NotEqual l r)
      else if op_name = ''<'' then Inr (ComparisonExpression LessThan l r)
      else if op_name = ''<='' then Inr (ComparisonExpression LessThanOrEqual l r)
      else if op_name = ''>'' then Inr (ComparisonExpression GreaterThan l r)
      else if op_name = ''>='' then Inr (ComparisonExpression GreaterThanOrEqual l r)
      else if op_name = ''+'' then ArithmeticExpression_ctor l r Plus
      else if op_name = ''-'' then ArithmeticExpression_ctor l r Minus
      else if op_name = ''and'' then LogicExpression_ctor l r And
      else if op_name = ''or'' then LogicExpression_ctor l r Or
      else Inl (Throw ET_INVALID (''binary op '' @ op_name @ '' not supported in planner yet'')))"

definition GetFuncCallFromFactory :: "string \<Rightarrow> expr list \<Rightarrow> expr result" where
  "GetFuncCallFromFactory func_name args = Inl (Throw ET_INVALID (''func call '' @ func_name @ '' not supported in planner yet''))"

section \<open>Evaluation by column lookup\<close>

text \<open>Both evaluators are one function of a column lookup and of the treatment of arrays.\<close>

definition lookup :: "Tuple option \<Rightarrow> Schema \<Rightarrow> nat \<Rightarrow> Value result" where
  "lookup t s col = (case t of None \<Rightarrow> Inl Undefined | Some tuple \<Rightarrow> GetValue tuple s col)"

fun eval_with :: "(nat \<Rightarrow> nat \<Rightarrow> Value result) \<Rightarrow> bool \<Rightarrow> expr \<Rightarrow> Value result"
and eval_list :: "(nat \<Rightarrow> nat \<Rightarrow> Value result) \<Rightarrow> bool \<Rightarrow> expr list \<Rightarrow> double list result" where
  "eval_with f j (ConstantValueExpression v) = Inr v"
| "eval_with f j (ColumnValueExpression tup col ret) = f tup col"
| "eval_with f j (ComparisonExpression ty l r) = rbind (eval_with f j l) (\<lambda>lhs. rbind (eval_with f j r) (\<lambda>rhs.
     rbind (PerformComparison ty lhs rhs) GetBooleanValue_cmp))"
| "eval_with f j (ArithmeticExpression ty l r) = rbind (eval_with f j l) (\<lambda>lhs. rbind (eval_with f j r) (\<lambda>rhs.
     integer_or_null (Arithmetic_PerformComputation ty lhs rhs)))"
| "eval_with f j (LogicExpression ty l r) = rbind (eval_with f j l) (\<lambda>lhs. rbind (eval_with f j r) (\<lambda>rhs.
     GetBooleanValue_cmp (Logic_PerformComputation ty lhs rhs)))"
| "eval_with f j (StringExpression ty a) = rbind (eval_with f j a) (\<lambda>val. rbind (string_of_value val) (\<lambda>str.
     GetVarcharValue (Compute ty str)))"
| "eval_with f j (ArrayExpression es) = rbind (eval_list f j es) (\<lambda>ds.
     GetVectorValue ((if j then replicate (length es) 0 else []) @ ds))"
| "eval_list f j [] = Inr []"
| "eval_list f j (e # es) = rbind (eval_with f j e) (\<lambda>v. rbind (array_element v) (\<lambda>d.
     rbind (eval_list f j es) (\<lambda>ds. Inr (d # ds))))"

lemma Evaluate_eval_with:
  "Evaluate t s e = eval_with (\<lambda>tup. lookup t s) False e"
  "Evaluate_list t s es = eval_list (\<lambda>tup. lookup t s) False es"
  by (induction t s e and t s es rule: Evaluate_Evaluate_list.induct) (simp_all add: lookup_def)

lemma EvaluateJoin_eval_with:
  "EvaluateJoin lt ls rt rs e = eval_with (\<lambda>tup. if tup = 0 then lookup lt ls else lookup rt rs) True e"
  "EvaluateJoin_list lt ls rt rs es = eval_list (\<lambda>tup. if tup = 0 then lookup lt ls else lookup rt rs) True es"
  by (induction lt ls rt rs e and lt ls rt rs es rule: EvaluateJoin_EvaluateJoin_list.induct) (simp_all add: lookup_def)

fun array_free :: "expr \<Rightarrow> bool" where
  "array_free (ComparisonExpression ty l r) = (array_free l \<and> array_free r)"
| "array_free (ArithmeticExpression ty l r) = (array_free l \<and> array_free r)"
| "array_free (LogicExpression ty l r) = (array_free l \<and> array_free r)"
| "array_free (StringExpression ty a) = array_free a"
| "array_free (ArrayExpression es) = False"
| "array_free e = True"

lemma eval_array_free: "array_free e \<Longrightarrow> eval_with f j e = eval_with f j' e"
  by (induction e rule: array_free.induct) simp_all

text \<open>The columns an expression reads.\<close>

fun columns_of :: "expr \<Rightarrow> (nat \<times> nat) set" where
  "columns_of (ColumnValueExpression tup col ret) = {(tup, col)}"
| "columns_of (ConstantValueExpression v) = {}"
| "columns_of (ComparisonExpression ty l r) = columns_of l \<union> columns_of r"
| "columns_of (ArithmeticExpression ty l r) = columns_of l \<union> columns_of r"
| "columns_of (LogicExpression ty l r) = columns_of l \<union> columns_of r"
| "columns_of (StringExpression ty a) = columns_of a"
| "columns_of (ArrayExpression es) = (\<Union>e \<in> set es. columns_of e)"

lemma eval_with_cong:
  "(\<And>tup col. (tup, col) \<in> columns_of e \<Longrightarrow> f tup col = g tup col) \<Longrightarrow> eval_with f j e = eval_with g j e"
  "(\<And>tup col. (tup, col) \<in> (\<Union>e \<in> set es. columns_of e) \<Longrightarrow> f tup col = g tup col) \<Longrightarrow> eval_list f j es = eval_list g j es"
  by (induction f j e and f j es rule: eval_with_eval_list.induct) simp_all

section \<open>Types\<close>

text \<open>A string operand of a comparison must be a proper string of less than two gigabytes.\<close>

definition value_ok :: "Value \<Rightarrow> bool" where
  "value_ok v \<longleftrightarrow> type_id v \<noteq> INVALID \<and> (type_id v = VARCHAR \<and> \<not> IsNull v \<longrightarrow>
     (case varlen v of None \<Rightarrow> False | Some bs \<Rightarrow> length bs = size_len v \<and> 0 < size_len v \<and> size_len v \<le> 2 ^ 31))"

definition numeric :: "TypeId \<Rightarrow> bool" where
  "numeric ty \<longleftrightarrow> ty \<in> {TINYINT, SMALLINT, INTEGER, BIGINT, DECIMAL}"

definition safe_compare :: "TypeId \<Rightarrow> TypeId \<Rightarrow> bool" where
  "safe_compare a b \<longleftrightarrow> numeric a \<and> numeric b \<or> a = b \<and> (a = BOOLEAN \<or> a = VARCHAR)"

text \<open>The type of an expression over the schema of its tuple, for the expressions whose evaluation
  cannot fail: column references name columns of the type they claim, comparisons are between numbers,
  between booleans or between strings, and the operands of the other nodes have the types the
  constructors ask for.  (The functions on strings throw on NULL.)\<close>

fun expr_ty :: "Schema \<Rightarrow> expr \<Rightarrow> TypeId option" where
  "expr_ty s (ConstantValueExpression v) = (if value_ok v then Some (type_id v) else None)"
| "expr_ty s (ColumnValueExpression tup col ret) =
     (if col < length (columns s) \<and> column_type (columns s ! col) = column_type ret then Some (column_type ret) else None)"
| "expr_ty s (ComparisonExpression ty l r) = (case (expr_ty s l, expr_ty s r) of
     (Some a, Some b) \<Rightarrow> if safe_compare a b then Some BOOLEAN else None | _ \<Rightarrow> None)"
| "expr_ty s (ArithmeticExpression ty l r) =
     (if expr_ty s l = Some INTEGER \<and> expr_ty s r = Some INTEGER then Some INTEGER else None)"
| "expr_ty s (LogicExpression ty l r) =
     (if expr_ty s l = Some BOOLEAN \<and> expr_ty s r = Some BOOLEAN then Some BOOLEAN else None)"
| "expr_ty s (StringExpression ty a) = None"
| "expr_ty s (ArrayExpression es) = (if \<forall>e \<in> set es. expr_ty s e = Some DECIMAL then Some VECTOR else None)"

lemma Value_GetColumn_type: "Value_GetColumn v = Inr c \<Longrightarrow> column_type c = type_id v"
  by (auto simp: Value_GetColumn_def Column_varlen_def Column_fixed_def rbind_Inr_iff check_Inr_iff split: if_splits)

lemma Get_type:
  "GetBooleanValue_cmp c = Inr v \<Longrightarrow> type_id v = BOOLEAN" "integer_or_null res = Inr v \<Longrightarrow> type_id v = INTEGER"
  "GetVarcharValue str = Inr v \<Longrightarrow> type_id v = VARCHAR" "GetVectorValue ds = Inr v \<Longrightarrow> type_id v = VECTOR"
  by (auto simp: GetBooleanValue_cmp_def integer_or_null_def GetVarcharValue_def GetVectorValue_def GetNullValueByType_def
      GetIntegerValue_def split: option.splits dest: Value_make_type)

lemma COMPARE_FUNC_numeric: "numeric (type_id r) \<Longrightarrow> \<exists>c. COMPARE_FUNC T self op l r = Inr c"
  "numeric (type_id r) \<Longrightarrow> \<exists>c. DECIMAL_COMPARE_FUNC op l r = Inr c"
  by (auto simp: numeric_def COMPARE_FUNC_def DECIMAL_COMPARE_FUNC_def)

lemma VARLEN_COMPARE_total:
  assumes "value_ok l" "value_ok r" "type_id l = VARCHAR" "type_id r = VARCHAR" "\<not> IsNull l" "\<not> IsNull r"
  shows "\<exists>c. VARLEN_COMPARE_FUNC op l r = Inr c"
proof -
  obtain a b where v: "varlen l = Some a" "varlen r = Some b" "length a = size_len l" "length b = size_len r"
      "0 < size_len l" "0 < size_len r" "size_len l \<le> 2 ^ 31" "size_len r \<le> 2 ^ 31"
    using assms by (auto simp: value_ok_def split: option.splits)
  have len: "str_len x = int (size_len x) - 1" if "0 < size_len x" "size_len x \<le> 2 ^ 31" for x
    using that by (simp add: str_len_def VarlenType_GetStorageSize_def static_cast_id in_range_def)
  show ?thesis
    using v assms len by (auto simp: VARLEN_COMPARE_FUNC_def Value_GetData_def VarlenType_GetData_def CompareStrings_def
        deref_def read_at_def Let_def nat_diff_distrib min_def)
qed

lemma Compare_total:
  assumes "value_ok l" "value_ok r" "safe_compare (type_id l) (type_id r)"
  shows "\<exists>c. Compare op l r = Inr c"
proof -
  have c: "CheckComparable l r" "type_id l \<notin> {INVALID, TIMESTAMP, VECTOR}"
    using assms(3) by (auto simp: safe_compare_def numeric_def CheckComparable_def)
  consider "numeric (type_id l)" "numeric (type_id r)" | "type_id l = BOOLEAN" "type_id r = BOOLEAN"
    | "type_id l = VARCHAR" "type_id r = VARCHAR" using assms(3) by (auto simp: safe_compare_def)
  then show ?thesis
  proof cases
    case 1
    then show ?thesis using c COMPARE_FUNC_numeric [OF 1(2)]
      by (auto simp: Compare_unfold int_cmp_guard_def cmp_guard_def CheckInteger_def numeric_def)
  next
    case 2
    then show ?thesis using c by (auto simp: Compare_unfold cmp_guard_def BOOLEAN_COMPARE_FUNC_def CastAs_def BooleanType_CastAs_def BooleanType_Copy_def Value_int8_def)
  next
    case 3
    then show ?thesis using c VARLEN_COMPARE_total [OF assms(1,2)] by (auto simp: Compare_unfold cmp_guard_def)
  qed
qed

fun cmp_of :: "ComparisonType \<Rightarrow> cmp_op" where
  "cmp_of Equal = EQ" | "cmp_of NotEqual = NE" | "cmp_of LessThan = LT"
| "cmp_of LessThanOrEqual = LE" | "cmp_of GreaterThan = GT" | "cmp_of GreaterThanOrEqual = GE"

lemma PerformComparison_Compare: "PerformComparison ty l r = Compare (cmp_of ty) l r"
  by (cases ty) (simp_all add: PerformComparison_def)

lemma PerformComparison_total:
  "value_ok l \<Longrightarrow> value_ok r \<Longrightarrow> safe_compare (type_id l) (type_id r) \<Longrightarrow> \<exists>c. PerformComparison ty l r = Inr c"
  by (simp add: PerformComparison_Compare Compare_total)

lemma GetBooleanValue_cmp_total: "\<exists>v. GetBooleanValue_cmp c = Inr v \<and> value_ok v \<and> type_id v = BOOLEAN"
  by (simp add: GetBooleanValue_cmp_def Value_int8_def value_ok_def)

lemma integer_or_null_total: "\<exists>v. integer_or_null res = Inr v \<and> value_ok v \<and> type_id v = INTEGER"
  by (auto simp: integer_or_null_def GetNullValueByType_def GetIntegerValue_def Value_int32_def value_ok_def split: option.splits)

lemma expr_sound:
  assumes "\<And>tup col. (tup, col) \<in> columns_of e \<Longrightarrow> \<exists>v. f tup col = Inr v \<and> value_ok v \<and> type_id v = column_type (columns s ! col)"
    and "expr_ty s e = Some ty"
  shows "\<exists>v. eval_with f j e = Inr v \<and> value_ok v \<and> type_id v = ty"
  using assms
proof (induction e arbitrary: ty)
  case (ComparisonExpression op l r)
  then obtain a b where t: "expr_ty s l = Some a" "expr_ty s r = Some b" "safe_compare a b" "ty = BOOLEAN"
    by (auto split: option.splits if_splits)
  obtain u v where u: "eval_with f j l = Inr u" "value_ok u" "type_id u = a" and v: "eval_with f j r = Inr v" "value_ok v" "type_id v = b"
    using ComparisonExpression.IH(1) [OF _ t(1)] ComparisonExpression.IH(2) [OF _ t(2)] ComparisonExpression.prems(1) by auto
  obtain c where "PerformComparison op u v = Inr c" using PerformComparison_total [OF u(2) v(2)] t(3) u v by auto
  then show ?case using u v t(4) GetBooleanValue_cmp_total [of c] by simp
next
  case (ArithmeticExpression op l r)
  then have t: "expr_ty s l = Some INTEGER" "expr_ty s r = Some INTEGER" "ty = INTEGER" by (auto split: if_splits)
  then show ?case
    using ArithmeticExpression.IH(1) [OF _ t(1)] ArithmeticExpression.IH(2) [OF _ t(2)] ArithmeticExpression.prems(1) integer_or_null_total
    by fastforce
next
  case (LogicExpression op l r)
  then have t: "expr_ty s l = Some BOOLEAN" "expr_ty s r = Some BOOLEAN" "ty = BOOLEAN" by (auto split: if_splits)
  then show ?case
    using LogicExpression.IH(1) [OF _ t(1)] LogicExpression.IH(2) [OF _ t(2)] LogicExpression.prems(1) GetBooleanValue_cmp_total
    by fastforce
next
  case (ArrayExpression es)
  have "\<exists>v. eval_with f j e = Inr v \<and> type_id v = DECIMAL" if "e \<in> set es" for e
    using ArrayExpression.IH [OF that, of DECIMAL] ArrayExpression.prems that by (fastforce split: if_splits)
  then have "\<exists>ds. eval_list f j es = Inr ds"
    by (induction es) (fastforce simp: array_element_def)+
  then show ?case using ArrayExpression.prems by (auto simp: GetVectorValue_def Value_vector_def value_ok_def Value_ctor_def split: if_splits)
qed (auto split: if_splits)

lemma expr_ty_return: "expr_ty s e = Some ty \<Longrightarrow> \<exists>c. GetReturnType e = Inr c \<and> column_type c = ty"
proof (cases e)
  case (ConstantValueExpression v)
  then show "expr_ty s e = Some ty \<Longrightarrow> ?thesis"
    by (cases "type_id v") (auto simp: Value_GetColumn_def Value_GetStorageSize_def Column_varlen_def Column_fixed_def TypeSize_def
        value_ok_def split: if_splits)
qed (auto simp: Column_fixed_def Column_varlen_def TypeSize_def split: if_splits option.splits)

text \<open>C20: An expression that is well typed over the schema of a tuple whose columns can be read
  evaluates to a value, and the value has the type the expression declares: the type by which the planner
  built the output schema and accepted the enclosing expression.\<close>
theorem Evaluate_type_sound:
  assumes "expr_ty s e = Some ty"
    and "\<forall>i < length (columns s). \<exists>v. GetValue t s i = Inr v \<and> value_ok v"
  shows "\<exists>v c. Evaluate (Some t) s e = Inr v \<and> type_id v = ty \<and> GetReturnType e = Inr c \<and> column_type c = ty"
proof -
  have "(tup, col) \<in> columns_of e \<Longrightarrow> col < length (columns s)" for tup col
    using assms(1) by (induction e arbitrary: ty) (auto split: option.splits if_splits)
  then have "\<exists>v. lookup (Some t) s col = Inr v \<and> value_ok v \<and> type_id v = column_type (columns s ! col)"
    if "(tup, col) \<in> columns_of e" for tup col using that assms(2) by (fastforce simp: lookup_def dest: GetValue_type)
  then obtain v where "eval_with (\<lambda>tup. lookup (Some t) s) False e = Inr v" "type_id v = ty"
    using expr_sound [of e "\<lambda>tup. lookup (Some t) s" s ty False] assms(1) by blast
  then show ?thesis using expr_ty_return [OF assms(1)] by (auto simp: Evaluate_eval_with)
qed

definition ex_schema :: Schema where
  "ex_schema = Schema_ctor ex_columns"

text \<open>An expression over the columns \<open>name : VARCHAR, age : INTEGER\<close>.\<close>

definition ex_expr :: expr where
  "ex_expr = LogicExpression And
     (ComparisonExpression GreaterThan (ArithmeticExpression Plus (ColumnValueExpression 0 1 (ex_columns ! 1)) (ConstantValueExpression (set_int INTEGER I32 (cmin I32) 1)))
        (ConstantValueExpression (set_int BIGINT I64 (cmin I64) 40)))
     (ComparisonExpression Equal (ColumnValueExpression 0 0 (ex_columns ! 0)) (ConstantValueExpression (str_value ''bo'')))"

theorem Evaluate_type_sound_witness:
  "\<exists>t v c. Tuple_ctor ex_values ex_schema = Inr t \<and> Evaluate (Some t) ex_schema ex_expr = Inr v \<and> type_id v = BOOLEAN \<and>
     GetReturnType ex_expr = Inr c \<and> column_type c = BOOLEAN"
proof -
  have l: "length ex_values = length ex_columns" "length ex_columns < 2 ^ 32"
    "var_start ex_columns ex_values (length ex_columns) < 2 ^ 31" "length (columns ex_schema) = length ex_columns"
    "list_all value_ok ex_values" "expr_ty ex_schema ex_expr = Some BOOLEAN" by code_simp+
  obtain t where t: "Tuple_ctor ex_values ex_schema = Inr t" "\<forall>i<length ex_columns. GetValue t ex_schema i = Inr (ex_values ! i)"
    using Tuple_ctor_ok [OF ex_fits l(1-3)] by (auto simp: ex_schema_def)
  then show ?thesis
    using Evaluate_type_sound [OF l(6), of t] l(1,4,5) by (auto simp: list_all_length)
qed

section \<open>Three-valued logic\<close>

text \<open>The order false, unknown, true of SQL's truth values.\<close>

fun truth :: "CmpBool \<Rightarrow> nat" where
  "truth CmpFalse = 0" | "truth CmpNull = 1" | "truth CmpTrue = 2"

lemma truth_inject [simp]: "truth a = truth b \<longleftrightarrow> a = b"
  by (cases a; cases b) auto

lemma GetBoolAsCmpBool_GetBooleanValue: "\<exists>v. GetBooleanValue_cmp c = Inr v \<and> GetBoolAsCmpBool v = c"
proof -
  have "(case GetBooleanValue_cmp c of Inr v \<Rightarrow> GetBoolAsCmpBool v = c | Inl e \<Rightarrow> False)"
    by (cases c; simp only:) code_simp+
  then show ?thesis by (auto split: sum.splits)
qed

text \<open>\<open>AND\<close> and \<open>OR\<close> are the minimum and the maximum of Kleene's three truth values, NULL being
  the middle one; in particular NULL AND FALSE is FALSE and NULL OR TRUE is TRUE.\<close>
theorem LogicExpression_kleene:
  assumes "Evaluate t s l = Inr a" "Evaluate t s r = Inr b"
  shows "\<exists>v w. Evaluate t s (LogicExpression And l r) = Inr v \<and>
      truth (GetBoolAsCmpBool v) = min (truth (GetBoolAsCmpBool a)) (truth (GetBoolAsCmpBool b)) \<and>
    Evaluate t s (LogicExpression Or l r) = Inr w \<and>
      truth (GetBoolAsCmpBool w) = max (truth (GetBoolAsCmpBool a)) (truth (GetBoolAsCmpBool b))"
proof -
  let ?a = "GetBoolAsCmpBool a" and ?b = "GetBoolAsCmpBool b"
  obtain v where v: "GetBooleanValue_cmp (Logic_PerformComputation And a b) = Inr v" "GetBoolAsCmpBool v = Logic_PerformComputation And a b"
    using GetBoolAsCmpBool_GetBooleanValue by blast
  obtain w where w: "GetBooleanValue_cmp (Logic_PerformComputation Or a b) = Inr w" "GetBoolAsCmpBool w = Logic_PerformComputation Or a b"
    using GetBoolAsCmpBool_GetBooleanValue by blast
  have "truth (Logic_PerformComputation And a b) = min (truth ?a) (truth ?b)" "truth (Logic_PerformComputation Or a b) = max (truth ?a) (truth ?b)"
    by (cases ?a; cases ?b; simp add: Logic_PerformComputation_def)+
  then show ?thesis using assms v w by simp
qed

theorem LogicExpression_kleene_witness:
  "\<exists>v. Evaluate None ex_schema (LogicExpression And (ConstantValueExpression (Value_ctor BOOLEAN))
      (ConstantValueExpression (set_int BOOLEAN I8 (cmin I8) 0))) = Inr v \<and> GetBoolAsCmpBool v = CmpFalse"
proof -
  let ?n = "Value_ctor BOOLEAN" and ?f = "set_int BOOLEAN I8 (cmin I8) 0"
  have t: "truth (GetBoolAsCmpBool ?n) = 1" "truth (GetBoolAsCmpBool ?f) = 0" by code_simp+
  obtain v where "Evaluate None ex_schema (LogicExpression And (ConstantValueExpression ?n) (ConstantValueExpression ?f)) = Inr v"
      "truth (GetBoolAsCmpBool v) = truth CmpFalse"
    using LogicExpression_kleene [of None ex_schema "ConstantValueExpression ?n" ?n "ConstantValueExpression ?f" ?f] t by auto
  then show ?thesis by (simp only: truth_inject) blast
qed

text \<open>\<open>ArithmeticExpression\<close> adds machine integers without the overflow check of \<open>Value::Add\<close>.\<close>

theorem ArithmeticExpression_wraps:
  "Evaluate t s (ArithmeticExpression Plus (ConstantValueExpression (set_int INTEGER I32 (cmin I32) 2147483647))
      (ConstantValueExpression (set_int INTEGER I32 (cmin I32) 2))) = Inr (set_int INTEGER I32 (cmin I32) (- 2147483647)) \<and>
   Value_Add (set_int INTEGER I32 (cmin I32) 2147483647) (set_int INTEGER I32 (cmin I32) 2) = out_of_range"
proof
  show "Evaluate t s (ArithmeticExpression Plus (ConstantValueExpression (set_int INTEGER I32 (cmin I32) 2147483647))
      (ConstantValueExpression (set_int INTEGER I32 (cmin I32) 2))) = Inr (set_int INTEGER I32 (cmin I32) (- 2147483647))"
    by (simp, code_simp)
qed code_simp

end
