(* ===== verification/TablePage.thy ===== *)
theory TablePage
  imports Tuples
begin

text \<open>
  The slotted page of a table (storage/page/table_page.h, storage/page/table_page.cpp), on the
  bytes of the page frame: an eight-byte header, the array of 24-byte tuple descriptors growing
  upwards, and the tuples' bytes growing downwards from the end of the page.  Every access is
  bounds-checked, so a theorem that an operation returns also says that it stays in the frame.

  A descriptor is a \<open>std::tuple<uint16_t, uint16_t, TupleMeta>\<close> in the layout of libstdc++ (last
  element first); its padding bytes are written as zero.
\<close>

type_synonym page = buffer

definition BUSTUB_PAGE_SIZE :: nat where "BUSTUB_PAGE_SIZE = 8192"
definition TABLE_PAGE_HEADER_SIZE :: nat where "TABLE_PAGE_HEADER_SIZE = 8"
definition TUPLE_INFO_SIZE :: nat where "TUPLE_INFO_SIZE = 24"

lemmas page_consts [simp] = BUSTUB_PAGE_SIZE_def TABLE_PAGE_HEADER_SIZE_def TUPLE_INFO_SIZE_def

section \<open>Descriptors\<close>

definition encode_info :: "nat \<Rightarrow> nat \<Rightarrow> TupleMeta \<Rightarrow> buffer" where
  "encode_info offset sz meta = le_encode 8 (nat (ts meta mod 2 ^ 64))
     @ le_encode 8 (if is_deleted meta then 1 else 0) @ le_encode 2 sz @ le_encode 2 offset @ le_encode 4 0"

definition decode_info :: "buffer \<Rightarrow> nat \<times> nat \<times> TupleMeta" where
  "decode_info bs = (le_decode (take 2 (drop 18 bs)), le_decode (take 2 (drop 16 bs)),
     \<lparr> ts = static_cast I64 (int (le_decode (take 8 bs))), is_deleted = (le_decode (take 1 (drop 8 bs)) \<noteq> 0) \<rparr>)"

definition info_offset :: "nat \<Rightarrow> nat" where
  "info_offset i = TABLE_PAGE_HEADER_SIZE + TUPLE_INFO_SIZE * i"

text \<open>\<open>tuple_info_[i]\<close> and the header fields.\<close>

definition get_info :: "page \<Rightarrow> nat \<Rightarrow> (nat \<times> nat \<times> TupleMeta) result" where
  "get_info p i = rbind (read_at p (info_offset i) TUPLE_INFO_SIZE) (\<lambda>bs. Inr (decode_info bs))"

definition set_info :: "page \<Rightarrow> nat \<Rightarrow> nat \<Rightarrow> nat \<Rightarrow> TupleMeta \<Rightarrow> page result" where
  "set_info p i offset sz meta = write_at p (info_offset i) (encode_info offset (sz mod 2 ^ 16) meta)"

definition GetNumTuples :: "page \<Rightarrow> nat result" where
  "GetNumTuples p = rbind (read_at p 4 2) (\<lambda>bs. Inr (le_decode bs))"

definition SetNumTuples :: "page \<Rightarrow> nat \<Rightarrow> page result" where
  "SetNumTuples p n = write_at p 4 (le_encode 2 n)"

definition num_deleted_tuples :: "page \<Rightarrow> nat result" where
  "num_deleted_tuples p = rbind (read_at p 6 2) (\<lambda>bs. Inr (le_decode bs))"

definition set_num_deleted_tuples :: "page \<Rightarrow> nat \<Rightarrow> page result" where
  "set_num_deleted_tuples p n = write_at p 6 (le_encode 2 n)"

definition GetNextPageId :: "page \<Rightarrow> int result" where
  "GetNextPageId p = rbind (read_at p 0 4) (\<lambda>bs. Inr (static_cast I32 (int (le_decode bs))))"

definition SetNextPageId :: "page \<Rightarrow> int \<Rightarrow> page result" where
  "SetNextPageId p next_page_id = write_at p 0 (le_encode 4 (nat (next_page_id mod 2 ^ 32)))"

section \<open>Operations\<close>

definition Init :: "page \<Rightarrow> page result" where
  "Init p = rbind (SetNextPageId p INVALID_PAGE_ID) (\<lambda>p. rbind (SetNumTuples p 0) (\<lambda>p.
     set_num_deleted_tuples p 0))"

text \<open>\<open>tuple_offset\<close> is a \<open>size_t\<close>: the subtraction wraps around.  The result is narrowed to
  \<open>uint16_t\<close>.\<close>

definition GetNextTupleOffset :: "page \<Rightarrow> TupleMeta \<Rightarrow> Tuple \<Rightarrow> nat option result" where
  "GetNextTupleOffset p meta tuple = rbind (GetNumTuples p) (\<lambda>num_tuples.
     rbind (if num_tuples > 0 then rbind (get_info p (num_tuples - 1)) (\<lambda>(offset, sz, m). Inr offset)
            else Inr BUSTUB_PAGE_SIZE) (\<lambda>slot_end_offset.
       let tuple_offset = nat ((int slot_end_offset - int (GetLength tuple)) mod 2 ^ 64);
           offset_size = TABLE_PAGE_HEADER_SIZE + TUPLE_INFO_SIZE * (num_tuples + 1)
       in if tuple_offset < offset_size then Inr None else Inr (Some (tuple_offset mod 2 ^ 16))))"

definition TablePage_InsertTuple :: "page \<Rightarrow> TupleMeta \<Rightarrow> Tuple \<Rightarrow> (nat option \<times> page) result" where
  "TablePage_InsertTuple p meta tuple = rbind (GetNextTupleOffset p meta tuple) (\<lambda>tuple_offset.
     case tuple_offset of None \<Rightarrow> Inr (None, p)
     | Some off \<Rightarrow> rbind (GetNumTuples p) (\<lambda>tuple_id.
         rbind (set_info p tuple_id off (GetLength tuple) meta) (\<lambda>p1.
         rbind (SetNumTuples p1 ((tuple_id + 1) mod 2 ^ 16)) (\<lambda>p2.
         rbind (write_at p2 off (data tuple)) (\<lambda>p3. Inr (Some tuple_id, p3))))))"

definition range_error :: "'a result" where
  "range_error = Inl (Throw ET_INVALID ''Tuple ID out of range'')"

definition note_deleted :: "page \<Rightarrow> TupleMeta \<Rightarrow> TupleMeta \<Rightarrow> page result" where
  "note_deleted p old_meta meta = (if \<not> is_deleted old_meta \<and> is_deleted meta
     then rbind (num_deleted_tuples p) (\<lambda>n. set_num_deleted_tuples p ((n + 1) mod 2 ^ 16)) else Inr p)"

definition TablePage_UpdateTupleMeta :: "page \<Rightarrow> TupleMeta \<Rightarrow> RID \<Rightarrow> page result" where
  "TablePage_UpdateTupleMeta p meta r = rbind (GetNumTuples p) (\<lambda>n.
     if slot_num r \<ge> n then range_error
     else rbind (get_info p (slot_num r)) (\<lambda>(offset, sz, old_meta).
       rbind (note_deleted p old_meta meta) (\<lambda>p1. set_info p1 (slot_num r) offset sz meta)))"

definition TablePage_GetTuple :: "page \<Rightarrow> RID \<Rightarrow> (TupleMeta \<times> Tuple) result" where
  "TablePage_GetTuple p r = rbind (GetNumTuples p) (\<lambda>n.
     if slot_num r \<ge> n then range_error
     else rbind (get_info p (slot_num r)) (\<lambda>(offset, sz, meta).
       rbind (read_at p offset sz) (\<lambda>bs. Inr (meta, \<lparr> rid = r, data = bs \<rparr>))))"

definition TablePage_GetTupleMeta :: "page \<Rightarrow> RID \<Rightarrow> TupleMeta result" where
  "TablePage_GetTupleMeta p r = rbind (GetNumTuples p) (\<lambda>n.
     if slot_num r \<ge> n then range_error
     else rbind (get_info p (slot_num r)) (\<lambda>(offset, sz, meta). Inr meta))"

definition UpdateTupleInPlaceUnsafe :: "page \<Rightarrow> TupleMeta \<Rightarrow> Tuple \<Rightarrow> RID \<Rightarrow> page result" where
  "UpdateTupleInPlaceUnsafe p meta tuple r = rbind (GetNumTuples p) (\<lambda>n.
     if slot_num r \<ge> n then range_error
     else rbind (get_info p (slot_num r)) (\<lambda>(offset, sz, old_meta).
       if sz \<noteq> GetLength tuple then Inl (Throw ET_INVALID ''Tuple size mismatch'')
       else rbind (note_deleted p old_meta meta) (\<lambda>p1.
         rbind (set_info p1 (slot_num r) offset sz meta) (\<lambda>p2. write_at p2 offset (data tuple)))))"

section \<open>What a page holds\<close>

text \<open>The offset of the end of the free space after \<open>k\<close> of the tuples.\<close>

definition used :: "(TupleMeta \<times> buffer) list \<Rightarrow> nat \<Rightarrow> nat" where
  "used tuples k = sum_list (map (\<lambda>x. length (snd x)) (take k tuples))"

definition tup_off :: "(TupleMeta \<times> buffer) list \<Rightarrow> nat \<Rightarrow> nat" where
  "tup_off tuples k = BUSTUB_PAGE_SIZE - used tuples k"

text \<open>The page frame \<open>p\<close> represents a page with a next page id, a count of deletions and a list
  of tuples.\<close>

definition represents :: "page \<Rightarrow> int \<Rightarrow> nat \<Rightarrow> (TupleMeta \<times> buffer) list \<Rightarrow> bool" where
  "represents p nxt ndel tuples \<longleftrightarrow> length p = BUSTUB_PAGE_SIZE \<and>
     info_offset (length tuples) + used tuples (length tuples) \<le> BUSTUB_PAGE_SIZE \<and>
     in_range I32 nxt \<and> ndel < 2 ^ 16 \<and> (\<forall>x \<in> set tuples. in_range I64 (ts (fst x))) \<and>
     read_at p 0 4 = Inr (le_encode 4 (nat (nxt mod 2 ^ 32))) \<and>
     read_at p 4 2 = Inr (le_encode 2 (length tuples)) \<and>
     read_at p 6 2 = Inr (le_encode 2 ndel) \<and>
     (\<forall>i<length tuples.
        read_at p (info_offset i) 24 =
          Inr (encode_info (tup_off tuples (Suc i)) (length (snd (tuples ! i))) (fst (tuples ! i))) \<and>
        read_at p (tup_off tuples (Suc i)) (length (snd (tuples ! i))) = Inr (snd (tuples ! i)))"

lemma length_encode_info [simp]: "length (encode_info o' s m) = 24"
  by (simp add: encode_info_def)

lemma decode_encode_info:
  assumes "o' < 2 ^ 16" "s < 2 ^ 16" "in_range I64 (ts m)"
  shows "decode_info (encode_info o' s m) = (o', s, m)"
proof -
  have "nat (ts m mod 2 ^ 64) mod 256 ^ 8 = nat (ts m mod 2 ^ 64)" by (simp add: nat_less_iff)
  moreover have "static_cast I64 (int (nat (ts m mod 2 ^ 64))) = ts m"
    using static_cast_mod [of I64 "ts m"] static_cast_id [OF assms(3)] by simp
  moreover have "take (Suc 0) (le_encode 8 n) = le_encode 1 n" for n
    using le_encode.simps(2) [of 7 n] by simp
  ultimately show ?thesis
    using assms by (cases m) (simp add: decode_info_def encode_info_def)
qed

lemma used_Suc: "k < length tuples \<Longrightarrow> used tuples (Suc k) = used tuples k + length (snd (tuples ! k))"
  by (simp add: used_def take_Suc_conv_app_nth)

lemma used_mono: "i \<le> j \<Longrightarrow> used tuples i \<le> used tuples j"
  unfolding used_def by (rule sum_take_mono)

lemma used_append [simp]: "k \<le> length tuples \<Longrightarrow> used (tuples @ us) k = used tuples k"
  by (simp add: used_def)

lemma used_update [simp]:
  "length (snd x) = length (snd (tuples ! i)) \<Longrightarrow> used (tuples[i := x]) k = used tuples k"
proof -
  assume len: "length (snd x) = length (snd (tuples ! i))"
  have "map (\<lambda>x. length (snd x)) (tuples[i := x]) = map (\<lambda>x. length (snd x)) tuples"
    using len by (cases "i < length tuples") (simp_all add: map_update list_update_same_conv list_update_beyond)
  then show ?thesis by (simp add: used_def flip: take_map)
qed

lemma represents_info:
  assumes "represents p nxt ndel tuples" "i < length tuples"
  shows "get_info p i = Inr (tup_off tuples (Suc i), length (snd (tuples ! i)), fst (tuples ! i))"
proof -
  have "used tuples (Suc i) \<le> used tuples (length tuples)" using assms(2) by (intro used_mono) simp
  then have "length (snd (tuples ! i)) < 2 ^ 16" "tup_off tuples (Suc i) < 2 ^ 16"
    using assms used_Suc [OF assms(2)] by (auto simp: represents_def tup_off_def)
  then show ?thesis using assms
    by (auto simp: represents_def get_info_def intro!: decode_encode_info)
qed

lemma represents_count: "represents p nxt ndel tuples \<Longrightarrow> GetNumTuples p = Inr (length tuples) \<and> length tuples < 342"
  by (auto simp: represents_def GetNumTuples_def info_offset_def)

lemma represents_deleted: "represents p nxt ndel tuples \<Longrightarrow> num_deleted_tuples p = Inr ndel"
  by (simp add: represents_def num_deleted_tuples_def)

lemma represents_next: "represents p nxt ndel tuples \<Longrightarrow> GetNextPageId p = Inr nxt"
proof -
  assume r: "represents p nxt ndel tuples"
  have "nat (nxt mod 2 ^ 32) mod 256 ^ 4 = nat (nxt mod 2 ^ 32)" by (simp add: nat_less_iff)
  moreover have "static_cast I32 (int (nat (nxt mod 2 ^ 32))) = nxt"
    using r static_cast_mod [of I32 nxt] by (simp add: represents_def static_cast_id)
  ultimately show ?thesis using r by (simp add: represents_def GetNextPageId_def)
qed

lemma represents_bounds:
  assumes "represents p nxt ndel tuples" "i < length tuples"
  shows "info_offset (length tuples) \<le> tup_off tuples (Suc i)" "info_offset i + 24 \<le> info_offset (length tuples)"
    "tup_off tuples (Suc i) + length (snd (tuples ! i)) = tup_off tuples i" "tup_off tuples i \<le> 8192" "8 \<le> info_offset i"
proof -
  have m: "used tuples (Suc i) \<le> used tuples (length tuples)" using assms(2) by (intro used_mono) simp
  have b: "info_offset (length tuples) + used tuples (length tuples) \<le> 8192" using assms(1) by (simp add: represents_def)
  show "info_offset (length tuples) \<le> tup_off tuples (Suc i)" "tup_off tuples i \<le> 8192"
    using m b by (auto simp: tup_off_def)
  show "tup_off tuples (Suc i) + length (snd (tuples ! i)) = tup_off tuples i"
    using m b used_Suc [OF assms(2)] by (auto simp: tup_off_def)
  show "info_offset i + 24 \<le> info_offset (length tuples)" "8 \<le> info_offset i"
    using assms(2) by (auto simp: info_offset_def)
qed

lemma tup_off_antimono: "i \<le> j \<Longrightarrow> tup_off tuples j \<le> tup_off tuples i"
  by (simp add: tup_off_def used_mono diff_le_mono2)

subsection \<open>Initialisation, lookup and the next page id\<close>

lemma Init_represents:
  assumes "length p = BUSTUB_PAGE_SIZE"
  shows "\<exists>p'. Init p = Inr p' \<and> represents p' INVALID_PAGE_ID 0 []"
proof -
  let ?i = "le_encode 4 (nat (INVALID_PAGE_ID mod 2 ^ 32))"
  obtain p1 where p1: "write_at p 0 ?i = Inr p1" "length p1 = 8192" "read_at p1 0 4 = Inr ?i"
    using write_at_ok [of 0 ?i p] assms by auto
  obtain p2 where p2: "write_at p1 4 (le_encode 2 0) = Inr p2" "length p2 = 8192" "read_at p2 4 2 = Inr (le_encode 2 0)"
    using write_at_ok [of 4 "le_encode 2 0" p1] p1(2) by auto
  obtain p3 where p3: "write_at p2 6 (le_encode 2 0) = Inr p3" "length p3 = 8192" "read_at p3 6 2 = Inr (le_encode 2 0)"
    using write_at_ok [of 6 "le_encode 2 0" p2] p2(2) by auto
  have "read_at p3 0 4 = Inr ?i" "read_at p3 4 2 = Inr (le_encode 2 0)"
    using read_write_disjoint [OF p3(1), of 0 4] read_write_disjoint [OF p2(1), of 0 4]
      read_write_disjoint [OF p3(1), of 4 2] p1(3) p2(3) by simp_all
  then have "represents p3 INVALID_PAGE_ID 0 []"
    using p3 by (simp add: represents_def info_offset_def used_def in_range_def INVALID_PAGE_ID_def)
  then show ?thesis using p1(1) p2(1) p3(1)
    by (simp add: Init_def SetNextPageId_def SetNumTuples_def set_num_deleted_tuples_def)
qed

lemma GetTuple_represents:
  assumes "represents p nxt ndel tuples"
  shows "TablePage_GetTuple p r = (if slot_num r < length tuples
     then Inr (fst (tuples ! slot_num r), \<lparr> rid = r, data = snd (tuples ! slot_num r) \<rparr>) else range_error)"
  using assms represents_count [OF assms] represents_info [OF assms]
  by (auto simp: TablePage_GetTuple_def represents_def)

lemma GetTupleMeta_represents:
  assumes "represents p nxt ndel tuples"
  shows "TablePage_GetTupleMeta p r = (if slot_num r < length tuples
     then Inr (fst (tuples ! slot_num r)) else range_error)"
  using represents_count [OF assms] represents_info [OF assms] by (auto simp: TablePage_GetTupleMeta_def)

text \<open>A write outside everything the representation reads keeps it.\<close>

lemma represents_write_header:
  assumes r: "represents p nxt ndel tuples" and w: "write_at p off bs = Inr p'"
    and h: "off + length bs \<le> 8"
    and f: "read_at p' 0 4 = Inr (le_encode 4 (nat (nxt' mod 2 ^ 32)))" "in_range I32 nxt'"
      "read_at p' 4 2 = Inr (le_encode 2 (length tuples))" "read_at p' 6 2 = Inr (le_encode 2 ndel')" "ndel' < 2 ^ 16"
  shows "represents p' nxt' ndel' tuples"
proof -
  have "read_at p' (info_offset i) 24 = read_at p (info_offset i) 24"
    "read_at p' (tup_off tuples (Suc i)) n = read_at p (tup_off tuples (Suc i)) n" if "i < length tuples" for i n
    using represents_bounds [OF r that] h by (auto intro!: read_write_disjoint [OF w] simp: info_offset_def)
  then show ?thesis using r f length_write_at [OF w] by (simp add: represents_def)
qed

lemma SetNextPageId_represents:
  assumes r: "represents p nxt ndel tuples" and n: "in_range I32 nxt'"
  shows "\<exists>p'. SetNextPageId p nxt' = Inr p' \<and> represents p' nxt' ndel tuples"
proof -
  let ?i = "le_encode 4 (nat (nxt' mod 2 ^ 32))"
  have "length p = 8192" using r by (simp add: represents_def)
  then obtain p1 where p1: "write_at p 0 ?i = Inr p1" "read_at p1 0 4 = Inr ?i"
    using write_at_ok [of 0 ?i p] by auto
  then have "represents p1 nxt' ndel tuples"
    using r n read_write_disjoint [OF p1(1), of 4 2] read_write_disjoint [OF p1(1), of 6 2]
    by (intro represents_write_header [OF r p1(1)]) (auto simp: represents_def)
  then show ?thesis using p1(1) by (auto simp: SetNextPageId_def)
qed


subsection \<open>Insertion\<close>

lemma slot_end:
  assumes "represents p nxt ndel tuples"
  shows "(if length tuples > 0 then rbind (get_info p (length tuples - 1)) (\<lambda>(offset, sz, m). Inr offset)
            else Inr BUSTUB_PAGE_SIZE) = Inr (tup_off tuples (length tuples))"
  using represents_info [OF assms, of "length tuples - 1"]
  by (cases "length tuples") (auto simp: tup_off_def used_def)

lemma GetNextTupleOffset_represents:
  assumes "represents p nxt ndel tuples" "length (data t) \<le> tup_off tuples (length tuples)"
  shows "GetNextTupleOffset p m t = Inr (if info_offset (Suc (length tuples)) + length (data t) \<le> tup_off tuples (length tuples)
     then Some (tup_off tuples (length tuples) - length (data t)) else None)"
proof -
  have le: "tup_off tuples (length tuples) \<le> 8192" by (simp add: tup_off_def)
  then have gl: "GetLength t = length (data t)" using assms(2) by (simp add: GetLength_def)
  have "nat ((int (tup_off tuples (length tuples)) - int (length (data t))) mod 2 ^ 64) =
      tup_off tuples (length tuples) - length (data t)" using assms(2) le by (simp add: nat_diff_distrib)
  then show ?thesis
    using represents_count [OF assms(1)] slot_end [OF assms(1)] assms(2) le
    by (auto simp: GetNextTupleOffset_def gl Let_def info_offset_def)
qed

lemma InsertTuple_represents:
  assumes r: "represents p nxt ndel tuples" and m: "in_range I64 (ts m)"
    and room: "info_offset (Suc (length tuples)) + length (data t) \<le> tup_off tuples (length tuples)"
  shows "\<exists>p'. TablePage_InsertTuple p m t = Inr (Some (length tuples), p') \<and>
     represents p' nxt ndel (tuples @ [(m, data t)])"
proof -
  let ?n = "length tuples" and ?us = "tuples @ [(m, data t)]"
  let ?off = "tup_off tuples ?n - length (data t)"
  have b: "tup_off tuples ?n \<le> 8192" "tup_off tuples ?n = 8192 - used tuples ?n" by (auto simp: tup_off_def)
  have u: "used ?us (Suc ?n) = used tuples ?n + length (data t)" by (simp add: used_def)
  have off: "tup_off ?us (Suc ?n) = ?off" "\<And>i. i \<le> ?n \<Longrightarrow> tup_off ?us i = tup_off tuples i"
    using u b by (auto simp: tup_off_def)
  have gl: "GetLength t = length (data t)" "length (data t) mod 2 ^ 16 = length (data t)" "?off mod 2 ^ 16 = ?off"
    using room b(1) by (auto simp: GetLength_def)
  have lp: "length p = 8192" using r by (simp add: represents_def)
  let ?e = "encode_info ?off (length (data t)) m"
  have io: "info_offset (Suc ?n) = info_offset ?n + 24" "8 \<le> info_offset ?n" by (auto simp: info_offset_def)
  obtain p1 where p1: "write_at p (info_offset ?n) ?e = Inr p1" "length p1 = 8192" "read_at p1 (info_offset ?n) 24 = Inr ?e"
    using write_at_ok [of "info_offset ?n" ?e p] lp room io b(1) by auto
  obtain p2 where p2: "write_at p1 4 (le_encode 2 (Suc ?n)) = Inr p2" "length p2 = 8192"
      "read_at p2 4 2 = Inr (le_encode 2 (Suc ?n))"
    using write_at_ok [of 4 "le_encode 2 (Suc ?n)" p1] p1(2) by auto
  obtain p3 where p3: "write_at p2 ?off (data t) = Inr p3" "length p3 = 8192" "read_at p3 ?off (length (data t)) = Inr (data t)"
    using write_at_ok [of ?off "data t" p2] p2(2) room b(1) by auto
  have keep: "read_at p3 x k = read_at p x k" if "x + k \<le> info_offset ?n \<or> tup_off tuples ?n \<le> x"
      "x + k \<le> 4 \<or> 6 \<le> x" for x k
    using that room io read_write_disjoint [OF p3(1), of x k] read_write_disjoint [OF p2(1), of x k]
      read_write_disjoint [OF p1(1), of x k] by auto
  have cnt: "read_at p3 4 2 = Inr (le_encode 2 (Suc ?n))"
    using read_write_disjoint [OF p3(1), of 4 2] p2(3) room io by simp
  have inf: "read_at p3 (info_offset ?n) 24 = Inr ?e"
    using read_write_disjoint [OF p3(1), of "info_offset ?n" 24] read_write_disjoint [OF p2(1), of "info_offset ?n" 24]
      p1(3) room io by simp
  have "represents p3 nxt ndel ?us"
    unfolding represents_def
  proof (intro conjI allI impI)
    fix i assume i: "i < length ?us"
    have "read_at p3 (info_offset i) 24 = Inr (encode_info (tup_off ?us (Suc i)) (length (snd (?us ! i))) (fst (?us ! i))) \<and>
      read_at p3 (tup_off ?us (Suc i)) (length (snd (?us ! i))) = Inr (snd (?us ! i))"
    proof (cases "i < ?n")
      case True
      note bd = represents_bounds [OF r True]
      have "tup_off tuples ?n \<le> tup_off tuples (Suc i)" using True by (intro tup_off_antimono) simp
      then show ?thesis using True r bd keep [of "info_offset i" 24] off
          keep [of "tup_off tuples (Suc i)" "length (snd (tuples ! i))"] io
        by (simp add: represents_def nth_append)
    next
      case False
      then have "i = ?n" using i by simp
      then show ?thesis using inf p3(3) off by simp
    qed
    then show "read_at p3 (info_offset i) 24 =
        Inr (encode_info (tup_off ?us (Suc i)) (length (snd (?us ! i))) (fst (?us ! i)))"
      and "read_at p3 (tup_off ?us (Suc i)) (length (snd (?us ! i))) = Inr (snd (?us ! i))" by auto
  qed (use r m cnt p3(2) keep [of 0 4] keep [of 6 2] io room b u in \<open>auto simp: represents_def\<close>)
  moreover have "(?n + 1) mod 2 ^ 16 = Suc ?n" using represents_count [OF r] by simp
  ultimately show ?thesis
    using GetNextTupleOffset_represents [OF r, of t m] represents_count [OF r] room p1(1) p2(1) p3(1) gl
    by (simp add: TablePage_InsertTuple_def set_info_def SetNumTuples_def)
qed

lemma InsertTuple_full:
  assumes "represents p nxt ndel tuples" "length (data t) \<le> tup_off tuples (length tuples)"
    "\<not> info_offset (Suc (length tuples)) + length (data t) \<le> tup_off tuples (length tuples)"
  shows "TablePage_InsertTuple p m t = Inr (None, p)"
  using GetNextTupleOffset_represents [OF assms(1,2), of m] assms(3) by (simp add: TablePage_InsertTuple_def)

subsection \<open>Updates\<close>

lemma represents_set_info:
  assumes r: "represents p nxt ndel tuples" and i: "i < length tuples" and m: "in_range I64 (ts m)"
  shows "\<exists>p'. set_info p i (tup_off tuples (Suc i)) (length (snd (tuples ! i))) m = Inr p' \<and>
    represents p' nxt ndel (tuples[i := (m, snd (tuples ! i))])"
proof -
  let ?us = "tuples[i := (m, snd (tuples ! i))]" and ?l = "length (snd (tuples ! i))"
  let ?e = "encode_info (tup_off tuples (Suc i)) ?l m"
  note bd = represents_bounds [OF r i]
  have lp: "length p = 8192" using r by (simp add: represents_def)
  have l16: "?l mod 2 ^ 16 = ?l" using bd by simp
  obtain p1 where p1: "write_at p (info_offset i) ?e = Inr p1" "length p1 = 8192" "read_at p1 (info_offset i) 24 = Inr ?e"
    using write_at_ok [of "info_offset i" ?e p] lp bd by auto
  have off: "tup_off ?us k = tup_off tuples k" for k by (simp add: tup_off_def)
  have keep: "read_at p1 x k = read_at p x k" if "x + k \<le> info_offset i \<or> info_offset i + 24 \<le> x" for x k
    using that read_write_disjoint [OF p1(1), of x k] by auto
  have "represents p1 nxt ndel ?us"
    unfolding represents_def
  proof (intro conjI allI impI)
    fix j assume j: "j < length ?us"
    then have jl: "j < length tuples" by simp
    note bj = represents_bounds [OF r jl]
    have d: "read_at p1 (tup_off tuples (Suc j)) (length (snd (tuples ! j))) = Inr (snd (tuples ! j))"
      using r jl keep bd(2) bj(1) by (auto simp: represents_def)
    have "i = j \<or> info_offset j + 24 \<le> info_offset i \<or> info_offset i + 24 \<le> info_offset j"
      by (auto simp: info_offset_def)
    then have "read_at p1 (info_offset j) 24 =
        Inr (encode_info (tup_off tuples (Suc j)) (length (snd (tuples ! j))) (if i = j then m else fst (tuples ! j)))"
      using p1(3) r jl keep [of "info_offset j" 24] by (auto simp: represents_def)
    then show "read_at p1 (info_offset j) 24 =
        Inr (encode_info (tup_off ?us (Suc j)) (length (snd (?us ! j))) (fst (?us ! j)))"
      and "read_at p1 (tup_off ?us (Suc j)) (length (snd (?us ! j))) = Inr (snd (?us ! j))"
      using d jl i by (auto simp: off nth_list_update)
  next
    show "\<forall>x\<in>set ?us. in_range I64 (ts (fst x))"
      using r m set_update_subset_insert [of tuples i] by (fastforce simp: represents_def)
  qed (use r p1(2) keep [of 0 4] keep [of 4 2] keep [of 6 2] bd in \<open>auto simp: represents_def\<close>)
  then show ?thesis using p1(1) l16 by (simp add: set_info_def)
qed

lemma note_deleted_represents:
  assumes r: "represents p nxt ndel tuples"
  shows "\<exists>p'. note_deleted p old m = Inr p' \<and>
    represents p' nxt (if \<not> is_deleted old \<and> is_deleted m then (ndel + 1) mod 2 ^ 16 else ndel) tuples"
proof (cases "\<not> is_deleted old \<and> is_deleted m")
  case True
  let ?b = "le_encode 2 ((ndel + 1) mod 2 ^ 16)"
  have "length p = 8192" using r by (simp add: represents_def)
  then obtain p1 where p1: "write_at p 6 ?b = Inr p1" "read_at p1 6 2 = Inr ?b"
    using write_at_ok [of 6 ?b p] by auto
  then have "represents p1 nxt ((ndel + 1) mod 2 ^ 16) tuples"
    using r read_write_disjoint [OF p1(1), of 0 4] read_write_disjoint [OF p1(1), of 4 2]
    by (intro represents_write_header [OF r p1(1)]) (auto simp: represents_def)
  then show ?thesis
    using True p1(1) represents_deleted [OF r] by (simp add: note_deleted_def set_num_deleted_tuples_def)
qed (use r in \<open>auto simp: note_deleted_def\<close>)

lemma UpdateTupleMeta_represents:
  assumes r: "represents p nxt ndel tuples" and i: "slot_num q < length tuples" and m: "in_range I64 (ts m)"
  shows "\<exists>p' ndel'. TablePage_UpdateTupleMeta p m q = Inr p' \<and>
    represents p' nxt ndel' (tuples[slot_num q := (m, snd (tuples ! slot_num q))])"
proof -
  obtain p1 nd where p1: "note_deleted p (fst (tuples ! slot_num q)) m = Inr p1" "represents p1 nxt nd tuples"
    using note_deleted_represents [OF r] by blast
  then show ?thesis
    using represents_set_info [OF p1(2) i m] represents_count [OF r] represents_info [OF r i] i
    by (auto simp: TablePage_UpdateTupleMeta_def)
qed

lemma write_data_represents:
  assumes r: "represents p nxt ndel tuples" and i: "i < length tuples" and l: "length bs = length (snd (tuples ! i))"
  shows "\<exists>p'. write_at p (tup_off tuples (Suc i)) bs = Inr p' \<and>
    represents p' nxt ndel (tuples[i := (fst (tuples ! i), bs)])"
proof -
  let ?us = "tuples[i := (fst (tuples ! i), bs)]"
  note bd = represents_bounds [OF r i]
  have lp: "length p = 8192" using r by (simp add: represents_def)
  obtain p1 where p1: "write_at p (tup_off tuples (Suc i)) bs = Inr p1" "length p1 = 8192"
      "read_at p1 (tup_off tuples (Suc i)) (length bs) = Inr bs"
    using write_at_ok [of "tup_off tuples (Suc i)" bs p] lp bd l by auto
  have off: "tup_off ?us k = tup_off tuples k" for k using l by (simp add: tup_off_def)
  have keep: "read_at p1 x k = read_at p x k"
    if "x + k \<le> tup_off tuples (Suc i) \<or> tup_off tuples i \<le> x" for x k
    using that bd(3) l read_write_disjoint [OF p1(1), of x k] by auto
  have "represents p1 nxt ndel ?us"
    unfolding represents_def
  proof (intro conjI allI impI)
    fix j assume j: "j < length ?us"
    then have jl: "j < length tuples" by simp
    note bj = represents_bounds [OF r jl]
    have "i = j \<or> Suc i \<le> j \<or> Suc j \<le> i" by auto
    then have "read_at p1 (tup_off tuples (Suc j)) (length (snd (tuples ! j))) = Inr (if i = j then bs else snd (tuples ! j))"
      using p1(3) l r jl keep [of "tup_off tuples (Suc j)" "length (snd (tuples ! j))"] bj(3)
        tup_off_antimono [of "Suc i" j tuples] tup_off_antimono [of "Suc j" i tuples]
      by (auto simp: represents_def)
    moreover have "read_at p1 (info_offset j) 24 = read_at p (info_offset j) 24"
      using keep [of "info_offset j" 24] bj(2) bd(1) by simp
    ultimately show "read_at p1 (info_offset j) 24 =
        Inr (encode_info (tup_off ?us (Suc j)) (length (snd (?us ! j))) (fst (?us ! j)))"
      and "read_at p1 (tup_off ?us (Suc j)) (length (snd (?us ! j))) = Inr (snd (?us ! j))"
      using r jl l i by (auto simp: off nth_list_update represents_def)
  next
    show "\<forall>x\<in>set ?us. in_range I64 (ts (fst x))"
      using r i set_update_subset_insert [of tuples i] by (fastforce simp: represents_def)
  qed (use r p1(2) keep [of 0 4] keep [of 4 2] keep [of 6 2] bd l in \<open>auto simp: represents_def\<close>)
  then show ?thesis using p1(1) by simp
qed

lemma UpdateTupleInPlaceUnsafe_represents:
  assumes r: "represents p nxt ndel tuples" and i: "slot_num q < length tuples" and m: "in_range I64 (ts m)"
    and l: "length (data t) = length (snd (tuples ! slot_num q))"
  shows "\<exists>p' ndel'. UpdateTupleInPlaceUnsafe p m t q = Inr p' \<and>
    represents p' nxt ndel' (tuples[slot_num q := (m, data t)])"
proof -
  have gl: "GetLength t = length (snd (tuples ! slot_num q))"
    using l represents_bounds [OF r i] by (simp add: GetLength_def)
  obtain p1 nd where p1: "note_deleted p (fst (tuples ! slot_num q)) m = Inr p1" "represents p1 nxt nd tuples"
    using note_deleted_represents [OF r] by blast
  let ?us = "tuples[slot_num q := (m, snd (tuples ! slot_num q))]"
  obtain p2 where p2: "set_info p1 (slot_num q) (tup_off tuples (Suc (slot_num q))) (length (snd (tuples ! slot_num q))) m = Inr p2"
      "represents p2 nxt nd ?us"
    using represents_set_info [OF p1(2) i m] by blast
  have "tup_off ?us k = tup_off tuples k" for k by (simp add: tup_off_def)
  then obtain p3 where "write_at p2 (tup_off tuples (Suc (slot_num q))) (data t) = Inr p3"
      "represents p3 nxt nd (tuples[slot_num q := (m, data t)])"
    using write_data_represents [OF p2(2), of "slot_num q" "data t"] i l by auto
  then show ?thesis using p1(1) p2(1) represents_count [OF r] represents_info [OF r i] i gl
    by (auto simp: UpdateTupleInPlaceUnsafe_def)
qed

section \<open>Properties\<close>

text \<open>C28: Inserting into a page that represents a list of tuples, with room left for the descriptor
  and the bytes, stays within the frame, returns the next slot number and represents the list with
  the tuple appended: no other tuple, descriptor or header field is disturbed.\<close>

theorem TablePage_insert_appends:
  assumes "represents p nxt ndel tuples" "in_range I64 (ts m)"
    "info_offset (Suc (length tuples)) + length (data t) \<le> tup_off tuples (length tuples)"
  shows "\<exists>p'. TablePage_InsertTuple p m t = Inr (Some (length tuples), p') \<and>
     represents p' nxt ndel (tuples @ [(m, data t)])"
  using assms by (rule InsertTuple_represents)

definition ex_page :: page where
  "ex_page = replicate 8192 (char_of (0::nat))"

theorem TablePage_insert_appends_witness:
  "\<exists>p p'. Init ex_page = Inr p \<and>
     TablePage_InsertTuple p \<lparr> ts = 0, is_deleted = False \<rparr> (Tuple_Empty \<lparr> data := ''hello'' \<rparr>) = Inr (Some 0, p') \<and>
     represents p' INVALID_PAGE_ID 0 [(\<lparr> ts = 0, is_deleted = False \<rparr>, ''hello'')]"
proof -
  obtain p where p: "Init ex_page = Inr p" "represents p INVALID_PAGE_ID 0 []"
    using Init_represents [of ex_page] by (auto simp: ex_page_def)
  show ?thesis
    using TablePage_insert_appends [OF p(2), of "\<lparr> ts = 0, is_deleted = False \<rparr>" "Tuple_Empty \<lparr> data := ''hello'' \<rparr>"] p(1)
    by (auto simp: in_range_def info_offset_def tup_off_def used_def)
qed

text \<open>Reading slot \<open>i\<close> of a page returns the metadata and the bytes of the \<open>i\<close>-th tuple it
  represents, and a slot past the last tuple throws.\<close>

theorem TablePage_get_spec:
  assumes "represents p nxt ndel tuples"
  shows "TablePage_GetTuple p r = (if slot_num r < length tuples
     then Inr (fst (tuples ! slot_num r), \<lparr> rid = r, data = snd (tuples ! slot_num r) \<rparr>)
     else Inl (Throw ET_INVALID ''Tuple ID out of range''))"
  using GetTuple_represents [OF assms] by (simp add: range_error_def)

theorem TablePage_get_spec_witness:
  "\<exists>p. Init ex_page = Inr p \<and>
     TablePage_GetTuple p \<lparr> page_id = 0, slot_num = 0 \<rparr> = Inl (Throw ET_INVALID ''Tuple ID out of range'')"
proof -
  obtain p where p: "Init ex_page = Inr p" "represents p INVALID_PAGE_ID 0 []"
    using Init_represents [of ex_page] by (auto simp: ex_page_def)
  show ?thesis using TablePage_get_spec [OF p(2), of "\<lparr> page_id = 0, slot_num = 0 \<rparr>"] p(1) by simp
qed





end
