(* ===== verification/Disk.thy ===== *)
theory Disk
  imports TablePage "HOL-Library.AList" "HOL-Library.Multiset"
begin

unbundle bit_operations_syntax

text \<open>
  The disk managers (storage/disk/disk_manager.cpp, storage/disk/disk_manager_memory.cpp): the
  file-backed \<open>DiskManager\<close> with its page directory, free list and log file, the bounded
  \<open>DiskManagerMemory\<close>, and \<open>DiskManagerUnlimitedMemory\<close> with its latency bookkeeping.  Files
  are byte strings; what the operating system does to one call (a failing \<open>stat\<close>, a transfer that
  stops with an error) is an argument of the call.  The latches are not part of the state: every
  operation holds its latch from the first to the last access, so it is one step.

  The locale \<open>page_device\<close> is the contract the managers share with their clients; it is
  interpreted for the file-backed and for the unlimited manager.
\<close>

section \<open>Files\<close>

definition zero_bytes :: "nat \<Rightarrow> buffer" where "zero_bytes n = replicate n (char_of (0 :: nat))"

definition resize_file :: "buffer \<Rightarrow> nat \<Rightarrow> buffer" where
  "resize_file f n = take n f @ zero_bytes (n - length f)"

definition file_write :: "buffer \<Rightarrow> nat \<Rightarrow> buffer \<Rightarrow> buffer" where
  "file_write f off bs = take off f @ zero_bytes (off - length f) @ bs @ drop (off + length bs) f"

definition file_read :: "buffer \<Rightarrow> nat \<Rightarrow> nat \<Rightarrow> buffer" where
  "file_read f off n = take n (drop off f)"

text \<open>The operating system's part in one call: whether \<open>stat\<close> succeeds, and the number of bytes
  after which the transfer fails (if it fails).\<close>

record io =
  stat_ok :: bool
  fails_after :: "nat option"

definition io_ok :: io where "io_ok = \<lparr> stat_ok = True, fails_after = None \<rparr>"

section \<open>DiskManager\<close>

definition DEFAULT_DB_IO_SIZE :: nat where "DEFAULT_DB_IO_SIZE = 16"

text \<open>\<open>buffer_used\<close> and the log buffers are addresses, 0 the null pointer; \<open>flush_log_f\<close> is the
  future (if set), as whether it is ready within ten seconds; \<open>db_bad\<close> and \<open>log_bad\<close> are the
  \<open>badbit\<close> of the streams.\<close>

record DiskManager =
  num_flushes :: int
  num_writes :: int
  num_deletes :: int
  page_capacity :: nat
  log_io :: buffer
  log_bad :: bool
  db_io :: buffer
  db_bad :: bool
  pages :: "(int \<times> nat) list"
  free_slots :: "nat list"
  flush_log :: bool
  flush_log_f :: "bool option"
  buffer_used :: nat

definition GetFileSize :: "io \<Rightarrow> buffer \<Rightarrow> int" where
  "GetFileSize io f = (if stat_ok io then static_cast I32 (int (length f)) else - 1)"

definition open_file :: "buffer option \<Rightarrow> bool \<Rightarrow> buffer option" where
  "open_file existing can_create = (case existing of Some f \<Rightarrow> Some f | None \<Rightarrow> if can_create then Some [] else None)"

definition DiskManager_ctor :: "io \<Rightarrow> buffer option \<Rightarrow> bool \<Rightarrow> buffer option \<Rightarrow> bool \<Rightarrow> DiskManager result" where
  "DiskManager_ctor io log can_create_log db can_create_db =
     (case open_file log can_create_log of None \<Rightarrow> Inl (Throw ET_INVALID ''can't open dblog file'')
      | Some lf \<Rightarrow> (case open_file db can_create_db of None \<Rightarrow> Inl (Throw ET_INVALID ''can't open db file'')
        | Some df \<Rightarrow>
          let df = resize_file df ((DEFAULT_DB_IO_SIZE + 1) * BUSTUB_PAGE_SIZE) in
          assert (nat (GetFileSize io df mod 2 ^ 64) \<ge> DEFAULT_DB_IO_SIZE * BUSTUB_PAGE_SIZE)
            (Inr \<lparr> num_flushes = 0, num_writes = 0, num_deletes = 0, page_capacity = DEFAULT_DB_IO_SIZE,
               log_io = lf, log_bad = False, db_io = df, db_bad = False, pages = [], free_slots = [],
               flush_log = False, flush_log_f = None, buffer_used = 0 \<rparr>)))"

text \<open>\<open>free_slots_.back()\<close> is the last element of the vector.\<close>

definition AllocatePage :: "DiskManager \<Rightarrow> nat \<times> DiskManager" where
  "AllocatePage d = (if free_slots d \<noteq> []
     then (last (free_slots d), d \<lparr> free_slots := butlast (free_slots d) \<rparr>)
     else let d1 = (if length (pages d) + 1 \<ge> page_capacity d
            then d \<lparr> page_capacity := page_capacity d * 2,
                     db_io := resize_file (db_io d) ((page_capacity d * 2 + 1) * BUSTUB_PAGE_SIZE) \<rparr> else d)
          in (length (pages d1) * BUSTUB_PAGE_SIZE, d1))"

definition find_slot :: "DiskManager \<Rightarrow> int \<Rightarrow> nat \<times> DiskManager" where
  "find_slot d pid = (case map_of (pages d) pid of Some offset \<Rightarrow> (offset, d) | None \<Rightarrow> AllocatePage d)"

text \<open>A stream in the bad state transfers nothing; an error sets the bad state.\<close>

definition db_write :: "io \<Rightarrow> DiskManager \<Rightarrow> nat \<Rightarrow> buffer \<Rightarrow> DiskManager" where
  "db_write io d off bs = (if db_bad d then d else case fails_after io of
       None \<Rightarrow> d \<lparr> db_io := file_write (db_io d) off bs \<rparr>
     | Some n \<Rightarrow> d \<lparr> db_io := file_write (db_io d) off (take n bs), db_bad := True \<rparr>)"

definition WritePage :: "io \<Rightarrow> DiskManager \<Rightarrow> int \<Rightarrow> page \<Rightarrow> DiskManager result" where
  "WritePage io d pid page_data = rbind (read_at page_data 0 BUSTUB_PAGE_SIZE) (\<lambda>bs.
     let (offset, d1) = find_slot d pid;
         d2 = db_write io d1 offset bs
     in if db_bad d2 then Inr d2
        else Inr (d2 \<lparr> num_writes := static_cast I32 (num_writes d2 + 1),
                       pages := AList.update pid offset (pages d2) \<rparr>))"

text \<open>The second component is the caller's buffer after the call; the early returns leave it as
  it was.\<close>

definition ReadPage :: "io \<Rightarrow> DiskManager \<Rightarrow> int \<Rightarrow> page \<Rightarrow> (DiskManager \<times> page) result" where
  "ReadPage io d pid page_data =
     (let (offset, d1) = find_slot d pid; file_size = GetFileSize io (db_io d1) in
      if file_size < 0 then Inr (d1, page_data)
      else if offset > nat file_size then Inr (d1, page_data)
      else let d2 = d1 \<lparr> pages := AList.update pid offset (pages d1) \<rparr> in
        if db_bad d2 then Inr (d2, page_data)
        else case fails_after io of
            Some n \<Rightarrow> rbind (write_at page_data 0 (take n (file_read (db_io d2) offset BUSTUB_PAGE_SIZE)))
                        (\<lambda>buf. Inr (d2 \<lparr> db_bad := True \<rparr>, buf))
          | None \<Rightarrow> let bs = file_read (db_io d2) offset BUSTUB_PAGE_SIZE in
              rbind (write_at page_data 0 bs) (\<lambda>buf.
                if length bs < BUSTUB_PAGE_SIZE
                then rbind (write_at buf (length bs) (zero_bytes (BUSTUB_PAGE_SIZE - length bs))) (\<lambda>buf. Inr (d2, buf))
                else Inr (d2, buf)))"

definition DeletePage :: "DiskManager \<Rightarrow> int \<Rightarrow> DiskManager result" where
  "DeletePage d pid = (case map_of (pages d) pid of None \<Rightarrow> Inr d
     | Some offset \<Rightarrow> Inr (d \<lparr> free_slots := free_slots d @ [offset], pages := AList.delete pid (pages d),
                               num_deletes := static_cast I32 (num_deletes d + 1) \<rparr>))"

text \<open>The log buffer is given by its address and its bytes.\<close>

definition WriteLog :: "io \<Rightarrow> DiskManager \<Rightarrow> nat \<Rightarrow> buffer \<Rightarrow> int \<Rightarrow> DiskManager result" where
  "WriteLog io d addr log_data sz = assert (addr \<noteq> buffer_used d)
     (let d = d \<lparr> buffer_used := addr \<rparr> in
      if sz = 0 then Inr d
      else let d = d \<lparr> flush_log := True \<rparr> in
        assert (flush_log_f d \<noteq> Some False)
          (let d = d \<lparr> num_flushes := static_cast I32 (num_flushes d + 1) \<rparr> in
           check Undefined (0 \<le> sz) (rbind (read_at log_data 0 (nat sz)) (\<lambda>bs.
             if log_bad d then Inr d
             else case fails_after io of
               Some n \<Rightarrow> Inr (d \<lparr> log_io := log_io d @ take n bs, log_bad := True \<rparr>)
             | None \<Rightarrow> Inr (d \<lparr> log_io := log_io d @ bs, flush_log := False \<rparr>)))))"

definition ReadLog :: "io \<Rightarrow> DiskManager \<Rightarrow> buffer \<Rightarrow> int \<Rightarrow> int \<Rightarrow> (bool \<times> DiskManager \<times> buffer) result" where
  "ReadLog io d log_data sz offset =
     (if offset \<ge> GetFileSize io (log_io d) then Inr (False, d, log_data)
      else check Undefined (0 \<le> sz)
        (let bs = (if offset < 0 then [] else file_read (log_io d) (nat offset) (nat sz)) in
         if log_bad d then Inr (False, d, log_data)
         else case fails_after io of
            Some n \<Rightarrow> rbind (write_at log_data 0 (take n bs)) (\<lambda>buf. Inr (False, d \<lparr> log_bad := True \<rparr>, buf))
          | None \<Rightarrow> rbind (write_at log_data 0 bs) (\<lambda>buf.
              rbind (write_at buf (length bs) (zero_bytes (nat sz - length bs))) (\<lambda>buf. Inr (True, d, buf)))))"

definition GetDbFileSize :: "io \<Rightarrow> DiskManager \<Rightarrow> nat" where
  "GetDbFileSize io d = (let file_size = GetFileSize io (db_io d) in
     if file_size < 0 then 2 ^ 64 - 1 else nat file_size)"

definition SetFlushLogFuture :: "DiskManager \<Rightarrow> bool option \<Rightarrow> DiskManager" where
  "SetFlushLogFuture d f = d \<lparr> flush_log_f := f \<rparr>"

definition HasFlushLogFuture :: "DiskManager \<Rightarrow> bool" where
  "HasFlushLogFuture d = (flush_log_f d \<noteq> None)"

section \<open>DiskManagerMemory\<close>

text \<open>The bytes a fresh allocation holds are an argument of the constructor.\<close>

record DiskManagerMemory =
  mem_capacity :: nat
  mem_num_writes :: int
  memory :: buffer

definition DiskManagerMemory_ctor :: "nat \<Rightarrow> buffer \<Rightarrow> DiskManagerMemory" where
  "DiskManagerMemory_ctor capacity junk =
     \<lparr> mem_capacity = capacity, mem_num_writes = 0, memory = resize_file junk (capacity * BUSTUB_PAGE_SIZE) \<rparr>"

definition Memory_WritePage :: "DiskManagerMemory \<Rightarrow> int \<Rightarrow> page \<Rightarrow> DiskManagerMemory result" where
  "Memory_WritePage d pid page_data = assert (nat (pid mod 2 ^ 64) < mem_capacity d)
     (rbind (read_at page_data 0 BUSTUB_PAGE_SIZE) (\<lambda>bs.
       rbind (write_at (memory d) (nat (pid mod 2 ^ 64) * BUSTUB_PAGE_SIZE) bs) (\<lambda>m.
         Inr (d \<lparr> mem_num_writes := static_cast I32 (mem_num_writes d + 1), memory := m \<rparr>))))"

definition Memory_ReadPage :: "DiskManagerMemory \<Rightarrow> int \<Rightarrow> page \<Rightarrow> page result" where
  "Memory_ReadPage d pid page_data = check Undefined (0 \<le> pid)
     (rbind (read_at (memory d) (nat pid * BUSTUB_PAGE_SIZE) BUSTUB_PAGE_SIZE) (\<lambda>bs. write_at page_data 0 bs))"

section \<open>DiskManagerUnlimitedMemory\<close>

text \<open>Threads are numbered.\<close>

record DiskManagerUnlimitedMemory =
  um_num_writes :: int
  latency_simulator_enabled :: bool
  recent_access :: "int list"
  access_ptr :: nat
  thread_id :: "nat option"
  um_data :: "page option list"

definition new_ProtectedPage :: page where "new_ProtectedPage = zero_bytes BUSTUB_PAGE_SIZE"

definition DiskManagerUnlimitedMemory_ctor :: DiskManagerUnlimitedMemory where
  "DiskManagerUnlimitedMemory_ctor =
     \<lparr> um_num_writes = 0, latency_simulator_enabled = False, recent_access = [- 1, - 1, - 1, - 1], access_ptr = 0,
       thread_id = None, um_data = replicate (DEFAULT_DB_IO_SIZE + 1) (Some new_ProtectedPage) \<rparr>"

text \<open>\<open>ProcessLatency\<close> returns the time it sleeps, in microseconds.\<close>

fun near_access :: "int \<Rightarrow> int list \<Rightarrow> bool" where
  "near_access pid [] = False"
| "near_access pid (r # rs) =
     (if r AND NOT 3 = pid AND NOT 3 then True
      else if pid \<ge> r \<and> pid \<le> static_cast I32 (r + 3) then True
      else near_access pid rs)"

definition ProcessLatency :: "DiskManagerUnlimitedMemory \<Rightarrow> int \<Rightarrow> nat" where
  "ProcessLatency d pid = (if latency_simulator_enabled d
     then (if near_access pid (recent_access d) then 100 else 1000) else 0)"

definition PostProcessLatency :: "DiskManagerUnlimitedMemory \<Rightarrow> int \<Rightarrow> DiskManagerUnlimitedMemory" where
  "PostProcessLatency d pid = (if latency_simulator_enabled d
     then d \<lparr> recent_access := (recent_access d)[access_ptr d := pid],
              access_ptr := (access_ptr d + 1) mod length (recent_access d) \<rparr> else d)"

text \<open>The part the read and the write share: remember the thread, grow the vector, allocate the
  page.  The vector grows to \<open>page_id + 1\<close>, an \<open>int\<close> that must not overflow.\<close>

definition touch :: "nat \<Rightarrow> DiskManagerUnlimitedMemory \<Rightarrow> nat \<Rightarrow> DiskManagerUnlimitedMemory" where
  "touch tid d i =
     (let d = d \<lparr> thread_id := (case thread_id d of None \<Rightarrow> Some tid | Some t \<Rightarrow> Some t) \<rparr>;
          d = (if i \<ge> length (um_data d) then d \<lparr> um_data := um_data d @ replicate (i + 1 - length (um_data d)) None \<rparr> else d)
      in if um_data d ! i = None then d \<lparr> um_data := (um_data d)[i := Some new_ProtectedPage] \<rparr> else d)"

definition Unlimited_WritePage :: "nat \<Rightarrow> DiskManagerUnlimitedMemory \<Rightarrow> int \<Rightarrow> page \<Rightarrow> DiskManagerUnlimitedMemory result" where
  "Unlimited_WritePage tid d pid page_data =
     check (Terminate ''read invalid page'') (0 \<le> pid) (check Undefined (nat pid < length (um_data d) \<or> pid + 1 \<le> cmax I32)
       (let d1 = touch tid d (nat pid) in
        rbind (read_at page_data 0 BUSTUB_PAGE_SIZE) (\<lambda>bs.
          Inr (PostProcessLatency (d1 \<lparr> um_data := (um_data d1)[nat pid := Some bs],
                 um_num_writes := static_cast I32 (um_num_writes d1 + 1) \<rparr>) pid))))"

definition Unlimited_ReadPage :: "nat \<Rightarrow> DiskManagerUnlimitedMemory \<Rightarrow> int \<Rightarrow> page \<Rightarrow> (DiskManagerUnlimitedMemory \<times> page) result" where
  "Unlimited_ReadPage tid d pid page_data =
     check (Terminate ''read invalid page'') (0 \<le> pid) (check Undefined (nat pid < length (um_data d) \<or> pid + 1 \<le> cmax I32)
       (let d1 = touch tid d (nat pid) in
        case um_data d1 ! nat pid of None \<Rightarrow> Inl Undefined
        | Some p \<Rightarrow> rbind (write_at page_data 0 p) (\<lambda>buf. Inr (PostProcessLatency d1 pid, buf))))"

definition Unlimited_DeletePage :: "DiskManagerUnlimitedMemory \<Rightarrow> int \<Rightarrow> DiskManagerUnlimitedMemory result" where
  "Unlimited_DeletePage d pid = Inr d"

definition EnableLatencySimulator :: "DiskManagerUnlimitedMemory \<Rightarrow> bool \<Rightarrow> DiskManagerUnlimitedMemory" where
  "EnableLatencySimulator d enabled = d \<lparr> latency_simulator_enabled := enabled \<rparr>"

definition GetLastReadThreadAndClear :: "DiskManagerUnlimitedMemory \<Rightarrow> nat option \<times> DiskManagerUnlimitedMemory" where
  "GetLastReadThreadAndClear d = (thread_id d, d \<lparr> thread_id := None \<rparr>)"

section \<open>The contract of a page device\<close>

datatype device_op = Wr int page | Rd int | Del int

fun op_id :: "device_op \<Rightarrow> int" where
  "op_id (Wr i p) = i" | "op_id (Rd i) = i" | "op_id (Del i) = i"

fun op_ok :: "device_op \<Rightarrow> bool" where
  "op_ok (Wr i p) = (length p = BUSTUB_PAGE_SIZE)" | "op_ok (Rd i) = True" | "op_ok (Del i) = True"

text \<open>A sequence of calls on a device, collecting what the reads return.  The reads use a caller's
  buffer \<open>buf\<close>.\<close>

fun device_run :: "('d \<Rightarrow> int \<Rightarrow> page \<Rightarrow> 'd result) \<Rightarrow> ('d \<Rightarrow> int \<Rightarrow> page \<Rightarrow> ('d \<times> page) result) \<Rightarrow>
    ('d \<Rightarrow> int \<Rightarrow> 'd result) \<Rightarrow> page \<Rightarrow> 'd \<Rightarrow> device_op list \<Rightarrow> ('d \<times> page list) result" where
  "device_run wr rd del buf d [] = Inr (d, [])"
| "device_run wr rd del buf d (Wr i p # ops) = rbind (wr d i p) (\<lambda>d. device_run wr rd del buf d ops)"
| "device_run wr rd del buf d (Rd i # ops) = rbind (rd d i buf) (\<lambda>(d, p).
     rbind (device_run wr rd del buf d ops) (\<lambda>(d, ps). Inr (d, p # ps)))"
| "device_run wr rd del buf d (Del i # ops) = rbind (del d i) (\<lambda>d. device_run wr rd del buf d ops)"

text \<open>The specification: a map from page ids to pages.  A read of a page the map has returns it; a
  read of another page makes up its content and remembers it; a deletion may forget the page.\<close>

fun conforms :: "(int \<rightharpoonup> page) \<Rightarrow> device_op list \<Rightarrow> page list \<Rightarrow> (int \<rightharpoonup> page) \<Rightarrow> bool" where
  "conforms m [] outs m' = (outs = [] \<and> m' = m)"
| "conforms m (Wr i p # ops) outs m' = conforms (m(i \<mapsto> p)) ops outs m'"
| "conforms m (Rd i # ops) outs m' = (case outs of [] \<Rightarrow> False
     | q # outs' \<Rightarrow> (m i = None \<or> m i = Some q) \<and> conforms (m(i \<mapsto> q)) ops outs' m')"
| "conforms m (Del i # ops) outs m' = (conforms m ops outs m' \<or> conforms (m(i := None)) ops outs m')"

locale page_device =
  fixes inv :: "'d \<Rightarrow> bool"
    and contents :: "'d \<Rightarrow> int \<rightharpoonup> page"
    and room :: "int set \<Rightarrow> bool"
    and wr :: "'d \<Rightarrow> int \<Rightarrow> page \<Rightarrow> 'd result"
    and rd :: "'d \<Rightarrow> int \<Rightarrow> page \<Rightarrow> ('d \<times> page) result"
    and del :: "'d \<Rightarrow> int \<Rightarrow> 'd result"
  assumes wr_ok: "\<lbrakk> room U; inv d; dom (contents d) \<subseteq> U; i \<in> U; length p = BUSTUB_PAGE_SIZE \<rbrakk> \<Longrightarrow>
      \<exists>d'. wr d i p = Inr d' \<and> inv d' \<and> contents d' = (contents d)(i \<mapsto> p)"
    and rd_ok: "\<lbrakk> room U; inv d; dom (contents d) \<subseteq> U; i \<in> U; length buf = BUSTUB_PAGE_SIZE \<rbrakk> \<Longrightarrow>
      \<exists>d' q. rd d i buf = Inr (d', q) \<and> inv d' \<and> length q = BUSTUB_PAGE_SIZE \<and>
        (contents d i = None \<or> contents d i = Some q) \<and> contents d' = (contents d)(i \<mapsto> q)"
    and del_ok: "inv d \<Longrightarrow>
      \<exists>d'. del d i = Inr d' \<and> inv d' \<and> (contents d' = contents d \<or> contents d' = (contents d)(i := None))"
begin

lemma run_conforms:
  assumes "room U" "inv d" "dom (contents d) \<subseteq> U" "op_id ` set ops \<subseteq> U" "length buf = BUSTUB_PAGE_SIZE"
    and "list_all op_ok ops"
  shows "\<exists>d' outs. device_run wr rd del buf d ops = Inr (d', outs) \<and> inv d' \<and>
           conforms (contents d) ops outs (contents d')"
  using assms(2-)
proof (induction ops arbitrary: d)
  case Nil
  then show ?case by simp
next
  case (Cons x ops)
  show ?case
  proof (cases x)
    case (Wr i p)
    obtain d1 where d1: "wr d i p = Inr d1" "inv d1" "contents d1 = (contents d)(i \<mapsto> p)"
      using wr_ok [OF assms(1) Cons.prems(1,2), of i p] Cons.prems Wr by auto
    have "dom (contents d1) \<subseteq> U" using d1 Cons.prems Wr by auto
    then obtain d' outs where d': "device_run wr rd del buf d1 ops = Inr (d', outs)" "inv d'"
        "conforms (contents d1) ops outs (contents d')"
      using Cons.IH [OF d1(2)] Cons.prems by auto
    then show ?thesis using Wr d1 by simp
  next
    case (Rd i)
    obtain d1 q where d1: "rd d i buf = Inr (d1, q)" "inv d1" "contents d i = None \<or> contents d i = Some q"
        "contents d1 = (contents d)(i \<mapsto> q)"
      using rd_ok [OF assms(1) Cons.prems(1,2), of i buf] Cons.prems Rd by auto
    have "dom (contents d1) \<subseteq> U" using d1 Cons.prems Rd by auto
    then obtain d' outs where d': "device_run wr rd del buf d1 ops = Inr (d', outs)" "inv d'"
        "conforms (contents d1) ops outs (contents d')"
      using Cons.IH [OF d1(2)] Cons.prems by auto
    then show ?thesis using Rd d1 by (intro exI [of _ d'] exI [of _ "q # outs"]) simp
  next
    case (Del i)
    obtain d1 where d1: "del d i = Inr d1" "inv d1"
        "contents d1 = contents d \<or> contents d1 = (contents d)(i := None)"
      using del_ok [OF Cons.prems(1), of i] by auto
    have "dom (contents d1) \<subseteq> U" using d1 Cons.prems Del by (auto split: if_splits)
    then obtain d' outs where d': "device_run wr rd del buf d1 ops = Inr (d', outs)" "inv d'"
        "conforms (contents d1) ops outs (contents d')"
      using Cons.IH [OF d1(2)] Cons.prems by auto
    then show ?thesis using Del d1 by auto
  qed
qed

text \<open>Whatever happens to other pages in between, a read returns what was last written.\<close>

lemma read_last_write:
  assumes "room U" "inv d" "dom (contents d) \<subseteq> U" "i \<in> U" "length p = BUSTUB_PAGE_SIZE" "op_id ` set ops \<subseteq> U - {i}"
    "length buf = BUSTUB_PAGE_SIZE" "list_all op_ok ops"
  shows "\<exists>d' outs. device_run wr rd del buf d (Wr i p # ops @ [Rd i]) = Inr (d', outs) \<and> inv d' \<and> last outs = p"
proof -
  have keep: "conforms m (ops @ [Rd i]) outs m' \<Longrightarrow> i \<notin> op_id ` set ops \<Longrightarrow> m i = Some p \<Longrightarrow> outs \<noteq> [] \<and> last outs = p"
    for m outs m'
    by (induction m ops outs m' rule: conforms.induct) (auto split: list.splits)
  have "op_id ` set ops \<subseteq> U" using assms(6) by auto
  then obtain d' outs where r: "device_run wr rd del buf d (Wr i p # ops @ [Rd i]) = Inr (d', outs)" "inv d'"
      "conforms (contents d) (Wr i p # ops @ [Rd i]) outs (contents d')"
    using run_conforms [OF assms(1-3), of "Wr i p # ops @ [Rd i]" buf] assms by auto
  with keep [of "(contents d)(i \<mapsto> p)" outs] assms(6) show ?thesis by auto
qed

end

section \<open>The file-backed manager is a page device\<close>

text \<open>The invariant of the directory: every slot below the high-water mark is either mapped or
  free, exactly once, and the file has the room the capacity promises.  The capacity is one the
  doubling reaches while the size of the file still fits the \<open>int\<close> of \<open>GetFileSize\<close>.\<close>

definition slots :: "DiskManager \<Rightarrow> nat list" where
  "slots d = map snd (pages d) @ free_slots d"

definition slots_ok :: "nat list \<Rightarrow> bool" where
  "slots_ok xs \<longleftrightarrow> distinct xs \<and> set xs = (\<lambda>i. i * BUSTUB_PAGE_SIZE) ` {..< length xs}"

definition disk_inv :: "DiskManager \<Rightarrow> bool" where
  "disk_inv d \<longleftrightarrow> \<not> db_bad d \<and> distinct (map fst (pages d)) \<and> slots_ok (slots d) \<and>
     length (slots d) < page_capacity d \<and> length (db_io d) = (page_capacity d + 1) * BUSTUB_PAGE_SIZE \<and>
     (\<exists>k\<le>13. page_capacity d = DEFAULT_DB_IO_SIZE * 2 ^ k)"

definition disk_contents :: "DiskManager \<Rightarrow> int \<rightharpoonup> page" where
  "disk_contents d i = map_option (\<lambda>off. file_read (db_io d) off BUSTUB_PAGE_SIZE) (map_of (pages d) i)"

definition disk_room :: "int set \<Rightarrow> bool" where
  "disk_room U \<longleftrightarrow> finite U \<and> card U < 131072"

lemma slot_mem: "map_of (pages d) i = Some off \<Longrightarrow> off \<in> set (slots d)"
  by (auto simp: slots_def dest: map_of_SomeD intro: rev_image_eqI)

lemma length_zero_bytes [simp]: "length (zero_bytes n) = n"
  by (simp add: zero_bytes_def)

lemma zero_bytes_0 [simp]: "zero_bytes 0 = []"
  by (simp add: zero_bytes_def)

lemma length_resize_file [simp]: "length (resize_file f n) = n"
  by (simp add: resize_file_def)

lemma file_read_resize: "off + n \<le> length f \<Longrightarrow> length f \<le> m \<Longrightarrow> file_read (resize_file f m) off n = file_read f off n"
  by (simp add: file_read_def resize_file_def)

lemma length_file_write [simp]: "off + length bs \<le> length f \<Longrightarrow> length (file_write f off bs) = length f"
  by (simp add: file_write_def)

lemma file_read_write_same [simp]: "off + length bs \<le> length f \<Longrightarrow> n = length bs \<Longrightarrow> file_read (file_write f off bs) off n = bs"
  by (simp add: file_read_def file_write_def)

lemma file_read_write_disjoint:
  assumes "off + length bs \<le> length f" "o' + n \<le> off \<or> off + length bs \<le> o'"
  shows "file_read (file_write f off bs) o' n = file_read f o' n"
  using assms by (auto simp: file_read_def file_write_def zero_bytes_def intro!: nth_equalityI simp: nth_append)

lemma slots_ok_mset: "mset xs = mset ys \<Longrightarrow> slots_ok xs = slots_ok ys"
  using mset_eq_length [of xs ys] mset_eq_setD [of xs ys] mset_eq_imp_distinct_iff [of xs ys]
  by (simp add: slots_ok_def)

lemma slots_ok_snoc: "slots_ok xs \<Longrightarrow> slots_ok (xs @ [length xs * BUSTUB_PAGE_SIZE])"
  by (auto simp: slots_ok_def lessThan_Suc)

lemma slots_ok_less: "slots_ok xs \<Longrightarrow> off \<in> set xs \<Longrightarrow> off + BUSTUB_PAGE_SIZE \<le> length xs * BUSTUB_PAGE_SIZE"
  by (auto simp: slots_ok_def)

lemma slots_ok_apart:
  "slots_ok xs \<Longrightarrow> off \<in> set xs \<Longrightarrow> off' \<in> set xs \<Longrightarrow> off \<noteq> off' \<Longrightarrow>
     off + BUSTUB_PAGE_SIZE \<le> off' \<or> off' + BUSTUB_PAGE_SIZE \<le> off"
  by (auto simp: slots_ok_def)

lemma AList_update_new: "map_of xs k = None \<Longrightarrow> AList.update k v xs = xs @ [(k, v)]"
  by (induction xs) (auto split: if_splits)

lemma AList_delete_mset:
  "distinct (map fst xs) \<Longrightarrow> map_of xs k = Some v \<Longrightarrow>
     mset (map snd xs) = add_mset v (mset (map snd (AList.delete k xs)))"
proof (induction xs)
  case (Cons x xs)
  show ?case
  proof (cases "fst x = k")
    case True
    then have "k \<notin> fst ` set xs" using Cons.prems by auto
    then show ?thesis using True Cons.prems by (auto simp: delete_id)
  next
    case False
    then show ?thesis using Cons by auto
  qed
qed simp

text \<open>What allocation gives: a slot inside the file that no page has, in a state with the same
  pages.\<close>

lemma AllocatePage_ok:
  assumes inv: "disk_inv d" and new: "map_of (pages d) i = None" and room: "length (pages d) + 1 < 131072"
  obtains off d1 where "AllocatePage d = (off, d1)" "disk_contents d1 = disk_contents d" "pages d1 = pages d" 
    "disk_inv (d1 \<lparr> pages := AList.update i off (pages d1) \<rparr>)"
proof (cases "free_slots d = []")
  case False
  let ?d1 = "d \<lparr> free_slots := butlast (free_slots d) \<rparr>"
  let ?d2 = "?d1 \<lparr> pages := AList.update i (last (free_slots d)) (pages ?d1) \<rparr>"
  have fs: "free_slots d = butlast (free_slots d) @ [last (free_slots d)]" using False by simp
  have "mset (slots ?d2) = mset (slots d)"
    by (subst (2) slots_def, subst fs) (simp add: slots_def AList_update_new [OF new])
  from slots_ok_mset [OF this] mset_eq_length [OF this]
  have "slots_ok (slots ?d2)" "length (slots ?d2) = length (slots d)"
    using inv by (simp_all add: disk_inv_def)
  then have "disk_inv ?d2" using inv by (simp add: disk_inv_def distinct_update)
  then show ?thesis using False by (intro that [of "last (free_slots d)" ?d1]) (auto simp: AllocatePage_def disk_contents_def)
next
  case True
  let ?full = "length (pages d) + 1 \<ge> page_capacity d"
  let ?d1 = "if ?full then d \<lparr> page_capacity := page_capacity d * 2,
       db_io := resize_file (db_io d) ((page_capacity d * 2 + 1) * BUSTUB_PAGE_SIZE) \<rparr> else d"
  let ?off = "length (pages d) * BUSTUB_PAGE_SIZE"
  let ?d2 = "?d1 \<lparr> pages := AList.update i ?off (pages ?d1) \<rparr>"
  have sl: "slots d = map snd (pages d)" using True by (simp add: slots_def)
  obtain k where k: "k \<le> 13" "page_capacity d = DEFAULT_DB_IO_SIZE * 2 ^ k" using inv by (auto simp: disk_inv_def)
  have k': "k \<noteq> 13" if ?full using k room that by (auto simp: DEFAULT_DB_IO_SIZE_def)
  have cap: "\<exists>k\<le>13. page_capacity ?d1 = DEFAULT_DB_IO_SIZE * 2 ^ k"
    using k k' by (cases ?full) (auto intro: exI [of _ "Suc k"] exI [of _ k])
  have "slots ?d2 = slots d @ [length (slots d) * BUSTUB_PAGE_SIZE]"
    using True new by (simp add: slots_def AList_update_new)
  then have "slots_ok (slots ?d2)" "length (slots ?d2) < page_capacity ?d2"
    using slots_ok_snoc [of "slots d"] inv sl by (auto simp: disk_inv_def)
  moreover have "length (db_io ?d2) = (page_capacity ?d2 + 1) * BUSTUB_PAGE_SIZE" "\<not> db_bad ?d2"
    using inv by (auto simp: disk_inv_def)
  moreover have "distinct (map fst (pages ?d2))" using inv by (auto simp: disk_inv_def distinct_update)
  ultimately have "disk_inv ?d2" using cap unfolding disk_inv_def by simp
  moreover have "disk_contents ?d1 = disk_contents d"
  proof
    fix j
    have "file_read (db_io ?d1) off BUSTUB_PAGE_SIZE = file_read (db_io d) off BUSTUB_PAGE_SIZE" if "off \<in> set (slots d)" for off
      using slots_ok_less [of "slots d" off] that inv by (auto simp: disk_inv_def file_read_resize)
    then show "disk_contents ?d1 j = disk_contents d j"
      using slot_mem [of d j] by (cases "map_of (pages d) j") (auto simp: disk_contents_def)
  qed
  ultimately show ?thesis using True
    by (intro that [of ?off ?d1]) (auto simp: AllocatePage_def Let_def)
qed

lemma find_slot_ok:
  assumes inv: "disk_inv d" and room: "map_of (pages d) i = None \<longrightarrow> length (pages d) + 1 < 131072"
  obtains off d1 where "find_slot d i = (off, d1)" "disk_contents d1 = disk_contents d" "pages d1 = pages d" 
    "disk_inv (d1 \<lparr> pages := AList.update i off (pages d1) \<rparr>)"
proof (cases "map_of (pages d) i")
  case None
  with AllocatePage_ok [OF inv None] room that show ?thesis by (auto simp: find_slot_def)
next
  case (Some off)
  then have "AList.update i off (pages d) = pages d" by (rule update_triv)
  with Some inv show ?thesis by (intro that [of off d]) (auto simp: find_slot_def)
qed

text \<open>Writing a page in its slot.\<close>

lemma disk_contents_write:
  assumes inv: "disk_inv d" and off: "map_of (pages d) i = Some off" and len: "length p = BUSTUB_PAGE_SIZE"
  shows "disk_contents (d \<lparr> db_io := file_write (db_io d) off p \<rparr>) = (disk_contents d)(i \<mapsto> p)"
    "disk_inv (d \<lparr> db_io := file_write (db_io d) off p \<rparr>)"
proof -
  have ok: "slots_ok (slots d)" and mem: "off \<in> set (slots d)"
    using inv off by (auto simp: disk_inv_def slot_mem)
  have fit: "off + BUSTUB_PAGE_SIZE \<le> length (db_io d)"
    using slots_ok_less [OF ok mem] inv by (auto simp: disk_inv_def)
  then show "disk_inv (d \<lparr> db_io := file_write (db_io d) off p \<rparr>)"
    using inv len by (simp add: disk_inv_def slots_def)
  have other: "file_read (file_write (db_io d) off p) off' BUSTUB_PAGE_SIZE = file_read (db_io d) off' BUSTUB_PAGE_SIZE"
    if "map_of (pages d) j = Some off'" "j \<noteq> i" for j off'
  proof -
    have "off' \<in> set (slots d)" using that(1) by (rule slot_mem)
    moreover have "off' \<noteq> off"
    proof
      assume eq: "off' = off"
      have "inj_on snd (set (pages d))" using inv by (simp add: disk_inv_def slots_ok_def slots_def distinct_map)
      from inj_onD [OF this, of "(j, off)" "(i, off)"] that off eq show False by (auto dest: map_of_SomeD)
    qed
    ultimately show ?thesis using slots_ok_apart [OF ok mem] fit len by (intro file_read_write_disjoint) auto
  qed
  show "disk_contents (d \<lparr> db_io := file_write (db_io d) off p \<rparr>) = (disk_contents d)(i \<mapsto> p)"
  proof
    fix j
    show "disk_contents (d \<lparr> db_io := file_write (db_io d) off p \<rparr>) j = ((disk_contents d)(i \<mapsto> p)) j"
      using off fit len other [of j] by (cases "j = i"; cases "map_of (pages d) j") (simp_all add: disk_contents_def)
  qed
qed

lemma card_pages: "disk_inv d \<Longrightarrow> finite U \<Longrightarrow> dom (disk_contents d) \<subseteq> U \<Longrightarrow> length (pages d) \<le> card U"
proof -
  assume a: "disk_inv d" "finite U" "dom (disk_contents d) \<subseteq> U"
  have "dom (disk_contents d) = set (map fst (pages d))"
    by (simp add: disk_contents_def dom_def flip: dom_map_of_conv_image_fst)
  then have "card (set (map fst (pages d))) \<le> card U" using a by (metis card_mono)
  then show ?thesis using a(1) by (simp add: disk_inv_def distinct_card del: set_map)
qed

lemma disk_room_slot:
  assumes "disk_room U" "disk_inv d" "dom (disk_contents d) \<subseteq> U" "i \<in> U"
  shows "map_of (pages d) i = None \<longrightarrow> length (pages d) + 1 < 131072"
proof
  assume "map_of (pages d) i = None"
  then have "dom (disk_contents d) \<subseteq> U - {i}" using assms(3) by (auto simp: disk_contents_def)
  from card_pages [OF assms(2) _ this] show "length (pages d) + 1 < 131072"
    using assms(1,4) card_gt_0_iff [of U] by (auto simp: disk_room_def)
qed

lemma WritePage_contents:
  assumes "disk_room U" "disk_inv d" "dom (disk_contents d) \<subseteq> U" "i \<in> U" "length p = BUSTUB_PAGE_SIZE"
  shows "\<exists>d'. WritePage io_ok d i p = Inr d' \<and> disk_inv d' \<and> disk_contents d' = (disk_contents d)(i \<mapsto> p)"
proof -
  obtain off d1 where s: "find_slot d i = (off, d1)" "disk_contents d1 = disk_contents d" "pages d1 = pages d"
      "disk_inv (d1 \<lparr> pages := AList.update i off (pages d1) \<rparr>)" (is "disk_inv ?d2")
    by (rule find_slot_ok [OF assms(2) disk_room_slot [OF assms(1-4)]])
  have i: "map_of (pages ?d2) i = Some off" by (simp add: update_conv')
  let ?d3 = "?d2 \<lparr> db_io := file_write (db_io ?d2) off p \<rparr>"
  note w = disk_contents_write [OF s(4) i assms(5)]
  have "WritePage io_ok d i p = Inr (?d3 \<lparr> num_writes := static_cast I32 (num_writes d1 + 1) \<rparr>)"
    using s assms(5) by (simp add: WritePage_def read_at_def db_write_def io_ok_def disk_inv_def)
  moreover have "disk_contents ?d2 j = disk_contents d j" if "j \<noteq> i" for j
    using that s(2) by (simp add: disk_contents_def fun_eq_iff update_conv')
  ultimately show ?thesis using w
    by (auto simp: disk_inv_def slots_def disk_contents_def fun_eq_iff)
qed

lemma ReadPage_contents:
  assumes "disk_room U" "disk_inv d" "dom (disk_contents d) \<subseteq> U" "i \<in> U" "length buf = BUSTUB_PAGE_SIZE"
  shows "\<exists>d' q. ReadPage io_ok d i buf = Inr (d', q) \<and> disk_inv d' \<and> length q = BUSTUB_PAGE_SIZE \<and>
    (disk_contents d i = None \<or> disk_contents d i = Some q) \<and> disk_contents d' = (disk_contents d)(i \<mapsto> q)"
proof -
  obtain off d1 where s: "find_slot d i = (off, d1)" "disk_contents d1 = disk_contents d" "pages d1 = pages d"
      "disk_inv (d1 \<lparr> pages := AList.update i off (pages d1) \<rparr>)" (is "disk_inv ?d2")
    by (rule find_slot_ok [OF assms(2) disk_room_slot [OF assms(1-4)]])
  have i: "map_of (pages ?d2) i = Some off" by (simp add: update_conv')
  then have mem: "off \<in> set (slots ?d2)" by (rule slot_mem)
  have fit: "off + BUSTUB_PAGE_SIZE \<le> length (db_io ?d2)"
    using slots_ok_less [OF _ mem] s(4) by (auto simp: disk_inv_def)
  obtain k where k: "k \<le> 13" "page_capacity ?d2 = DEFAULT_DB_IO_SIZE * 2 ^ k" using s(4) by (auto simp: disk_inv_def)
  have "(2 :: nat) ^ k \<le> 2 ^ 13" using k(1) by (rule power_increasing) simp
  then have "length (db_io ?d2) \<le> 1073750016" using k s(4) by (simp add: disk_inv_def DEFAULT_DB_IO_SIZE_def)
  then have size: "GetFileSize io_ok (db_io d1) = int (length (db_io d1))"
    by (simp add: GetFileSize_def io_ok_def static_cast_id in_range_def)
  let ?q = "file_read (db_io d1) off BUSTUB_PAGE_SIZE"
  have len: "length ?q = BUSTUB_PAGE_SIZE" using fit by (simp add: file_read_def)
  have "nat (int (length (db_io d1))) \<ge> off" "\<not> db_bad d1" using fit s(4) by (simp_all add: disk_inv_def)
  then have "ReadPage io_ok d i buf = Inr (?d2, ?q)"
    using s(1) size len assms(5) by (simp add: ReadPage_def write_at_def io_ok_def [THEN arg_cong [where f = fails_after]])
  moreover have "disk_contents d i = None \<or> disk_contents d i = Some ?q"
  proof (cases "map_of (pages d) i")
    case (Some off')
    then show ?thesis using s(1) by (simp add: find_slot_def disk_contents_def)
  qed (simp add: disk_contents_def)
  moreover have "disk_contents ?d2 = (disk_contents d)(i \<mapsto> ?q)"
  proof -
    have "disk_contents ?d2 j = disk_contents d1 j" if "j \<noteq> i" for j
      using that by (simp add: disk_contents_def update_conv')
    then show ?thesis using s(2) i by (auto simp: disk_contents_def [of ?d2])
  qed
  ultimately show ?thesis using s(4) len by auto
qed

lemma DeletePage_contents:
  assumes "disk_inv d"
  shows "\<exists>d'. DeletePage d i = Inr d' \<and> disk_inv d' \<and> disk_contents d' = (disk_contents d)(i := None)"
proof (cases "map_of (pages d) i")
  case None
  then show ?thesis using assms by (simp add: DeletePage_def disk_contents_def fun_upd_idem)
next
  case (Some off)
  let ?d1 = "d \<lparr> free_slots := free_slots d @ [off], pages := AList.delete i (pages d),
     num_deletes := static_cast I32 (num_deletes d + 1) \<rparr>"
  have "distinct (map fst (pages d))" using assms by (simp add: disk_inv_def)
  then have "mset (map snd (pages d)) = add_mset off (mset (map snd (AList.delete i (pages d))))"
    using Some by (rule AList_delete_mset)
  then have m: "mset (slots ?d1) = mset (slots d)" by (simp add: slots_def)
  from slots_ok_mset [OF m] mset_eq_length [OF m] have "disk_inv ?d1"
    using assms by (simp add: disk_inv_def distinct_delete)
  moreover have "disk_contents ?d1 = (disk_contents d)(i := None)"
    by (auto simp: disk_contents_def delete_conv')
  ultimately show ?thesis using Some by (simp add: DeletePage_def)
qed

interpretation file_disk: page_device disk_inv disk_contents disk_room "WritePage io_ok" "ReadPage io_ok" DeletePage
proof
  show "\<exists>d'. DeletePage d i = Inr d' \<and> disk_inv d' \<and> (disk_contents d' = disk_contents d \<or> disk_contents d' = (disk_contents d)(i := None))"
    if "disk_inv d" for d i
    using DeletePage_contents [OF that, of i] by blast
qed (fact WritePage_contents, fact ReadPage_contents)

section \<open>The unlimited memory manager is a page device\<close>

definition um_inv :: "DiskManagerUnlimitedMemory \<Rightarrow> bool" where
  "um_inv d \<longleftrightarrow> (\<forall>p. Some p \<in> set (um_data d) \<longrightarrow> length p = BUSTUB_PAGE_SIZE) \<and>
     length (recent_access d) = 4 \<and> access_ptr d < 4"

definition um_contents :: "DiskManagerUnlimitedMemory \<Rightarrow> int \<rightharpoonup> page" where
  "um_contents d i = (if 0 \<le> i \<and> nat i < length (um_data d) then um_data d ! nat i else None)"

definition um_room :: "int set \<Rightarrow> bool" where
  "um_room U \<longleftrightarrow> (\<forall>i \<in> U. 0 \<le> i \<and> i < cmax I32)"

lemma length_new_page [simp]: "length new_ProtectedPage = BUSTUB_PAGE_SIZE"
  by (simp add: new_ProtectedPage_def)

lemma PostProcessLatency_data [simp]: "um_data (PostProcessLatency d i) = um_data d"
  by (simp add: PostProcessLatency_def)

lemma PostProcessLatency_contents [simp]: "um_contents (PostProcessLatency d i) = um_contents d"
  by (simp add: um_contents_def fun_eq_iff)

lemma um_inv_PostProcessLatency [simp]: "um_inv d \<Longrightarrow> um_inv (PostProcessLatency d i)"
  by (simp add: um_inv_def PostProcessLatency_def)

lemma touch_ok:
  assumes "um_inv d" "0 \<le> i"
  obtains p where "um_inv (touch tid d (nat i))" "um_contents d i = None \<or> um_contents d i = Some p"
    "length p = BUSTUB_PAGE_SIZE" "um_contents (touch tid d (nat i)) = (um_contents d)(i \<mapsto> p)"
    "nat i < length (um_data (touch tid d (nat i)))" "um_data (touch tid d (nat i)) ! nat i = Some p"
proof -
  define ds where "ds = (if nat i \<ge> length (um_data d)
    then um_data d @ replicate (nat i + 1 - length (um_data d)) None else um_data d)"
  let ?d = "touch tid d (nat i)"
  define p where "p = (case ds ! nat i of None \<Rightarrow> new_ProtectedPage | Some q \<Rightarrow> q)"
  have n: "nat i < length ds" by (auto simp: ds_def)
  have upd: "ds[nat i := Some p] = (if ds ! nat i = None then ds[nat i := Some new_ProtectedPage] else ds)"
    by (auto simp: p_def) (metis list_update_id)
  have D: "um_data ?d = ds[nat i := Some p]" unfolding upd by (simp add: touch_def Let_def ds_def)
  have R: "recent_access ?d = recent_access d" "access_ptr ?d = access_ptr d" by (simp_all add: touch_def Let_def)
  have old: "um_contents d j = (if 0 \<le> j \<and> nat j < length ds then ds ! nat j else None)" for j
    by (auto simp: um_contents_def ds_def nth_append)
  have sub: "Some q \<in> set ds \<Longrightarrow> length q = BUSTUB_PAGE_SIZE" for q
    using assms(1) by (auto simp: um_inv_def ds_def split: if_splits)
  have len: "length p = BUSTUB_PAGE_SIZE"
    using sub nth_mem [OF n] by (auto simp: p_def split: option.splits)
  show ?thesis
  proof (rule that [of p])
    have "Some q \<in> set (um_data ?d) \<Longrightarrow> length q = BUSTUB_PAGE_SIZE" for q
      using sub len set_update_subset_insert [of ds "nat i" "Some p"] unfolding D by auto
    then show "um_inv ?d" using assms(1) R by (simp add: um_inv_def)
    show "um_contents d i = None \<or> um_contents d i = Some p"
      using n assms(2) unfolding old by (auto simp: p_def split: option.splits)
    show "um_contents ?d = (um_contents d)(i \<mapsto> p)"
      using n assms(2) by (auto simp: fun_eq_iff old um_contents_def [of ?d] D nth_list_update eq_nat_nat_iff)
    show "nat i < length (um_data ?d)" "um_data ?d ! nat i = Some p" using n by (auto simp: D)
  qed (fact len)
qed

interpretation memory_disk: page_device um_inv um_contents um_room "Unlimited_WritePage tid" "Unlimited_ReadPage tid"
  Unlimited_DeletePage for tid
proof
  fix U d i and p :: page assume U: "um_room U" "i \<in> U" and d: "um_inv d" and p: "length p = BUSTUB_PAGE_SIZE"
  have i: "0 \<le> i" "i + 1 \<le> cmax I32" using U by (auto simp: um_room_def)
  obtain q where t: "um_inv (touch tid d (nat i))" "um_contents (touch tid d (nat i)) = (um_contents d)(i \<mapsto> q)"
      "nat i < length (um_data (touch tid d (nat i)))"
    by (rule touch_ok [OF d i(1)])
  let ?d = "touch tid d (nat i)"
  let ?d1 = "?d \<lparr> um_data := (um_data ?d)[nat i := Some p], um_num_writes := static_cast I32 (um_num_writes ?d + 1) \<rparr>"
  have "Unlimited_WritePage tid d i p = Inr (PostProcessLatency ?d1 i)"
    using i p by (simp add: Unlimited_WritePage_def read_at_def Let_def)
  moreover have "um_contents (PostProcessLatency ?d1 i) = (um_contents ?d)(i \<mapsto> p)"
    using i(1) t(3) by (auto simp: um_contents_def fun_eq_iff nth_list_update eq_nat_nat_iff)
  moreover have "um_inv ?d1"
    using t(1) p set_update_subset_insert [of "um_data ?d" "nat i" "Some p"] by (auto simp: um_inv_def)
  ultimately show "\<exists>d'. Unlimited_WritePage tid d i p = Inr d' \<and> um_inv d' \<and> um_contents d' = (um_contents d)(i \<mapsto> p)"
    using t(2) by simp
next
  fix U d i and buf :: page assume U: "um_room U" "i \<in> U" and d: "um_inv d" and buf: "length buf = BUSTUB_PAGE_SIZE"
  have i: "0 \<le> i" "i + 1 \<le> cmax I32" using U by (auto simp: um_room_def)
  obtain q where t: "um_inv (touch tid d (nat i))" "um_contents d i = None \<or> um_contents d i = Some q" "length q = BUSTUB_PAGE_SIZE"
      "um_contents (touch tid d (nat i)) = (um_contents d)(i \<mapsto> q)" "um_data (touch tid d (nat i)) ! nat i = Some q"
    by (rule touch_ok [OF d i(1)])
  have "Unlimited_ReadPage tid d i buf = Inr (PostProcessLatency (touch tid d (nat i)) i, q)"
    using i t buf by (simp add: Unlimited_ReadPage_def write_at_def Let_def)
  moreover have "um_contents (PostProcessLatency (touch tid d (nat i)) i) = (um_contents d)(i \<mapsto> q)"
    using t(4) by simp
  ultimately show "\<exists>d' q. Unlimited_ReadPage tid d i buf = Inr (d', q) \<and> um_inv d' \<and> length q = BUSTUB_PAGE_SIZE \<and>
      (um_contents d i = None \<or> um_contents d i = Some q) \<and> um_contents d' = (um_contents d)(i \<mapsto> q)"
    using t by auto
qed (simp add: Unlimited_DeletePage_def)

section \<open>Properties of the disk managers\<close>

lemma DiskManager_ctor_inv:
  assumes "DiskManager_ctor io log cl db cd = Inr d"
  shows "disk_inv d" "disk_contents d = Map.empty"
  using assms by (auto simp: DiskManager_ctor_def DEFAULT_DB_IO_SIZE_def Let_def result_simps disk_inv_def slots_def slots_ok_def disk_contents_def
      fun_eq_iff split: option.splits intro: exI [of _ 0])

text \<open>C6: Any sequence of writes, reads and deletions on a freshly opened \<open>DiskManager\<close> whose
  I/O succeeds and that touches fewer than 131072 page ids behaves like a map from page ids to
  pages, and every call returns: slots are never shared, whatever deletions and reuse the
  directory went through.\<close>
theorem DiskManager_refines:
  assumes "DiskManager_ctor io_ok log can_create_log db can_create_db = Inr d"
    and "card (op_id ` set ops) < 131072" "list_all op_ok ops" "length buf = BUSTUB_PAGE_SIZE"
  shows "\<exists>d' outs. device_run (WritePage io_ok) (ReadPage io_ok) DeletePage buf d ops = Inr (d', outs) \<and>
     disk_inv d' \<and> conforms Map.empty ops outs (disk_contents d')"
  using file_disk.run_conforms [of "op_id ` set ops" d ops buf] DiskManager_ctor_inv [OF assms(1)] assms(2-)
  by (simp add: disk_room_def)

theorem DiskManager_refines_witness:
  "\<exists>d d' outs. DiskManager_ctor io_ok None True None True = Inr d \<and>
     device_run (WritePage io_ok) (ReadPage io_ok) DeletePage (zero_bytes 8192) d
       [Wr 7 (replicate 8192 (CHR ''x'')), Wr 3 (zero_bytes 8192), Del 7, Wr 9 (replicate 8192 (CHR ''y'')), Rd 3, Rd 9] = Inr (d', outs) \<and>
     conforms Map.empty [Wr 7 (replicate 8192 (CHR ''x'')), Wr 3 (zero_bytes 8192), Del 7, Wr 9 (replicate 8192 (CHR ''y'')), Rd 3, Rd 9]
       outs (disk_contents d')"
proof -
  obtain d where d: "DiskManager_ctor io_ok None True None True = Inr d"
    by (simp add: DiskManager_ctor_def open_file_def GetFileSize_def io_ok_def DEFAULT_DB_IO_SIZE_def Let_def static_cast_unfold)
  have "card (op_id ` set [Wr 7 (replicate 8192 (CHR ''x'')), Wr 3 (zero_bytes 8192), Del 7, Wr 9 (replicate 8192 (CHR ''y'')), Rd 3, Rd 9]) < 131072"
    by (simp add: card_insert_if)
  from DiskManager_refines [OF d this, of "zero_bytes 8192"] d show ?thesis
    by (simp del: device_run.simps conforms.simps) blast
qed

text \<open>On a freshly built \<open>DiskManagerUnlimitedMemory\<close>, after a write of page \<open>i\<close> and any calls
  on other (non-negative) pages, the read of page \<open>i\<close> returns what was written.\<close>
theorem Unlimited_read_last_write:
  assumes "0 \<le> i" "i < cmax I32" "length p = BUSTUB_PAGE_SIZE" "length buf = BUSTUB_PAGE_SIZE" "list_all op_ok ops"
    and "\<forall>x \<in> set ops. op_id x \<noteq> i \<and> 0 \<le> op_id x \<and> op_id x < cmax I32"
  shows "\<exists>d' outs. device_run (Unlimited_WritePage tid) (Unlimited_ReadPage tid) Unlimited_DeletePage buf
     DiskManagerUnlimitedMemory_ctor (Wr i p # ops @ [Rd i]) = Inr (d', outs) \<and> last outs = p"
proof -
  let ?U = "{0 ..< cmax I32}"
  have "um_inv DiskManagerUnlimitedMemory_ctor"
    by (simp add: um_inv_def DiskManagerUnlimitedMemory_ctor_def)
  moreover have "dom (um_contents DiskManagerUnlimitedMemory_ctor) \<subseteq> ?U"
    by (auto simp: um_contents_def DiskManagerUnlimitedMemory_ctor_def DEFAULT_DB_IO_SIZE_def split: if_splits)
  moreover have "um_room ?U" by (simp add: um_room_def)
  moreover have "op_id ` set ops \<subseteq> ?U - {i}" using assms(6) by auto
  ultimately show ?thesis
    using memory_disk.read_last_write [of ?U DiskManagerUnlimitedMemory_ctor i p ops buf tid] assms by auto
qed

theorem Unlimited_read_last_write_witness:
  "\<exists>d' outs. device_run (Unlimited_WritePage 1) (Unlimited_ReadPage 1) Unlimited_DeletePage (zero_bytes 8192)
     DiskManagerUnlimitedMemory_ctor (Wr 40 (replicate 8192 (CHR ''x'')) # [Rd 41, Wr 2 (zero_bytes 8192), Del 40000] @ [Rd 40]) = Inr (d', outs) \<and>
     last outs = replicate 8192 (CHR ''x'')"
  by (rule Unlimited_read_last_write) simp_all

text \<open>What \<open>WriteLog\<close> appends, \<open>ReadLog\<close> at that offset returns, as long as the log stays below
  two gigabytes and the caller alternates its buffers.\<close>
theorem log_roundtrip:
  assumes "addr \<noteq> buffer_used d" "\<not> log_bad d" "flush_log_f d \<noteq> Some False" "bs \<noteq> []"
    and "int (length (log_io d) + length bs) \<le> cmax I32" "length buf = length bs"
  shows "\<exists>d'. WriteLog io_ok d addr bs (int (length bs)) = Inr d' \<and> \<not> flush_log d' \<and>
     num_flushes d' = static_cast I32 (num_flushes d + 1) \<and>
     ReadLog io_ok d' buf (int (length bs)) (int (length (log_io d))) = Inr (True, d', bs)"
  using assms
  by (simp add: WriteLog_def ReadLog_def io_ok_def Let_def read_at_def write_at_def file_read_def GetFileSize_def
      static_cast_id in_range_def)

theorem log_roundtrip_witness:
  "\<exists>d d'. DiskManager_ctor io_ok None True None True = Inr d \<and>
     WriteLog io_ok d 64 ''commit'' (int (length ''commit'')) = Inr d' \<and>
     ReadLog io_ok d' ''......'' (int (length ''commit'')) (int (length (log_io d))) = Inr (True, d', ''commit'')"
proof -
  obtain d where d: "DiskManager_ctor io_ok None True None True = Inr d" "buffer_used d = 0" "\<not> log_bad d" "flush_log_f d = None" "log_io d = []"
    by (simp add: DiskManager_ctor_def open_file_def GetFileSize_def io_ok_def DEFAULT_DB_IO_SIZE_def Let_def static_cast_unfold)
  have "\<exists>d'. WriteLog io_ok d 64 ''commit'' (int (length ''commit'')) = Inr d' \<and> \<not> flush_log d' \<and>
     num_flushes d' = static_cast I32 (num_flushes d + 1) \<and>
     ReadLog io_ok d' ''......'' (int (length ''commit'')) (int (length (log_io d))) = Inr (True, d', ''commit'')"
    by (rule log_roundtrip) (simp_all add: d)
  then show ?thesis using d(1) by blast
qed

text \<open>\<open>GetFileSize\<close> returns an \<open>int\<close>: once the directory of a database of 131071 pages grows,
  the file has more than two gigabytes, its size reads as negative, and every later \<open>ReadPage\<close>
  returns without touching the caller's buffer, although the pages are on disk.\<close>
theorem DiskManager_large_file_unreadable:
  assumes "disk_inv d" "free_slots d = []" "length (pages d) = 131071" "map_of (pages d) i = None" "length p = BUSTUB_PAGE_SIZE"
  shows "\<exists>d'. WritePage io_ok d i p = Inr d' \<and> map_of (pages d') i \<noteq> None \<and>
     (\<forall>j buf. map_of (pages d') j \<noteq> None \<longrightarrow> ReadPage io_ok d' j buf = Inr (d', buf))"
proof -
  let ?off = "131071 * 8192"
  let ?f = "resize_file (db_io d) 2147491840"
  let ?d' = "d \<lparr> page_capacity := 262144, db_io := file_write ?f ?off p,
     num_writes := static_cast I32 (num_writes d + 1), pages := AList.update i ?off (pages d) \<rparr>"
  obtain k where k: "k \<le> 13" "page_capacity d = 16 * 2 ^ k" "131071 < page_capacity d"
    using assms(1-3) by (auto simp: disk_inv_def DEFAULT_DB_IO_SIZE_def slots_def)
  have "k = 13"
  proof (rule ccontr)
    assume "k \<noteq> 13"
    then have "(2 :: nat) ^ k \<le> 2 ^ 12" using k(1) by (intro power_increasing) auto
    then show False using k by simp
  qed
  then have "AllocatePage d = (?off, d \<lparr> page_capacity := 262144, db_io := ?f \<rparr>)"
    using k assms by (simp add: AllocatePage_def)
  then have w: "WritePage io_ok d i p = Inr ?d'"
    using assms by (simp add: WritePage_def find_slot_def read_at_def db_write_def io_ok_def disk_inv_def)
  have "GetFileSize io_ok (db_io ?d') < 0"
    using assms(5) by (simp add: GetFileSize_def io_ok_def static_cast_unfold)
  then have "ReadPage io_ok ?d' j buf = Inr (?d', buf)" if "map_of (pages ?d') j \<noteq> None" for j buf
    using that by (auto simp: ReadPage_def find_slot_def Let_def)
  with w show ?thesis by (intro exI [of _ ?d']) (auto simp: update_conv')
qed

definition ex_disk :: "nat \<Rightarrow> nat \<Rightarrow> DiskManager" where
  "ex_disk n cap = \<lparr> num_flushes = 0, num_writes = 0, num_deletes = 0, page_capacity = cap,
     log_io = [], log_bad = False, db_io = zero_bytes ((cap + 1) * 8192), db_bad = False,
     pages = map (\<lambda>i. (int i, i * 8192)) [0..<n], free_slots = [], flush_log = False, flush_log_f = None, buffer_used = 0 \<rparr>"

lemma ex_disk_inv: "n < 16 * 2 ^ k \<Longrightarrow> k \<le> 13 \<Longrightarrow> disk_inv (ex_disk n (16 * 2 ^ k))"
  by (auto simp: disk_inv_def ex_disk_def slots_def slots_ok_def DEFAULT_DB_IO_SIZE_def distinct_map inj_on_def comp_def
      atLeast0LessThan)

theorem DiskManager_large_file_unreadable_witness:
  "\<exists>d d'. disk_inv d \<and> length (pages d) = 131071 \<and> WritePage io_ok d 200000 (zero_bytes 8192) = Inr d' \<and>
     map_of (pages d') 200000 \<noteq> None \<and> ReadPage io_ok d' 200000 (replicate 8192 (CHR ''?'')) = Inr (d', replicate 8192 (CHR ''?''))"
proof -
  let ?d = "ex_disk 131071 (16 * 2 ^ 13)"
  have d: "disk_inv ?d" by (rule ex_disk_inv) simp_all
  have p: "free_slots ?d = []" "length (pages ?d) = 131071" "map_of (pages ?d) 200000 = None"
    by (auto simp: ex_disk_def map_of_eq_None_iff)
  show ?thesis
    using DiskManager_large_file_unreadable [OF d p, of "zero_bytes 8192"] d p(2) by (auto simp del: not_None_eq)
qed

text \<open>When \<open>stat\<close> fails while a page that is not in the directory is read, the free slot taken
  for it is lost: the next page that is appended is given the slot of an existing page, and
  writing it overwrites that page's content.\<close>
theorem DiskManager_lost_slot_collides:
  assumes "disk_inv d" "free_slots d = [off]" "off \<noteq> length (pages d) * BUSTUB_PAGE_SIZE" "map_of (pages d) i = None"
    and "map_of (pages d) k = None" "length (pages d) + 1 < page_capacity d" "length p = BUSTUB_PAGE_SIZE"
  shows "\<exists>d1 d2 j. ReadPage \<lparr> stat_ok = False, fails_after = None \<rparr> d i buf = Inr (d1, buf) \<and>
     WritePage io_ok d1 k p = Inr d2 \<and> j \<noteq> k \<and> disk_contents d j \<noteq> None \<and> disk_contents d2 j = Some p"
proof -
  let ?o = "length (pages d) * BUSTUB_PAGE_SIZE"
  let ?d1 = "d \<lparr> free_slots := [] \<rparr>"
  let ?d2 = "?d1 \<lparr> db_io := file_write (db_io d) ?o p, num_writes := static_cast I32 (num_writes d + 1),
     pages := AList.update k ?o (pages d) \<rparr>"
  have r: "ReadPage \<lparr> stat_ok = False, fails_after = None \<rparr> d i buf = Inr (?d1, buf)"
    using assms(2,4) by (simp add: ReadPage_def find_slot_def AllocatePage_def GetFileSize_def)
  have w: "WritePage io_ok ?d1 k p = Inr ?d2"
    using assms by (simp add: WritePage_def find_slot_def AllocatePage_def read_at_def db_write_def io_ok_def disk_inv_def)
  have "?o \<in> set (slots d)" using assms(1,2) by (auto simp: disk_inv_def slots_ok_def slots_def)
  then have "?o \<in> snd ` set (pages d)" using assms(2,3) by (auto simp: slots_def)
  then obtain j where "(j, ?o) \<in> set (pages d)" by auto
  then have j: "map_of (pages d) j = Some ?o" using assms(1) by (simp add: disk_inv_def)
  then have "j \<noteq> k" "disk_contents d j \<noteq> None" using assms(5) by (auto simp: disk_contents_def)
  moreover have "disk_contents ?d2 j = Some p"
    using j \<open>j \<noteq> k\<close> assms(1,2,6,7) by (simp add: disk_contents_def update_conv' disk_inv_def)
  ultimately show ?thesis using r w by blast
qed

theorem DiskManager_lost_slot_collides_witness:
  "\<exists>d0 d d1 d2 j. DeletePage d0 0 = Inr d \<and>
     ReadPage \<lparr> stat_ok = False, fails_after = None \<rparr> d 7 [] = Inr (d1, []) \<and> WritePage io_ok d1 8 (zero_bytes 8192) = Inr d2 \<and>
     j \<noteq> 8 \<and> disk_contents d j \<noteq> None \<and> disk_contents d2 j = Some (zero_bytes 8192)"
proof -
  let ?d0 = "ex_disk 3 (16 * 2 ^ 0)"
  have m: "map_of (pages ?d0) 0 = Some 0" by (simp add: ex_disk_def upt_rec)
  obtain d where d: "DeletePage ?d0 0 = Inr d" "disk_inv d"
    using DeletePage_contents [OF ex_disk_inv [of 3 0], of 0] by auto
  then have f: "free_slots d = [0]" "pages d = [(1, 8192), (2, 16384)]" "page_capacity d = 16"
    using m by (auto simp: DeletePage_def ex_disk_def upt_rec)
  show ?thesis using DiskManager_lost_slot_collides [OF d(2) f(1), of 7 8 "zero_bytes 8192" "[]"] d(1) f by simp blast
qed

end
