(* ===== verification/BufferPool.thy ===== *)
theory BufferPool
  imports Disk
begin

text \<open>
  The interface of the buffer pool manager as its clients use it (buffer/buffer_pool_manager.h,
  storage/page/page_guard.h).  The repository leaves the pool itself unimplemented, so its
  operations are a parameter of the table heap; the locale \<open>buffer_pool\<close> states what the comments of
  the interface promise: \<open>NewPage\<close> hands out ids from an increasing counter, a page guard gives the
  content last written under that id, and dropping a write guard makes the new content visible.

  Any page device gives such a pool (one that keeps no frames and goes to the device for each
  guard); the locale \<open>device_pool\<close> proves that once and is interpreted for both disk managers.
\<close>

section \<open>The interface\<close>

text \<open>\<open>AcquirePage\<close> is the construction of a read or write guard, \<open>DropPage\<close> the drop of a write
  guard under which the page was changed.\<close>

record 'b bpm =
  NewPage :: "'b \<Rightarrow> (int \<times> 'b) result"
  AcquirePage :: "'b \<Rightarrow> int \<Rightarrow> (page \<times> 'b) result"
  DropPage :: "'b \<Rightarrow> int \<Rightarrow> page \<Rightarrow> 'b result"

locale buffer_pool =
  fixes bpm :: "'b bpm"
    and pool_inv :: "'b \<Rightarrow> bool"
    and page_of :: "'b \<Rightarrow> int \<rightharpoonup> page"
    and quota :: "'b \<Rightarrow> nat"
  assumes NewPage_ok: "\<lbrakk> pool_inv b; 0 < quota b \<rbrakk> \<Longrightarrow>
      \<exists>i b' q. NewPage bpm b = Inr (i, b') \<and> pool_inv b' \<and> Suc (quota b') = quota b \<and> 0 \<le> i \<and> in_range I32 i \<and>
        (\<forall>j \<in> dom (page_of b). j < i) \<and> length q = BUSTUB_PAGE_SIZE \<and> page_of b' = (page_of b)(i \<mapsto> q)"
    and AcquirePage_ok: "\<lbrakk> pool_inv b; page_of b i = Some p \<rbrakk> \<Longrightarrow>
      \<exists>b'. AcquirePage bpm b i = Inr (p, b') \<and> pool_inv b' \<and> page_of b' = page_of b \<and> quota b' = quota b"
    and DropPage_ok: "\<lbrakk> pool_inv b; page_of b i \<noteq> None; length p = BUSTUB_PAGE_SIZE \<rbrakk> \<Longrightarrow>
      \<exists>b'. DropPage bpm b i p = Inr b' \<and> pool_inv b' \<and> page_of b' = (page_of b)(i \<mapsto> p) \<and> quota b' = quota b"

section \<open>A pool on a page device\<close>

text \<open>The state is the device and the counter of \<open>NewPage\<close>.\<close>

definition direct_pool :: "('d \<Rightarrow> int \<Rightarrow> page \<Rightarrow> 'd result) \<Rightarrow> ('d \<Rightarrow> int \<Rightarrow> page \<Rightarrow> ('d \<times> page) result) \<Rightarrow> ('d \<times> int) bpm" where
  "direct_pool wr rd = \<lparr>
     NewPage = (\<lambda>(d, n). rbind (rd d n (zero_bytes BUSTUB_PAGE_SIZE)) (\<lambda>(d, p). Inr (n, d, n + 1))),
     AcquirePage = (\<lambda>(d, n) i. rbind (rd d i (zero_bytes BUSTUB_PAGE_SIZE)) (\<lambda>(d, p). Inr (p, d, n))),
     DropPage = (\<lambda>(d, n) i p. rbind (wr d i p) (\<lambda>d. Inr (d, n))) \<rparr>"

definition direct_inv :: "('d \<Rightarrow> bool) \<Rightarrow> ('d \<Rightarrow> int \<rightharpoonup> page) \<Rightarrow> int \<Rightarrow> 'd \<times> int \<Rightarrow> bool" where
  "direct_inv dev_inv contents limit = (\<lambda>(d, n). dev_inv d \<and> 0 \<le> n \<and> n \<le> limit \<and>
     {0 ..< n} \<subseteq> dom (contents d) \<and> dom (contents d) \<subseteq> {0 ..< limit})"

definition direct_pages :: "('d \<Rightarrow> int \<rightharpoonup> page) \<Rightarrow> 'd \<times> int \<Rightarrow> int \<rightharpoonup> page" where
  "direct_pages contents = (\<lambda>(d, n). contents d |` {0 ..< n})"

definition direct_quota :: "int \<Rightarrow> 'd \<times> int \<Rightarrow> nat" where
  "direct_quota limit = (\<lambda>(d, n). nat (limit - n))"

locale device_pool = page_device +
  fixes limit :: int
  assumes limit_room: "room {0 ..< limit}" and limit_range: "limit \<le> cmax I32"

sublocale device_pool \<subseteq> direct: buffer_pool "direct_pool wr rd" "direct_inv inv contents limit" "direct_pages contents" "direct_quota limit"
proof
  fix b :: "'a \<times> int" assume inv: "direct_inv inv contents limit b" "0 < direct_quota limit b"
  obtain d n where b: "b = (d, n)" by (cases b)
  have *: "inv d" "0 \<le> n" "n < limit" "{0 ..< n} \<subseteq> dom (contents d)" "dom (contents d) \<subseteq> {0 ..< limit}"
    using inv by (auto simp: b direct_inv_def direct_quota_def)
  obtain d' q where r: "rd d n (zero_bytes BUSTUB_PAGE_SIZE) = Inr (d', q)" "inv d'" "length q = BUSTUB_PAGE_SIZE"
      "contents d' = (contents d)(n \<mapsto> q)"
    using rd_ok [OF limit_room *(1,5), of n "zero_bytes BUSTUB_PAGE_SIZE"] * by auto
  have "{0 ..< n + 1} \<subseteq> insert n (dom (contents d))" using *(4) by force
  then have "direct_inv inv contents limit (d', n + 1)" using r * by (simp add: direct_inv_def)
  moreover have "direct_pages contents (d', n + 1) = (direct_pages contents b)(n \<mapsto> q)"
    using r(4) *(2) by (auto simp: b direct_pages_def restrict_map_def fun_eq_iff)
  moreover have "\<forall>j \<in> dom (direct_pages contents b). j < n" by (auto simp: b direct_pages_def)
  ultimately show "\<exists>i b' q. NewPage (direct_pool wr rd) b = Inr (i, b') \<and> direct_inv inv contents limit b' \<and>
      Suc (direct_quota limit b') = direct_quota limit b \<and> 0 \<le> i \<and> in_range I32 i \<and>
      (\<forall>j \<in> dom (direct_pages contents b). j < i) \<and> length q = BUSTUB_PAGE_SIZE \<and>
      direct_pages contents b' = (direct_pages contents b)(i \<mapsto> q)"
    using r *(2,3) limit_range
    by (intro exI [of _ n] exI [of _ "(d', n + 1)"] exI [of _ q]) (auto simp: b direct_pool_def direct_quota_def in_range_def)
next
  fix b :: "'a \<times> int" and i p assume inv: "direct_inv inv contents limit b" "direct_pages contents b i = Some p"
  obtain d n where b: "b = (d, n)" by (cases b)
  have *: "inv d" "i \<in> {0 ..< limit}" "contents d i = Some p" "dom (contents d) \<subseteq> {0 ..< limit}"
    using inv by (auto simp: b direct_inv_def direct_pages_def restrict_map_def split: if_splits)
  obtain d' where r: "rd d i (zero_bytes BUSTUB_PAGE_SIZE) = Inr (d', p)" "inv d'" "contents d' = (contents d)(i \<mapsto> p)"
    using rd_ok [OF limit_room *(1,4,2), of "zero_bytes BUSTUB_PAGE_SIZE"] *(3) by auto
  then have c: "contents d' = contents d" using *(3) by (simp add: fun_upd_idem)
  show "\<exists>b'. AcquirePage (direct_pool wr rd) b i = Inr (p, b') \<and> direct_inv inv contents limit b' \<and>
      direct_pages contents b' = direct_pages contents b \<and> direct_quota limit b' = direct_quota limit b"
    using r(1,2) c inv by (intro exI [of _ "(d', n)"]) (auto simp: b direct_pool_def direct_quota_def direct_inv_def direct_pages_def)
next
  fix b :: "'a \<times> int" and i and p :: page
  assume inv: "direct_inv inv contents limit b" "direct_pages contents b i \<noteq> None" "length p = BUSTUB_PAGE_SIZE"
  obtain d n where b: "b = (d, n)" by (cases b)
  have *: "inv d" "i \<in> {0 ..< limit}" "i \<in> {0 ..< n}" "dom (contents d) \<subseteq> {0 ..< limit}"
    using inv by (auto simp: b direct_inv_def direct_pages_def restrict_map_def split: if_splits)
  obtain d' where r: "wr d i p = Inr d'" "inv d'" "contents d' = (contents d)(i \<mapsto> p)"
    using wr_ok [OF limit_room *(1,4,2) inv(3)] by auto
  have "direct_pages contents (d', n) = (direct_pages contents b)(i \<mapsto> p)"
    using r(3) *(3) by (auto simp: b direct_pages_def restrict_map_def fun_eq_iff)
  then show "\<exists>b'. DropPage (direct_pool wr rd) b i p = Inr b' \<and> direct_inv inv contents limit b' \<and>
      direct_pages contents b' = (direct_pages contents b)(i \<mapsto> p) \<and> direct_quota limit b' = direct_quota limit b"
    using r inv(1) *(2) by (intro exI [of _ "(d', n)"]) (auto simp: b direct_pool_def direct_quota_def direct_inv_def)
qed

interpretation file_pool: device_pool disk_inv disk_contents disk_room "WritePage io_ok" "ReadPage io_ok" DeletePage 131071
  by unfold_locales (simp_all add: disk_room_def)

interpretation memory_pool: device_pool um_inv um_contents um_room "Unlimited_WritePage tid" "Unlimited_ReadPage tid"
  Unlimited_DeletePage "cmax I32" for tid
  by unfold_locales (simp_all add: um_room_def)

end
