(* ===== verification/Heap.thy ===== *)
theory Heap
  imports BufferPool
begin

text \<open>
  The table heap and its iterator (storage/table/table_heap.cpp, storage/table/table_iterator.cpp)
  over the pages of a buffer pool.  Every operation takes the pool's operations and threads the
  pool's state; a page under a write guard is a local copy that the drop of the guard writes back.
  The latch of the heap covers the whole insertion, so an insertion is one step.

  The locale \<open>heap_on_pool\<close> shows, for every pool that keeps its contract, that the heap is a list of
  rows: an insertion appends a row, lookups and updates touch one row, and a scan yields all rows in
  order.
\<close>

section \<open>TableHeap\<close>

record TableHeap =
  first_page_id :: int
  last_page_id :: int

definition TableHeap_ctor :: "'b bpm \<Rightarrow> 'b \<Rightarrow> (TableHeap \<times> 'b) result" where
  "TableHeap_ctor bpm b = rbind (NewPage bpm b) (\<lambda>(pid, b).
     rbind (AcquirePage bpm b pid) (\<lambda>(p, b).
     rbind (Init p) (\<lambda>p. rbind (DropPage bpm b pid p) (\<lambda>b.
       Inr (\<lparr> first_page_id = pid, last_page_id = pid \<rparr>, b)))))"

text \<open>The \<open>while (true)\<close> loop of \<open>InsertTuple\<close>, with fuel: \<open>pid\<close> and \<open>p\<close> are the page under
  \<open>page_guard\<close>; no fuel left is \<open>None\<close>.\<close>

fun insert_loop :: "nat \<Rightarrow> 'b bpm \<Rightarrow> TupleMeta \<Rightarrow> Tuple \<Rightarrow> TableHeap \<Rightarrow> 'b \<Rightarrow> int \<Rightarrow> page \<Rightarrow>
    (TableHeap \<times> 'b \<times> int \<times> page) result option" where
  "insert_loop 0 bpm meta tuple h b pid p = None"
| "insert_loop (Suc fuel) bpm meta tuple h b pid p =
     (case GetNextTupleOffset p meta tuple of Inl e \<Rightarrow> Some (Inl e)
      | Inr (Some off) \<Rightarrow> Some (Inr (h, b, pid, p))
      | Inr None \<Rightarrow>
        (case rbind (GetNumTuples p) (\<lambda>n.
                check (Terminate ''tuple is too large, cannot insert'') (n \<noteq> 0)
                (rbind (NewPage bpm b) (\<lambda>(next_page_id, b).
                 rbind (SetNextPageId p next_page_id) (\<lambda>p.
                 rbind (AcquirePage bpm b next_page_id) (\<lambda>(next_page, b).
                 rbind (Init next_page) (\<lambda>next_page.
                 rbind (DropPage bpm b pid p) (\<lambda>b. Inr (next_page_id, next_page, b)))))))) of
           Inl e \<Rightarrow> Some (Inl e)
         | Inr (next_page_id, next_page, b) \<Rightarrow>
             insert_loop fuel bpm meta tuple (h \<lparr> last_page_id := next_page_id \<rparr>) b next_page_id next_page))"

text \<open>\<open>lock_mgr\<close> is the lock manager's answer to \<open>LockRow\<close> (if a lock manager is given).\<close>

definition finish_insert :: "'b bpm \<Rightarrow> (RID \<Rightarrow> bool) option \<Rightarrow> TupleMeta \<Rightarrow> Tuple \<Rightarrow> TableHeap \<times> 'b \<times> int \<times> page \<Rightarrow>
    (RID \<times> TableHeap \<times> 'b) result" where
  "finish_insert bpm lock_mgr meta tuple = (\<lambda>(h, b, pid, p).
     rbind (TablePage_InsertTuple p meta tuple) (\<lambda>(slot, p). case slot of None \<Rightarrow> Inl Undefined
       | Some slot_id \<Rightarrow>
          let r = \<lparr> page_id = last_page_id h, slot_num = slot_id \<rparr> in
          check (Terminate ''failed to lock when inserting new tuple'')
            (case lock_mgr of None \<Rightarrow> True | Some LockRow \<Rightarrow> LockRow r)
            (rbind (DropPage bpm b pid p) (\<lambda>b. Inr (r, h, b)))))"

definition TableHeap_InsertTuple :: "nat \<Rightarrow> 'b bpm \<Rightarrow> (RID \<Rightarrow> bool) option \<Rightarrow> TableHeap \<Rightarrow> 'b \<Rightarrow> TupleMeta \<Rightarrow> Tuple \<Rightarrow>
    (RID \<times> TableHeap \<times> 'b) result option" where
  "TableHeap_InsertTuple fuel bpm lock_mgr h b meta tuple =
     (case AcquirePage bpm b (last_page_id h) of Inl e \<Rightarrow> Some (Inl e)
      | Inr (p, b) \<Rightarrow> (case insert_loop fuel bpm meta tuple h b (last_page_id h) p of None \<Rightarrow> None
         | Some r \<Rightarrow> Some (rbind r (finish_insert bpm lock_mgr meta tuple))))"

definition TableHeap_UpdateTupleMeta :: "'b bpm \<Rightarrow> 'b \<Rightarrow> TupleMeta \<Rightarrow> RID \<Rightarrow> 'b result" where
  "TableHeap_UpdateTupleMeta bpm b meta r = rbind (AcquirePage bpm b (page_id r)) (\<lambda>(p, b).
     rbind (TablePage_UpdateTupleMeta p meta r) (\<lambda>p. DropPage bpm b (page_id r) p))"

definition TableHeap_GetTuple :: "'b bpm \<Rightarrow> 'b \<Rightarrow> RID \<Rightarrow> ((TupleMeta \<times> Tuple) \<times> 'b) result" where
  "TableHeap_GetTuple bpm b r = rbind (AcquirePage bpm b (page_id r)) (\<lambda>(p, b).
     rbind (TablePage_GetTuple p r) (\<lambda>(meta, tuple). Inr ((meta, SetRid tuple r), b)))"

definition TableHeap_GetTupleMeta :: "'b bpm \<Rightarrow> 'b \<Rightarrow> RID \<Rightarrow> (TupleMeta \<times> 'b) result" where
  "TableHeap_GetTupleMeta bpm b r = rbind (AcquirePage bpm b (page_id r)) (\<lambda>(p, b).
     rbind (TablePage_GetTupleMeta p r) (\<lambda>meta. Inr (meta, b)))"

text \<open>\<open>check\<close> is the predicate the caller may pass (a null \<open>std::function\<close> is \<open>None\<close>).\<close>

definition UpdateTupleInPlace :: "'b bpm \<Rightarrow> 'b \<Rightarrow> TupleMeta \<Rightarrow> Tuple \<Rightarrow> RID \<Rightarrow> (TupleMeta \<Rightarrow> Tuple \<Rightarrow> RID \<Rightarrow> bool) option \<Rightarrow>
    (bool \<times> 'b) result" where
  "UpdateTupleInPlace bpm b meta tuple r chk = rbind (AcquirePage bpm b (page_id r)) (\<lambda>(p, b).
     rbind (TablePage_GetTuple p r) (\<lambda>(old_meta, old_tup).
       if (case chk of None \<Rightarrow> True | Some f \<Rightarrow> f old_meta old_tup r)
       then rbind (UpdateTupleInPlaceUnsafe p meta tuple r) (\<lambda>p.
              rbind (DropPage bpm b (page_id r) p) (\<lambda>b. Inr (True, b)))
       else Inr (False, b)))"

section \<open>TableIterator\<close>

record TableIterator =
  it_rid :: RID
  stop_at_rid :: RID

definition end_rid :: RID where "end_rid = \<lparr> page_id = INVALID_PAGE_ID, slot_num = 0 \<rparr>"

definition TableIterator_ctor :: "'b bpm \<Rightarrow> 'b \<Rightarrow> RID \<Rightarrow> RID \<Rightarrow> (TableIterator \<times> 'b) result" where
  "TableIterator_ctor bpm b r stop =
     (if page_id r = INVALID_PAGE_ID then Inr (\<lparr> it_rid = end_rid, stop_at_rid = stop \<rparr>, b)
      else rbind (AcquirePage bpm b (page_id r)) (\<lambda>(p, b). rbind (GetNumTuples p) (\<lambda>n.
        Inr (\<lparr> it_rid = (if slot_num r \<ge> n then end_rid else r), stop_at_rid = stop \<rparr>, b))))"

definition TableIterator_GetTuple :: "'b bpm \<Rightarrow> 'b \<Rightarrow> TableIterator \<Rightarrow> ((TupleMeta \<times> Tuple) \<times> 'b) result" where
  "TableIterator_GetTuple bpm b it = TableHeap_GetTuple bpm b (it_rid it)"

definition IsEnd :: "TableIterator \<Rightarrow> bool" where
  "IsEnd it \<longleftrightarrow> page_id (it_rid it) = INVALID_PAGE_ID"

definition TableIterator_next :: "'b bpm \<Rightarrow> 'b \<Rightarrow> TableIterator \<Rightarrow> (TableIterator \<times> 'b) result" where
  "TableIterator_next bpm b it = rbind (AcquirePage bpm b (page_id (it_rid it))) (\<lambda>(p, b).
     let r = it_rid it; stop = stop_at_rid it; next_tuple_id = (slot_num r + 1) mod 2 ^ 32 in
     assert (page_id stop \<noteq> INVALID_PAGE_ID \<longrightarrow>
        page_id r < page_id stop \<or> (page_id r = page_id stop \<and> next_tuple_id \<le> slot_num stop))
       (let r' = \<lparr> page_id = page_id r, slot_num = next_tuple_id \<rparr> in
        if r' = stop then Inr (it \<lparr> it_rid := end_rid \<rparr>, b)
        else rbind (GetNumTuples p) (\<lambda>n.
          if next_tuple_id < n then Inr (it \<lparr> it_rid := r' \<rparr>, b)
          else rbind (GetNextPageId p) (\<lambda>next_page_id.
            Inr (it \<lparr> it_rid := \<lparr> page_id = next_page_id, slot_num = 0 \<rparr> \<rparr>, b)))))"

definition MakeIterator :: "'b bpm \<Rightarrow> TableHeap \<Rightarrow> 'b \<Rightarrow> (TableIterator \<times> 'b) result" where
  "MakeIterator bpm h b = rbind (AcquirePage bpm b (last_page_id h)) (\<lambda>(p, b). rbind (GetNumTuples p) (\<lambda>num_tuples.
     TableIterator_ctor bpm b \<lparr> page_id = first_page_id h, slot_num = 0 \<rparr>
       \<lparr> page_id = last_page_id h, slot_num = num_tuples \<rparr>))"

definition MakeEagerIterator :: "'b bpm \<Rightarrow> TableHeap \<Rightarrow> 'b \<Rightarrow> (TableIterator \<times> 'b) result" where
  "MakeEagerIterator bpm h b = TableIterator_ctor bpm b \<lparr> page_id = first_page_id h, slot_num = 0 \<rparr> end_rid"

text \<open>The loop \<open>for (; !iter.IsEnd(); ++iter)\<close> over an iterator, collecting what \<open>GetTuple\<close> returns
  (the loop that populates an index in the catalog); no fuel left is \<open>None\<close>.\<close>

fun scan :: "nat \<Rightarrow> 'b bpm \<Rightarrow> 'b \<Rightarrow> TableIterator \<Rightarrow> (TupleMeta \<times> Tuple) list result option" where
  "scan 0 bpm b it = None"
| "scan (Suc fuel) bpm b it = (if IsEnd it then Some (Inr []) else
     (case rbind (TableIterator_GetTuple bpm b it) (\<lambda>(x, b). rbind (TableIterator_next bpm b it) (\<lambda>(it, b). Inr (x, it, b))) of
        Inl e \<Rightarrow> Some (Inl e)
      | Inr (x, it, b) \<Rightarrow> map_option (\<lambda>r. rbind r (\<lambda>xs. Inr (x # xs))) (scan fuel bpm b it)))"

section \<open>What a heap holds\<close>

type_synonym heap_page = "int \<times> (TupleMeta \<times> buffer) list"

text \<open>\<open>seg m pgs a c\<close>: following the next-page ids from page \<open>a\<close> visits the pages \<open>pgs\<close> and then
  arrives at \<open>c\<close>.\<close>

fun seg :: "(int \<rightharpoonup> page) \<Rightarrow> heap_page list \<Rightarrow> int \<Rightarrow> int \<Rightarrow> bool" where
  "seg m [] a c \<longleftrightarrow> a = c"
| "seg m ((i, us) # pgs) a c \<longleftrightarrow> a = i \<and> (\<exists>p nxt ndel. m i = Some p \<and> represents p nxt ndel us \<and> seg m pgs nxt c)"

text \<open>No tuple of a heap built from tuples of at most 440 bytes makes the offset computation of
  \<open>GetNextTupleOffset\<close> wrap around.\<close>

definition MAX_TUPLE :: nat where "MAX_TUPLE = 440"

definition small :: "heap_page list \<Rightarrow> bool" where
  "small pgs \<longleftrightarrow> (\<forall>(i, us) \<in> set pgs. \<forall>x \<in> set us. length (snd x) \<le> MAX_TUPLE)"

definition heap_rep :: "(int \<rightharpoonup> page) \<Rightarrow> TableHeap \<Rightarrow> heap_page list \<Rightarrow> bool" where
  "heap_rep m h pgs \<longleftrightarrow> pgs \<noteq> [] \<and> seg m pgs (first_page_id h) INVALID_PAGE_ID \<and> last_page_id h = fst (last pgs) \<and>
     sorted_wrt (<) (map fst pgs) \<and> (\<forall>x \<in> set pgs. 0 \<le> fst x) \<and> small pgs \<and>
     (length pgs > 1 \<longrightarrow> (\<forall>x \<in> set pgs. snd x \<noteq> []))"

definition page_rows :: "heap_page \<Rightarrow> (RID \<times> TupleMeta \<times> buffer) list" where
  "page_rows = (\<lambda>(i, us). map (\<lambda>(k, x). (\<lparr> page_id = i, slot_num = k \<rparr>, x)) (enumerate 0 us))"

definition heap_rows :: "heap_page list \<Rightarrow> (RID \<times> TupleMeta \<times> buffer) list" where
  "heap_rows pgs = concat (map page_rows pgs)"

lemma seg_append: "seg m (xs @ ys) a c \<longleftrightarrow> (\<exists>z. seg m xs a z \<and> seg m ys z c)"
  by (induction xs arbitrary: a) fastforce+

lemma seg_cong: "(\<And>i. i \<in> fst ` set pgs \<Longrightarrow> m i = m' i) \<Longrightarrow> seg m pgs a c = seg m' pgs a c"
proof (induction pgs arbitrary: a)
  case (Cons x pgs)
  then have "seg m pgs n c = seg m' pgs n c" for n by auto
  with Cons.prems show ?case by (cases x) auto
qed simp

lemma seg_upd [simp]: "i \<notin> fst ` set pgs \<Longrightarrow> seg (m(i \<mapsto> p)) pgs a c = seg m pgs a c"
  by (rule seg_cong) auto

lemma seg_page: "seg m pgs a c \<Longrightarrow> (i, us) \<in> set pgs \<Longrightarrow> \<exists>p nxt ndel. m i = Some p \<and> represents p nxt ndel us"
  by (induction pgs arbitrary: a) fastforce+

lemma heap_rows_append [simp]: "heap_rows (xs @ ys) = heap_rows xs @ heap_rows ys"
  by (simp add: heap_rows_def)

lemma page_rows_snoc: "page_rows (i, us @ [x]) = page_rows (i, us) @ [(\<lparr> page_id = i, slot_num = length us \<rparr>, x)]"
  by (simp add: page_rows_def enumerate_append_eq)

lemma page_rows_mem: "(r, x) \<in> set (page_rows (i, us)) \<longleftrightarrow> page_id r = i \<and> slot_num r < length us \<and> us ! slot_num r = x"
  by (cases r) (auto simp: page_rows_def in_set_enumerate_eq image_iff intro!: exI [of _ "slot_num r"] bexI [of _ "(slot_num r, x)"])

lemma heap_rows_mem: "(r, x) \<in> set (heap_rows pgs) \<longleftrightarrow> (\<exists>us. (page_id r, us) \<in> set pgs \<and> slot_num r < length us \<and> us ! slot_num r = x)"
  by (force simp: heap_rows_def page_rows_mem)

text \<open>Changing the row of one RID.\<close>

definition set_row :: "RID \<Rightarrow> TupleMeta \<times> buffer \<Rightarrow> (RID \<times> TupleMeta \<times> buffer) list \<Rightarrow> (RID \<times> TupleMeta \<times> buffer) list" where
  "set_row r x rows = map (\<lambda>(r', y). (r', if r' = r then x else y)) rows"

definition row_tuple :: "RID \<times> TupleMeta \<times> buffer \<Rightarrow> TupleMeta \<times> Tuple" where
  "row_tuple = (\<lambda>(r, m, d). (m, \<lparr> rid = r, data = d \<rparr>))"

definition last_rid :: "heap_page list \<Rightarrow> RID" where
  "last_rid pgs = \<lparr> page_id = fst (last pgs), slot_num = length (snd (last pgs)) \<rparr>"

lemma page_rows_update: "page_rows (page_id r, us[slot_num r := x]) = set_row r x (page_rows (page_id r, us))"
  by (cases r) (auto intro!: nth_equalityI simp: page_rows_def set_row_def nth_enumerate_eq nth_list_update)

lemma page_rows_other: "i \<noteq> page_id r \<Longrightarrow> set_row r x (page_rows (i, us)) = page_rows (i, us)"
  by (auto simp: set_row_def page_rows_def)

lemma heap_rows_other: "page_id r \<notin> fst ` set pgs \<Longrightarrow> set_row r x (heap_rows pgs) = heap_rows pgs"
proof (induction pgs)
  case (Cons y pgs)
  then show ?case
    using page_rows_other [of "fst y" r x "snd y"] by (simp add: heap_rows_def set_row_def)
qed (simp add: heap_rows_def set_row_def)

lemma heap_rows_update:
  assumes "sorted_wrt (<) (map fst (xs @ (page_id r, us) # ys))"
  shows "heap_rows (xs @ (page_id r, us[slot_num r := x]) # ys) = set_row r x (heap_rows (xs @ (page_id r, us) # ys))"
proof -
  have d: "page_id r \<notin> fst ` set xs" "page_id r \<notin> fst ` set ys" using assms by (auto simp: sorted_wrt_append)
  have "heap_rows (xs @ (page_id r, vs) # ys) = heap_rows xs @ page_rows (page_id r, vs) @ heap_rows ys" for vs
    by (simp add: heap_rows_def)
  then show ?thesis
    using heap_rows_other [OF d(1), of x] heap_rows_other [OF d(2), of x] page_rows_update [of r us x]
    by (simp add: set_row_def)
qed

lemma used_le: "\<forall>x \<in> set us. length (snd x) \<le> M \<Longrightarrow> used us k \<le> k * M"
proof (induction k)
  case (Suc k)
  show ?case
  proof (cases "k < length us")
    case True
    then have "length (snd (us ! k)) \<le> M" using Suc.prems by simp
    then show ?thesis using used_Suc [OF True] Suc.IH [OF Suc.prems] by simp
  next
    case False
    then show ?thesis using Suc by (simp add: used_def)
  qed
qed (simp add: used_def)

lemma small_no_wrap:
  assumes "represents p nxt ndel us" "\<forall>x \<in> set us. length (snd x) \<le> MAX_TUPLE"
  shows "MAX_TUPLE \<le> tup_off us (length us)"
proof -
  have "used us (length us) \<le> length us * MAX_TUPLE" using assms(2) by (rule used_le)
  moreover have "info_offset (length us) + used us (length us) \<le> 8192" using assms(1) by (simp add: represents_def)
  ultimately show ?thesis
    by (cases "length us \<le> 17") (auto simp: tup_off_def MAX_TUPLE_def info_offset_def)
qed

lemma represents_length: "represents p nxt ndel us \<Longrightarrow> length p = BUSTUB_PAGE_SIZE"
  by (simp add: represents_def)

text \<open>The heap while an insertion holds the guard of its last page \<open>i\<close>, whose current content is
  \<open>p\<close>.\<close>

definition heap_open :: "(int \<rightharpoonup> page) \<Rightarrow> TableHeap \<Rightarrow> heap_page list \<Rightarrow> int \<Rightarrow> (TupleMeta \<times> buffer) list \<Rightarrow> page \<Rightarrow> bool" where
  "heap_open m h xs i us p \<longleftrightarrow> seg m xs (first_page_id h) i \<and> m i \<noteq> None \<and> (\<exists>ndel. represents p INVALID_PAGE_ID ndel us) \<and>
     last_page_id h = i \<and> sorted_wrt (<) (map fst xs @ [i]) \<and> 0 \<le> i \<and> (\<forall>x \<in> set xs. 0 \<le> fst x \<and> snd x \<noteq> []) \<and> small (xs @ [(i, us)])"

lemma heap_rep_open:
  "heap_rep m h (xs @ [(i, us)]) \<Longrightarrow> \<exists>p. m i = Some p \<and> heap_open m h xs i us p"
  by (auto simp: heap_rep_def heap_open_def seg_append)

lemma heap_open_rep:
  assumes "heap_open m h xs i us p" "m i = Some p" "us \<noteq> []"
  shows "heap_rep m h (xs @ [(i, us)])"
  using assms by (auto simp: heap_rep_def heap_open_def seg_append)

lemma heap_open_tuple:
  assumes "heap_open m h xs i us p" "represents p' INVALID_PAGE_ID ndel (us @ [x])" "length (snd x) \<le> MAX_TUPLE"
  shows "heap_open (m(i \<mapsto> p'')) h xs i (us @ [x]) p'"
proof -
  have "i \<notin> fst ` set xs" using assms(1) by (auto simp: heap_open_def sorted_wrt_append)
  then show ?thesis using assms by (auto simp: heap_open_def small_def)
qed

lemma distinct_page_rows: "distinct (map fst (page_rows (i, us)))"
  by (auto simp: page_rows_def distinct_conv_nth nth_enumerate_eq)

lemma distinct_heap_rows: "sorted_wrt (<) (map fst pgs) \<Longrightarrow> distinct (map fst (heap_rows pgs))"
proof (induction pgs)
  case (Cons x pgs)
  obtain i us where x: "x = (i, us)" by (cases x)
  have "fst ` set (page_rows x) \<inter> fst ` set (heap_rows pgs) = {}"
    using Cons.prems by (force simp: x page_rows_mem heap_rows_mem)
  then show ?case using Cons distinct_page_rows [of i us] by (simp add: heap_rows_def x)
qed (simp add: heap_rows_def)

text \<open>Rows the heap accepts, and a sequence of insertions.\<close>

definition row_ok :: "TupleMeta \<times> Tuple \<Rightarrow> bool" where
  "row_ok = (\<lambda>(m, t). in_range I64 (ts m) \<and> length (data t) \<le> MAX_TUPLE)"

fun insert_all :: "nat \<Rightarrow> 'b bpm \<Rightarrow> TableHeap \<Rightarrow> 'b \<Rightarrow> (TupleMeta \<times> Tuple) list \<Rightarrow> (RID list \<times> TableHeap \<times> 'b) result option" where
  "insert_all fuel bpm h b [] = Some (Inr ([], h, b))"
| "insert_all fuel bpm h b ((m, t) # rows) = (case TableHeap_InsertTuple fuel bpm None h b m t of None \<Rightarrow> None
     | Some (Inl e) \<Rightarrow> Some (Inl e)
     | Some (Inr (r, h, b)) \<Rightarrow> map_option (\<lambda>x. rbind x (\<lambda>(rs, h, b). Inr (r # rs, h, b))) (insert_all fuel bpm h b rows))"

section \<open>The heap over any pool\<close>

locale heap_on_pool = buffer_pool
begin

lemma ctor_rep:
  assumes "pool_inv b" "0 < quota b"
  obtains h b' where "TableHeap_ctor bpm b = Inr (h, b')" "pool_inv b'" "Suc (quota b') = quota b"
    "heap_rep (page_of b') h [(first_page_id h, [])]"
proof -
  obtain i b1 q where n: "NewPage bpm b = Inr (i, b1)" "pool_inv b1" "Suc (quota b1) = quota b" "0 \<le> i" "length q = BUSTUB_PAGE_SIZE"
      "page_of b1 = (page_of b)(i \<mapsto> q)"
    using NewPage_ok [OF assms] by blast
  obtain b2 where a: "AcquirePage bpm b1 i = Inr (q, b2)" "pool_inv b2" "page_of b2 = page_of b1" "quota b2 = quota b1"
    using AcquirePage_ok [OF n(2), of i q] n(6) by auto
  obtain q' where q': "Init q = Inr q'" "represents q' INVALID_PAGE_ID 0 []" using Init_represents [OF n(5)] by auto
  obtain b3 where d: "DropPage bpm b2 i q' = Inr b3" "pool_inv b3" "page_of b3 = (page_of b2)(i \<mapsto> q')" "quota b3 = quota b2"
    using DropPage_ok [OF a(2), of i q'] a(3) n(6) represents_length [OF q'(2)] by auto
  show ?thesis
    by (rule that [of "\<lparr> first_page_id = i, last_page_id = i \<rparr>" b3])
      (use n a q' d in \<open>auto simp: TableHeap_ctor_def heap_rep_def small_def\<close>)
qed

text \<open>The insertion when the last page has room, and when it does not.\<close>

lemma insert_fits:
  assumes h: "heap_open (page_of b) h xs i us p" "pool_inv b" and m: "in_range I64 (ts m)" and t: "length (data t) \<le> MAX_TUPLE"
    and fit: "info_offset (Suc (length us)) + length (data t) \<le> tup_off us (length us)"
    and lock: "lock_mgr = None \<or> lock_mgr = Some LockRow \<and> (\<forall>r. LockRow r)"
  shows "insert_loop (Suc fuel) bpm m t h b i p = Some (Inr (h, b, i, p))"
    "\<exists>b'. finish_insert bpm lock_mgr m t (h, b, i, p) = Inr (\<lparr> page_id = i, slot_num = length us \<rparr>, h, b') \<and>
     pool_inv b' \<and> quota b' = quota b \<and> heap_rep (page_of b') h (xs @ [(i, us @ [(m, data t)])])"
proof -
  obtain ndel where p: "represents p INVALID_PAGE_ID ndel us" "page_of b i \<noteq> None" "last_page_id h = i"
    using h by (auto simp: heap_open_def)
  show "insert_loop (Suc fuel) bpm m t h b i p = Some (Inr (h, b, i, p))"
    using GetNextTupleOffset_represents [OF p(1), of t m] fit by simp
  obtain p' where p': "TablePage_InsertTuple p m t = Inr (Some (length us), p')" "represents p' INVALID_PAGE_ID ndel (us @ [(m, data t)])"
    using InsertTuple_represents [OF p(1) m fit] by auto
  obtain b' where b': "DropPage bpm b i p' = Inr b'" "pool_inv b'" "page_of b' = (page_of b)(i \<mapsto> p')" "quota b' = quota b"
    using DropPage_ok [OF h(2), of i p'] p(2) represents_length [OF p'(2)] by auto
  have "heap_rep (page_of b') h (xs @ [(i, us @ [(m, data t)])])"
    using heap_open_tuple [OF h(1) p'(2), of p'] t b'(3) by (intro heap_open_rep [of _ _ _ _ _ p']) auto
  then show "\<exists>b'. finish_insert bpm lock_mgr m t (h, b, i, p) = Inr (\<lparr> page_id = i, slot_num = length us \<rparr>, h, b') \<and>
     pool_inv b' \<and> quota b' = quota b \<and> heap_rep (page_of b') h (xs @ [(i, us @ [(m, data t)])])"
    using p(3) p'(1) b' lock by (auto simp: finish_insert_def)
qed

lemma insert_full:
  assumes h: "heap_open (page_of b) h xs i us p" "pool_inv b" "0 < quota b" and ne: "us \<noteq> []" and t: "length (data t) \<le> MAX_TUPLE"
    and full: "\<not> info_offset (Suc (length us)) + length (data t) \<le> tup_off us (length us)"
  shows "\<exists>j q b'. (\<forall>fuel. insert_loop (Suc fuel) bpm m t h b i p = insert_loop fuel bpm m t (h \<lparr> last_page_id := j \<rparr>) b' j q) \<and>
     pool_inv b' \<and> Suc (quota b') = quota b \<and> heap_open (page_of b') (h \<lparr> last_page_id := j \<rparr>) (xs @ [(i, us)]) j [] q"
proof -
  obtain ndel where p: "represents p INVALID_PAGE_ID ndel us" "page_of b i \<noteq> None"
    using h by (auto simp: heap_open_def)
  have "length (data t) \<le> tup_off us (length us)"
    using small_no_wrap [OF p(1)] h(1) t by (auto simp: heap_open_def small_def)
  from GetNextTupleOffset_represents [OF p(1) this, of m] full have off: "GetNextTupleOffset p m t = Inr None" by simp
  obtain j b1 q where n: "NewPage bpm b = Inr (j, b1)" "pool_inv b1" "Suc (quota b1) = quota b" "0 \<le> j" "in_range I32 j"
      "\<forall>k \<in> dom (page_of b). k < j" "length q = BUSTUB_PAGE_SIZE" "page_of b1 = (page_of b)(j \<mapsto> q)"
    using NewPage_ok [OF h(2,3)] by blast
  obtain p1 where p1: "SetNextPageId p j = Inr p1" "represents p1 j ndel us"
    using SetNextPageId_represents [OF p(1) n(5)] by auto
  obtain b2 where a: "AcquirePage bpm b1 j = Inr (q, b2)" "pool_inv b2" "page_of b2 = page_of b1" "quota b2 = quota b1"
    using AcquirePage_ok [OF n(2), of j q] n(8) by auto
  obtain q' where q': "Init q = Inr q'" "represents q' INVALID_PAGE_ID 0 []" using Init_represents [OF n(7)] by auto
  obtain b3 where d: "DropPage bpm b2 i p1 = Inr b3" "pool_inv b3" "page_of b3 = (page_of b2)(i \<mapsto> p1)" "quota b3 = quota b2"
    using DropPage_ok [OF a(2), of i p1] a(3) n(8) p(2) represents_length [OF p1(2)] by (cases "i = j") auto
  have fresh: "k < j" if "k \<in> fst ` set xs \<or> k = i" for k
  proof -
    have "k \<in> dom (page_of b)" using that h(1) seg_page by (fastforce simp: heap_open_def)
    then show ?thesis using n(6) by blast
  qed
  have "i \<notin> fst ` set xs" "j \<notin> fst ` set xs" using h(1) fresh by (auto simp: heap_open_def sorted_wrt_append)
  then have "heap_open (page_of b3) (h \<lparr> last_page_id := j \<rparr>) (xs @ [(i, us)]) j [] q'"
    using h(1) ne d(3) a(3) n(4,8) p1 q' fresh
    by (auto simp: heap_open_def seg_append sorted_wrt_append small_def)
  moreover have "insert_loop (Suc fuel) bpm m t h b i p = insert_loop fuel bpm m t (h \<lparr> last_page_id := j \<rparr>) b3 j q'" for fuel
    using off n(1) p1(1) a(1) q'(1) d(1) represents_count [OF p(1)] ne by simp
  ultimately show ?thesis using d n a by (intro exI [of _ j] exI [of _ q'] exI [of _ b3]) simp
qed

lemma insert_appends:
  assumes h: "heap_rep (page_of b) h pgs" "pool_inv b" "0 < quota b" and m: "in_range I64 (ts m)" and t: "length (data t) \<le> MAX_TUPLE"
    and lock: "lock_mgr = None \<or> lock_mgr = Some LockRow \<and> (\<forall>r. LockRow r)" and fuel: "2 \<le> fuel"
  shows "\<exists>r h' b' pgs'. TableHeap_InsertTuple fuel bpm lock_mgr h b m t = Some (Inr (r, h', b')) \<and> pool_inv b' \<and>
     quota b \<le> Suc (quota b') \<and> heap_rep (page_of b') h' pgs' \<and> heap_rows pgs' = heap_rows pgs @ [(r, m, data t)]"
proof -
  obtain f where f: "fuel = Suc (Suc f)" using fuel by (metis One_nat_def Suc_1 Suc_le_D Suc_le_mono)
  obtain xs i us where pgs: "pgs = xs @ [(i, us)]" using h(1) by (cases pgs rule: rev_cases) (auto simp: heap_rep_def)
  obtain p where p: "page_of b i = Some p" using heap_rep_open h(1) pgs by blast
  obtain b0 where a: "AcquirePage bpm b i = Inr (p, b0)" "pool_inv b0" "page_of b0 = page_of b" "quota b0 = quota b"
    using AcquirePage_ok [OF h(2) p] by auto
  have o: "heap_open (page_of b0) h xs i us p" using heap_rep_open [of "page_of b" h xs i us] h(1) pgs p a(3) by auto
  have l: "last_page_id h = i" using h(1) pgs by (simp add: heap_rep_def)
  show ?thesis
  proof (cases "info_offset (Suc (length us)) + length (data t) \<le> tup_off us (length us)")
    case True
    show ?thesis using insert_fits [OF o a(2) m t True lock] a l f
      by (fastforce simp: TableHeap_InsertTuple_def pgs page_rows_snoc heap_rows_def)
  next
    case False
    have "us \<noteq> []" using False t by (auto simp: info_offset_def tup_off_def used_def MAX_TUPLE_def)
    then obtain j q b1 where f1: "\<And>fuel. insert_loop (Suc fuel) bpm m t h b0 i p = insert_loop fuel bpm m t (h \<lparr> last_page_id := j \<rparr>) b1 j q"
        "pool_inv b1" "Suc (quota b1) = quota b0" "heap_open (page_of b1) (h \<lparr> last_page_id := j \<rparr>) (xs @ [(i, us)]) j [] q"
      using insert_full [OF o a(2) _ _ t False] h(3) a(4) by metis
    have "info_offset (Suc (length [])) + length (data t) \<le> tup_off [] (length [])"
      using t by (simp add: info_offset_def tup_off_def used_def MAX_TUPLE_def)
    from insert_fits [OF f1(4,2) m t this lock] show ?thesis
      using a l f f1(1,3) by (fastforce simp: TableHeap_InsertTuple_def pgs page_rows_def heap_rows_def simp del: insert_loop.simps)
  qed
qed

lemma get_row:
  assumes h: "heap_rep (page_of b) h pgs" "pool_inv b" and r: "(r, m, d) \<in> set (heap_rows pgs)"
  shows "\<exists>b'. TableHeap_GetTuple bpm b r = Inr ((m, \<lparr> rid = r, data = d \<rparr>), b') \<and> pool_inv b' \<and> page_of b' = page_of b \<and> quota b' = quota b"
    "\<exists>b'. TableHeap_GetTupleMeta bpm b r = Inr (m, b') \<and> pool_inv b' \<and> page_of b' = page_of b"
proof -
  obtain us where us: "(page_id r, us) \<in> set pgs" "slot_num r < length us" "us ! slot_num r = (m, d)"
    using r by (auto simp: heap_rows_mem)
  obtain p nxt ndel where p: "page_of b (page_id r) = Some p" "represents p nxt ndel us"
    using h(1) us(1) seg_page by (fastforce simp: heap_rep_def)
  show "\<exists>b'. TableHeap_GetTuple bpm b r = Inr ((m, \<lparr> rid = r, data = d \<rparr>), b') \<and> pool_inv b' \<and> page_of b' = page_of b \<and> quota b' = quota b"
    "\<exists>b'. TableHeap_GetTupleMeta bpm b r = Inr (m, b') \<and> pool_inv b' \<and> page_of b' = page_of b"
    using AcquirePage_ok [OF h(2) p(1)] GetTuple_represents [OF p(2)] GetTupleMeta_represents [OF p(2)] us
    by (auto simp: TableHeap_GetTuple_def TableHeap_GetTupleMeta_def SetRid_def)
qed

text \<open>An update of one page that changes one of its tuples.\<close>

lemma update_rep:
  assumes h: "heap_rep (page_of b) h pgs" and pgs: "pgs = xs @ (i, us) # ys" and k: "k < length us"
    and p: "represents p' nxt ndel' (us[k := x])" "page_of b i = Some p" "represents p nxt ndel us"
    and x: "length (snd x) \<le> MAX_TUPLE" and b': "page_of b' = (page_of b)(i \<mapsto> p')"
  shows "heap_rep (page_of b') h (xs @ (i, us[k := x]) # ys)"
proof -
  have d: "i \<notin> fst ` set xs" "i \<notin> fst ` set ys" using h pgs by (auto simp: heap_rep_def sorted_wrt_append)
  obtain n nd where n: "seg (page_of b) xs (first_page_id h) i" "represents p n nd us" "seg (page_of b) ys n INVALID_PAGE_ID"
    using h p(2) by (auto simp: heap_rep_def pgs seg_append)
  then have "n = nxt" using represents_next [OF p(3)] represents_next [OF n(2)] by simp
  then have "seg (page_of b') (xs @ (i, us[k := x]) # ys) (first_page_id h) INVALID_PAGE_ID"
    using n p(1) d by (auto simp: seg_append b')
  moreover have "length (snd y) \<le> MAX_TUPLE" if "y \<in> set (us[k := x])" for y
    using that x h set_update_subset_insert [of us k x] by (auto simp: heap_rep_def small_def pgs)
  ultimately show ?thesis using h k unfolding pgs heap_rep_def small_def
    by (auto simp: last_append)
qed

lemma heap_split:
  assumes "heap_rep (page_of b) h pgs" "(r, m, d) \<in> set (heap_rows pgs)"
  obtains xs us ys p nxt ndel where "pgs = xs @ (page_id r, us) # ys" "slot_num r < length us" "us ! slot_num r = (m, d)"
    "page_of b (page_id r) = Some p" "represents p nxt ndel us" "length d \<le> MAX_TUPLE"
proof -
  obtain us where us: "(page_id r, us) \<in> set pgs" "slot_num r < length us" "us ! slot_num r = (m, d)"
    using assms(2) by (auto simp: heap_rows_mem)
  obtain p nxt ndel where p: "page_of b (page_id r) = Some p" "represents p nxt ndel us"
    using assms(1) us(1) seg_page by (fastforce simp: heap_rep_def)
  have "(m, d) \<in> set us" using us(2,3) by (metis nth_mem)
  then have "length d \<le> MAX_TUPLE" using assms(1) us(1) by (force simp: heap_rep_def small_def)
  with that us p split_list [OF us(1)] show ?thesis by blast
qed

lemma update_meta_row:
  assumes h: "heap_rep (page_of b) h pgs" "pool_inv b" and r: "(r, m, d) \<in> set (heap_rows pgs)" and m': "in_range I64 (ts m')"
  shows "\<exists>b' pgs'. TableHeap_UpdateTupleMeta bpm b m' r = Inr b' \<and> pool_inv b' \<and> quota b' = quota b \<and> heap_rep (page_of b') h pgs' \<and>
     heap_rows pgs' = set_row r (m', d) (heap_rows pgs)"
proof -
  obtain xs us ys p nxt ndel where p: "pgs = xs @ (page_id r, us) # ys" "slot_num r < length us" "us ! slot_num r = (m, d)"
      "page_of b (page_id r) = Some p" "represents p nxt ndel us" "length d \<le> MAX_TUPLE"
    by (rule heap_split [OF h(1) r])
  obtain b1 where a: "AcquirePage bpm b (page_id r) = Inr (p, b1)" "pool_inv b1" "page_of b1 = page_of b" "quota b1 = quota b"
    using AcquirePage_ok [OF h(2) p(4)] by auto
  obtain p' nd where p': "TablePage_UpdateTupleMeta p m' r = Inr p'" "represents p' nxt nd (us[slot_num r := (m', d)])"
    using UpdateTupleMeta_represents [OF p(5,2) m'] p(3) by auto
  obtain b2 where b2: "DropPage bpm b1 (page_id r) p' = Inr b2" "pool_inv b2" "page_of b2 = (page_of b1)(page_id r \<mapsto> p')" "quota b2 = quota b1"
    using DropPage_ok [OF a(2), of "page_id r" p'] a(3) p(4) represents_length [OF p'(2)] by auto
  have "heap_rep (page_of b2) h (xs @ (page_id r, us[slot_num r := (m', d)]) # ys)"
    by (rule update_rep [OF h(1) p(1,2) p'(2) p(4,5)]) (use p(6) a(3) b2(3) in simp_all)
  moreover have "heap_rows (xs @ (page_id r, us[slot_num r := (m', d)]) # ys) = set_row r (m', d) (heap_rows pgs)"
    using h(1) unfolding p(1) heap_rep_def by (intro heap_rows_update) blast
  ultimately show ?thesis using a b2 p'(1) by (auto simp: TableHeap_UpdateTupleMeta_def)
qed

lemma update_in_place_row:
  assumes h: "heap_rep (page_of b) h pgs" "pool_inv b" and r: "(r, m, d) \<in> set (heap_rows pgs)" and m': "in_range I64 (ts m')"
    and len: "length (data t) = length d" and chk: "chk = None \<or> chk = Some f \<and> f m \<lparr> rid = r, data = d \<rparr> r"
  shows "\<exists>b' pgs'. UpdateTupleInPlace bpm b m' t r chk = Inr (True, b') \<and> pool_inv b' \<and> quota b' = quota b \<and> heap_rep (page_of b') h pgs' \<and>
     heap_rows pgs' = set_row r (m', data t) (heap_rows pgs)"
proof -
  obtain xs us ys p nxt ndel where p: "pgs = xs @ (page_id r, us) # ys" "slot_num r < length us" "us ! slot_num r = (m, d)"
      "page_of b (page_id r) = Some p" "represents p nxt ndel us" "length d \<le> MAX_TUPLE"
    by (rule heap_split [OF h(1) r])
  obtain b1 where a: "AcquirePage bpm b (page_id r) = Inr (p, b1)" "pool_inv b1" "page_of b1 = page_of b" "quota b1 = quota b"
    using AcquirePage_ok [OF h(2) p(4)] by auto
  obtain p' nd where p': "UpdateTupleInPlaceUnsafe p m' t r = Inr p'" "represents p' nxt nd (us[slot_num r := (m', data t)])"
    using UpdateTupleInPlaceUnsafe_represents [OF p(5,2) m', of t] p(3) len by auto
  obtain b2 where b2: "DropPage bpm b1 (page_id r) p' = Inr b2" "pool_inv b2" "page_of b2 = (page_of b1)(page_id r \<mapsto> p')" "quota b2 = quota b1"
    using DropPage_ok [OF a(2), of "page_id r" p'] a(3) p(4) represents_length [OF p'(2)] by auto
  have "heap_rep (page_of b2) h (xs @ (page_id r, us[slot_num r := (m', data t)]) # ys)"
    by (rule update_rep [OF h(1) p(1,2) p'(2) p(4,5)]) (use p(6) a(3) b2(3) len in simp_all)
  moreover have "heap_rows (xs @ (page_id r, us[slot_num r := (m', data t)]) # ys) = set_row r (m', data t) (heap_rows pgs)"
    using h(1) unfolding p(1) heap_rep_def by (intro heap_rows_update) blast
  moreover have "TablePage_GetTuple p r = Inr (m, \<lparr> rid = r, data = d \<rparr>)"
    using GetTuple_represents [OF p(5), of r] p(2,3) by simp
  ultimately show ?thesis using a b2 p'(1) chk by (auto simp: UpdateTupleInPlace_def)
qed

text \<open>Scanning.\<close>

lemma next_ok:
  assumes h: "heap_rep (page_of b) h pgs" "pool_inv b" and pgs: "pgs = xs @ (i, us) # ys" and k: "k < length us"
  shows "\<exists>b'. TableIterator_next bpm b \<lparr> it_rid = \<lparr> page_id = i, slot_num = k \<rparr>, stop_at_rid = last_rid pgs \<rparr> =
     Inr (\<lparr> it_rid = (if Suc k < length us then \<lparr> page_id = i, slot_num = Suc k \<rparr>
                       else case ys of [] \<Rightarrow> end_rid | (j, vs) # _ \<Rightarrow> \<lparr> page_id = j, slot_num = 0 \<rparr>),
            stop_at_rid = last_rid pgs \<rparr>, b') \<and> pool_inv b' \<and> page_of b' = page_of b"
proof -
  obtain p nxt ndel where p: "page_of b i = Some p" "represents p nxt ndel us" "seg (page_of b) ys nxt INVALID_PAGE_ID"
    using h(1) by (auto simp: heap_rep_def pgs seg_append)
  obtain b1 where a: "AcquirePage bpm b i = Inr (p, b1)" "pool_inv b1" "page_of b1 = page_of b"
    using AcquirePage_ok [OF h(2) p(1)] by auto
  note c = represents_count [OF p(2)] represents_next [OF p(2)]
  have "0 \<le> page_id (last_rid pgs)" using h(1) by (auto simp: heap_rep_def last_rid_def)
  then have stop: "page_id (last_rid pgs) \<noteq> INVALID_PAGE_ID" by (simp add: INVALID_PAGE_ID_def)
  show ?thesis
  proof (cases ys)
    case Nil
    then have "last_rid pgs = \<lparr> page_id = i, slot_num = length us \<rparr>" by (simp add: last_rid_def pgs)
    then show ?thesis using Nil a c k by (auto simp: TableIterator_next_def Let_def)
  next
    case (Cons y zs)
    then have lt: "i < page_id (last_rid pgs)" using h(1) by (auto simp: last_rid_def pgs heap_rep_def sorted_wrt_append)
    obtain j vs where y: "y = (j, vs)" by (cases y)
    then have "nxt = j" using p(3) Cons by simp
    moreover have "\<lparr> page_id = i, slot_num = n \<rparr> \<noteq> last_rid pgs" for n using lt by (metis RID.select_convs(1) less_irrefl)
    ultimately show ?thesis using Cons y a c k lt by (auto simp: TableIterator_next_def Let_def)
  qed
qed

lemma scan_from:
  assumes h: "heap_rep (page_of b) h pgs" "pool_inv b" and pgs: "pgs = xs @ (i, us) # ys" and k: "k < length us"
    and fuel: "length (drop k (page_rows (i, us)) @ heap_rows ys) < fuel"
  shows "scan fuel bpm b \<lparr> it_rid = \<lparr> page_id = i, slot_num = k \<rparr>, stop_at_rid = last_rid pgs \<rparr> =
     Some (Inr (map row_tuple (drop k (page_rows (i, us)) @ heap_rows ys)))"
  using assms
proof (induction fuel arbitrary: b xs i us ys k)
  case (Suc fuel)
  let ?r = "\<lparr> page_id = i, slot_num = k \<rparr>"
  let ?it = "\<lparr> it_rid = ?r, stop_at_rid = last_rid pgs \<rparr>"
  obtain m d where x: "us ! k = (m, d)" by (cases "us ! k")
  have dr: "drop k (page_rows (i, us)) = (?r, m, d) # drop (Suc k) (page_rows (i, us))"
    using Suc.prems(4) x by (simp add: Cons_nth_drop_Suc [symmetric] page_rows_def nth_enumerate_eq)
  have "(?r, m, d) \<in> set (heap_rows pgs)" using Suc.prems(3,4) x by (auto simp: heap_rows_mem)
  then obtain b1 where g: "TableHeap_GetTuple bpm b ?r = Inr ((m, \<lparr> rid = ?r, data = d \<rparr>), b1)" "pool_inv b1" "page_of b1 = page_of b"
    using get_row(1) [OF Suc.prems(1,2)] by blast
  have h1: "heap_rep (page_of b1) h pgs" using Suc.prems(1) g(3) by simp
  obtain b2 where n: "TableIterator_next bpm b1 ?it =
      Inr (\<lparr> it_rid = (if Suc k < length us then \<lparr> page_id = i, slot_num = Suc k \<rparr>
             else case ys of [] \<Rightarrow> end_rid | (j, vs) # _ \<Rightarrow> \<lparr> page_id = j, slot_num = 0 \<rparr>), stop_at_rid = last_rid pgs \<rparr>, b2)"
      "pool_inv b2" "page_of b2 = page_of b"
    using next_ok [OF h1 g(2) Suc.prems(3,4)] g(3) by auto
  have h2: "heap_rep (page_of b2) h pgs" using Suc.prems(1) n(3) by simp
  have i: "0 \<le> i" using Suc.prems(1,3) by (simp add: heap_rep_def)
  have rest: "scan fuel bpm b2 \<lparr> it_rid = (if Suc k < length us then \<lparr> page_id = i, slot_num = Suc k \<rparr>
             else case ys of [] \<Rightarrow> end_rid | (j, vs) # _ \<Rightarrow> \<lparr> page_id = j, slot_num = 0 \<rparr>), stop_at_rid = last_rid pgs \<rparr> =
      Some (Inr (map row_tuple (drop (Suc k) (page_rows (i, us)) @ heap_rows ys)))"
  proof (cases "Suc k < length us")
    case True
    then show ?thesis using Suc.IH [OF h2 n(2) Suc.prems(3) True] Suc.prems(5) dr by simp
  next
    case False
    then have dk: "drop (Suc k) (page_rows (i, us)) = []" by (simp add: page_rows_def)
    show ?thesis
    proof (cases ys)
      case Nil
      obtain f where "fuel = Suc f" using Suc.prems(5) dr by (cases fuel) auto
      then show ?thesis using False Nil dk by (simp add: IsEnd_def end_rid_def heap_rows_def)
    next
      case (Cons y zs)
      obtain j vs where y: "y = (j, vs)" by (cases y)
      have "vs \<noteq> []" using Suc.prems(1,3) Cons y by (auto simp: heap_rep_def)
      moreover have "pgs = (xs @ [(i, us)]) @ (j, vs) # zs" using Suc.prems(3) Cons y by simp
      ultimately show ?thesis
        using Suc.IH [OF h2 n(2), of "xs @ [(i, us)]" j vs zs 0] False Cons y dk Suc.prems(5) dr by (simp add: heap_rows_def)
    qed
  qed
  show ?case
    using g(1) n(1) rest i dr by (simp add: TableIterator_GetTuple_def IsEnd_def INVALID_PAGE_ID_def row_tuple_def)
qed simp

lemma scan_all:
  assumes h: "heap_rep (page_of b) h pgs" "pool_inv b" and fuel: "length (heap_rows pgs) < fuel"
  shows "\<exists>it b'. MakeIterator bpm h b = Inr (it, b') \<and> pool_inv b' \<and> page_of b' = page_of b \<and>
     scan fuel bpm b' it = Some (Inr (map row_tuple (heap_rows pgs)))"
proof -
  obtain i us ys where pgs: "pgs = [] @ (i, us) # ys" using h(1) by (cases pgs) (auto simp: heap_rep_def)
  have f: "first_page_id h = i" "0 \<le> i" using h(1) pgs by (auto simp: heap_rep_def)
  obtain p nxt ndel where p: "page_of b i = Some p" "represents p nxt ndel us"
    using h(1) pgs by (auto simp: heap_rep_def)
  obtain vs where l: "last pgs = (last_page_id h, vs)" using h(1) by (cases "last pgs") (simp add: heap_rep_def)
  then have "(last_page_id h, vs) \<in> set pgs" using pgs by (metis last_in_set append_is_Nil_conv list.discI)
  then obtain p2 n2 d2 where p2: "page_of b (last_page_id h) = Some p2" "represents p2 n2 d2 vs"
    using h(1) seg_page by (fastforce simp: heap_rep_def)
  obtain b1 where a: "AcquirePage bpm b (last_page_id h) = Inr (p2, b1)" "pool_inv b1" "page_of b1 = page_of b"
    using AcquirePage_ok [OF h(2) p2(1)] by auto
  obtain b2 where b2: "AcquirePage bpm b1 i = Inr (p, b2)" "pool_inv b2" "page_of b2 = page_of b"
    using AcquirePage_ok [OF a(2), of i p] p(1) a(3) by auto
  let ?it = "\<lparr> it_rid = (if us = [] then end_rid else \<lparr> page_id = i, slot_num = 0 \<rparr>), stop_at_rid = last_rid pgs \<rparr>"
  have "MakeIterator bpm h b = Inr (?it, b2)"
    using a(1) b2(1) represents_count [OF p(2)] represents_count [OF p2(2)] f l
    by (auto simp: MakeIterator_def TableIterator_ctor_def INVALID_PAGE_ID_def last_rid_def)
  moreover have "scan fuel bpm b2 ?it = Some (Inr (map row_tuple (heap_rows pgs)))"
  proof (cases "us = []")
    case True
    then have "ys = []" using h(1) pgs by (auto simp: heap_rep_def)
    then show ?thesis using True pgs fuel
      by (cases fuel) (auto simp: IsEnd_def end_rid_def heap_rows_def page_rows_def)
  next
    case False
    then show ?thesis
      using scan_from [of b2 h pgs "[]" i us ys 0 fuel] h(1) b2 fuel pgs by (simp add: heap_rows_def)
  qed
  ultimately show ?thesis using b2 by blast
qed

lemma insert_all_rows:
  assumes "heap_rep (page_of b) h pgs" "pool_inv b" "length rows \<le> quota b" "list_all row_ok rows" "2 \<le> fuel"
  shows "\<exists>rids h' b' pgs'. insert_all fuel bpm h b rows = Some (Inr (rids, h', b')) \<and> length rids = length rows \<and> pool_inv b' \<and>
     heap_rep (page_of b') h' pgs' \<and> heap_rows pgs' = heap_rows pgs @ zip rids (map (\<lambda>(m, t). (m, data t)) rows)"
  using assms
proof (induction rows arbitrary: b h pgs)
  case (Cons x rows)
  obtain m t where x: "x = (m, t)" by (cases x)
  obtain r h1 b1 pgs1 where i: "TableHeap_InsertTuple fuel bpm None h b m t = Some (Inr (r, h1, b1))" "pool_inv b1"
      "quota b \<le> Suc (quota b1)" "heap_rep (page_of b1) h1 pgs1" "heap_rows pgs1 = heap_rows pgs @ [(r, m, data t)]"
    using insert_appends [OF Cons.prems(1,2), of m t None _ fuel] Cons.prems x by (auto simp: row_ok_def)
  obtain rids h' b' pgs' where r: "insert_all fuel bpm h1 b1 rows = Some (Inr (rids, h', b'))" "length rids = length rows" "pool_inv b'"
      "heap_rep (page_of b') h' pgs'" "heap_rows pgs' = heap_rows pgs1 @ zip rids (map (\<lambda>(m, t). (m, data t)) rows)"
    using Cons.IH [OF i(4,2)] Cons.prems i(3) by auto
  show ?case using i r x by (intro exI [of _ "r # rids"] exI [of _ h'] exI [of _ b'] exI [of _ pgs']) simp
qed auto

end

interpretation file_heap: heap_on_pool "direct_pool (WritePage io_ok) (ReadPage io_ok)" "direct_inv disk_inv disk_contents 131071"
  "direct_pages disk_contents" "direct_quota 131071"
  by unfold_locales

interpretation memory_heap: heap_on_pool "direct_pool (Unlimited_WritePage tid) (Unlimited_ReadPage tid)"
  "direct_inv um_inv um_contents (cmax I32)" "direct_pages um_contents" "direct_quota (cmax I32)" for tid
  by unfold_locales

section \<open>Properties of the table heap\<close>

text \<open>On every buffer pool that keeps its contract, an insertion of a tuple of at most 440
  bytes into a heap returns (after at most two turns of its loop), appends exactly that row under a
  new RID, and leaves every other row as it was.\<close>
theorem heap_insert_appends:
  assumes "buffer_pool bpm pool_inv page_of quota" "heap_rep (page_of b) h pgs" "pool_inv b" "0 < quota b"
    and "in_range I64 (ts m)" "length (data t) \<le> MAX_TUPLE" "2 \<le> fuel"
  shows "\<exists>r h' b' pgs'. TableHeap_InsertTuple fuel bpm None h b m t = Some (Inr (r, h', b')) \<and> pool_inv b' \<and>
     heap_rep (page_of b') h' pgs' \<and> heap_rows pgs' = heap_rows pgs @ [(r, m, data t)] \<and> r \<notin> fst ` set (heap_rows pgs)"
proof -
  have l: "heap_on_pool bpm pool_inv page_of quota" using assms(1) by (simp add: heap_on_pool_def)
  obtain r h' b' pgs' where r: "TableHeap_InsertTuple fuel bpm None h b m t = Some (Inr (r, h', b'))" "pool_inv b'"
      "heap_rep (page_of b') h' pgs'" "heap_rows pgs' = heap_rows pgs @ [(r, m, data t)]"
    using heap_on_pool.insert_appends [OF l assms(2-6), of None _ fuel] assms(7) by auto
  have "distinct (map fst (heap_rows pgs'))" using r(3) by (intro distinct_heap_rows) (simp add: heap_rep_def)
  then show ?thesis using r by auto
qed

lemma fresh_memory_heap:
  obtains h b where "TableHeap_ctor (direct_pool (Unlimited_WritePage 1) (Unlimited_ReadPage 1)) (DiskManagerUnlimitedMemory_ctor, 0) = Inr (h, b)"
    "direct_inv um_inv um_contents (cmax I32) b" "0 < direct_quota (cmax I32) b"
    "heap_rep (direct_pages um_contents b) h [(first_page_id h, [])]"
proof -
  have i: "direct_inv um_inv um_contents (cmax I32) (DiskManagerUnlimitedMemory_ctor, 0)"
    by (auto simp: direct_inv_def um_inv_def DiskManagerUnlimitedMemory_ctor_def um_contents_def DEFAULT_DB_IO_SIZE_def split: if_splits)
  have q: "0 < direct_quota (cmax I32) (DiskManagerUnlimitedMemory_ctor, 0)" by (simp add: direct_quota_def)
  show ?thesis
    by (rule memory_heap.ctor_rep [OF i q], rule that) (auto simp: direct_quota_def)
qed

theorem heap_insert_appends_witness:
  "\<exists>h b h' b' pgs' r. TableHeap_ctor (direct_pool (Unlimited_WritePage 1) (Unlimited_ReadPage 1)) (DiskManagerUnlimitedMemory_ctor, 0) = Inr (h, b) \<and>
     TableHeap_InsertTuple 2 (direct_pool (Unlimited_WritePage 1) (Unlimited_ReadPage 1)) None h b
       \<lparr> ts = 5, is_deleted = False \<rparr> \<lparr> rid = end_rid, data = ''abc'' \<rparr> = Some (Inr (r, h', b')) \<and>
     heap_rep (direct_pages um_contents b') h' pgs' \<and> heap_rows pgs' = [(r, \<lparr> ts = 5, is_deleted = False \<rparr>, ''abc'')]"
proof -
  obtain h b where c: "TableHeap_ctor (direct_pool (Unlimited_WritePage 1) (Unlimited_ReadPage 1)) (DiskManagerUnlimitedMemory_ctor, 0) = Inr (h, b)"
      "direct_inv um_inv um_contents (cmax I32) b" "0 < direct_quota (cmax I32) b" "heap_rep (direct_pages um_contents b) h [(first_page_id h, [])]"
    by (rule fresh_memory_heap)
  have "buffer_pool (direct_pool (Unlimited_WritePage 1) (Unlimited_ReadPage 1)) (direct_inv um_inv um_contents (cmax I32))
      (direct_pages um_contents) (direct_quota (cmax I32))" by unfold_locales
  from heap_insert_appends [OF this c(4,2,3), of "\<lparr> ts = 5, is_deleted = False \<rparr>" "\<lparr> rid = end_rid, data = ''abc'' \<rparr>" 2]
  obtain r h' b' pgs' where "TableHeap_InsertTuple 2 (direct_pool (Unlimited_WritePage 1) (Unlimited_ReadPage 1)) None h b
       \<lparr> ts = 5, is_deleted = False \<rparr> \<lparr> rid = end_rid, data = ''abc'' \<rparr> = Some (Inr (r, h', b'))"
      "heap_rep (direct_pages um_contents b') h' pgs'" "heap_rows pgs' = [(r, \<lparr> ts = 5, is_deleted = False \<rparr>, ''abc'')]"
    by (auto simp: in_range_def MAX_TUPLE_def heap_rows_def page_rows_def)
  then show ?thesis using c(1) by blast
qed

text \<open>C22: On every buffer pool that keeps its contract, \<open>GetTuple\<close> and \<open>GetTupleMeta\<close> return the row
  of an RID of the heap, and after \<open>UpdateTupleMeta\<close> or a matching \<open>UpdateTupleInPlace\<close> exactly that
  row has changed.\<close>
theorem heap_rows_access:
  assumes "buffer_pool bpm pool_inv page_of quota" "heap_rep (page_of b) h pgs" "pool_inv b" "(r, m, d) \<in> set (heap_rows pgs)"
    and "in_range I64 (ts m')" "length (data t) = length d"
  shows "\<exists>b1 b2 b3 b4 pgs3 pgs4. TableHeap_GetTuple bpm b r = Inr ((m, \<lparr> rid = r, data = d \<rparr>), b1) \<and> page_of b1 = page_of b \<and>
     TableHeap_GetTupleMeta bpm b r = Inr (m, b2) \<and> page_of b2 = page_of b \<and>
     TableHeap_UpdateTupleMeta bpm b m' r = Inr b3 \<and> heap_rep (page_of b3) h pgs3 \<and> heap_rows pgs3 = set_row r (m', d) (heap_rows pgs) \<and>
     UpdateTupleInPlace bpm b m' t r None = Inr (True, b4) \<and> heap_rep (page_of b4) h pgs4 \<and> heap_rows pgs4 = set_row r (m', data t) (heap_rows pgs)"
proof -
  have l: "heap_on_pool bpm pool_inv page_of quota" using assms(1) by (simp add: heap_on_pool_def)
  show ?thesis
    using heap_on_pool.get_row [OF l assms(2-4)] heap_on_pool.update_meta_row [OF l assms(2-5)]
      heap_on_pool.update_in_place_row [OF l assms(2-6), of None] by blast
qed

theorem heap_rows_access_witness:
  "\<exists>h b r b1 b3 pgs pgs3. heap_rep (direct_pages um_contents b) h pgs \<and> heap_rows pgs = [(r, \<lparr> ts = 5, is_deleted = False \<rparr>, ''abc'')] \<and>
     TableHeap_GetTuple (direct_pool (Unlimited_WritePage 1) (Unlimited_ReadPage 1)) b r =
       Inr ((\<lparr> ts = 5, is_deleted = False \<rparr>, \<lparr> rid = r, data = ''abc'' \<rparr>), b1) \<and>
     TableHeap_UpdateTupleMeta (direct_pool (Unlimited_WritePage 1) (Unlimited_ReadPage 1)) b \<lparr> ts = 9, is_deleted = True \<rparr> r = Inr b3 \<and>
     heap_rep (direct_pages um_contents b3) h pgs3 \<and> heap_rows pgs3 = [(r, \<lparr> ts = 9, is_deleted = True \<rparr>, ''abc'')]"
proof -
  obtain h0 b0 where c: "direct_inv um_inv um_contents (cmax I32) b0" "0 < direct_quota (cmax I32) b0" "heap_rep (direct_pages um_contents b0) h0 [(first_page_id h0, [])]"
    by (rule fresh_memory_heap)
  let ?m = "\<lparr> ts = 5, is_deleted = False \<rparr>"
  have "\<exists>r h b pgs. TableHeap_InsertTuple 2 (direct_pool (Unlimited_WritePage 1) (Unlimited_ReadPage 1)) None h0 b0 ?m \<lparr> rid = end_rid, data = ''abc'' \<rparr> = Some (Inr (r, h, b)) \<and>
     direct_inv um_inv um_contents (cmax I32) b \<and> direct_quota (cmax I32) b0 \<le> Suc (direct_quota (cmax I32) b) \<and> heap_rep (direct_pages um_contents b) h pgs \<and>
     heap_rows pgs = heap_rows [(first_page_id h0, [])] @ [(r, ?m, data \<lparr> rid = end_rid, data = ''abc'' \<rparr>)]"
    by (rule memory_heap.insert_appends [OF c(3,1,2)]) (simp_all add: in_range_def MAX_TUPLE_def)
  then obtain r h b pgs where p: "direct_inv um_inv um_contents (cmax I32) b" "heap_rep (direct_pages um_contents b) h pgs" "heap_rows pgs = [(r, ?m, ''abc'')]"
    by (auto simp: heap_rows_def page_rows_def)
  have l: "buffer_pool (direct_pool (Unlimited_WritePage 1) (Unlimited_ReadPage 1)) (direct_inv um_inv um_contents (cmax I32))
      (direct_pages um_contents) (direct_quota (cmax I32))" by unfold_locales
  have x: "(r, ?m, ''abc'') \<in> set (heap_rows pgs)" by (simp add: p(3))
  from heap_rows_access [OF l p(2,1) x, of "\<lparr> ts = 9, is_deleted = True \<rparr>" "\<lparr> rid = r, data = ''xyz'' \<rparr>"]
  obtain b1 b3 pgs3 where "TableHeap_GetTuple (direct_pool (Unlimited_WritePage 1) (Unlimited_ReadPage 1)) b r = Inr ((?m, \<lparr> rid = r, data = ''abc'' \<rparr>), b1)"
     "TableHeap_UpdateTupleMeta (direct_pool (Unlimited_WritePage 1) (Unlimited_ReadPage 1)) b \<lparr> ts = 9, is_deleted = True \<rparr> r = Inr b3"
     "heap_rep (direct_pages um_contents b3) h pgs3" "heap_rows pgs3 = set_row r (\<lparr> ts = 9, is_deleted = True \<rparr>, ''abc'') (heap_rows pgs)"
    by (auto simp: in_range_def)
  moreover have "set_row r (\<lparr> ts = 9, is_deleted = True \<rparr>, ''abc'') (heap_rows pgs) = [(r, \<lparr> ts = 9, is_deleted = True \<rparr>, ''abc'')]"
    by (simp add: p(3) set_row_def)
  ultimately show ?thesis using p(2,3) by metis
qed



end
