(* ===== verification/Indexes.thy ===== *)
theory Indexes
  imports Tuples "HOL-Library.List_Lexorder"
begin

text \<open>
  Indexes (include/storage/index): the fixed-size keys with their comparator (\<open>generic_key.h\<close>), the
  index metadata and the \<open>Index\<close> interface (\<open>index.h\<close>), and the two indexes over the containers of the
  standard library (\<open>stl_ordered.h\<close>, \<open>stl_unordered.h\<close>).  The containers are modelled by the sequence
  of their elements: a \<open>std::map\<close> in the order of its comparator, searched by lower bound, and a
  \<open>std::unordered_map\<close> whose \<open>find\<close> compares hash codes and then keys.  The B+ tree and the
  extendible hash table of the repository throw.
\<close>

section \<open>Keys\<close>

text \<open>A \<open>GenericKey<N>\<close> is its \<open>N\<close> bytes.\<close>

definition SetFromKey :: "nat \<Rightarrow> Tuple \<Rightarrow> buffer result" where
  "SetFromKey N t = rbind (read_at (data t) 0 (GetLength t)) (\<lambda>bs. write_at (replicate N (char_of (0::nat))) 0 bs)"

definition SetFromInteger :: "nat \<Rightarrow> int \<Rightarrow> buffer result" where
  "SetFromInteger N key = write_at (replicate N (char_of (0::nat))) 0 (le_encode 8 (nat (key mod 2 ^ 64)))"

definition GetAsInteger :: "buffer \<Rightarrow> int result" where
  "GetAsInteger k = rbind (read_at k 0 8) (\<lambda>bs. Inr (static_cast I64 (int (le_decode bs))))"

definition ToValue :: "buffer \<Rightarrow> Schema \<Rightarrow> nat \<Rightarrow> Value result" where
  "ToValue k schema column_idx = rbind (GetColumn schema column_idx) (\<lambda>col.
     rbind (if Column_IsInlined col then Inr (column_offset col)
            else rbind (read_at k (column_offset col) 4) (\<lambda>bs.
              let offset = static_cast I32 (int (le_decode bs)) in
              if offset < 0 then Inl Undefined else Inr (nat offset)))
       (\<lambda>p. Value_DeserializeFrom k p (column_type col)))"

fun GenericComparator_loop :: "Schema \<Rightarrow> buffer \<Rightarrow> buffer \<Rightarrow> nat list \<Rightarrow> int result" where
  "GenericComparator_loop s lhs rhs [] = Inr 0"
| "GenericComparator_loop s lhs rhs (i # is) = rbind (ToValue lhs s i) (\<lambda>lhs_value. rbind (ToValue rhs s i) (\<lambda>rhs_value.
     rbind (CompareLessThan lhs_value rhs_value) (\<lambda>lt. if lt = CmpTrue then Inr (- 1) else
     rbind (CompareGreaterThan lhs_value rhs_value) (\<lambda>gt. if gt = CmpTrue then Inr 1 else
       GenericComparator_loop s lhs rhs is))))"

definition GenericComparator :: "Schema \<Rightarrow> buffer \<Rightarrow> buffer \<Rightarrow> int result" where
  "GenericComparator key_schema lhs rhs = GenericComparator_loop key_schema lhs rhs [0..<GetColumnCount key_schema]"

definition StlComparatorWrapper :: "('k \<Rightarrow> 'k \<Rightarrow> int result) \<Rightarrow> 'k \<Rightarrow> 'k \<Rightarrow> bool result" where
  "StlComparatorWrapper cmp lhs rhs = rbind (cmp lhs rhs) (\<lambda>c. Inr (c < 0))"

definition StlEqualWrapper :: "('k \<Rightarrow> 'k \<Rightarrow> int result) \<Rightarrow> 'k \<Rightarrow> 'k \<Rightarrow> bool result" where
  "StlEqualWrapper cmp lhs rhs = rbind (cmp lhs rhs) (\<lambda>c. Inr (c = 0))"

definition IntComparator :: "int \<Rightarrow> int \<Rightarrow> int" where
  "IntComparator lhs rhs = (if lhs < rhs then - 1 else if rhs < lhs then 1 else 0)"

section \<open>The containers of the standard library\<close>

text \<open>\<open>std::map\<close>: \<open>lower_bound\<close> is the position of the first element that is not less than the key.
  (The standard leaves a map undefined whose comparator is not a strict weak order.)\<close>

fun map_lower_bound :: "('k \<Rightarrow> 'k \<Rightarrow> bool result) \<Rightarrow> ('k \<times> 'v) list \<Rightarrow> 'k \<Rightarrow> nat result" where
  "map_lower_bound lt [] k = Inr 0"
| "map_lower_bound lt (e # m) k = rbind (lt (fst e) k) (\<lambda>b.
     if b then rbind (map_lower_bound lt m k) (\<lambda>i. Inr (Suc i)) else Inr 0)"

definition map_find :: "('k \<Rightarrow> 'k \<Rightarrow> bool result) \<Rightarrow> ('k \<times> 'v) list \<Rightarrow> 'k \<Rightarrow> nat option result" where
  "map_find lt m k = rbind (map_lower_bound lt m k) (\<lambda>i.
     if i < length m then rbind (lt k (fst (m ! i))) (\<lambda>b. Inr (if b then None else Some i)) else Inr None)"

definition map_count :: "('k \<Rightarrow> 'k \<Rightarrow> bool result) \<Rightarrow> ('k \<times> 'v) list \<Rightarrow> 'k \<Rightarrow> nat result" where
  "map_count lt m k = rbind (map_find lt m k) (\<lambda>p. Inr (if p = None then 0 else 1))"

definition map_emplace :: "('k \<Rightarrow> 'k \<Rightarrow> bool result) \<Rightarrow> ('k \<times> 'v) list \<Rightarrow> 'k \<Rightarrow> 'v \<Rightarrow> ('k \<times> 'v) list result" where
  "map_emplace lt m k v = rbind (map_find lt m k) (\<lambda>p. if p \<noteq> None then Inr m else
     rbind (map_lower_bound lt m k) (\<lambda>i. Inr (take i m @ (k, v) # drop i m)))"

definition erase_at :: "nat \<Rightarrow> 'a list \<Rightarrow> 'a list" where
  "erase_at i m = take i m @ drop (Suc i) m"

definition map_erase :: "('k \<Rightarrow> 'k \<Rightarrow> bool result) \<Rightarrow> ('k \<times> 'v) list \<Rightarrow> 'k \<Rightarrow> ('k \<times> 'v) list result" where
  "map_erase lt m k = rbind (map_find lt m k) (\<lambda>p. Inr (case p of None \<Rightarrow> m | Some i \<Rightarrow> erase_at i m))"

text \<open>\<open>std::unordered_map\<close>, the elements in no particular order.\<close>

fun umap_find :: "('k \<Rightarrow> 'k \<Rightarrow> bool result) \<Rightarrow> ('k \<Rightarrow> nat) \<Rightarrow> ('k \<times> 'v) list \<Rightarrow> 'k \<Rightarrow> nat option result" where
  "umap_find eq hash [] k = Inr None"
| "umap_find eq hash (e # m) k = rbind (if hash k = hash (fst e) then eq k (fst e) else Inr False) (\<lambda>b.
     if b then Inr (Some 0) else rbind (umap_find eq hash m k) (\<lambda>p. Inr (map_option Suc p)))"

definition umap_emplace :: "('k \<Rightarrow> 'k \<Rightarrow> bool result) \<Rightarrow> ('k \<Rightarrow> nat) \<Rightarrow> ('k \<times> 'v) list \<Rightarrow> 'k \<Rightarrow> 'v \<Rightarrow> ('k \<times> 'v) list result" where
  "umap_emplace eq hash m k v = rbind (umap_find eq hash m k) (\<lambda>p. Inr (if p \<noteq> None then m else (k, v) # m))"

section \<open>The indexes\<close>

record IndexMetadata =
  im_name :: string
  im_table_name :: string
  im_key_attrs :: "nat list"
  im_key_schema :: Schema
  im_is_primary_key :: bool

definition IndexMetadata_ctor :: "string \<Rightarrow> string \<Rightarrow> Schema \<Rightarrow> nat list \<Rightarrow> bool \<Rightarrow> IndexMetadata result" where
  "IndexMetadata_ctor index_name table_name tuple_schema key_attrs is_primary_key =
     rbind (CopySchema tuple_schema key_attrs) (\<lambda>ks. Inr \<lparr> im_name = index_name, im_table_name = table_name,
       im_key_attrs = key_attrs, im_key_schema = ks, im_is_primary_key = is_primary_key \<rparr>)"

definition GetIndexColumnCount :: "IndexMetadata \<Rightarrow> nat" where
  "GetIndexColumnCount m = length (im_key_attrs m) mod 2 ^ 32"

definition IndexMetadata_ToString :: "IndexMetadata \<Rightarrow> string" where
  "IndexMetadata_ToString m = ''IndexMetadata['' @ ''Name = '' @ im_name m @ '', '' @ ''Type = B+Tree, ''
     @ ''Table name = '' @ im_table_name m @ ''] :: '' @ Schema_ToString True (im_key_schema m)"

text \<open>An index with \<open>GenericKey<N>\<close> keys: \<open>N\<close>, the metadata and the elements of its container.\<close>

record STLOrderedIndex =
  o_key_size :: nat
  o_metadata :: IndexMetadata
  o_data :: "(buffer \<times> RID) list"

definition STLOrderedIndex_ctor :: "nat \<Rightarrow> IndexMetadata \<Rightarrow> STLOrderedIndex" where
  "STLOrderedIndex_ctor N m = \<lparr> o_key_size = N, o_metadata = m, o_data = [] \<rparr>"

definition o_less :: "STLOrderedIndex \<Rightarrow> buffer \<Rightarrow> buffer \<Rightarrow> bool result" where
  "o_less ix = StlComparatorWrapper (GenericComparator (im_key_schema (o_metadata ix)))"

definition STLOrderedIndex_InsertEntry :: "STLOrderedIndex \<Rightarrow> Tuple \<Rightarrow> RID \<Rightarrow> (bool \<times> STLOrderedIndex) result" where
  "STLOrderedIndex_InsertEntry ix key r = rbind (SetFromKey (o_key_size ix) key) (\<lambda>index_key.
     rbind (map_count (o_less ix) (o_data ix) index_key) (\<lambda>c.
       if c = 1 then Inr (False, ix)
       else rbind (map_emplace (o_less ix) (o_data ix) index_key r) (\<lambda>d. Inr (True, ix \<lparr> o_data := d \<rparr>))))"

definition STLOrderedIndex_DeleteEntry :: "STLOrderedIndex \<Rightarrow> Tuple \<Rightarrow> RID \<Rightarrow> STLOrderedIndex result" where
  "STLOrderedIndex_DeleteEntry ix key r = rbind (SetFromKey (o_key_size ix) key) (\<lambda>index_key.
     rbind (map_erase (o_less ix) (o_data ix) index_key) (\<lambda>d. Inr (ix \<lparr> o_data := d \<rparr>)))"

definition STLOrderedIndex_ScanKey :: "STLOrderedIndex \<Rightarrow> Tuple \<Rightarrow> RID list result" where
  "STLOrderedIndex_ScanKey ix key = rbind (SetFromKey (o_key_size ix) key) (\<lambda>index_key.
     rbind (map_find (o_less ix) (o_data ix) index_key) (\<lambda>p.
       Inr (case p of None \<Rightarrow> [] | Some i \<Rightarrow> [snd (o_data ix ! i)])))"

text \<open>An iterator is a position in the map; dereferencing or advancing the end is undefined.\<close>

definition STLOrderedIndex_GetBeginIterator :: "STLOrderedIndex \<Rightarrow> nat" where
  "STLOrderedIndex_GetBeginIterator ix = 0"

definition STLOrderedIndex_GetBeginIterator_key :: "STLOrderedIndex \<Rightarrow> buffer \<Rightarrow> nat result" where
  "STLOrderedIndex_GetBeginIterator_key ix key = map_lower_bound (o_less ix) (o_data ix) key"

definition STLOrderedIndex_GetEndIterator :: "STLOrderedIndex \<Rightarrow> nat" where
  "STLOrderedIndex_GetEndIterator ix = length (o_data ix)"

definition STLOrderedIndexIterator_IsEnd :: "STLOrderedIndex \<Rightarrow> nat \<Rightarrow> bool" where
  "STLOrderedIndexIterator_IsEnd ix it \<longleftrightarrow> it = length (o_data ix)"

definition STLOrderedIndexIterator_deref :: "STLOrderedIndex \<Rightarrow> nat \<Rightarrow> (buffer \<times> RID) result" where
  "STLOrderedIndexIterator_deref ix it = at (o_data ix) it"

definition STLOrderedIndexIterator_next :: "STLOrderedIndex \<Rightarrow> nat \<Rightarrow> nat result" where
  "STLOrderedIndexIterator_next ix it = check Undefined (it < length (o_data ix)) (Inr (it + 1))"

record STLUnorderedIndex =
  u_key_size :: nat
  u_metadata :: IndexMetadata
  u_hash_fn :: "buffer \<Rightarrow> nat"
  u_data :: "(buffer \<times> RID) list"

definition STLUnorderedIndex_ctor :: "nat \<Rightarrow> IndexMetadata \<Rightarrow> (buffer \<Rightarrow> nat) \<Rightarrow> STLUnorderedIndex" where
  "STLUnorderedIndex_ctor N m hash = \<lparr> u_key_size = N, u_metadata = m, u_hash_fn = hash, u_data = [] \<rparr>"

definition u_eq :: "STLUnorderedIndex \<Rightarrow> buffer \<Rightarrow> buffer \<Rightarrow> bool result" where
  "u_eq ix = StlEqualWrapper (GenericComparator (im_key_schema (u_metadata ix)))"

definition u_find :: "STLUnorderedIndex \<Rightarrow> buffer \<Rightarrow> nat option result" where
  "u_find ix key = umap_find (u_eq ix) (u_hash_fn ix) (u_data ix) key"

definition STLUnorderedIndex_InsertEntry :: "STLUnorderedIndex \<Rightarrow> Tuple \<Rightarrow> RID \<Rightarrow> (bool \<times> STLUnorderedIndex) result" where
  "STLUnorderedIndex_InsertEntry ix key r = rbind (SetFromKey (u_key_size ix) key) (\<lambda>index_key.
     rbind (u_find ix index_key) (\<lambda>p.
       if p \<noteq> None then Inr (False, ix)
       else rbind (umap_emplace (u_eq ix) (u_hash_fn ix) (u_data ix) index_key r) (\<lambda>d.
         Inr (True, ix \<lparr> u_data := d \<rparr>))))"

definition STLUnorderedIndex_DeleteEntry :: "STLUnorderedIndex \<Rightarrow> Tuple \<Rightarrow> RID \<Rightarrow> STLUnorderedIndex result" where
  "STLUnorderedIndex_DeleteEntry ix key r = rbind (SetFromKey (u_key_size ix) key) (\<lambda>index_key.
     rbind (u_find ix index_key) (\<lambda>p.
       Inr (case p of Some it \<Rightarrow> ix \<lparr> u_data := erase_at it (u_data ix) \<rparr> | None \<Rightarrow> ix)))"

definition STLUnorderedIndex_ScanKey :: "STLUnorderedIndex \<Rightarrow> Tuple \<Rightarrow> RID list result" where
  "STLUnorderedIndex_ScanKey ix key = rbind (SetFromKey (u_key_size ix) key) (\<lambda>index_key.
     rbind (u_find ix index_key) (\<lambda>p.
       Inr (case p of Some it \<Rightarrow> [snd (u_data ix ! it)] | None \<Rightarrow> [])))"

section \<open>The order of keys\<close>

text \<open>Values whose order is total: integers and strings, not NULL.  Their rank is an unsigned
  number or the bytes of the string.\<close>

definition value_str :: "Value \<Rightarrow> string" where
  "value_str v = (case varlen v of None \<Rightarrow> [] | Some bs \<Rightarrow> butlast bs)"

definition orderable :: "Value \<Rightarrow> bool" where
  "orderable v \<longleftrightarrow> int_operand v \<or> (v = str_value (value_str v) \<and> length (value_str v) < 2 ^ 31)"

definition value_rank :: "Value \<Rightarrow> nat list" where
  "value_rank v = (if type_id v = VARCHAR then map of_char (value_str v) else [nat (int_val v + 2 ^ 63)])"

definition three_way :: "'r::linorder \<Rightarrow> 'r \<Rightarrow> int" where
  "three_way a b = (if a < b then - 1 else if b < a then 1 else 0)"

lemma three_way_simps [simp]: "three_way a b < 0 \<longleftrightarrow> a < b" "three_way a b = 0 \<longleftrightarrow> a = b"
  by (auto simp: three_way_def)

lemma three_way_Cons:
  "three_way (x # xs) (y # ys) = (if x < y then - 1 else if y < x then 1 else three_way xs (ys :: 'a::linorder list))"
  by (auto simp: three_way_def)

lemma int_val_range: "int_operand v \<Longrightarrow> - (2 ^ 63) < int_val v \<and> int_val v < 2 ^ 63"
  using int_operand_range [of v] by (cases "ity v") auto

lemma str_value_type [simp]: "type_id (str_value s) = VARCHAR" "value_str (str_value s) = s"
  by (simp_all add: str_value_def value_str_def Value_ctor_def)

lemma int_operand_type: "int_operand v \<Longrightarrow> type_id v \<noteq> VARCHAR"
  by (cases rule: int_operand_cases) auto

lemma lex_cmp_rank: "lex_cmp s t < 0 \<longleftrightarrow> map of_char s < (map of_char t :: nat list)"
  by (induction s t rule: lex_cmp.induct) auto

lemma orderable_cases [consumes 1, case_names int str]:
  assumes "orderable v"
  obtains "int_operand v" "type_id v \<noteq> VARCHAR"
  | s where "v = str_value s" "length s < 2 ^ 31" "type_id v = VARCHAR"
  using assms that int_operand_type [of v] str_value_type(1) unfolding orderable_def by metis

lemma Compare_rank:
  assumes "orderable l" "orderable r" "type_id l = type_id r"
  shows "CompareLessThan l r = Inr (GetCmpBool (value_rank l < value_rank r)) \<and>
    CompareGreaterThan l r = Inr (GetCmpBool (value_rank r < value_rank l))"
  using assms(1)
proof (cases rule: orderable_cases)
  case int
  then have r: "int_operand r" using assms(2,3) by (auto elim: orderable_cases)
  show ?thesis using Compare_int_vals [OF int(1) r, of LT] Compare_int_vals [OF int(1) r, of GT]
      int_val_range [OF int(1)] int_val_range [OF r] int(2) assms(3) by (simp add: value_rank_def)
next
  case (str s)
  then obtain t where t: "r = str_value t" "length t < 2 ^ 31" using assms(2,3) int_operand_type
    by (auto elim: orderable_cases)
  show ?thesis using Compare_str_vals [OF str(2) t(2), of LT] Compare_str_vals [OF str(2) t(2), of GT] str(1) t(1)
      lex_cmp_rank [of s t] lex_cmp_rank [of t s] lex_cmp_swap [of t s] by (simp add: value_rank_def)
qed

lemma GenericComparator_loop_rank:
  assumes "\<And>i. i \<in> set is \<Longrightarrow> ToValue a s i = Inr (va i) \<and> ToValue b s i = Inr (vb i) \<and> orderable (va i) \<and>
     orderable (vb i) \<and> type_id (va i) = type_id (vb i)"
  shows "GenericComparator_loop s a b is = Inr (three_way (map (\<lambda>i. value_rank (va i)) is) (map (\<lambda>i. value_rank (vb i)) is))"
  using assms
proof (induction "is")
  case Nil
  then show ?case by (simp add: three_way_def)
next
  case (Cons i "is")
  then show ?case
    using Compare_rank [of "va i" "vb i"] by (auto simp: three_way_Cons GetCmpBool_def)
qed

text \<open>Keys in use: the bytes of a tuple built from values that fit the key columns.\<close>

definition buf_values :: "Column list \<Rightarrow> buffer \<Rightarrow> Value list result" where
  "buf_values cs b = rmapM (ToValue b (Schema_ctor cs)) [0..<length cs]"

definition buf_rank :: "Column list \<Rightarrow> buffer \<Rightarrow> nat list list" where
  "buf_rank cs b = (case buf_values cs b of Inl _ \<Rightarrow> [] | Inr vs \<Rightarrow> map value_rank vs)"

definition key_fits :: "Column list \<Rightarrow> Value list \<Rightarrow> bool" where
  "key_fits cs vs \<longleftrightarrow> length cs < 2 ^ 32 \<and> col_start cs (length cs) < 2 ^ 32 \<and> list_all2 (\<lambda>c v. fits c v \<and> orderable v) cs vs"

definition buf_ok :: "Column list \<Rightarrow> nat \<Rightarrow> buffer \<Rightarrow> bool" where
  "buf_ok cs N b \<longleftrightarrow> (case buf_values cs b of Inl _ \<Rightarrow> False
     | Inr vs \<Rightarrow> key_fits cs vs \<and> rbind (Tuple_ctor vs (Schema_ctor cs)) (SetFromKey N) = Inr b)"

lemma buf_ok_values:
  assumes "buf_ok cs N b"
  obtains vs where "buf_values cs b = Inr vs" "key_fits cs vs" "length vs = length cs"
    "rbind (Tuple_ctor vs (Schema_ctor cs)) (SetFromKey N) = Inr b"
  using assms that by (auto simp: buf_ok_def key_fits_def list_all2_lengthD split: sum.splits)

lemma GetColumnCount_ctor: "key_fits cs vs \<Longrightarrow> GetColumnCount (Schema_ctor cs) = length cs"
  by (simp add: key_fits_def GetColumnCount_def Schema_ctor_spec)

lemma key_fits_length: "key_fits cs vs \<Longrightarrow> length vs = length cs"
  by (auto simp: key_fits_def dest: list_all2_lengthD)

lemma key_fits_nth: "key_fits cs vs \<Longrightarrow> i < length cs \<Longrightarrow> fits (cs ! i) (vs ! i) \<and> orderable (vs ! i)"
  by (simp add: key_fits_def list_all2_conv_all_nth)

lemma buf_values_nth: "buf_values cs b = Inr vs \<Longrightarrow> i < length cs \<Longrightarrow> ToValue b (Schema_ctor cs) i = Inr (vs ! i)"
  by (simp add: buf_values_def rmapM_Inr_iff)

lemma GenericComparator_rank:
  assumes "buf_ok cs N a" "buf_ok cs N b"
  shows "GenericComparator (Schema_ctor cs) a b = Inr (three_way (buf_rank cs a) (buf_rank cs b))"
proof -
  obtain va where a: "buf_values cs a = Inr va" "key_fits cs va" "length va = length cs"
    by (rule buf_ok_values [OF assms(1)])
  obtain vb where b: "buf_values cs b = Inr vb" "key_fits cs vb" "length vb = length cs"
    by (rule buf_ok_values [OF assms(2)])
  have loop: "GenericComparator_loop (Schema_ctor cs) a b [0..<length cs] =
      Inr (three_way (map (\<lambda>i. value_rank (va ! i)) [0..<length cs]) (map (\<lambda>i. value_rank (vb ! i)) [0..<length cs]))"
    by (rule GenericComparator_loop_rank, use key_fits_nth [OF a(2)] key_fits_nth [OF b(2)] buf_values_nth [OF a(1)]
      buf_values_nth [OF b(1)] in \<open>auto simp: fits_def\<close>)
  have map: "map (\<lambda>i. value_rank (xs ! i)) [0..<length xs] = map value_rank xs" for xs
    by (rule nth_equalityI) simp_all
  show ?thesis
    using loop a(1) b(1) map [of va] map [of vb] a(3) b(3)
    by (simp add: GenericComparator_def GetColumnCount_ctor [OF a(2)] buf_rank_def)
qed

lemma orderable_rank_inj:
  assumes "orderable v" "orderable w" "type_id v = type_id w" "value_rank v = value_rank w" "wf_value v" "wf_value w"
  shows "v = w"
  using assms(1)
proof (cases rule: orderable_cases)
  case int
  then have w: "int_operand w" using assms(2,3) by (auto elim: orderable_cases)
  have "int_val v = int_val w" using assms(3,4) int_val_range [OF int(1)] int_val_range [OF w] int(2)
    by (auto simp: value_rank_def)
  then show ?thesis using assms(3,5,6)
    by (cases rule: int_operand_cases [OF int(1)]) (auto simp: wf_value_def int_val_def ity_def)
next
  case (str s)
  then obtain t where t: "w = str_value t" using assms(2,3) int_operand_type by (auto elim: orderable_cases)
  have "inj (of_char :: char \<Rightarrow> nat)" by (simp add: inj_of_char)
  then have "s = t" using assms(4) str(1) t by (simp add: value_rank_def inj_map_eq_map)
  then show ?thesis using str(1) t by simp
qed

lemma buf_rank_inj:
  assumes "buf_ok cs N a" "buf_ok cs N b" "buf_rank cs a = buf_rank cs b" shows "a = b"
proof -
  obtain va where a: "buf_values cs a = Inr va" "key_fits cs va" "length va = length cs"
      "rbind (Tuple_ctor va (Schema_ctor cs)) (SetFromKey N) = Inr a"
    by (rule buf_ok_values [OF assms(1)])
  obtain vb where b: "buf_values cs b = Inr vb" "key_fits cs vb" "length vb = length cs"
      "rbind (Tuple_ctor vb (Schema_ctor cs)) (SetFromKey N) = Inr b"
    by (rule buf_ok_values [OF assms(2)])
  have "map value_rank va = map value_rank vb" using assms(3) a(1) b(1) by (simp add: buf_rank_def)
  then have "va ! i = vb ! i" if "i < length cs" for i
    using that key_fits_nth [OF a(2) that] key_fits_nth [OF b(2) that] a(3) b(3)
    by (intro orderable_rank_inj) (auto simp: fits_def list_eq_iff_nth_eq)
  then have "va = vb" using a(3) b(3) by (simp add: list_eq_iff_nth_eq)
  then show ?thesis using a(4) b(4) by simp
qed

section \<open>Keys of tuples\<close>

lemma read_at_append: "read_at d p n = Inr x \<Longrightarrow> read_at (d @ z) p n = Inr x"
  by (auto simp: read_at_Inr_iff)

lemma rbind_read_append: "rbind (read_at d p n) f = Inr v \<Longrightarrow> rbind (read_at (d @ z) p n) f = Inr v"
  by (cases "read_at d p n") (simp_all add: read_at_append)

lemma Value_varlen_append: "Value_varlen ty (Some d) n True = Inr v \<Longrightarrow> Value_varlen ty (Some (d @ z)) n True = Inr v"
  by (auto simp: Value_varlen_def check_Inr_iff rbind_read_append split: if_splits)

lemma DeserializeFrom_append:
  assumes "Value_DeserializeFrom d off ty = Inr v" shows "Value_DeserializeFrom (d @ z) off ty = Inr v"
proof -
  have var: "rbind (read_at (d @ z) off 4) (\<lambda>bs. let len = le_decode bs in if len = BUSTUB_VALUE_NULL
      then Value_varlen ty' None len False else Value_varlen ty' (Some (drop (off + 4) (d @ z))) len True) = Inr v"
    if "rbind (read_at d off 4) (\<lambda>bs. let len = le_decode bs in if len = BUSTUB_VALUE_NULL
      then Value_varlen ty' None len False else Value_varlen ty' (Some (drop (off + 4) d)) len True) = Inr v" for ty'
    using that by (cases "read_at d off 4") (auto simp: read_at_append Let_def Value_varlen_append split: if_splits)
  show ?thesis using assms
    by (cases ty) (simp_all add: Value_DeserializeFrom_def TinyintType_DeserializeFrom_def SmallintType_DeserializeFrom_def
      IntegerType_DeserializeFrom_def BigintType_DeserializeFrom_def BooleanType_DeserializeFrom_def DecimalType_DeserializeFrom_def
      TimestampType_DeserializeFrom_def VarlenType_DeserializeFrom_def VectorType_DeserializeFrom_def rbind_read_append var
      del: drop_append)
qed

lemma ToValue_GetValue: "ToValue (data t) s i = GetValue t s i"
  by (cases "GetColumn s i") (auto simp: ToValue_def GetValue_def GetDataPtr_def)

lemma ToValue_append: "ToValue d s i = Inr v \<Longrightarrow> ToValue (d @ z) s i = Inr v"
  unfolding ToValue_def rbind_Inr_iff
  by (elim exE conjE, intro exI conjI, assumption)
    (auto intro: DeserializeFrom_append rbind_read_append split: if_splits)

lemma SetFromKey_ok:
  assumes "length (data t) \<le> N" "length (data t) < 2 ^ 32"
  shows "SetFromKey N t = Inr (data t @ replicate (N - length (data t)) (char_of (0::nat)))"
  using assms by (simp add: SetFromKey_def GetLength_def read_at_def write_at_def)

definition key_ok :: "Column list \<Rightarrow> nat \<Rightarrow> Tuple \<Rightarrow> bool" where
  "key_ok cs N t \<longleftrightarrow> (case SetFromKey N t of Inl _ \<Rightarrow> False | Inr b \<Rightarrow> buf_ok cs N b)"

definition key_rank :: "Column list \<Rightarrow> nat \<Rightarrow> Tuple \<Rightarrow> nat list list" where
  "key_rank cs N t = (case SetFromKey N t of Inl _ \<Rightarrow> [] | Inr b \<Rightarrow> buf_rank cs b)"

text \<open>A key tuple that fits the key size is a key, and its rank is that of its values: keys of equal
  rank have equal values.\<close>

lemma key_ok_ctor:
  assumes fit: "key_fits cs vs" and small: "var_start cs vs (length cs) \<le> N" "var_start cs vs (length cs) < 2 ^ 31"
    and t: "Tuple_ctor vs (Schema_ctor cs) = Inr t"
  shows "key_ok cs N t \<and> key_rank cs N t = map value_rank vs"
proof -
  have len: "length vs = length cs" using fit by (auto simp: key_fits_def list_all2_lengthD)
  obtain t' where "Tuple_ctor vs (Schema_ctor cs) = Inr t'" "length (data t') = var_start cs vs (length cs)"
    "\<forall>i<length cs. GetValue t' (Schema_ctor cs) i = Inr (vs ! i)"
    using Tuple_ctor_ok [of cs vs] key_fits_nth [OF fit] len small fit by (auto simp: key_fits_def)
  then have d: "length (data t) = var_start cs vs (length cs)"
    and gv: "\<And>i. i < length cs \<Longrightarrow> GetValue t (Schema_ctor cs) i = Inr (vs ! i)" using t by auto
  define b where "b = data t @ replicate (N - length (data t)) (char_of (0::nat))"
  have s: "SetFromKey N t = Inr b" unfolding b_def using d small by (intro SetFromKey_ok) auto
  have "ToValue b (Schema_ctor cs) i = Inr (vs ! i)" if "i < length cs" for i
    unfolding b_def using gv [OF that] by (intro ToValue_append) (simp add: ToValue_GetValue)
  then have "buf_values cs b = Inr vs" using len by (simp add: buf_values_def rmapM_Inr_iff)
  then show ?thesis using s fit t by (simp add: key_ok_def key_rank_def buf_ok_def buf_rank_def)
qed

section \<open>The containers as finite maps\<close>

definition map_view :: "('k \<Rightarrow> 'r) \<Rightarrow> ('k \<times> 'v) list \<Rightarrow> 'r \<Rightarrow> 'v option" where
  "map_view rank m = map_of (map (\<lambda>(k, v). (rank k, v)) m)"

definition ranks :: "('k \<Rightarrow> 'r) \<Rightarrow> ('k \<times> 'v) list \<Rightarrow> 'r list" where
  "ranks rank m = map (rank \<circ> fst) m"

text \<open>What a search for a key returns.\<close>

definition found :: "('k \<Rightarrow> 'r) \<Rightarrow> ('k \<times> 'v) list \<Rightarrow> 'k \<Rightarrow> nat option \<Rightarrow> bool" where
  "found rank m k p \<longleftrightarrow> (case p of None \<Rightarrow> rank k \<notin> set (ranks rank m)
     | Some i \<Rightarrow> i < length m \<and> rank (fst (m ! i)) = rank k)"

lemma ranks_simps [simp]: "ranks rank [] = []" "ranks rank (e # m) = rank (fst e) # ranks rank m"
  "ranks rank (m @ m') = ranks rank m @ ranks rank m'" "length (ranks rank m) = length m"
  "ranks rank (take i m) = take i (ranks rank m)" "ranks rank (drop i m) = drop i (ranks rank m)"
  "i < length m \<Longrightarrow> ranks rank m ! i = rank (fst (m ! i))"
  by (simp_all add: ranks_def take_map drop_map)

lemma rank_mem: "i < length m \<Longrightarrow> rank (fst (m ! i)) \<in> set (ranks rank m)"
  by (metis nth_mem ranks_simps(4,7))

lemma map_view_simps [simp]: "map_view rank [] = Map.empty"
  "map_view rank ((k, v) # m) = (map_view rank m)(rank k \<mapsto> v)"
  "map_view rank (m @ m') = map_view rank m' ++ map_view rank m"
  by (simp_all add: map_view_def)

lemma dom_map_view: "dom (map_view rank m) = set (ranks rank m)"
  by (simp add: map_view_def ranks_def dom_map_of_conv_image_fst image_image split_beta)

lemma map_view_nth: "distinct (ranks rank m) \<Longrightarrow> i < length m \<Longrightarrow> map_view rank m (rank (fst (m ! i))) = Some (snd (m ! i))"
proof (induction m arbitrary: i)
  case (Cons e m)
  show ?case
  proof (cases i)
    case (Suc j)
    have "rank (fst (m ! j)) \<in> set (ranks rank m)" using Cons.prems Suc by (auto simp: ranks_def)
    then show ?thesis using Cons Suc by (cases e) auto
  qed (cases e, simp)
qed simp

lemma found_view: "distinct (ranks rank m) \<Longrightarrow> found rank m k p \<Longrightarrow>
    map_view rank m (rank k) = (case p of None \<Rightarrow> None | Some i \<Rightarrow> Some (snd (m ! i)))"
  using map_view_nth [of rank m] dom_map_view [of rank m] by (fastforce simp: found_def split: option.splits)

lemma map_view_insert:
  assumes "rank k \<notin> set (ranks rank m)"
  shows "map_view rank (take i m @ (k, v) # drop i m) = (map_view rank m)(rank k \<mapsto> v)"
proof -
  have "rank k \<notin> dom (map_view rank (take i m))" using assms by (auto simp: dom_map_view dest: in_set_takeD)
  then have "map_view rank (take i m @ (k, v) # drop i m) = (map_view rank (take i m @ drop i m))(rank k \<mapsto> v)"
    by (auto simp: map_view_simps(3) map_add_def fun_eq_iff simp del: append_take_drop_id split: option.splits)
  then show ?thesis by simp
qed

lemma map_view_erase:
  assumes "distinct (ranks rank m)" "i < length m"
  shows "map_view rank (erase_at i m) = (map_view rank m)(rank (fst (m ! i)) := None)"
proof -
  let ?r = "rank (fst (m ! i))"
  have m: "m = take i m @ m ! i # drop (Suc i) m" using assms(2) by (rule id_take_nth_drop)
  have d: "distinct (ranks rank (take i m) @ ?r # ranks rank (drop (Suc i) m))"
    using assms(1) by (subst (asm) m) (simp del: ranks_simps(5,6))
  have "map_view rank m = map_view rank (take i m @ m ! i # drop (Suc i) m)" using m by simp
  also have "\<dots> = (map_view rank (drop (Suc i) m))(?r \<mapsto> snd (m ! i)) ++ map_view rank (take i m)"
    by (cases "m ! i") simp
  finally have v: "map_view rank m = \<dots>" .
  have "?r \<notin> dom (map_view rank (take i m))" "?r \<notin> dom (map_view rank (drop (Suc i) m))"
    using d by (auto simp: dom_map_view)
  then show ?thesis unfolding v erase_at_def
    by (auto simp: map_add_def fun_eq_iff domIff split: option.splits)
qed

lemma ranks_erase: "ranks rank (erase_at i m) = erase_at i (ranks rank m)"
  by (simp add: erase_at_def)

lemma erase_split: "i < length xs \<Longrightarrow> \<exists>x. xs = take i xs @ x # drop (Suc i) xs"
  using id_take_nth_drop [of i xs] by blast

lemma sorted_wrt_erase:
  assumes "sorted_wrt P xs" shows "sorted_wrt P (erase_at i xs)"
proof (cases "i < length xs")
  case True
  from erase_split [OF this] obtain x where x: "xs = take i xs @ x # drop (Suc i) xs" by blast
  have "sorted_wrt P (take i xs @ x # drop (Suc i) xs)" using assms x by simp
  then show ?thesis by (auto simp: erase_at_def sorted_wrt_append)
qed (use assms in \<open>simp add: erase_at_def sorted_wrt_take\<close>)

lemma distinct_erase:
  assumes "distinct xs" shows "distinct (erase_at i xs)"
proof (cases "i < length xs")
  case True
  from erase_split [OF this] obtain x where x: "xs = take i xs @ x # drop (Suc i) xs" by blast
  have "distinct (take i xs @ x # drop (Suc i) xs)" using assms x by simp
  then show ?thesis by (auto simp: erase_at_def)
qed (use assms in \<open>simp add: erase_at_def\<close>)

lemma set_erase: "set (erase_at i xs) \<subseteq> set xs"
  using set_take_subset [of i xs] set_drop_subset [of "Suc i" xs] by (auto simp: erase_at_def)

subsection \<open>Maps in the order of their keys\<close>

text \<open>Keys whose comparator is a strict weak order: that of their ranks.\<close>

locale ordered_keys =
  fixes lt :: "'k \<Rightarrow> 'k \<Rightarrow> bool result" and ok :: "'k \<Rightarrow> bool" and rank :: "'k \<Rightarrow> 'r::linorder"
  assumes lt_rank: "ok a \<Longrightarrow> ok b \<Longrightarrow> lt a b = Inr (rank a < rank b)"
begin

lemma lower_bound_spec:
  assumes "\<And>e. e \<in> set m \<Longrightarrow> ok (fst e)" "ok k" "sorted_wrt (<) (ranks rank m)"
  shows "\<exists>i\<le>length m. map_lower_bound lt m k = Inr i \<and> (\<forall>r\<in>set (take i (ranks rank m)). r < rank k) \<and>
    (\<forall>r\<in>set (drop i (ranks rank m)). rank k \<le> r)"
  using assms
proof (induction m)
  case (Cons e m)
  then obtain i where i: "i \<le> length m" "map_lower_bound lt m k = Inr i" "\<forall>r\<in>set (take i (ranks rank m)). r < rank k"
    "\<forall>r\<in>set (drop i (ranks rank m)). rank k \<le> r" by auto
  show ?case
  proof (cases "rank (fst e) < rank k")
    case True
    then show ?thesis using i Cons.prems by (intro exI [of _ "Suc i"]) (auto simp: lt_rank)
  next
    case False
    then show ?thesis using Cons.prems by (intro exI [of _ 0]) (auto simp: lt_rank)
  qed
qed simp

lemma find_spec:
  assumes "\<And>e. e \<in> set m \<Longrightarrow> ok (fst e)" "ok k" "sorted_wrt (<) (ranks rank m)"
  shows "\<exists>p. map_find lt m k = Inr p \<and> found rank m k p"
proof -
  obtain i where i: "i \<le> length m" "map_lower_bound lt m k = Inr i" "\<forall>r\<in>set (take i (ranks rank m)). r < rank k"
    "\<forall>r\<in>set (drop i (ranks rank m)). rank k \<le> r" using lower_bound_spec [OF assms] by blast
  have set: "set (ranks rank m) = set (take i (ranks rank m)) \<union> set (drop i (ranks rank m))"
    by (metis append_take_drop_id set_append)
  show ?thesis
  proof (cases "i < length m")
    case True
    have d: "drop i (ranks rank m) = rank (fst (m ! i)) # drop (Suc i) (ranks rank m)"
      using True by (simp add: Cons_nth_drop_Suc [symmetric])
    have "sorted_wrt (<) (drop i (ranks rank m))" using assms(3) by (rule sorted_wrt_drop)
    then have "\<forall>r\<in>set (drop (Suc i) (ranks rank m)). rank (fst (m ! i)) < r" unfolding d by simp
    then have "rank k < rank (fst (m ! i)) \<Longrightarrow> rank k \<notin> set (ranks rank m)" unfolding set d using i(3)
      by (auto dest: order.asym order.strict_trans)
    moreover have "rank k \<le> rank (fst (m ! i))" using i(4) d by simp
    moreover have "map_find lt m k = Inr (if rank k < rank (fst (m ! i)) then None else Some i)"
      using True i(2) assms(1) [of "m ! i"] assms(2) by (simp add: map_find_def lt_rank)
    ultimately show ?thesis using True by (cases "rank k < rank (fst (m ! i))") (auto simp: found_def)
  next
    case False
    then show ?thesis using i(1-3) by (auto simp: map_find_def found_def)
  qed
qed

lemma emplace_spec:
  assumes "\<And>e. e \<in> set m \<Longrightarrow> ok (fst e)" "ok k" "sorted_wrt (<) (ranks rank m)" "rank k \<notin> set (ranks rank m)"
  shows "\<exists>i. map_emplace lt m k v = Inr (take i m @ (k, v) # drop i m) \<and>
     sorted_wrt (<) (ranks rank (take i m @ (k, v) # drop i m))"
proof -
  obtain p where p: "map_find lt m k = Inr p" "found rank m k p" using find_spec [OF assms(1-3)] by blast
  have "p = None" using p(2) assms(4) rank_mem [of _ m rank] by (cases p) (auto simp: found_def, metis)
  obtain i where i: "map_lower_bound lt m k = Inr i" "\<forall>r\<in>set (take i (ranks rank m)). r < rank k"
    "\<forall>r\<in>set (drop i (ranks rank m)). rank k \<le> r" using lower_bound_spec [OF assms(1-3)] by blast
  have gt: "\<forall>r\<in>set (drop i (ranks rank m)). rank k < r"
    using i(3) assms(4) by (metis in_set_dropD order_le_imp_less_or_eq)
  have "sorted_wrt (<) (take i (ranks rank m) @ rank k # drop i (ranks rank m))"
    using assms(3) i(2) gt by (auto simp: sorted_wrt_append sorted_wrt_take sorted_wrt_drop dest: order.strict_trans)
  then show ?thesis using p(1) \<open>p = None\<close> i(1) by (auto simp: map_emplace_def)
qed

end

subsection \<open>Hash maps\<close>

locale hashed_keys =
  fixes eq :: "'k \<Rightarrow> 'k \<Rightarrow> bool result" and hash :: "'k \<Rightarrow> nat" and ok :: "'k \<Rightarrow> bool" and rank :: "'k \<Rightarrow> 'r"
  assumes eq_rank: "ok a \<Longrightarrow> ok b \<Longrightarrow> eq a b = Inr (rank a = rank b)"
    and hash_rank: "ok a \<Longrightarrow> ok b \<Longrightarrow> rank a = rank b \<Longrightarrow> hash a = hash b"
begin

lemma find_spec:
  assumes "\<And>e. e \<in> set m \<Longrightarrow> ok (fst e)" "ok k"
  shows "\<exists>p. umap_find eq hash m k = Inr p \<and> found rank m k p"
  using assms
proof (induction m)
  case (Cons e m)
  then obtain p where p: "umap_find eq hash m k = Inr p" "found rank m k p" by auto
  show ?case
  proof (cases "rank k = rank (fst e)")
    case True
    then show ?thesis using Cons.prems hash_rank [of k "fst e"] by (auto simp: found_def eq_rank)
  next
    case False
    then show ?thesis using Cons.prems p
      by (auto simp: found_def eq_rank split: option.splits intro!: exI [of _ "map_option Suc p"])
  qed
qed (simp add: found_def)

end

section \<open>The contract of an index\<close>

text \<open>An index over unique keys behaves as a finite map from the ranks of the keys: an insertion
  succeeds exactly when the key is new and otherwise changes nothing, a deletion forgets the key, and
  a scan returns the value of the key, if any.\<close>

locale key_index =
  fixes insert :: "'i \<Rightarrow> 'k \<Rightarrow> 'v \<Rightarrow> (bool \<times> 'i) result"
    and delete :: "'i \<Rightarrow> 'k \<Rightarrow> 'v \<Rightarrow> 'i result"
    and scan :: "'i \<Rightarrow> 'k \<Rightarrow> 'v list result"
    and inv :: "'i \<Rightarrow> bool" and view :: "'i \<Rightarrow> 'r \<Rightarrow> 'v option" and ok :: "'k \<Rightarrow> bool" and rank :: "'k \<Rightarrow> 'r"
  assumes insert_view: "inv i \<Longrightarrow> ok k \<Longrightarrow> \<exists>j. insert i k v = Inr (view i (rank k) = None, j) \<and> inv j \<and>
      view j = (if view i (rank k) = None then (view i)(rank k \<mapsto> v) else view i)"
    and delete_view: "inv i \<Longrightarrow> ok k \<Longrightarrow> \<exists>j. delete i k v = Inr j \<and> inv j \<and> view j = (view i)(rank k := None)"
    and scan_view: "inv i \<Longrightarrow> ok k \<Longrightarrow> scan i k = Inr (case view i (rank k) of None \<Rightarrow> [] | Some v \<Rightarrow> [v])"

datatype ('k, 'v) index_op = Ins 'k 'v | Del 'k 'v

fun index_run :: "('i \<Rightarrow> 'k \<Rightarrow> 'v \<Rightarrow> (bool \<times> 'i) result) \<Rightarrow> ('i \<Rightarrow> 'k \<Rightarrow> 'v \<Rightarrow> 'i result) \<Rightarrow> 'i \<Rightarrow>
    ('k, 'v) index_op list \<Rightarrow> 'i result" where
  "index_run ins del i [] = Inr i"
| "index_run ins del i (Ins k v # ops) = rbind (ins i k v) (\<lambda>(b, j). index_run ins del j ops)"
| "index_run ins del i (Del k v # ops) = rbind (del i k v) (\<lambda>j. index_run ins del j ops)"

fun op_key :: "('k, 'v) index_op \<Rightarrow> 'k" where
  "op_key (Ins k v) = k" | "op_key (Del k v) = k"

text \<open>The specification: the first value inserted since the last deletion of the key.\<close>

fun map_run :: "('k \<Rightarrow> 'r) \<Rightarrow> ('r \<Rightarrow> 'v option) \<Rightarrow> ('k, 'v) index_op list \<Rightarrow> 'r \<Rightarrow> 'v option" where
  "map_run rank f [] = f"
| "map_run rank f (Ins k v # ops) = map_run rank (if f (rank k) = None then f(rank k \<mapsto> v) else f) ops"
| "map_run rank f (Del k v # ops) = map_run rank (f(rank k := None)) ops"

context key_index
begin

lemma run_refines:
  assumes "inv i" "\<And>op. op \<in> set ops \<Longrightarrow> ok (op_key op)"
  shows "\<exists>j. index_run insert delete i ops = Inr j \<and> inv j \<and> view j = map_run rank (view i) ops"
  using assms
proof (induction ops arbitrary: i)
  case (Cons op ops)
  show ?case
  proof (cases op)
    case (Ins k v)
    then show ?thesis using insert_view [OF Cons.prems(1), of k v] Cons by fastforce
  next
    case (Del k v)
    then show ?thesis using delete_view [OF Cons.prems(1), of k v] Cons by fastforce
  qed
qed simp

lemma run_scan:
  assumes "inv i" "\<And>op. op \<in> set ops \<Longrightarrow> ok (op_key op)" "ok k"
  shows "rbind (index_run insert delete i ops) (\<lambda>j. scan j k) =
     Inr (case map_run rank (view i) ops (rank k) of None \<Rightarrow> [] | Some v \<Rightarrow> [v])"
proof -
  obtain j where "index_run insert delete i ops = Inr j" "inv j" "view j = map_run rank (view i) ops"
    using run_refines [OF assms(1,2)] by blast
  then show ?thesis using scan_view [OF _ assms(3)] by simp
qed

end

section \<open>The two indexes satisfy the contract\<close>

definition o_inv :: "Column list \<Rightarrow> nat \<Rightarrow> STLOrderedIndex \<Rightarrow> bool" where
  "o_inv cs N ix \<longleftrightarrow> o_key_size ix = N \<and> im_key_schema (o_metadata ix) = Schema_ctor cs \<and>
     (\<forall>e \<in> set (o_data ix). buf_ok cs N (fst e)) \<and> sorted_wrt (<) (ranks (buf_rank cs) (o_data ix))"

definition u_inv :: "Column list \<Rightarrow> nat \<Rightarrow> STLUnorderedIndex \<Rightarrow> bool" where
  "u_inv cs N ix \<longleftrightarrow> u_key_size ix = N \<and> im_key_schema (u_metadata ix) = Schema_ctor cs \<and>
     (\<forall>e \<in> set (u_data ix). buf_ok cs N (fst e)) \<and> distinct (ranks (buf_rank cs) (u_data ix))"

definition o_view :: "Column list \<Rightarrow> STLOrderedIndex \<Rightarrow> nat list list \<Rightarrow> RID option" where
  "o_view cs ix = map_view (buf_rank cs) (o_data ix)"

definition u_view :: "Column list \<Rightarrow> STLUnorderedIndex \<Rightarrow> nat list list \<Rightarrow> RID option" where
  "u_view cs ix = map_view (buf_rank cs) (u_data ix)"

interpretation generic_keys: ordered_keys "StlComparatorWrapper (GenericComparator (Schema_ctor cs))" "buf_ok cs N" "buf_rank cs"
  for cs N
  by unfold_locales (simp add: StlComparatorWrapper_def GenericComparator_rank)

interpretation generic_hash: hashed_keys "StlEqualWrapper (GenericComparator (Schema_ctor cs))" hash "buf_ok cs N" "buf_rank cs"
  for cs hash N
  by unfold_locales (auto simp: StlEqualWrapper_def GenericComparator_rank dest: buf_rank_inj)

lemma key_ok_buf:
  assumes "key_ok cs N t"
  obtains b where "SetFromKey N t = Inr b" "buf_ok cs N b" "key_rank cs N t = buf_rank cs b"
  using assms that by (auto simp: key_ok_def key_rank_def split: sum.splits)

lemma ordered_insert:
  assumes inv: "o_inv cs N ix" and k: "key_ok cs N k"
  shows "\<exists>j. STLOrderedIndex_InsertEntry ix k r = Inr (o_view cs ix (key_rank cs N k) = None, j) \<and> o_inv cs N j \<and>
     o_view cs j = (if o_view cs ix (key_rank cs N k) = None then (o_view cs ix)(key_rank cs N k \<mapsto> r) else o_view cs ix)"
proof -
  obtain b where b: "SetFromKey N k = Inr b" "buf_ok cs N b" "key_rank cs N k = buf_rank cs b"
    by (rule key_ok_buf [OF k])
  let ?m = "o_data ix"
  have ok: "\<And>e. e \<in> set ?m \<Longrightarrow> buf_ok cs N (fst e)" and so: "sorted_wrt (<) (ranks (buf_rank cs) ?m)"
    and ks: "o_key_size ix = N" "o_less ix = StlComparatorWrapper (GenericComparator (Schema_ctor cs))"
    using inv by (auto simp: o_inv_def o_less_def)
  have di: "distinct (ranks (buf_rank cs) ?m)" using so by (simp add: strict_sorted_iff)
  obtain p where p: "map_find (o_less ix) ?m b = Inr p" "found (buf_rank cs) ?m b p"
    using generic_keys.find_spec [OF ok b(2) so] ks by auto
  have v: "o_view cs ix (buf_rank cs b) = (case p of None \<Rightarrow> None | Some i \<Rightarrow> Some (snd (?m ! i)))"
    unfolding o_view_def by (rule found_view [OF di p(2)])
  show ?thesis
  proof (cases p)
    case None
    then have new: "buf_rank cs b \<notin> set (ranks (buf_rank cs) ?m)" using p(2) by (simp add: found_def)
    obtain i where i: "map_emplace (o_less ix) ?m b r = Inr (take i ?m @ (b, r) # drop i ?m)"
        "sorted_wrt (<) (ranks (buf_rank cs) (take i ?m @ (b, r) # drop i ?m))"
      using generic_keys.emplace_spec [OF ok b(2) so new] ks by auto
    have "o_inv cs N (ix \<lparr> o_data := take i ?m @ (b, r) # drop i ?m \<rparr>)"
      using inv i(2) b(2) by (auto simp: o_inv_def dest: in_set_takeD in_set_dropD)
    then show ?thesis using None p(1) i(1) b(1,3) v ks map_view_insert [OF new, of i r]
      by (simp add: STLOrderedIndex_InsertEntry_def map_count_def o_view_def)
  next
    case (Some i)
    then show ?thesis using p(1) b(1,3) v ks inv by (simp add: STLOrderedIndex_InsertEntry_def map_count_def)
  qed
qed

lemma ordered_find:
  assumes inv: "o_inv cs N ix" and k: "key_ok cs N k"
  obtains b p where "SetFromKey N k = Inr b" "map_find (o_less ix) (o_data ix) b = Inr p" "o_key_size ix = N"
    "found (buf_rank cs) (o_data ix) b p" "distinct (ranks (buf_rank cs) (o_data ix))" "key_rank cs N k = buf_rank cs b"
proof -
  obtain b where b: "SetFromKey N k = Inr b" "buf_ok cs N b" "key_rank cs N k = buf_rank cs b"
    by (rule key_ok_buf [OF k])
  have "\<exists>p. map_find (o_less ix) (o_data ix) b = Inr p \<and> found (buf_rank cs) (o_data ix) b p"
    using generic_keys.find_spec [of "o_data ix" cs N b] inv b(2) by (simp add: o_inv_def o_less_def)
  then show ?thesis using that b inv by (auto simp: o_inv_def strict_sorted_iff)
qed

lemma ordered_delete:
  assumes inv: "o_inv cs N ix" and k: "key_ok cs N k"
  shows "\<exists>j. STLOrderedIndex_DeleteEntry ix k r = Inr j \<and> o_inv cs N j \<and> o_view cs j = (o_view cs ix)(key_rank cs N k := None)"
proof -
  obtain b p where *: "SetFromKey N k = Inr b" "map_find (o_less ix) (o_data ix) b = Inr p" "o_key_size ix = N"
    "found (buf_rank cs) (o_data ix) b p" "distinct (ranks (buf_rank cs) (o_data ix))" "key_rank cs N k = buf_rank cs b"
    by (rule ordered_find [OF inv k])
  show ?thesis
  proof (cases p)
    case None
    then have "o_view cs ix (buf_rank cs b) = None" using found_view [OF *(5,4)] by (simp add: o_view_def)
    then show ?thesis using * None inv by (auto simp: STLOrderedIndex_DeleteEntry_def map_erase_def fun_upd_idem)
  next
    case (Some i)
    then have i: "i < length (o_data ix)" "buf_rank cs (fst (o_data ix ! i)) = buf_rank cs b"
      using *(4) by (auto simp: found_def)
    have "o_inv cs N (ix \<lparr> o_data := erase_at i (o_data ix) \<rparr>)"
      using inv set_erase [of i "o_data ix"] by (auto simp: o_inv_def ranks_erase sorted_wrt_erase)
    then show ?thesis using * Some i map_view_erase [OF *(5) i(1)]
      by (simp add: STLOrderedIndex_DeleteEntry_def map_erase_def o_view_def)
  qed
qed

lemma ordered_scan:
  assumes inv: "o_inv cs N ix" and k: "key_ok cs N k"
  shows "STLOrderedIndex_ScanKey ix k = Inr (case o_view cs ix (key_rank cs N k) of None \<Rightarrow> [] | Some v \<Rightarrow> [v])"
proof -
  obtain b p where *: "SetFromKey N k = Inr b" "map_find (o_less ix) (o_data ix) b = Inr p" "o_key_size ix = N"
    "found (buf_rank cs) (o_data ix) b p" "distinct (ranks (buf_rank cs) (o_data ix))" "key_rank cs N k = buf_rank cs b"
    by (rule ordered_find [OF inv k])
  then show ?thesis using found_view [OF *(5,4)]
    by (simp add: STLOrderedIndex_ScanKey_def o_view_def split: option.splits)
qed

interpretation ordered_index: key_index STLOrderedIndex_InsertEntry STLOrderedIndex_DeleteEntry STLOrderedIndex_ScanKey
  "o_inv cs N" "o_view cs" "key_ok cs N" "key_rank cs N" for cs N
  by unfold_locales (rule ordered_insert ordered_delete ordered_scan; assumption)+

lemma unordered_find:
  assumes inv: "u_inv cs N ix" and k: "key_ok cs N k"
  obtains b p where "SetFromKey N k = Inr b" "buf_ok cs N b" "u_find ix b = Inr p" "u_key_size ix = N"
    "found (buf_rank cs) (u_data ix) b p" "distinct (ranks (buf_rank cs) (u_data ix))" "key_rank cs N k = buf_rank cs b"
proof -
  obtain b where b: "SetFromKey N k = Inr b" "buf_ok cs N b" "key_rank cs N k = buf_rank cs b"
    by (rule key_ok_buf [OF k])
  have "\<exists>p. u_find ix b = Inr p \<and> found (buf_rank cs) (u_data ix) b p"
    using generic_hash.find_spec [of "u_data ix" cs N b "u_hash_fn ix"] inv b(2) by (simp add: u_inv_def u_find_def u_eq_def)
  then show ?thesis using that b inv by (auto simp: u_inv_def)
qed

interpretation unordered_index: key_index STLUnorderedIndex_InsertEntry STLUnorderedIndex_DeleteEntry STLUnorderedIndex_ScanKey
  "u_inv cs N" "u_view cs" "key_ok cs N" "key_rank cs N" for cs N
proof
  fix ix k and r :: RID
  assume inv: "u_inv cs N ix" and k: "key_ok cs N k"
  obtain b p where *: "SetFromKey N k = Inr b" "buf_ok cs N b" "u_find ix b = Inr p" "u_key_size ix = N"
    "found (buf_rank cs) (u_data ix) b p" "distinct (ranks (buf_rank cs) (u_data ix))" "key_rank cs N k = buf_rank cs b"
    by (rule unordered_find [OF inv k])
  have v: "u_view cs ix (buf_rank cs b) = (case p of None \<Rightarrow> None | Some i \<Rightarrow> Some (snd (u_data ix ! i)))"
    unfolding u_view_def by (rule found_view [OF *(6,5)])
  show "STLUnorderedIndex_ScanKey ix k = Inr (case u_view cs ix (key_rank cs N k) of None \<Rightarrow> [] | Some v \<Rightarrow> [v])"
    using * v by (simp add: STLUnorderedIndex_ScanKey_def split: option.splits)
  show "\<exists>j. STLUnorderedIndex_InsertEntry ix k r = Inr (u_view cs ix (key_rank cs N k) = None, j) \<and> u_inv cs N j \<and>
     u_view cs j = (if u_view cs ix (key_rank cs N k) = None then (u_view cs ix)(key_rank cs N k \<mapsto> r) else u_view cs ix)"
    using * v inv by (cases p) (auto simp: STLUnorderedIndex_InsertEntry_def umap_emplace_def u_find_def u_inv_def u_view_def found_def)
  show "\<exists>j. STLUnorderedIndex_DeleteEntry ix k r = Inr j \<and> u_inv cs N j \<and> u_view cs j = (u_view cs ix)(key_rank cs N k := None)"
  proof (cases p)
    case None
    then show ?thesis using * v inv by (auto simp: STLUnorderedIndex_DeleteEntry_def fun_upd_idem)
  next
    case (Some i)
    then have i: "i < length (u_data ix)" "buf_rank cs (fst (u_data ix ! i)) = buf_rank cs b"
      using *(5) by (auto simp: found_def)
    have "u_inv cs N (ix \<lparr> u_data := erase_at i (u_data ix) \<rparr>)"
      using inv set_erase [of i "u_data ix"] by (auto simp: u_inv_def ranks_erase distinct_erase)
    then show ?thesis using * Some i map_view_erase [OF *(6) i(1)]
      by (simp add: STLUnorderedIndex_DeleteEntry_def u_view_def)
  qed
qed

section \<open>Properties\<close>

definition ex_key_columns :: "Column list" where
  "ex_key_columns = [\<lparr> column_name = ''a'', column_type = INTEGER, col_length = 4, column_offset = 0 \<rparr>,
     \<lparr> column_name = ''b'', column_type = INTEGER, col_length = 4, column_offset = 0 \<rparr>]"

definition ex_key :: "int \<Rightarrow> int \<Rightarrow> Tuple" where
  "ex_key x y = (case Tuple_ctor [set_int INTEGER I32 (cmin I32) x, set_int INTEGER I32 (cmin I32) y] (Schema_ctor ex_key_columns)
     of Inl _ \<Rightarrow> Tuple_Empty | Inr t \<Rightarrow> t)"

definition ex_metadata :: IndexMetadata where
  "ex_metadata = \<lparr> im_name = ''i'', im_table_name = ''t'', im_key_attrs = [0, 1],
     im_key_schema = Schema_ctor ex_key_columns, im_is_primary_key = False \<rparr>"

lemma ex_keys: "key_ok ex_key_columns 8 (ex_key 1 2)" "key_ok ex_key_columns 8 (ex_key 1 (- 5))"
  "key_rank ex_key_columns 8 (ex_key 1 2) \<noteq> key_rank ex_key_columns 8 (ex_key 1 (- 5))"
  by code_simp+

lemma ctor_inv:
  assumes "im_key_schema m = Schema_ctor cs"
  shows "o_inv cs N (STLOrderedIndex_ctor N m) \<and> o_view cs (STLOrderedIndex_ctor N m) = Map.empty"
    "u_inv cs N (STLUnorderedIndex_ctor N m h) \<and> u_view cs (STLUnorderedIndex_ctor N m h) = Map.empty"
  using assms by (simp_all add: o_inv_def u_inv_def o_view_def u_view_def STLOrderedIndex_ctor_def STLUnorderedIndex_ctor_def)

text \<open>C9: Both indexes over the standard containers implement a finite map over keys: after any
  sequence of insertions and deletions of keys (integers and strings, not NULL, that fit the key
  size), none of which fails, a scan of a key returns the record identifier of the first insertion of
  that key since its last deletion, and nothing when there is none; for the unordered index this
  holds for every hash function.\<close>

theorem STLIndex_refines_map:
  assumes "\<forall>op \<in> set ops. key_ok cs N (op_key op)" "key_ok cs N k" "im_key_schema m = Schema_ctor cs"
  shows "rbind (index_run STLOrderedIndex_InsertEntry STLOrderedIndex_DeleteEntry (STLOrderedIndex_ctor N m) ops)
      (\<lambda>ix. STLOrderedIndex_ScanKey ix k) =
      Inr (case map_run (key_rank cs N) Map.empty ops (key_rank cs N k) of None \<Rightarrow> [] | Some r \<Rightarrow> [r])
    \<and> rbind (index_run STLUnorderedIndex_InsertEntry STLUnorderedIndex_DeleteEntry (STLUnorderedIndex_ctor N m hash) ops)
      (\<lambda>ix. STLUnorderedIndex_ScanKey ix k) =
      Inr (case map_run (key_rank cs N) Map.empty ops (key_rank cs N k) of None \<Rightarrow> [] | Some r \<Rightarrow> [r])"
  using ordered_index.run_scan [of cs N "STLOrderedIndex_ctor N m" ops k] ctor_inv [OF assms(3)] assms(1,2)
    unordered_index.run_scan [of cs N "STLUnorderedIndex_ctor N m hash" ops k] by simp

theorem STLIndex_refines_map_witness:
  "rbind (index_run STLOrderedIndex_InsertEntry STLOrderedIndex_DeleteEntry (STLOrderedIndex_ctor 8 ex_metadata)
      [Ins (ex_key 1 2) (RID_of_int64 7), Ins (ex_key 1 (- 5)) (RID_of_int64 8), Ins (ex_key 1 2) (RID_of_int64 9)])
      (\<lambda>ix. STLOrderedIndex_ScanKey ix (ex_key 1 2)) = Inr [RID_of_int64 7]"
  using STLIndex_refines_map [of "[Ins (ex_key 1 2) (RID_of_int64 7), Ins (ex_key 1 (- 5)) (RID_of_int64 8),
      Ins (ex_key 1 2) (RID_of_int64 9)]" ex_key_columns 8 "ex_key 1 2" ex_metadata "\<lambda>_. 0"] ex_keys
  by (simp add: ex_metadata_def)



section \<open>Iteration\<close>

text \<open>The loop \<open>for (it = begin; !it.IsEnd(); ++it)\<close> over an ordered index.\<close>

declare rbind_cong [fundef_cong]

function iterate :: "STLOrderedIndex \<Rightarrow> nat \<Rightarrow> (buffer \<times> RID) list result" where
  "iterate ix it = (if STLOrderedIndexIterator_IsEnd ix it then Inr []
     else rbind (STLOrderedIndexIterator_deref ix it) (\<lambda>e. rbind (STLOrderedIndexIterator_next ix it) (\<lambda>it'.
       rbind (iterate ix it') (\<lambda>es. Inr (e # es)))))"
  by auto
termination
  by (relation "measure (\<lambda>(ix, it). length (o_data ix) - it)")
    (auto simp: STLOrderedIndexIterator_next_def STLOrderedIndexIterator_IsEnd_def check_Inr_iff check_def split: if_splits)

declare iterate.simps [simp del] rbind_cong [fundef_cong del]

lemma iterate_drop: "it \<le> length (o_data ix) \<Longrightarrow> iterate ix it = Inr (drop it (o_data ix))"
proof (induction ix it rule: iterate.induct)
  case (1 ix it)
  show ?case
  proof (cases "it = length (o_data ix)")
    case True
    then show ?thesis by (simp add: iterate.simps STLOrderedIndexIterator_IsEnd_def)
  next
    case False
    then have "iterate ix (it + 1) = Inr (drop (it + 1) (o_data ix))"
      using "1.prems" "1.IH" [of "o_data ix ! it" "it + 1"]
      by (simp add: STLOrderedIndexIterator_IsEnd_def STLOrderedIndexIterator_deref_def STLOrderedIndexIterator_next_def)
    then show ?thesis using False "1.prems"
      by (simp add: iterate.simps [of ix it] STLOrderedIndexIterator_IsEnd_def STLOrderedIndexIterator_deref_def
          STLOrderedIndexIterator_next_def Cons_nth_drop_Suc)
  qed
qed



section \<open>Keys outside the contract\<close>

lemma GenericComparator_loop_null:
  assumes "\<And>i. i \<in> set is \<Longrightarrow> \<exists>v w. ToValue a s i = Inr v \<and> ToValue b s i = Inr w \<and> CheckComparable v w \<and> (IsNull v \<or> IsNull w)"
  shows "GenericComparator_loop s a b is = Inr 0"
  using assms
proof (induction "is")
  case (Cons i "is")
  obtain v w where v: "ToValue a s i = Inr v" "ToValue b s i = Inr w" "CheckComparable v w" "IsNull v \<or> IsNull w"
    using Cons.prems [of i] by auto
  have "CompareLessThan v w = Inr CmpNull" "CompareGreaterThan v w = Inr CmpNull"
    using Compare_null_vals [OF v(3,4), of LT] Compare_null_vals [OF v(3,4), of GT] by simp_all
  then show ?case using Cons v by simp
qed simp

lemma orderable_comparable: "orderable v \<Longrightarrow> type_id w = type_id v \<Longrightarrow> CheckComparable v w \<and> CheckComparable w v"
  by (auto elim!: orderable_cases int_operand_cases simp: CheckComparable_def)

text \<open>A NULL compares as equal to every key: as soon as an ordered index holds some key, inserting a
  key whose columns are all NULL is refused as a duplicate and leaves the index unchanged, while a scan
  for it returns the record identifier of the least key.\<close>

theorem STLOrderedIndex_null_key:
  assumes "o_inv cs N ix" "o_data ix \<noteq> []" "SetFromKey N k = Inr b" "buf_values cs b = Inr vs"
    "\<forall>i < length cs. IsNull (vs ! i)"
  shows "STLOrderedIndex_InsertEntry ix k r = Inr (False, ix) \<and>
    STLOrderedIndex_ScanKey ix k = Inr [snd (hd (o_data ix))]"
proof -
  obtain e m where m: "o_data ix = e # m" using assms(2) by (cases "o_data ix") auto
  then have "buf_ok cs N (fst e)" using assms(1) by (simp add: o_inv_def)
  then obtain ws where ws: "buf_values cs (fst e) = Inr ws" "key_fits cs ws" by (rule buf_ok_values)
  have ty: "type_id (vs ! i) = type_id (ws ! i)" if "i < length cs" for i
    using buf_values_nth [OF assms(4) that] buf_values_nth [OF ws(1) that]
    by (auto simp: ToValue_def rbind_Inr_iff Deserialize_type)
  have "GenericComparator (Schema_ctor cs) x y = Inr 0" if "x = b \<and> y = fst e \<or> x = fst e \<and> y = b" for x y
    unfolding GenericComparator_def GetColumnCount_ctor [OF ws(2)]
  proof (rule GenericComparator_loop_null)
    fix i assume "i \<in> set [0..<length cs]"
    then have i: "i < length cs" by simp
    have "CheckComparable (vs ! i) (ws ! i) \<and> CheckComparable (ws ! i) (vs ! i)"
      using orderable_comparable [OF conjunct2 [OF key_fits_nth [OF ws(2) i]] ty [OF i]] by simp
    then show "\<exists>v w. ToValue x (Schema_ctor cs) i = Inr v \<and> ToValue y (Schema_ctor cs) i = Inr w \<and>
        CheckComparable v w \<and> (IsNull v \<or> IsNull w)"
      using that buf_values_nth [OF assms(4) i] buf_values_nth [OF ws(1) i] assms(5) i by auto
  qed
  then have lt: "o_less ix (fst e) b = Inr False" "o_less ix b (fst e) = Inr False"
    using assms(1) by (simp_all add: o_less_def o_inv_def StlComparatorWrapper_def)
  then have "map_find (o_less ix) (o_data ix) b = Inr (Some 0)" using m by (simp add: map_find_def)
  then show ?thesis using assms(1,3) m
    by (simp add: STLOrderedIndex_InsertEntry_def STLOrderedIndex_ScanKey_def map_count_def o_inv_def)
qed

definition ex_index :: STLOrderedIndex where
  "ex_index = (STLOrderedIndex_ctor 8 ex_metadata) \<lparr> o_data := [(data (ex_key 1 2), RID_of_int64 7)] \<rparr>"

theorem STLOrderedIndex_null_key_witness:
  "STLOrderedIndex_InsertEntry ex_index (ex_key (cmin I32) (cmin I32)) (RID_of_int64 9) = Inr (False, ex_index)"
proof -
  let ?n = "set_int INTEGER I32 (cmin I32) (cmin I32)"
  have "o_inv ex_key_columns 8 ex_index" "o_data ex_index \<noteq> []"
    "SetFromKey 8 (ex_key (cmin I32) (cmin I32)) = Inr (data (ex_key (cmin I32) (cmin I32)))"
    "buf_values ex_key_columns (data (ex_key (cmin I32) (cmin I32))) = Inr [?n, ?n]"
    "\<forall>i < length ex_key_columns. IsNull ([?n, ?n] ! i)" by code_simp+
  from STLOrderedIndex_null_key [OF this] show ?thesis by simp
qed

text \<open>Setting a key from a tuple longer than the key copies past the end of the key.\<close>

theorem SetFromKey_overflows:
  assumes "N < length (data t)" "length (data t) < 2 ^ 32"
  shows "SetFromKey N t = Inl Undefined"
  using assms by (simp add: SetFromKey_def GetLength_def read_at_def write_at_def)

theorem SetFromKey_overflows_witness: "SetFromKey 4 (Tuple_Empty \<lparr> data := ''12345'' \<rparr>) = Inl Undefined"
  by (rule SetFromKey_overflows) simp_all

text \<open>The test helpers of a key of at least eight bytes store and return every 64-bit integer.\<close>

theorem SetFromInteger_roundtrip:
  assumes "in_range I64 z" "8 \<le> N"
  shows "rbind (SetFromInteger N z) GetAsInteger = Inr z"
proof -
  have "write_at (replicate N (char_of (0::nat))) 0 (le_encode 8 (nat (z mod 2 ^ 64))) =
      Inr (le_encode 8 (nat (z mod 2 ^ 64)) @ drop 8 (replicate N (char_of (0::nat))))"
    using assms(2) by (simp add: write_at_def)
  moreover have "static_cast I64 (int (le_decode (le_encode 8 (nat (z mod 2 ^ 64))))) = z"
  proof -
    have "static_cast I64 (z mod 2 ^ 64) = z"
      using assms(1) by (simp add: static_cast_unfold in_range_def mod_add_left_eq)
    moreover have "nat (z mod 2 ^ 64) < 256 ^ 8" by (simp add: nat_less_iff)
    ultimately show ?thesis by simp
  qed
  ultimately show ?thesis using assms(2) by (simp add: SetFromInteger_def GetAsInteger_def read_at_def)
qed

theorem SetFromInteger_roundtrip_witness: "rbind (SetFromInteger 8 (- 3)) GetAsInteger = Inr (- 3)"
  by (rule SetFromInteger_roundtrip) (simp_all add: in_range_def)

end
