(* ===== verification/Catalog.thy ===== *)
theory Catalog
  imports Heap Indexes
begin

text \<open>
  The catalog (include/catalog/catalog.h): tables by name and by OID, indexes by table and name and
  by OID, and the creation of an index, which reads the whole table heap and enters every tuple it
  finds.  The hash maps of the catalog are association lists; the order in which the standard library
  enumerates a hash map is a parameter (\<open>enum\<close>) of the operations that iterate over one.
\<close>

section \<open>The indexes a catalog creates\<close>

datatype IndexType = BPlusTreeIndex | HashTableIndex | STLOrderedIndexType | STLUnorderedIndexType

definition IndexType_name :: "IndexType \<Rightarrow> string" where
  "IndexType_name c = (case c of BPlusTreeIndex \<Rightarrow> ''BPlusTree'' | HashTableIndex \<Rightarrow> ''Hash''
     | STLOrderedIndexType \<Rightarrow> ''STLOrdered'' | STLUnorderedIndexType \<Rightarrow> ''STLUnordered'')"

text \<open>The subclasses of \<open>Index\<close>; a B+ tree has its metadata and the id of its header page.\<close>

datatype Index =
    BPlusTree IndexMetadata int
  | STLOrdered STLOrderedIndex
  | STLUnordered STLUnorderedIndex

fun GetMetadata :: "Index \<Rightarrow> IndexMetadata" where
  "GetMetadata (BPlusTree m p) = m"
| "GetMetadata (STLOrdered ix) = o_metadata ix"
| "GetMetadata (STLUnordered ix) = u_metadata ix"

definition GetKeyAttrs :: "Index \<Rightarrow> nat list" where
  "GetKeyAttrs ix = im_key_attrs (GetMetadata ix)"

text \<open>The constructor of the B+ tree index takes a header page and marks the tree empty in it.\<close>

definition BPlusTreeIndex_ctor :: "'b bpm \<Rightarrow> 'b \<Rightarrow> IndexMetadata \<Rightarrow> (Index \<times> 'b) result" where
  "BPlusTreeIndex_ctor bpm b m = rbind (NewPage bpm b) (\<lambda>(header_page_id, b).
     rbind (AcquirePage bpm b header_page_id) (\<lambda>(p, b).
     rbind (write_at p 0 (le_encode 4 (nat (INVALID_PAGE_ID mod 2 ^ 32)))) (\<lambda>p.
     rbind (DropPage bpm b header_page_id p) (\<lambda>b. Inr (BPlusTree m header_page_id, b)))))"

text \<open>\<open>Index::InsertEntry\<close>; the B+ tree is unimplemented.\<close>

fun Index_InsertEntry :: "Index \<Rightarrow> Tuple \<Rightarrow> RID \<Rightarrow> (bool \<times> Index) result" where
  "Index_InsertEntry (BPlusTree m p) key r = Inl (LogicError ''TODO(P2): Add implementation.'')"
| "Index_InsertEntry (STLOrdered ix) key r = rbind (STLOrderedIndex_InsertEntry ix key r) (\<lambda>(b, ix). Inr (b, STLOrdered ix))"
| "Index_InsertEntry (STLUnordered ix) key r = rbind (STLUnorderedIndex_InsertEntry ix key r) (\<lambda>(b, ix). Inr (b, STLUnordered ix))"

fun Index_DeleteEntry :: "Index \<Rightarrow> Tuple \<Rightarrow> RID \<Rightarrow> Index result" where
  "Index_DeleteEntry (BPlusTree m p) key r = Inl (LogicError ''TODO(P2): Add implementation.'')"
| "Index_DeleteEntry (STLOrdered ix) key r = rbind (STLOrderedIndex_DeleteEntry ix key r) (\<lambda>ix. Inr (STLOrdered ix))"
| "Index_DeleteEntry (STLUnordered ix) key r = rbind (STLUnorderedIndex_DeleteEntry ix key r) (\<lambda>ix. Inr (STLUnordered ix))"

fun Index_ScanKey :: "Index \<Rightarrow> Tuple \<Rightarrow> RID list result" where
  "Index_ScanKey (BPlusTree m p) key = Inl (LogicError ''TODO(P2): Add implementation.'')"
| "Index_ScanKey (STLOrdered ix) key = STLOrderedIndex_ScanKey ix key"
| "Index_ScanKey (STLUnordered ix) key = STLUnorderedIndex_ScanKey ix key"

section \<open>Catalog entries\<close>

text \<open>The heap of a table created without one (\<open>CreateEmptyHeap\<close>) has no buffer pool: \<open>None\<close>.\<close>

record TableInfo =
  ti_schema :: Schema
  ti_name :: string
  ti_table :: "TableHeap option"
  ti_oid :: nat

record IndexInfo =
  ii_key_schema :: Schema
  ii_name :: string
  ii_index :: Index
  ii_index_oid :: nat
  ii_table_name :: string
  ii_key_size :: nat
  ii_is_primary_key :: bool
  ii_index_type :: IndexType

record Catalog =
  tables :: "(nat \<times> TableInfo) list"
  table_names :: "(string \<times> nat) list"
  next_table_oid :: nat
  indexes :: "(nat \<times> IndexInfo) list"
  index_names :: "(string \<times> (string \<times> nat) list) list"
  next_index_oid :: nat

definition Catalog_ctor :: Catalog where
  "Catalog_ctor = \<lparr> tables = [], table_names = [], next_table_oid = 0, indexes = [], index_names = [], next_index_oid = 0 \<rparr>"

text \<open>\<open>emplace\<close> keeps an element that is already there.\<close>

definition emplace :: "'k \<Rightarrow> 'v \<Rightarrow> ('k \<times> 'v) list \<Rightarrow> ('k \<times> 'v) list" where
  "emplace k v m = (if map_of m k = None then (k, v) # m else m)"

section \<open>Operations\<close>

text \<open>\<open>NULL_TABLE_INFO\<close> and \<open>NULL_INDEX_INFO\<close> are \<open>None\<close>.\<close>

definition CreateTable :: "'b bpm \<Rightarrow> 'b \<Rightarrow> Catalog \<Rightarrow> string \<Rightarrow> Schema \<Rightarrow> bool \<Rightarrow> (TableInfo option \<times> Catalog \<times> 'b) result" where
  "CreateTable bpm b c table_name schema create_table_heap =
     (if map_of (table_names c) table_name \<noteq> None then Inr (None, c, b)
      else rbind (if create_table_heap then rbind (TableHeap_ctor bpm b) (\<lambda>(h, b). Inr (Some h, b)) else Inr (None, b))
        (\<lambda>(table, b). let table_oid = next_table_oid c;
           meta = \<lparr> ti_schema = schema, ti_name = table_name, ti_table = table, ti_oid = table_oid \<rparr> in
         Inr (Some meta, c \<lparr> next_table_oid := (table_oid + 1) mod 2 ^ 32,
           tables := emplace table_oid meta (tables c),
           table_names := emplace table_name table_oid (table_names c),
           index_names := emplace table_name [] (index_names c) \<rparr>, b)))"

definition GetTable_oid :: "Catalog \<Rightarrow> nat \<Rightarrow> TableInfo option" where
  "GetTable_oid c table_oid = map_of (tables c) table_oid"

definition GetTable :: "Catalog \<Rightarrow> string \<Rightarrow> TableInfo option result" where
  "GetTable c table_name = (case map_of (table_names c) table_name of None \<Rightarrow> Inr None
     | Some table_oid \<Rightarrow> assert (map_of (tables c) table_oid \<noteq> None) (Inr (map_of (tables c) table_oid)))"

text \<open>The loop of \<open>CreateIndex\<close> over the table heap, with fuel.  The result of the insertion is
  ignored, and so is the deletion mark of the tuple.\<close>

fun populate :: "nat \<Rightarrow> 'b bpm \<Rightarrow> Schema \<Rightarrow> Schema \<Rightarrow> nat list \<Rightarrow> 'b \<Rightarrow> TableIterator \<Rightarrow> Index \<Rightarrow> (Index \<times> 'b) result option" where
  "populate 0 bpm schema key_schema key_attrs b it ix = None"
| "populate (Suc fuel) bpm schema key_schema key_attrs b it ix = (if IsEnd it then Some (Inr (ix, b)) else
     (case rbind (TableIterator_GetTuple bpm b it) (\<lambda>((meta, tuple), b).
             rbind (KeyFromTuple tuple schema key_schema key_attrs) (\<lambda>key.
             rbind (Index_InsertEntry ix key (rid tuple)) (\<lambda>(_, ix).
             rbind (TableIterator_next bpm b it) (\<lambda>(it, b). Inr (ix, it, b))))) of
        Inl e \<Rightarrow> Some (Inl e)
      | Inr (ix, it, b) \<Rightarrow> populate fuel bpm schema key_schema key_attrs b it ix))"

text \<open>\<open>N\<close> is the size of the template argument \<open>KeyType\<close>.\<close>

definition make_index :: "'b bpm \<Rightarrow> 'b \<Rightarrow> IndexMetadata \<Rightarrow> nat \<Rightarrow> (buffer \<Rightarrow> nat) \<Rightarrow> IndexType \<Rightarrow> (Index \<times> 'b) result" where
  "make_index bpm b meta N hash_function index_type = (case index_type of
       HashTableIndex \<Rightarrow> not_implemented ''DiskExtendibleHashTable is not implemented''
     | BPlusTreeIndex \<Rightarrow> BPlusTreeIndex_ctor bpm b meta
     | STLOrderedIndexType \<Rightarrow> Inr (STLOrdered (STLOrderedIndex_ctor N meta), b)
     | STLUnorderedIndexType \<Rightarrow> Inr (STLUnordered (STLUnorderedIndex_ctor N meta hash_function), b))"

definition start_index :: "'b bpm \<Rightarrow> 'b \<Rightarrow> Catalog \<Rightarrow> string \<Rightarrow> string \<Rightarrow> Schema \<Rightarrow> nat list \<Rightarrow> nat \<Rightarrow> (buffer \<Rightarrow> nat) \<Rightarrow> bool \<Rightarrow>
    IndexType \<Rightarrow> (Index \<times> TableIterator \<times> 'b) result" where
  "start_index bpm b c index_name table_name schema key_attrs N hash_function is_primary_key index_type =
     rbind (IndexMetadata_ctor index_name table_name schema key_attrs is_primary_key) (\<lambda>meta.
     rbind (make_index bpm b meta N hash_function index_type) (\<lambda>(ix, b).
     rbind (GetTable c table_name) (\<lambda>t. case t of None \<Rightarrow> Inl Undefined | Some table_meta \<Rightarrow>
       (case ti_table table_meta of None \<Rightarrow> Inl Undefined | Some h \<Rightarrow>
         rbind (MakeIterator bpm h b) (\<lambda>(it, b). Inr (ix, it, b))))))"

text \<open>The final update of the catalog; \<open>table_indexes\<close> is the entry of the table in \<open>index_names_\<close>.\<close>

definition register_index :: "Catalog \<Rightarrow> (string \<times> nat) list \<Rightarrow> IndexInfo \<Rightarrow> Catalog" where
  "register_index c table_indexes info = c \<lparr> next_index_oid := (next_index_oid c + 1) mod 2 ^ 32,
     indexes := emplace (ii_index_oid info) info (indexes c),
     index_names := (ii_table_name info, emplace (ii_name info) (ii_index_oid info) table_indexes) #
       filter (\<lambda>e. fst e \<noteq> ii_table_name info) (index_names c) \<rparr>"

definition CreateIndex :: "nat \<Rightarrow> 'b bpm \<Rightarrow> 'b \<Rightarrow> Catalog \<Rightarrow> string \<Rightarrow> string \<Rightarrow> Schema \<Rightarrow> Schema \<Rightarrow> nat list \<Rightarrow> nat \<Rightarrow> nat \<Rightarrow>
    (buffer \<Rightarrow> nat) \<Rightarrow> bool \<Rightarrow> IndexType \<Rightarrow> (IndexInfo option \<times> Catalog \<times> 'b) result option" where
  "CreateIndex fuel bpm b c index_name table_name schema key_schema key_attrs N keysize hash_function is_primary_key index_type =
     (case map_of (table_names c) table_name of None \<Rightarrow> Some (Inr (None, c, b)) | Some _ \<Rightarrow>
     (case map_of (index_names c) table_name of None \<Rightarrow> Some (Inl AssertFail) | Some table_indexes \<Rightarrow>
      if map_of table_indexes index_name \<noteq> None then Some (Inr (None, c, b)) else
      (case start_index bpm b c index_name table_name schema key_attrs N hash_function is_primary_key index_type of
         Inl e \<Rightarrow> Some (Inl e)
       | Inr (ix, it, b) \<Rightarrow> (case populate fuel bpm schema key_schema key_attrs b it ix of
           None \<Rightarrow> None
         | Some (Inl e) \<Rightarrow> Some (Inl e)
         | Some (Inr (ix, b)) \<Rightarrow>
             let info = \<lparr> ii_key_schema = key_schema, ii_name = index_name, ii_index = ix, ii_index_oid = next_index_oid c,
               ii_table_name = table_name, ii_key_size = keysize, ii_is_primary_key = is_primary_key, ii_index_type = index_type \<rparr>
             in Some (Inr (Some info, register_index c table_indexes info, b))))))"

definition GetIndex :: "Catalog \<Rightarrow> string \<Rightarrow> string \<Rightarrow> IndexInfo option result" where
  "GetIndex c index_name table_name = (case map_of (index_names c) table_name of
       None \<Rightarrow> assert (map_of (table_names c) table_name = None) (Inr None)
     | Some table_indexes \<Rightarrow> (case map_of table_indexes index_name of None \<Rightarrow> Inr None
        | Some index_oid \<Rightarrow> assert (map_of (indexes c) index_oid \<noteq> None) (Inr (map_of (indexes c) index_oid))))"

definition GetIndex_table_oid :: "Catalog \<Rightarrow> string \<Rightarrow> nat \<Rightarrow> IndexInfo option result" where
  "GetIndex_table_oid c index_name table_oid = (case map_of (tables c) table_oid of None \<Rightarrow> Inr None
     | Some table_meta \<Rightarrow> GetIndex c index_name (ti_name table_meta))"

definition GetIndex_oid :: "Catalog \<Rightarrow> nat \<Rightarrow> IndexInfo option" where
  "GetIndex_oid c index_oid = map_of (indexes c) index_oid"

definition GetTableIndexes :: "((string \<times> nat) list \<Rightarrow> (string \<times> nat) list) \<Rightarrow> Catalog \<Rightarrow> string \<Rightarrow> IndexInfo list result" where
  "GetTableIndexes enum c table_name = (if map_of (table_names c) table_name = None then Inr []
     else (case map_of (index_names c) table_name of None \<Rightarrow> Inl AssertFail
       | Some table_indexes \<Rightarrow> rmapM (\<lambda>(name, index_oid). case map_of (indexes c) index_oid of
           None \<Rightarrow> Inl AssertFail | Some info \<Rightarrow> Inr info) (enum table_indexes)))"

definition GetTableNames :: "((string \<times> nat) list \<Rightarrow> (string \<times> nat) list) \<Rightarrow> Catalog \<Rightarrow> string list" where
  "GetTableNames enum c = map fst (enum (table_names c))"

section \<open>The invariant behind the assertions\<close>

text \<open>The indexes listed under a table name.\<close>

definition listed :: "(nat \<Rightarrow> IndexInfo option) \<Rightarrow> string \<Rightarrow> (string \<times> nat) list \<Rightarrow> bool" where
  "listed f n tis \<longleftrightarrow> distinct (map fst tis) \<and> (\<forall>(i, oid) \<in> set tis. \<exists>info. f oid = Some info \<and> ii_name info = i \<and>
     ii_table_name info = n \<and> ii_index_oid info = oid)"

definition cat_inv :: "Catalog \<Rightarrow> bool" where
  "cat_inv c \<longleftrightarrow>
     (\<forall>n oid. map_of (table_names c) n = Some oid \<longrightarrow> (\<exists>t. map_of (tables c) oid = Some t \<and> ti_name t = n \<and> ti_oid t = oid)) \<and>
     (\<forall>oid t. map_of (tables c) oid = Some t \<longrightarrow> oid < next_table_oid c \<and> map_of (table_names c) (ti_name t) = Some oid) \<and>
     (\<forall>n. map_of (index_names c) n = None \<longleftrightarrow> map_of (table_names c) n = None) \<and>
     (\<forall>n tis. map_of (index_names c) n = Some tis \<longrightarrow> listed (map_of (indexes c)) n tis) \<and>
     (\<forall>oid info. map_of (indexes c) oid = Some info \<longrightarrow> oid < next_index_oid c)"

lemma map_of_emplace: "map_of (emplace k v m) = (if map_of m k = None then (map_of m)(k \<mapsto> v) else map_of m)"
  by (simp add: emplace_def)

lemma cat_inv_ctor: "cat_inv Catalog_ctor"
  by (simp add: cat_inv_def Catalog_ctor_def)

lemma cat_inv_tablesD:
  assumes "cat_inv c" "map_of (table_names c) n = Some oid"
  obtains t where "map_of (tables c) oid = Some t" "ti_name t = n" "ti_oid t = oid"
  using assms by (auto simp: cat_inv_def)

lemma cat_inv_fresh:
  assumes "cat_inv c"
  shows "map_of (tables c) (next_table_oid c) = None" "map_of (indexes c) (next_index_oid c) = None"
proof -
  have "oid < next_table_oid c" if "map_of (tables c) oid = Some t" for oid t using assms that by (auto simp: cat_inv_def)
  then show "map_of (tables c) (next_table_oid c) = None" by (metis less_irrefl not_Some_eq)
  have "oid < next_index_oid c" if "map_of (indexes c) oid = Some t" for oid t using assms that by (auto simp: cat_inv_def)
  then show "map_of (indexes c) (next_index_oid c) = None" by (metis less_irrefl not_Some_eq)
qed

lemma CreateTable_cases:
  assumes "CreateTable bpm b c n s h = Inr (t, c', b')"
  obtains (exists) "map_of (table_names c) n \<noteq> None" "t = None" "c' = c" "b' = b"
  | (created) table where "map_of (table_names c) n = None"
     "t = Some \<lparr> ti_schema = s, ti_name = n, ti_table = table, ti_oid = next_table_oid c \<rparr>"
     "c' = c \<lparr> next_table_oid := (next_table_oid c + 1) mod 2 ^ 32, tables := emplace (next_table_oid c) (the t) (tables c),
        table_names := emplace n (next_table_oid c) (table_names c), index_names := emplace n [] (index_names c) \<rparr>"
  using assms by (cases "map_of (table_names c) n") (auto simp: CreateTable_def Let_def rbind_Inr_iff split: if_splits)

lemma CreateIndex_cases:
  assumes "CreateIndex fuel bpm b c index_name table_name schema key_schema key_attrs N keysize hash pk ty = Some (Inr (i, c', b'))"
  obtains (none) "i = None" "c' = c" "b' = b"
  | (created) ix tis where "map_of (table_names c) table_name \<noteq> None" "map_of (index_names c) table_name = Some tis"
     "map_of tis index_name = None"
     "i = Some \<lparr> ii_key_schema = key_schema, ii_name = index_name, ii_index = ix, ii_index_oid = next_index_oid c,
               ii_table_name = table_name, ii_key_size = keysize, ii_is_primary_key = pk, ii_index_type = ty \<rparr>"
     "c' = register_index c tis (the i)"
proof (cases "map_of (table_names c) table_name")
  case None
  then show ?thesis using assms by (intro none) (simp_all add: CreateIndex_def)
next
  case (Some oid)
  then obtain tis where tis: "map_of (index_names c) table_name = Some tis"
    using assms by (cases "map_of (index_names c) table_name") (auto simp: CreateIndex_def)
  show ?thesis
  proof (cases "map_of tis index_name")
    case None
    have "\<exists>ix. i = Some \<lparr> ii_key_schema = key_schema, ii_name = index_name, ii_index = ix, ii_index_oid = next_index_oid c,
        ii_table_name = table_name, ii_key_size = keysize, ii_is_primary_key = pk, ii_index_type = ty \<rparr> \<and>
        c' = register_index c tis (the i)"
      using assms unfolding CreateIndex_def by (simp add: Some tis None Let_def split: sum.splits option.splits prod.splits) auto
    then show ?thesis using created [OF _ tis None] Some by auto
  next
    case (Some oid')
    then show ?thesis using assms tis \<open>map_of (table_names c) table_name = Some oid\<close>
      by (intro none) (simp_all add: CreateIndex_def)
  qed
qed

lemma listed_upd: "listed f n tis \<Longrightarrow> f oid = None \<Longrightarrow> listed (f(oid \<mapsto> x)) n tis"
  unfolding listed_def by fastforce

lemma listed_Cons:
  "listed f n tis \<Longrightarrow> map_of tis i = None \<Longrightarrow> f oid = Some info \<Longrightarrow> ii_name info = i \<Longrightarrow> ii_table_name info = n \<Longrightarrow>
     ii_index_oid info = oid \<Longrightarrow> listed f n ((i, oid) # tis)"
  by (auto simp: listed_def map_of_eq_None_iff)

lemma map_of_filter_key: "map_of (filter (\<lambda>e. fst e \<noteq> k) m) = (map_of m)(k := None)"
  by (induction m) (auto simp: fun_eq_iff)

lemma CreateTable_inv:
  assumes "cat_inv c" "next_table_oid c < 2 ^ 32 - 1" "CreateTable bpm b c n s h = Inr (t, c', b')"
  shows "cat_inv c'"
  using assms(3)
proof (cases rule: CreateTable_cases)
  case (created table)
  have new: "map_of (tables c) (next_table_oid c) = None" by (rule cat_inv_fresh [OF assms(1)])
  have sel: "map_of (tables c') = (map_of (tables c))(next_table_oid c \<mapsto> the t)"
      "map_of (table_names c') = (map_of (table_names c))(n \<mapsto> next_table_oid c)"
      "map_of (index_names c') = (map_of (index_names c))(n \<mapsto> [])" "indexes c' = indexes c"
      "next_table_oid c' = next_table_oid c + 1" "next_index_oid c' = next_index_oid c"
    using created new assms(1,2) by (auto simp: map_of_emplace cat_inv_def)
  have t: "ti_name (the t) = n" "ti_oid (the t) = next_table_oid c" using created(2) by simp_all
  show ?thesis
    unfolding cat_inv_def sel
  proof (intro conjI allI impI)
    fix m oid assume m: "((map_of (table_names c))(n \<mapsto> next_table_oid c)) m = Some oid"
    show "\<exists>t'. ((map_of (tables c))(next_table_oid c \<mapsto> the t)) oid = Some t' \<and> ti_name t' = m \<and> ti_oid t' = oid"
    proof (cases "m = n")
      case True
      then show ?thesis using m t by simp
    next
      case False
      then obtain t' where "map_of (tables c) oid = Some t'" "ti_name t' = m" "ti_oid t' = oid"
        using m cat_inv_tablesD [OF assms(1)] by auto
      moreover have "oid \<noteq> next_table_oid c" using calculation(1) new by auto
      ultimately show ?thesis by auto
    qed
  next
    fix oid t' assume "((map_of (tables c))(next_table_oid c \<mapsto> the t)) oid = Some t'"
    then have "oid = next_table_oid c \<and> t' = the t \<or> oid < next_table_oid c \<and> map_of (table_names c) (ti_name t') = Some oid"
      using assms(1) by (auto simp: cat_inv_def split: if_splits)
    then show "oid < next_table_oid c + 1" "((map_of (table_names c))(n \<mapsto> next_table_oid c)) (ti_name t') = Some oid"
      using t created(1) by auto
  next
    show "listed (map_of (indexes c)) m tis" if "((map_of (index_names c))(n \<mapsto> [])) m = Some tis" for m tis
      using that assms(1) by (auto simp: cat_inv_def listed_def split: if_splits)
  qed (use assms(1) in \<open>auto simp: cat_inv_def\<close>)
qed (use assms(1) in simp)

lemma CreateIndex_inv:
  assumes "cat_inv c" "next_index_oid c < 2 ^ 32 - 1"
    "CreateIndex fuel bpm b c index_name table_name schema key_schema key_attrs N keysize hash pk ty = Some (Inr (i, c', b'))"
  shows "cat_inv c'"
  using assms(3)
proof (cases rule: CreateIndex_cases)
  case (created ix tis)
  have new: "map_of (indexes c) (next_index_oid c) = None" by (rule cat_inv_fresh [OF assms(1)])
  let ?o = "next_index_oid c"
  have sel: "tables c' = tables c" "table_names c' = table_names c" "next_table_oid c' = next_table_oid c"
      "map_of (indexes c') = (map_of (indexes c))(?o \<mapsto> the i)"
      "map_of (index_names c') = (map_of (index_names c))(table_name \<mapsto> (index_name, ?o) # tis)"
      "next_index_oid c' = ?o + 1"
    using created new assms(2) by (auto simp: register_index_def map_of_emplace map_of_filter_key emplace_def)
  have i: "ii_name (the i) = index_name" "ii_table_name (the i) = table_name" "ii_index_oid (the i) = ?o"
    using created(4) by simp_all
  show ?thesis
    unfolding cat_inv_def sel
  proof (intro conjI allI impI)
    fix n js assume n: "((map_of (index_names c))(table_name \<mapsto> (index_name, ?o) # tis)) n = Some js"
    have old: "listed ((map_of (indexes c))(?o \<mapsto> the i)) m ks" if "map_of (index_names c) m = Some ks" for m ks
      using assms(1) that new by (auto simp: cat_inv_def intro: listed_upd)
    show "listed ((map_of (indexes c))(?o \<mapsto> the i)) n js"
    proof (cases "n = table_name")
      case True
      then show ?thesis using n listed_Cons [OF old [OF created(2)] created(3), of ?o "the i"] i by auto
    next
      case False
      then show ?thesis using n old by simp
    qed
  next
    show "((map_of (index_names c))(table_name \<mapsto> (index_name, ?o) # tis)) n = None \<longleftrightarrow> map_of (table_names c) n = None" for n
      using assms(1) created(1) by (auto simp: cat_inv_def)
  next
    show "oid < ?o + 1" if "((map_of (indexes c))(?o \<mapsto> the i)) oid = Some info" for oid info
      using that assms(1) by (auto simp: cat_inv_def less_Suc_eq split: if_splits)
  qed (use assms(1) in \<open>auto simp: cat_inv_def\<close>)
qed (use assms(1) in simp)

section \<open>Reachable catalogs\<close>

text \<open>The heap of a table is shared by everyone who holds its \<open>TableInfo\<close>: an insertion through it
  changes the heap that the catalog's entry refers to.\<close>

definition set_heap :: "Catalog \<Rightarrow> nat \<Rightarrow> TableHeap \<Rightarrow> Catalog" where
  "set_heap c oid h = c \<lparr> tables := map (\<lambda>(i, t). (i, if i = oid then t \<lparr> ti_table := Some h \<rparr> else t)) (tables c) \<rparr>"

lemma map_of_set_heap: "map_of (tables (set_heap c oid h)) i =
    map_option (\<lambda>t. if i = oid then t \<lparr> ti_table := Some h \<rparr> else t) (map_of (tables c) i)"
proof -
  have "map_of (map (\<lambda>(i, t). (i, if i = oid then t \<lparr> ti_table := Some h \<rparr> else t)) m) i =
      map_option (\<lambda>t. if i = oid then t \<lparr> ti_table := Some h \<rparr> else t) (map_of m i)" for m :: "(nat \<times> TableInfo) list"
    by (induction m) auto
  then show ?thesis by (simp add: set_heap_def)
qed

lemma set_heap_inv:
  assumes "cat_inv c" shows "cat_inv (set_heap c oid h)"
proof -
  have "table_names (set_heap c oid h) = table_names c" "index_names (set_heap c oid h) = index_names c"
    "indexes (set_heap c oid h) = indexes c" "next_table_oid (set_heap c oid h) = next_table_oid c"
    "next_index_oid (set_heap c oid h) = next_index_oid c" by (simp_all add: set_heap_def)
  note sel = this
  have t: "\<exists>t'. map_of (tables (set_heap c oid h)) i = Some t' \<and> ti_name t' = ti_name t \<and> ti_oid t' = ti_oid t"
    if "map_of (tables c) i = Some t" for i t using that by (simp add: map_of_set_heap)
  have t': "\<exists>t. map_of (tables c) i = Some t \<and> ti_name t' = ti_name t" if "map_of (tables (set_heap c oid h)) i = Some t'" for i t'
    using that by (auto simp: map_of_set_heap)
  show ?thesis unfolding cat_inv_def sel
  proof (intro conjI allI impI)
    fix n i assume "map_of (table_names c) n = Some i"
    from cat_inv_tablesD [OF assms this] show "\<exists>t. map_of (tables (set_heap c oid h)) i = Some t \<and> ti_name t = n \<and> ti_oid t = i"
      using t by metis
  next
    fix i u assume "map_of (tables (set_heap c oid h)) i = Some u"
    from t' [OF this] show "i < next_table_oid c" "map_of (table_names c) (ti_name u) = Some i"
      using assms by (auto simp: cat_inv_def)
  qed (use assms in \<open>auto simp: cat_inv_def\<close>)
qed

text \<open>The catalogs a sequence of creations and heap changes can lead to, before the OID counters wrap
  around.\<close>

inductive reachable :: "'b bpm \<Rightarrow> Catalog \<Rightarrow> bool" for bpm where
  init: "reachable bpm Catalog_ctor"
| table: "reachable bpm c \<Longrightarrow> next_table_oid c < 2 ^ 32 - 1 \<Longrightarrow> CreateTable bpm b c n s h = Inr (t, c', b') \<Longrightarrow> reachable bpm c'"
| index: "reachable bpm c \<Longrightarrow> next_index_oid c < 2 ^ 32 - 1 \<Longrightarrow>
    CreateIndex fuel bpm b c index_name n schema key_schema key_attrs N keysize hash pk ty = Some (Inr (i, c', b')) \<Longrightarrow> reachable bpm c'"
| heap: "reachable bpm c \<Longrightarrow> reachable bpm (set_heap c oid h)"

lemma reachable_inv: "reachable bpm c \<Longrightarrow> cat_inv c"
  by (induction rule: reachable.induct) (auto intro: cat_inv_ctor CreateTable_inv CreateIndex_inv set_heap_inv)

text \<open>C19: None of the lookups of a reachable catalog runs into a \<open>Broken Invariant\<close> assertion, and the
  two views of the catalog agree: a table found by name is the one stored under its OID and bears that
  name; an index found by table and name is the one stored under its OID, bears both names, and is
  among the indexes listed for its table; the list holds nothing else.\<close>

theorem Catalog_lookups_agree:
  assumes "reachable bpm c" "\<And>l. set (enum l) = set l"
  shows "(\<exists>t. GetTable c n = Inr t \<and> (\<forall>ti. t = Some ti \<longrightarrow> ti_name ti = n \<and> GetTable_oid c (ti_oid ti) = Some ti)) \<and>
    (\<exists>i infos. GetIndex c m n = Inr i \<and> GetTableIndexes enum c n = Inr infos \<and>
       (\<forall>info. i = Some info \<longrightarrow> ii_name info = m \<and> ii_table_name info = n \<and> GetIndex_oid c (ii_index_oid info) = Some info) \<and>
       (\<forall>info. i = Some info \<longleftrightarrow> info \<in> set infos \<and> ii_name info = m))"
proof
  have inv: "cat_inv c" using assms(1) by (rule reachable_inv)
  show "\<exists>t. GetTable c n = Inr t \<and> (\<forall>ti. t = Some ti \<longrightarrow> ti_name ti = n \<and> GetTable_oid c (ti_oid ti) = Some ti)"
  proof (cases "map_of (table_names c) n")
    case (Some oid)
    then show ?thesis using inv by (auto simp: GetTable_def GetTable_oid_def elim: cat_inv_tablesD)
  qed (simp add: GetTable_def)
  show "\<exists>i infos. GetIndex c m n = Inr i \<and> GetTableIndexes enum c n = Inr infos \<and>
       (\<forall>info. i = Some info \<longrightarrow> ii_name info = m \<and> ii_table_name info = n \<and> GetIndex_oid c (ii_index_oid info) = Some info) \<and>
       (\<forall>info. i = Some info \<longleftrightarrow> info \<in> set infos \<and> ii_name info = m)"
  proof (cases "map_of (index_names c) n")
    case None
    then have "map_of (table_names c) n = None" using inv by (simp add: cat_inv_def)
    then show ?thesis using None by (simp add: GetIndex_def GetTableIndexes_def)
  next
    case (Some tis)
    define f where "f = (\<lambda>(name :: string, index_oid). the (map_of (indexes c) index_oid))"
    have l: "distinct (map fst tis)" "\<And>i oid. (i, oid) \<in> set tis \<Longrightarrow> map_of (indexes c) oid = Some (f (i, oid)) \<and>
        ii_name (f (i, oid)) = i \<and> ii_table_name (f (i, oid)) = n \<and> ii_index_oid (f (i, oid)) = oid"
      using inv Some unfolding cat_inv_def listed_def f_def by fastforce+
    have "map_of (table_names c) n \<noteq> None" using inv Some unfolding cat_inv_def by (metis option.distinct(1))
    then have "GetTableIndexes enum c n = Inr (map f (enum tis))"
      using Some l(2) assms(2) [of tis] by (auto simp: GetTableIndexes_def intro!: rmapM_Inr_map)
    moreover have "GetIndex c m n = Inr (map_option (\<lambda>oid. f (m, oid)) (map_of tis m))"
      using Some l(2) by (auto simp: GetIndex_def dest: map_of_SomeD split: option.splits)
    moreover have "map_option (\<lambda>oid. f (m, oid)) (map_of tis m) = Some info \<longleftrightarrow> info \<in> f ` set tis \<and> ii_name info = m" for info
      using l by (auto simp: map_of_eq_Some_iff image_iff)
    ultimately show ?thesis using l assms(2) [of tis]
      by (auto simp: GetIndex_oid_def map_of_eq_Some_iff dest: l(2))
  qed
qed

theorem Catalog_lookups_agree_witness:
  "\<exists>c t. CreateTable (direct_pool (Unlimited_WritePage 1) (Unlimited_ReadPage 1)) (DiskManagerUnlimitedMemory_ctor, 0) Catalog_ctor
      ''t'' (Schema_ctor ex_columns) False = Inr (Some t, c, (DiskManagerUnlimitedMemory_ctor, 0)) \<and>
     GetTable c ''t'' = Inr (Some t) \<and> GetTable_oid c (ti_oid t) = Some t"
proof -
  let ?bpm = "direct_pool (Unlimited_WritePage 1) (Unlimited_ReadPage 1)"
  obtain c t where c: "CreateTable ?bpm (DiskManagerUnlimitedMemory_ctor, 0) Catalog_ctor ''t'' (Schema_ctor ex_columns) False =
      Inr (Some t, c, (DiskManagerUnlimitedMemory_ctor, 0))" "GetTable c ''t'' = Inr (Some t)"
    by (simp add: CreateTable_def Catalog_ctor_def Let_def GetTable_def emplace_def)
  have "reachable ?bpm c" by (rule reachable.table [OF reachable.init _ c(1)]) (simp add: Catalog_ctor_def)
  then show ?thesis using Catalog_lookups_agree [of ?bpm c "\<lambda>l. l" "''t''" "''i''"] c by auto
qed

section \<open>Every index of a catalog keeps the contract\<close>

definition ix_inv :: "Column list \<Rightarrow> nat \<Rightarrow> Index \<Rightarrow> bool" where
  "ix_inv cs N ix = (case ix of BPlusTree m p \<Rightarrow> False | STLOrdered i \<Rightarrow> o_inv cs N i | STLUnordered i \<Rightarrow> u_inv cs N i)"

definition ix_view :: "Column list \<Rightarrow> Index \<Rightarrow> nat list list \<Rightarrow> RID option" where
  "ix_view cs ix = (case ix of BPlusTree m p \<Rightarrow> Map.empty | STLOrdered i \<Rightarrow> o_view cs i | STLUnordered i \<Rightarrow> u_view cs i)"

interpretation any_index: key_index Index_InsertEntry Index_DeleteEntry Index_ScanKey "ix_inv cs N" "ix_view cs" "key_ok cs N" "key_rank cs N"
  for cs N
proof
  fix i k and v :: RID
  assume i: "ix_inv cs N i" and k: "key_ok cs N k"
  show "\<exists>j. Index_InsertEntry i k v = Inr (ix_view cs i (key_rank cs N k) = None, j) \<and> ix_inv cs N j \<and>
      ix_view cs j = (if ix_view cs i (key_rank cs N k) = None then (ix_view cs i)(key_rank cs N k \<mapsto> v) else ix_view cs i)"
  proof (cases i)
    case (STLOrdered ix)
    then obtain j where "STLOrderedIndex_InsertEntry ix k v = Inr (o_view cs ix (key_rank cs N k) = None, j)" "o_inv cs N j"
        "o_view cs j = (if o_view cs ix (key_rank cs N k) = None then (o_view cs ix)(key_rank cs N k \<mapsto> v) else o_view cs ix)"
      using ordered_index.insert_view [of cs N ix k v] i k by (auto simp: ix_inv_def)
    then show ?thesis using STLOrdered by (intro exI [of _ "Index.STLOrdered j"]) (simp add: ix_inv_def ix_view_def)
  next
    case (STLUnordered ix)
    then obtain j where "STLUnorderedIndex_InsertEntry ix k v = Inr (u_view cs ix (key_rank cs N k) = None, j)" "u_inv cs N j"
        "u_view cs j = (if u_view cs ix (key_rank cs N k) = None then (u_view cs ix)(key_rank cs N k \<mapsto> v) else u_view cs ix)"
      using unordered_index.insert_view [of cs N ix k v] i k by (auto simp: ix_inv_def)
    then show ?thesis using STLUnordered by (intro exI [of _ "Index.STLUnordered j"]) (simp add: ix_inv_def ix_view_def)
  qed (use i in \<open>simp add: ix_inv_def\<close>)
  show "\<exists>j. Index_DeleteEntry i k v = Inr j \<and> ix_inv cs N j \<and> ix_view cs j = (ix_view cs i)(key_rank cs N k := None)"
  proof (cases i)
    case (STLOrdered ix)
    then obtain j where "STLOrderedIndex_DeleteEntry ix k v = Inr j" "o_inv cs N j" "o_view cs j = (o_view cs ix)(key_rank cs N k := None)"
      using ordered_index.delete_view [of cs N ix k v] i k by (auto simp: ix_inv_def)
    then show ?thesis using STLOrdered by (intro exI [of _ "Index.STLOrdered j"]) (simp add: ix_inv_def ix_view_def)
  next
    case (STLUnordered ix)
    then obtain j where "STLUnorderedIndex_DeleteEntry ix k v = Inr j" "u_inv cs N j" "u_view cs j = (u_view cs ix)(key_rank cs N k := None)"
      using unordered_index.delete_view [of cs N ix k v] i k by (auto simp: ix_inv_def)
    then show ?thesis using STLUnordered by (intro exI [of _ "Index.STLUnordered j"]) (simp add: ix_inv_def ix_view_def)
  qed (use i in \<open>simp add: ix_inv_def\<close>)
  show "Index_ScanKey i k = Inr (case ix_view cs i (key_rank cs N k) of None \<Rightarrow> [] | Some v \<Rightarrow> [v])"
    using i k ordered_index.scan_view [of cs N _ k] unordered_index.scan_view [of cs N _ k]
    by (cases i) (auto simp: ix_inv_def ix_view_def)
qed

section \<open>Populating an index\<close>

lemma map_run_inserts:
  "map_run rank f (map (\<lambda>(k, v). Ins k v) kvs) = map_of (map (\<lambda>(k, v). (rank k, v)) kvs) ++ f"
proof (induction kvs arbitrary: f)
  case (Cons x kvs)
  then show ?case by (cases x) (auto simp: map_add_def fun_eq_iff split: option.splits)
qed simp

text \<open>Populating enters the rows a scan of the same iterator would return.\<close>

lemma scan_populate:
  assumes "scan fuel bpm b it = Some (Inr xs)" "rmapM (\<lambda>(m, t). KeyFromTuple t schema key_schema key_attrs) xs = Inr keys"
    "index_run Index_InsertEntry Index_DeleteEntry ix (map (\<lambda>(k, r). Ins k r) (zip keys (map (\<lambda>(m, t). rid t) xs))) = Inr ix'"
  shows "\<exists>b'. populate fuel bpm schema key_schema key_attrs b it ix = Some (Inr (ix', b'))"
  using assms
proof (induction fuel arbitrary: b it ix xs keys)
  case (Suc fuel)
  show ?case
  proof (cases "IsEnd it")
    case False
    obtain m t it' b' ys where s: "xs = (m, t) # ys" "scan fuel bpm b' it' = Some (Inr ys)"
        "rbind (TableIterator_GetTuple bpm b it) (\<lambda>(x, b). rbind (TableIterator_next bpm b it) (\<lambda>(it, b). Inr (x, it, b))) =
           Inr ((m, t), it', b')"
      using Suc.prems(1) False by (auto simp: rbind_Inr_iff split: sum.splits)
    obtain k ks where k: "keys = k # ks" "KeyFromTuple t schema key_schema key_attrs = Inr k"
        "rmapM (\<lambda>(m, t). KeyFromTuple t schema key_schema key_attrs) ys = Inr ks"
      using Suc.prems(2) s(1) by (auto simp: rbind_Inr_iff simp del: rmapM_Inr_iff)
    obtain ok ix1 where i: "Index_InsertEntry ix k (rid t) = Inr (ok, ix1)"
        "index_run Index_InsertEntry Index_DeleteEntry ix1 (map (\<lambda>(k, r). Ins k r) (zip ks (map (\<lambda>(m, t). rid t) ys))) = Inr ix'"
      using Suc.prems(3) s(1) k(1) by (auto simp: rbind_Inr_iff)
    show ?thesis using Suc.IH [OF s(2) k(3) i(2)] False s(3) k(2) i(1) by (auto simp: rbind_Inr_iff)
  qed (use Suc.prems in auto)
qed simp

context heap_on_pool
begin

lemma populate_rows:
  assumes "heap_rep (page_of b) h pgs" "pool_inv b" "length (heap_rows pgs) < fuel"
    and keys: "rmapM (\<lambda>(r, m, d). KeyFromTuple \<lparr> rid = r, data = d \<rparr> schema key_schema key_attrs) (heap_rows pgs) = Inr keys"
    and ok: "list_all (key_ok cs N) keys" and ix: "ix_inv cs N ix" "ix_view cs ix = Map.empty"
  shows "\<exists>it b1 ix' b'. MakeIterator bpm h b = Inr (it, b1) \<and>
     populate fuel bpm schema key_schema key_attrs b1 it ix = Some (Inr (ix', b')) \<and> ix_inv cs N ix' \<and>
     ix_view cs ix' = map_of (zip (map (key_rank cs N) keys) (map fst (heap_rows pgs)))"
proof -
  let ?rows = "heap_rows pgs"
  obtain it b1 where s: "MakeIterator bpm h b = Inr (it, b1)" "scan fuel bpm b1 it = Some (Inr (map row_tuple ?rows))"
    using scan_all [OF assms(1-3)] by blast
  have rids: "map (\<lambda>(m, t). rid t) (map row_tuple ?rows) = map fst ?rows" by (simp add: row_tuple_def split_beta)
  have len: "length keys = length ?rows" using keys by (simp add: rmapM_Inr_iff)
  have k: "rmapM (\<lambda>(m, t). KeyFromTuple t schema key_schema key_attrs) (map row_tuple ?rows) = Inr keys"
    using keys by (simp add: rmapM_Inr_iff row_tuple_def split_beta)
  let ?kvs = "zip keys (map fst ?rows)"
  have "\<exists>ix'. index_run Index_InsertEntry Index_DeleteEntry ix (map (\<lambda>(k, r). Ins k r) ?kvs) = Inr ix' \<and> ix_inv cs N ix' \<and>
      ix_view cs ix' = map_run (key_rank cs N) (ix_view cs ix) (map (\<lambda>(k, r). Ins k r) ?kvs)"
    using ok by (intro any_index.run_refines [OF ix(1)]) (auto simp: list_all_iff dest: set_zip_leftD)
  moreover have "map (\<lambda>(k, v). (key_rank cs N k, v)) ?kvs = zip (map (key_rank cs N) keys) (map fst ?rows)"
    by (simp add: zip_map1)
  ultimately obtain ix' where "index_run Index_InsertEntry Index_DeleteEntry ix (map (\<lambda>(k, r). Ins k r) ?kvs) = Inr ix'"
      "ix_inv cs N ix'" "ix_view cs ix' = map_of (zip (map (key_rank cs N) keys) (map fst ?rows))"
    using ix(2) by (auto simp: map_run_inserts)
  then show ?thesis using scan_populate [OF s(2) k, unfolded rids] s(1) by blast
qed

end

lemma make_index_inv:
  assumes "ty = STLOrderedIndexType \<or> ty = STLUnorderedIndexType" "im_key_schema meta = Schema_ctor cs"
  shows "\<exists>ix. make_index bpm b meta N hash ty = Inr (ix, b) \<and> ix_inv cs N ix \<and> ix_view cs ix = Map.empty"
  using assms(1) ctor_inv [OF assms(2)] by (auto simp: make_index_def ix_inv_def ix_view_def)


lemma KeyFromTuple_data: "data t = data u \<Longrightarrow> KeyFromTuple t s ks attrs = KeyFromTuple u s ks attrs"
proof -
  assume "data t = data u"
  then have "GetValue t s = GetValue u s" by (intro ext) (metis ToValue_GetValue)
  then show ?thesis by (simp add: KeyFromTuple_def)
qed


end
