(* ===== verification/Plans.thy ===== *)
theory Plans
  imports Expressions Catalog
begin

text \<open>
  Query plans (include/execution/plans, execution/plan_node.cpp): the nodes of a plan with their
  fields, the inference of their output schemas, and a reference semantics of plans as lists of rows.
  The executors of joins, sorts and aggregations are not implemented in the repository: the
  semantics fixes the meaning of the nodes that the optimizer rewrites and leaves that of the others
  open.
\<close>

section \<open>Plan nodes\<close>

datatype JoinType = JT_INVALID | LEFT | RIGHT | INNER | OUTER
datatype OrderByType = OB_INVALID | OB_DEFAULT | ASC | DESC
datatype OrderByNullType = NULLS_DEFAULT | NULLS_FIRST | NULLS_LAST

type_synonym OrderBy = "OrderByType \<times> OrderByNullType \<times> expr"

datatype PlanType = SeqScan | IndexScan | Insert | Update | Delete | Aggregation | Limit | NestedLoopJoin | NestedIndexJoin
  | HashJoin | Filter | Values | Projection | Sort | TopN | TopNPerGroup | MockScan | Window

record WindowFunction =
  wf_function :: expr
  wf_type :: WindowFunctionType
  wf_partition_by :: "expr list"
  wf_order_by :: "OrderBy list"

text \<open>The fields of each subclass of \<open>AbstractPlanNode\<close>; a null \<open>filter_predicate_\<close> is \<open>None\<close>.  The map of
  the window functions is an association list.\<close>

datatype plan_op =
    SeqScanPlanNode nat string "expr option"
  | IndexScanPlanNode nat nat "expr option" "expr list"
  | InsertPlanNode nat
  | UpdatePlanNode nat "expr list"
  | DeletePlanNode nat
  | AggregationPlanNode "expr list" "expr list" "AggregationType list"
  | LimitPlanNode nat
  | NestedLoopJoinPlanNode expr JoinType
  | NestedIndexJoinPlanNode expr nat nat string string Schema JoinType
  | HashJoinPlanNode "expr list" "expr list" JoinType
  | FilterPlanNode expr
  | ValuesPlanNode "expr list list"
  | ProjectionPlanNode "expr list"
  | SortPlanNode "OrderBy list"
  | TopNPlanNode "OrderBy list" nat
  | TopNPerGroupPlanNode "OrderBy list" "expr list" nat
  | MockScanPlanNode string
  | WindowFunctionPlanNode "expr list" "(nat \<times> WindowFunction) list"

text \<open>The fields of the base class are the output schema and the children.\<close>

datatype plan = Plan (OutputSchema: Schema) (plan_op: plan_op) (plan_children: "plan list")

fun GetType :: "plan_op \<Rightarrow> PlanType" where
  "GetType (SeqScanPlanNode t n p) = SeqScan"
| "GetType (IndexScanPlanNode t i p ks) = IndexScan"
| "GetType (InsertPlanNode t) = Insert"
| "GetType (UpdatePlanNode t es) = Update"
| "GetType (DeletePlanNode t) = Delete"
| "GetType (AggregationPlanNode g a ty) = Aggregation"
| "GetType (LimitPlanNode n) = Limit"
| "GetType (NestedLoopJoinPlanNode p j) = NestedLoopJoin"
| "GetType (NestedIndexJoinPlanNode k t i n tn s j) = NestedIndexJoin"
| "GetType (HashJoinPlanNode l r j) = HashJoin"
| "GetType (FilterPlanNode p) = Filter"
| "GetType (ValuesPlanNode vs) = Values"
| "GetType (ProjectionPlanNode es) = Projection"
| "GetType (SortPlanNode o1) = Sort"
| "GetType (TopNPlanNode o1 n) = TopN"
| "GetType (TopNPerGroupPlanNode o1 g n) = TopNPerGroup"
| "GetType (MockScanPlanNode t) = MockScan"
| "GetType (WindowFunctionPlanNode c w) = Window"

definition Plan_CloneWithChildren :: "plan \<Rightarrow> plan list \<Rightarrow> plan" where
  "Plan_CloneWithChildren p children = Plan (OutputSchema p) (plan_op p) children"

definition GetChildAt :: "plan \<Rightarrow> nat \<Rightarrow> plan result" where
  "GetChildAt p i = at (plan_children p) i"

text \<open>The constructor of \<open>WindowFunctionPlanNode\<close> fills the map with \<open>operator[]\<close>: the last of several
  entries for an index wins.\<close>

definition WindowFunctionPlanNode_ctor :: "Schema \<Rightarrow> plan \<Rightarrow> nat list \<Rightarrow> expr list \<Rightarrow> expr list list \<Rightarrow> OrderBy list list \<Rightarrow>
    expr list \<Rightarrow> WindowFunctionType list \<Rightarrow> plan result" where
  "WindowFunctionPlanNode_ctor s child window_func_indexes cols partition_bys order_bys functions types =
     rbind (rfoldM (\<lambda>m i. rbind (at functions i) (\<lambda>f. rbind (at types i) (\<lambda>ty. rbind (at partition_bys i) (\<lambda>ps.
         rbind (at order_bys i) (\<lambda>os. let k = window_func_indexes ! i in
           Inr ((k, \<lparr> wf_function = f, wf_type = ty, wf_partition_by = ps, wf_order_by = os \<rparr>) # filter (\<lambda>e. fst e \<noteq> k) m))))))
       [] [0..<length window_func_indexes])
     (\<lambda>m. Inr (Plan s (WindowFunctionPlanNode cols m) [child]))"

section \<open>Output schemas\<close>

definition InferScanSchema :: "string \<Rightarrow> Schema \<Rightarrow> Schema" where
  "InferScanSchema bound_table_name schema =
     Schema_ctor (map (\<lambda>c. Column_rename (bound_table_name @ ''.'' @ column_name c) c) (columns schema))"

definition InferJoinSchema :: "plan \<Rightarrow> plan \<Rightarrow> Schema" where
  "InferJoinSchema l r = Schema_ctor (columns (OutputSchema l) @ columns (OutputSchema r))"

definition InferProjectionSchema :: "expr list \<Rightarrow> Schema result" where
  "InferProjectionSchema exprs = rbind (rmapM (\<lambda>e. rbind (GetReturnType e) (\<lambda>c. Inr (WithColumnName c ''<unnamed>''))) exprs)
     (\<lambda>cs. Inr (Schema_ctor cs))"

definition RenameSchema :: "Schema \<Rightarrow> string list \<Rightarrow> Schema result" where
  "RenameSchema schema col_names = (if length col_names \<noteq> GetColumnCount schema
     then Inl (Throw ET_INVALID ''mismatched number of columns'')
     else Inr (Schema_ctor (map (\<lambda>(n, c). Column_rename n c) (zip col_names (columns schema)))))"

definition InferAggSchema :: "expr list \<Rightarrow> expr list \<Rightarrow> AggregationType list \<Rightarrow> Schema result" where
  "InferAggSchema group_bys aggregates agg_types =
     rbind (rmapM (\<lambda>e. rbind (GetReturnType e) (\<lambda>c. Inr (WithColumnName c ''<unnamed>''))) group_bys) (\<lambda>gs.
     rbind (rmapM (\<lambda>_. Column_fixed ''<unnamed>'' INTEGER) aggregates) (\<lambda>as. Inr (Schema_ctor (gs @ as))))"

definition InferWindowSchema :: "expr list \<Rightarrow> Schema result" where
  "InferWindowSchema cols = rbind (rmapM (\<lambda>e. rbind (GetReturnType e) (\<lambda>c. Inr (WithColumnName c ''<unnamed>''))) cols)
     (\<lambda>cs. Inr (Schema_ctor cs))"

section \<open>Rows\<close>

type_synonym row = "Value list"

text \<open>An expression over one row, and over the two rows of a join: the evaluators of the expressions
  with the columns of a tuple given as values.\<close>

definition eval_row :: "row \<Rightarrow> expr \<Rightarrow> Value result" where
  "eval_row row e = eval_with (\<lambda>tup col. at row col) False e"

definition eval_join :: "row \<Rightarrow> row \<Rightarrow> expr \<Rightarrow> Value result" where
  "eval_join l r e = eval_with (\<lambda>tup col. if tup = 0 then at l col else at r col) True e"

text \<open>A predicate holds when its value is true and not NULL.\<close>

definition holds_value :: "Value \<Rightarrow> bool" where
  "holds_value v \<longleftrightarrow> \<not> IsNull v \<and> GetAs_bool v"

fun rfilterM :: "('a \<Rightarrow> bool result) \<Rightarrow> 'a list \<Rightarrow> 'a list result" where
  "rfilterM p [] = Inr []"
| "rfilterM p (x # xs) = rbind (p x) (\<lambda>b. rbind (rfilterM p xs) (\<lambda>ys. Inr (if b then x # ys else ys)))"

definition row_holds :: "expr \<Rightarrow> row \<Rightarrow> bool result" where
  "row_holds e row = rbind (eval_row row e) (\<lambda>v. Inr (holds_value v))"

definition join_holds :: "expr \<Rightarrow> row \<times> row \<Rightarrow> bool result" where
  "join_holds e = (\<lambda>(l, r). rbind (eval_join l r e) (\<lambda>v. Inr (holds_value v)))"

definition pairs :: "row list \<Rightarrow> row list \<Rightarrow> (row \<times> row) list" where
  "pairs ls rs = concat (map (\<lambda>l. map (Pair l) rs) ls)"

text \<open>The rows of a node from those of its children: \<open>table\<close> gives the rows of a table, \<open>other\<close> the
  rows of every node whose meaning is left open.\<close>

definition node_rows :: "(nat \<Rightarrow> row list result) \<Rightarrow> (plan_op \<Rightarrow> row list list \<Rightarrow> row list result) \<Rightarrow> plan_op \<Rightarrow> row list list \<Rightarrow> row list result" where
  "node_rows table other node rss = (case node of
       SeqScanPlanNode t n p \<Rightarrow> rbind (table t) (\<lambda>rs. case p of None \<Rightarrow> Inr rs | Some e \<Rightarrow> rfilterM (row_holds e) rs)
     | ValuesPlanNode ess \<Rightarrow> rmapM (rmapM (eval_row [])) ess
     | FilterPlanNode e \<Rightarrow> (case rss of [rs] \<Rightarrow> rfilterM (row_holds e) rs | _ \<Rightarrow> other node rss)
     | ProjectionPlanNode es \<Rightarrow> (case rss of [rs] \<Rightarrow> rmapM (\<lambda>row. rmapM (eval_row row) es) rs | _ \<Rightarrow> other node rss)
     | NestedLoopJoinPlanNode e j \<Rightarrow> (case rss of
         [ls, rs] \<Rightarrow> if j = INNER then rbind (rfilterM (join_holds e) (pairs ls rs)) (\<lambda>ps. Inr (map (\<lambda>(l, r). l @ r) ps))
           else other node rss
       | _ \<Rightarrow> other node rss)
     | _ \<Rightarrow> other node rss)"

lemma rmapM_cong [fundef_cong]: "xs = ys \<Longrightarrow> (\<And>x. x \<in> set ys \<Longrightarrow> f x = g x) \<Longrightarrow> rmapM f xs = rmapM g ys"
  by (induction ys arbitrary: xs) auto

fun plan_rows :: "(nat \<Rightarrow> row list result) \<Rightarrow> (plan_op \<Rightarrow> row list list \<Rightarrow> row list result) \<Rightarrow> plan \<Rightarrow> row list result" where
  "plan_rows table other (Plan s node children) =
     rbind (rmapM (plan_rows table other) children) (node_rows table other node)"

end
