(* ===== verification/StringUtil.thy ===== *)
theory StringUtil
  imports Schemas "HOL-Library.Sublist"
begin

text \<open>
  The string utilities (common/util/string_util.cpp).  A search for a substring is that of
  \<open>std::string::find\<close>; the two loops that need not end (splitting and replacing with an empty
  pattern) are partial functions whose value is \<open>None\<close> where they do not return.  \<open>FormatSize\<close> and
  \<open>Format\<close>, which format through the C library, are left out.
\<close>

section \<open>Searching\<close>

text \<open>\<open>std::string::find(needle, pos)\<close>: the least position at or after \<open>pos\<close>, \<open>npos\<close> being \<open>None\<close>.\<close>

fun find_from :: "string \<Rightarrow> string \<Rightarrow> nat option" where
  "find_from needle [] = (if needle = [] then Some 0 else None)"
| "find_from needle (c # cs) = (if prefix needle (c # cs) then Some 0 else map_option Suc (find_from needle cs))"

definition string_find :: "string \<Rightarrow> string \<Rightarrow> nat \<Rightarrow> nat option" where
  "string_find str needle pos = (if pos \<le> length str then map_option ((+) pos) (find_from needle (drop pos str)) else None)"

definition Contains :: "string \<Rightarrow> string \<Rightarrow> bool" where
  "Contains haystack needle \<longleftrightarrow> string_find haystack needle 0 \<noteq> None"

definition ContainsAfter :: "string \<Rightarrow> string \<Rightarrow> string \<Rightarrow> bool" where
  "ContainsAfter keyword haystack needle = (case string_find haystack keyword 0 of None \<Rightarrow> False
     | Some pos \<Rightarrow> string_find haystack needle pos \<noteq> None)"

text \<open>\<open>std::equal(first1, last1, first2)\<close> stops at the first difference and knows no end of the second
  sequence.\<close>

fun std_equal :: "string \<Rightarrow> string \<Rightarrow> bool result" where
  "std_equal [] ys = Inr True"
| "std_equal (x # xs) [] = Inl Undefined"
| "std_equal (x # xs) (y # ys) = (if x = y then std_equal xs ys else Inr False)"

definition StartsWith :: "string \<Rightarrow> string \<Rightarrow> bool result" where
  "StartsWith str prefx = std_equal prefx str"

definition EndsWith :: "string \<Rightarrow> string \<Rightarrow> bool result" where
  "EndsWith str suffx = (if length suffx > length str then Inr False else std_equal (rev suffx) (rev str))"

text \<open>\<open>Count\<close>: the search for the next occurrence starts one character after the last one found.\<close>

function Count_loop :: "string \<Rightarrow> string \<Rightarrow> nat \<Rightarrow> nat option \<Rightarrow> nat" where
  "Count_loop input str count None = count"
| "Count_loop input str count (Some n_pos) = Count_loop input str (count + 1) (string_find input str (n_pos + 1))"
  by pat_completeness auto

lemma string_find_bounds: "string_find str needle pos = Some q \<Longrightarrow> pos \<le> q \<and> q \<le> length str"
proof -
  have "find_from needle cs = Some q \<Longrightarrow> q \<le> length cs" for cs q
    by (induction cs arbitrary: q) (auto split: if_splits)
  then show "string_find str needle pos = Some q \<Longrightarrow> pos \<le> q \<and> q \<le> length str"
    by (fastforce simp: string_find_def split: if_splits)
qed

termination Count_loop
  by (relation "measure (\<lambda>(input, str, count, p). case p of None \<Rightarrow> 0 | Some n \<Rightarrow> Suc (length input - n))")
    (auto split: option.splits dest!: string_find_bounds)

definition Count :: "string \<Rightarrow> string \<Rightarrow> nat" where
  "Count input str = Count_loop input str 0 (string_find input str 0)"

section \<open>Trimming and rewriting\<close>

definition RTrim :: "string \<Rightarrow> string" where
  "RTrim str = rev (dropWhile is_space (rev str))"

definition LTrim :: "string \<Rightarrow> string" where
  "LTrim str = dropWhile is_space str"

text \<open>A negative indentation is converted to a huge size, which \<open>std::string\<close> refuses.\<close>

definition Indent :: "int \<Rightarrow> string result" where
  "Indent num_indent = (if num_indent < 0 then Inl (LogicError ''basic_string::_M_create'') else Inr (replicate (nat num_indent) (CHR '' '')))"

text \<open>The counter of \<open>Repeat\<close> is an \<open>int\<close>.\<close>

definition Repeat :: "string \<Rightarrow> nat \<Rightarrow> string" where
  "Repeat str n = concat (replicate (nat (static_cast I32 (int n))) str)"

fun Join_loop :: "string \<Rightarrow> string \<Rightarrow> string list \<Rightarrow> string" where
  "Join_loop result separator [] = result"
| "Join_loop result separator (s # ss) = Join_loop (result @ separator @ s) separator ss"

definition Join :: "string list \<Rightarrow> string \<Rightarrow> string" where
  "Join input separator = (case input of [] \<Rightarrow> [] | s # ss \<Rightarrow> Join_loop s separator ss)"

text \<open>\<open>std::getline\<close> yields the characters up to the next delimiter; the end of the stream after a
  delimiter yields no further line.\<close>

function Split :: "string \<Rightarrow> char \<Rightarrow> string list" where
  "Split str delimiter = (if str = [] then [] else takeWhile (\<lambda>c. c \<noteq> delimiter) str #
     Split (drop (Suc (length (takeWhile (\<lambda>c. c \<noteq> delimiter) str))) str) delimiter)"
  by auto
termination
  by (relation "measure (\<lambda>(str, d). length str)") auto

declare Split.simps [simp del]

definition Prefix :: "string \<Rightarrow> string \<Rightarrow> string" where
  "Prefix str prefx = intercalate [CHR 0x0A] (map ((@) prefx) (Split str (CHR 0x0A)))"

definition Bold :: "string \<Rightarrow> string" where
  "Bold str = CHR 0x1B # ''[0;1m'' @ str @ CHR 0x1B # ''[0;0m''"

definition to_upper :: "char \<Rightarrow> char" where
  "to_upper c = (if 97 \<le> (of_char c :: nat) \<and> (of_char c :: nat) \<le> 122 then char_of ((of_char c :: nat) - 32) else c)"

definition Upper :: "string \<Rightarrow> string" where
  "Upper str = map to_upper str"

definition Lower :: "string \<Rightarrow> string" where
  "Lower str = map to_lower str"

definition Strip :: "string \<Rightarrow> char \<Rightarrow> string" where
  "Strip str c = filter (\<lambda>d. d \<noteq> c) str"

definition IndentAllLines :: "string \<Rightarrow> nat \<Rightarrow> bool \<Rightarrow> string" where
  "IndentAllLines lns num_indent except_first_line =
     (let ind = replicate num_indent (CHR '' '') in
      intercalate [CHR 0x0A] (case Split lns (CHR 0x0A) of [] \<Rightarrow> []
        | l # ls \<Rightarrow> (if except_first_line then l else ind @ l) # map ((@) ind) ls))"

section \<open>The loops over a pattern\<close>

partial_function (option) Split_loop :: "string \<Rightarrow> string \<Rightarrow> nat \<Rightarrow> string list \<Rightarrow> string list option" where
  "Split_loop input split lst splits = (if lst \<le> length input then
     (let nxt = (case string_find input split lst of None \<Rightarrow> length input | Some n \<Rightarrow> n);
          substr = take (nxt - lst) (drop lst input) in
      Split_loop input split (nxt + length split) (if substr \<noteq> [] then splits @ [substr] else splits))
     else Some splits)"

definition Split_string :: "string \<Rightarrow> string \<Rightarrow> string list option" where
  "Split_string input split = Split_loop input split 0 []"

partial_function (option) Replace_loop :: "string \<Rightarrow> string \<Rightarrow> string \<Rightarrow> nat \<Rightarrow> string option" where
  "Replace_loop source from to start_pos = (case string_find source from start_pos of None \<Rightarrow> Some source
     | Some pos \<Rightarrow> Replace_loop (take pos source @ to @ drop (pos + length from) source) from to (pos + length to))"

definition Replace :: "string \<Rightarrow> string \<Rightarrow> string \<Rightarrow> string option" where
  "Replace source from to = Replace_loop source from to 0"

section \<open>What a search finds\<close>

lemma find_from_Some:
  "find_from needle cs = Some q \<Longrightarrow> prefix needle (drop q cs) \<and> q \<le> length cs \<and> (\<forall>i<q. \<not> prefix needle (drop i cs))"
proof (induction cs arbitrary: q)
  case (Cons c cs)
  show ?case
  proof (cases "prefix needle (c # cs)")
    case False
    then obtain p where p: "find_from needle cs = Some p" "q = Suc p" using Cons.prems by auto
    have "\<not> prefix needle (drop i (c # cs))" if "i < q" for i
      using that Cons.IH [OF p(1)] p(2) False by (cases i) auto
    then show ?thesis using Cons.IH [OF p(1)] p(2) by auto
  qed (use Cons.prems in simp)
qed (auto split: if_splits)

lemma find_from_None: "find_from needle cs = None \<Longrightarrow> \<not> prefix needle (drop i cs)"
proof (induction cs arbitrary: i)
  case (Cons c cs)
  then show ?case by (cases i) (auto split: if_splits)
qed (auto split: if_splits)

lemma string_find_rest: "string_find (a @ b) needle (length a) = map_option ((+) (length a)) (find_from needle b)"
  by (simp add: string_find_def)

lemma std_equal_prefix: "length xs \<le> length ys \<Longrightarrow> std_equal xs ys = Inr (prefix xs ys)"
  by (induction xs ys rule: std_equal.induct) auto

text \<open>\<open>Contains\<close> decides the substring relation, and \<open>EndsWith\<close> that of a suffix.\<close>

lemma Contains_sublist: "Contains haystack needle \<longleftrightarrow> sublist needle haystack"
proof -
  have "find_from needle haystack \<noteq> None \<longleftrightarrow> (\<exists>q. prefix needle (drop q haystack))"
    using find_from_Some [of needle haystack] find_from_None [of needle haystack] by (cases "find_from needle haystack") auto
  also have "\<dots> \<longleftrightarrow> sublist needle haystack"
  proof
    assume "\<exists>q. prefix needle (drop q haystack)"
    then show "sublist needle haystack"
      by (auto simp: prefix_def sublist_def) (metis append_take_drop_id)
  next
    assume "sublist needle haystack"
    then obtain xs ys where "haystack = xs @ needle @ ys" by (auto simp: sublist_def)
    then show "\<exists>q. prefix needle (drop q haystack)" by (intro exI [of _ "length xs"]) simp
  qed
  finally show ?thesis by (simp add: Contains_def string_find_def)
qed

lemma EndsWith_suffix: "EndsWith str suffx = Inr (suffix suffx str)"
  by (auto simp: EndsWith_def std_equal_prefix suffix_to_prefix dest: prefix_length_le)

section \<open>Splitting at a character and joining\<close>

lemma Join_loop_append: "Join_loop r sep ss = r @ concat (map ((@) sep) ss)"
  by (induction ss arbitrary: r) simp_all

lemma Join_Cons: "ss \<noteq> [] \<Longrightarrow> Join (s # ss) sep = s @ sep @ Join ss sep"
  by (cases ss) (simp_all add: Join_def Join_loop_append)

lemma Split_Nil [simp]: "Split [] d = []"
  by (simp add: Split.simps)

lemma Split_none: "d \<notin> set str \<Longrightarrow> str \<noteq> [] \<Longrightarrow> Split str d = [str]"
proof -
  assume "d \<notin> set str" "str \<noteq> []"
  then have "takeWhile (\<lambda>c. c \<noteq> d) str = str" by (auto simp: takeWhile_eq_all_conv)
  then show ?thesis using \<open>str \<noteq> []\<close> by (simp only: Split.simps [of str d]) simp
qed

lemma Split_append: "d \<notin> set a \<Longrightarrow> Split (a @ d # r) d = a # Split r d"
proof -
  assume "d \<notin> set a"
  then have "takeWhile (\<lambda>c. c \<noteq> d) (a @ d # r) = a" by (induction a) auto
  then show ?thesis by (subst Split.simps) simp
qed

lemma Split_eq_Nil [simp]: "Split str d = [] \<longleftrightarrow> str = []"
  by (subst Split.simps) simp

text \<open>Joining the pieces of a split at a character gives back a string that does not end in that
  character, and one that does without its last character.\<close>

theorem Split_Join:
  "Join (Split str d) [d] = (if str \<noteq> [] \<and> last str = d then butlast str else str)"
proof (induction "length str" arbitrary: str rule: less_induct)
  case less
  show ?case
  proof (cases "d \<in> set str")
    case False
    then show ?thesis by (cases "str = []") (auto simp: Split_none Join_def)
  next
    case True
    then obtain a r where str: "str = a @ d # r" "d \<notin> set a" by (meson split_list_first)
    show ?thesis
    proof (cases "r = []")
      case True
      then show ?thesis using str by (simp add: Split_append Join_def butlast_append)
    next
      case False
      then show ?thesis using less [of r] str by (simp add: Split_append Join_Cons butlast_append)
    qed
  qed
qed

section \<open>Splitting and replacing at a string\<close>

text \<open>The leftmost occurrences that do not overlap, as the specification of both.\<close>

function replace_all :: "string \<Rightarrow> string \<Rightarrow> string \<Rightarrow> string" where
  "replace_all from to str = (if from = [] \<or> str = [] then str
     else if prefix from str then to @ replace_all from to (drop (length from) str)
     else hd str # replace_all from to (tl str))"
  by auto
termination
  by (relation "measure (\<lambda>(from, to, str). length str)") (auto simp: prefix_def)

declare replace_all.simps [simp del]

function pieces :: "string \<Rightarrow> string \<Rightarrow> string list" where
  "pieces sep str = (case find_from sep str of None \<Rightarrow> [str]
     | Some n \<Rightarrow> if sep = [] then [str] else take n str # pieces sep (drop (n + length sep) str))"
  by auto
termination
proof (relation "measure (\<lambda>(sep, str). length str)", simp)
  fix sep str n assume a: "find_from sep str = Some n" "sep \<noteq> []"
  then have "str \<noteq> []" by auto
  then show "((sep, drop (n + length sep) str), sep, str) \<in> measure (\<lambda>(sep, str). length str)" using a(2) by simp
qed

declare pieces.simps [simp del]

lemma replace_all_skip:
  assumes "from \<noteq> []" "\<forall>i<q. \<not> prefix from (drop i str)" "q \<le> length str"
  shows "replace_all from to str = take q str @ replace_all from to (drop q str)"
  using assms
proof (induction q arbitrary: str)
  case (Suc q)
  then obtain c cs where str: "str = c # cs" by (cases str) auto
  have "\<forall>i<q. \<not> prefix from (drop i cs)" using Suc.prems(2) str by (metis Suc_less_eq drop_Suc_Cons)
  then show ?case using Suc.IH [of cs] Suc.prems str by (subst replace_all.simps) force
qed simp

lemma Replace_loop_spec:
  assumes "from \<noteq> []"
  shows "Replace_loop (before @ rest) from to (length before) = Some (before @ replace_all from to rest)"
proof (induction "length rest" arbitrary: before rest rule: less_induct)
  case less
  show ?case
  proof (cases "find_from from rest")
    case None
    have "replace_all from to rest = take (length rest) rest @ replace_all from to (drop (length rest) rest)"
      by (rule replace_all_skip [OF assms]) (auto simp: find_from_None [OF None])
    then have "replace_all from to rest = rest" by (simp add: replace_all.simps [of _ _ "[]"])
    then show ?thesis by (subst Replace_loop.simps) (simp add: string_find_rest None)
  next
    case (Some q)
    from find_from_Some [OF this] have q: "prefix from (drop q rest)" "q \<le> length rest" "\<forall>i<q. \<not> prefix from (drop i rest)" by auto
    let ?rest = "drop (q + length from) rest" and ?before = "before @ take q rest @ to"
    have ne: "drop q rest \<noteq> []" using q(1) assms by auto
    have "Replace_loop (before @ rest) from to (length before) = Replace_loop (?before @ ?rest) from to (length ?before)"
      using q(2) by (subst Replace_loop.simps) (simp add: string_find_rest Some add.assoc)
    also have "\<dots> = Some (?before @ replace_all from to ?rest)"
    proof -
      have "length ?rest < length rest" using ne assms by (cases "from") auto
      from less [OF this, of ?before] show ?thesis .
    qed
    finally have loop: "Replace_loop (before @ rest) from to (length before) = Some (?before @ replace_all from to ?rest)" .
    have "replace_all from to rest = take q rest @ to @ replace_all from to ?rest"
      using replace_all_skip [OF assms q(3,2)] q(1) ne assms
      by (simp add: replace_all.simps [of "from" to "drop q rest"] add.commute)
    then show ?thesis using loop by simp
  qed
qed

text \<open>With a non-empty pattern \<open>Replace\<close> returns, and returns the string with its leftmost
  non-overlapping occurrences of the pattern replaced, even when the replacement contains the pattern;
  with an empty pattern it never returns.\<close>

theorem Replace_spec:
  "Replace source from to = (if from = [] then None else Some (replace_all from to source))"
proof (cases "from = []")
  case True
  have at: "string_find s [] p = Some p" if "p \<le> length s" for s p
    using that by (cases "drop p s") (auto simp: string_find_def)
  have "f = [] \<longrightarrow> \<not> p \<le> length s" if r: "Replace_loop s f t p = Some r" for s f t p r
    by (rule Replace_loop.raw_induct [OF _ r, of "\<lambda>s f t p r. f = [] \<longrightarrow> \<not> p \<le> length s"]) (force simp: at)
  then have "Replace_loop source [] to 0 = None" by (metis le0 not_Some_eq)
  then show ?thesis using True by (simp add: Replace_def)
next
  case False
  then show ?thesis using Replace_loop_spec [of "from" "[]"] by (simp add: Replace_def)
qed

lemma Split_loop_spec:
  assumes "split \<noteq> []"
  shows "Split_loop (before @ rest) split (length before) acc = Some (acc @ filter (\<lambda>s. s \<noteq> []) (pieces split rest))"
proof (induction "length rest" arbitrary: before rest acc rule: less_induct)
  case less
  have stop: "Split_loop input split n acc = Some acc" if "length input < n" for input n acc
    using that by (subst Split_loop.simps) simp
  show ?case
  proof (cases "find_from split rest")
    case None
    then show ?thesis using assms
      by (subst Split_loop.simps) (simp add: string_find_rest Let_def stop pieces.simps [of split rest])
  next
    case (Some q)
    from find_from_Some [OF this] have q: "prefix split (drop q rest)" "q \<le> length rest" by auto
    let ?rest = "drop (q + length split) rest" and ?before = "before @ take (q + length split) rest"
    have len: "q + length split \<le> length rest" using q by (auto simp: prefix_def dest!: arg_cong [of _ _ length])
    have "Split_loop (before @ rest) split (length before) acc =
        Split_loop (?before @ ?rest) split (length ?before) (acc @ filter (\<lambda>s. s \<noteq> []) [take q rest])"
      using len by (subst Split_loop.simps) (simp add: string_find_rest Some Let_def add.assoc)
    also have "\<dots> = Some (acc @ filter (\<lambda>s. s \<noteq> []) (take q rest # pieces split ?rest))"
    proof -
      have "length ?rest < length rest" using len assms by (cases split) auto
      from less [OF this, of ?before] show ?thesis by simp
    qed
    finally show ?thesis using Some assms by (simp add: pieces.simps [of split rest])
  qed
qed

lemma pieces_join: "intercalate sep (pieces sep str) = str"
proof (induction sep str rule: pieces.induct)
  case (1 sep str)
  show ?case
  proof (cases "find_from sep str")
    case (Some n)
    from find_from_Some [OF this] obtain z where z: "drop n str = sep @ z" "n \<le> length str" by (auto simp: prefix_def)
    have ne: "pieces sep x \<noteq> []" for x by (subst pieces.simps) (simp split: option.split)
    have j: "intercalate sep (s # ss) = s @ sep @ intercalate sep ss" if "ss \<noteq> []" for s ss using that by (cases ss) auto
    have "drop (n + length sep) str = z" using z by (metis append_eq_conv_conj drop_drop add.commute)
    then show ?thesis using 1 [OF Some] Some z ne j by (subst pieces.simps) (auto, metis append_take_drop_id)
  qed (simp add: pieces.simps [of sep str])
qed

text \<open>C35: With a non-empty separator \<open>Split\<close> returns the non-empty pieces between the leftmost
  non-overlapping separators, where the pieces joined by the separator are the input; with an empty
  separator it never returns.\<close>

theorem Split_string_spec:
  "Split_string input split = (if split = [] then None else Some (filter (\<lambda>s. s \<noteq> []) (pieces split input))) \<and>
     intercalate split (pieces split input) = input"
proof (cases "split = []")
  case True
  have at: "string_find s [] p = Some p" if "p \<le> length s" for s p
    using that by (cases "drop p s") (auto simp: string_find_def)
  have "f = [] \<longrightarrow> \<not> p \<le> length i" if r: "Split_loop i f p acc = Some r" for i f p acc r
    by (rule Split_loop.raw_induct [OF _ r, of "\<lambda>i f p acc r. f = [] \<longrightarrow> \<not> p \<le> length i"]) (force simp: at Let_def)
  then have "Split_loop input [] 0 [] = None" by (metis le0 not_Some_eq)
  then show ?thesis using True pieces_join by (simp add: Split_string_def)
next
  case False
  then show ?thesis using Split_loop_spec [of split "[]"] pieces_join by (simp add: Split_string_def)
qed

text \<open>\<open>StartsWith\<close> has no check of the length: a string that is a proper prefix of the prefix asked for
  is read past its end.\<close>

lemma StartsWith_overrun: "strict_prefix str prefx \<Longrightarrow> StartsWith str prefx = Inl Undefined"
proof -
  have "strict_prefix ys xs \<Longrightarrow> std_equal xs ys = Inl Undefined" for xs ys
    by (induction xs ys rule: std_equal.induct) auto
  then show "strict_prefix str prefx \<Longrightarrow> StartsWith str prefx = Inl Undefined" by (simp add: StartsWith_def)
qed

end
