(* ===== verification/Optimizer.thy ===== *)
theory Optimizer
  imports Plans StringUtil
begin

text \<open>
  The optimizer (src/optimizer): the rewrite rules and the two pipelines that apply them.  Every rule
  optimizes the children first, clones the node with the results and then looks at the clone; that
  common shape is \<open>bottom_up\<close>.
\<close>

section \<open>The rules\<close>

fun bottom_up :: "(plan \<Rightarrow> plan result) \<Rightarrow> plan \<Rightarrow> plan result" where
  "bottom_up rule (Plan s node children) = rbind (rmapM (bottom_up rule) children) (\<lambda>cs. rule (Plan s node cs))"

definition same_types :: "Column list \<Rightarrow> Column list \<Rightarrow> bool" where
  "same_types a b \<longleftrightarrow> length a = length b \<and> (\<forall>i < length a. column_type (a ! i) = column_type (b ! i))"

fun is_column_at :: "nat \<Rightarrow> expr \<Rightarrow> bool" where
  "is_column_at idx (ColumnValueExpression t c col) \<longleftrightarrow> t = 0 \<and> c = idx"
| "is_column_at idx e \<longleftrightarrow> False"

definition is_identical :: "expr list \<Rightarrow> bool" where
  "is_identical exprs \<longleftrightarrow> (\<forall>idx < length exprs. is_column_at idx (exprs ! idx))"

definition merge_projection :: "plan \<Rightarrow> plan result" where
  "merge_projection p = (case plan_op p of
     ProjectionPlanNode exprs \<Rightarrow> (case plan_children p of
         [child] \<Rightarrow> if same_types (columns (OutputSchema child)) (columns (OutputSchema p)) \<and> is_identical exprs
           then Inr (Plan (OutputSchema p) (plan_op child) (plan_children child)) else Inr p
       | _ \<Rightarrow> Inl (Terminate ''Projection with multiple children?? That's weird!''))
   | _ \<Rightarrow> Inr p)"

definition OptimizeMergeProjection :: "plan \<Rightarrow> plan result" where
  "OptimizeMergeProjection = bottom_up merge_projection"

fun RewriteExpressionForJoin :: "expr \<Rightarrow> nat \<Rightarrow> nat \<Rightarrow> expr result" where
  "RewriteExpressionForJoin (ColumnValueExpression t c ret) ln rn =
     check (Terminate ''tuple_idx cannot be value other than 0 before this stage.'') (t = 0)
       (if c < ln then Inr (ColumnValueExpression 0 c ret)
        else if c < ln + rn then Inr (ColumnValueExpression 1 (c - ln) ret)
        else Inl (Throw ET_INVALID ''col_idx not in range''))"
| "RewriteExpressionForJoin e ln rn =
     rbind (rmapM (\<lambda>child. RewriteExpressionForJoin child ln rn) (GetChildren e)) (CloneWithChildren e)"

definition IsPredicateTrue :: "expr \<Rightarrow> bool result" where
  "IsPredicateTrue e = (case e of ConstantValueExpression v \<Rightarrow> rbind (CastAs v BOOLEAN) (\<lambda>b. Inr (GetAs_bool b))
     | _ \<Rightarrow> Inr False)"

definition merge_filter_nlj :: "plan \<Rightarrow> plan result" where
  "merge_filter_nlj p = (case plan_op p of
     FilterPlanNode pred \<Rightarrow> (case plan_children p of
         [child] \<Rightarrow> (case plan_op child of
             NestedLoopJoinPlanNode jpred jtype \<Rightarrow> (case plan_children child of
                 [l, r] \<Rightarrow> rbind (IsPredicateTrue jpred) (\<lambda>b. if b
                   then rbind (RewriteExpressionForJoin pred (GetColumnCount (OutputSchema l)) (GetColumnCount (OutputSchema r))) (\<lambda>e.
                     Inr (Plan (OutputSchema p) (NestedLoopJoinPlanNode e jtype) [l, r]))
                   else Inr p)
               | _ \<Rightarrow> Inl (Terminate ''NLJ should have exactly 2 children.''))
           | _ \<Rightarrow> Inr p)
       | _ \<Rightarrow> Inl (Terminate ''Filter with multiple children?? Impossible!''))
   | _ \<Rightarrow> Inr p)"

definition OptimizeMergeFilterNLJ :: "plan \<Rightarrow> plan result" where
  "OptimizeMergeFilterNLJ = bottom_up merge_filter_nlj"

definition MatchIndex :: "((string \<times> nat) list \<Rightarrow> (string \<times> nat) list) \<Rightarrow> Catalog \<Rightarrow> string \<Rightarrow> nat \<Rightarrow> (nat \<times> string) option result" where
  "MatchIndex enum c table_name index_key_idx = rbind (GetTableIndexes enum c table_name) (\<lambda>infos.
     Inr (map_option (\<lambda>info. (ii_index_oid info, ii_name info)) (find (\<lambda>info. GetKeyAttrs (ii_index info) = [index_key_idx]) infos)))"

definition nlj_as_index_join :: "((string \<times> nat) list \<Rightarrow> (string \<times> nat) list) \<Rightarrow> Catalog \<Rightarrow> plan \<Rightarrow> plan result" where
  "nlj_as_index_join enum c p = (case plan_op p of
     NestedLoopJoinPlanNode pred jtype \<Rightarrow> (case plan_children p of
       [l, r] \<Rightarrow> (case pred of
         ComparisonExpression Equal (ColumnValueExpression lt lc lcol) (ColumnValueExpression rt rc rcol) \<Rightarrow> (case plan_op r of
           SeqScanPlanNode table_oid table_name filter_predicate \<Rightarrow>
             (let index_join = (\<lambda>key (index_oid, index_name). Plan (OutputSchema p)
                (NestedIndexJoinPlanNode key table_oid index_oid index_name table_name (OutputSchema r) jtype) [l]) in
              rbind (if lt = 0 \<and> rt = 1 then MatchIndex enum c table_name rc else Inr None) (\<lambda>a. case a of
                Some ix \<Rightarrow> Inr (index_join (ColumnValueExpression 0 lc lcol) ix)
              | None \<Rightarrow> rbind (if lt = 1 \<and> rt = 0 then MatchIndex enum c table_name lc else Inr None) (\<lambda>b. case b of
                Some ix \<Rightarrow> Inr (index_join (ColumnValueExpression 0 rc rcol) ix)
              | None \<Rightarrow> Inr p)))
         | _ \<Rightarrow> Inr p)
       | _ \<Rightarrow> Inr p)
     | _ \<Rightarrow> Inl (Terminate ''NLJ should have exactly 2 children.''))
   | _ \<Rightarrow> Inr p)"

definition OptimizeNLJAsIndexJoin :: "((string \<times> nat) list \<Rightarrow> (string \<times> nat) list) \<Rightarrow> Catalog \<Rightarrow> plan \<Rightarrow> plan result" where
  "OptimizeNLJAsIndexJoin enum c = bottom_up (nlj_as_index_join enum c)"

text \<open>The columns of an ascending order by columns only; \<open>None\<close> is the early return.\<close>

fun order_by_column_ids :: "OrderBy list \<Rightarrow> nat list option" where
  "order_by_column_ids [] = Some []"
| "order_by_column_ids ((ty, nulls, e) # obs) = (if ty \<noteq> ASC \<and> ty \<noteq> OB_DEFAULT then None
     else (case e of ColumnValueExpression t c col \<Rightarrow> map_option ((#) c) (order_by_column_ids obs) | _ \<Rightarrow> None))"

definition order_by_as_index_scan :: "((string \<times> nat) list \<Rightarrow> (string \<times> nat) list) \<Rightarrow> Catalog \<Rightarrow> plan \<Rightarrow> plan result" where
  "order_by_as_index_scan enum c p = (case plan_op p of
     SortPlanNode order_bys \<Rightarrow> (case order_by_column_ids order_bys of None \<Rightarrow> Inr p
       | Some ids \<Rightarrow> (case plan_children p of
           [child] \<Rightarrow> (case plan_op child of
               SeqScanPlanNode table_oid table_name filter_predicate \<Rightarrow> (case GetTable_oid c table_oid of None \<Rightarrow> Inl Undefined
                 | Some table_info \<Rightarrow> rbind (GetTableIndexes enum c (ti_name table_info)) (\<lambda>indices.
                     case find (\<lambda>info. ids = GetKeyAttrs (ii_index info)) indices of
                       Some info \<Rightarrow> Inr (Plan (OutputSchema p) (IndexScanPlanNode (ti_oid table_info) (ii_index_oid info) None []) [])
                     | None \<Rightarrow> Inr p))
             | _ \<Rightarrow> Inr p)
         | _ \<Rightarrow> Inl (Terminate ''Sort with multiple children?? Impossible!'')))
   | _ \<Rightarrow> Inr p)"

definition OptimizeOrderByAsIndexScan :: "((string \<times> nat) list \<Rightarrow> (string \<times> nat) list) \<Rightarrow> Catalog \<Rightarrow> plan \<Rightarrow> plan result" where
  "OptimizeOrderByAsIndexScan enum c = bottom_up (order_by_as_index_scan enum c)"

definition merge_filter_scan :: "plan \<Rightarrow> plan result" where
  "merge_filter_scan p = (case plan_op p of
     FilterPlanNode pred \<Rightarrow> (case plan_children p of
         [child] \<Rightarrow> (case plan_op child of
             SeqScanPlanNode table_oid table_name None \<Rightarrow> Inr (Plan (OutputSchema p) (SeqScanPlanNode table_oid table_name (Some pred)) [])
           | _ \<Rightarrow> Inr p)
       | _ \<Rightarrow> Inl AssertFail)
   | _ \<Rightarrow> Inr p)"

definition OptimizeMergeFilterScan :: "plan \<Rightarrow> plan result" where
  "OptimizeMergeFilterScan = bottom_up merge_filter_scan"

definition eliminate_true_filter :: "plan \<Rightarrow> plan result" where
  "eliminate_true_filter p = (case plan_op p of
     FilterPlanNode pred \<Rightarrow> rbind (IsPredicateTrue pred) (\<lambda>b. if b
       then (case plan_children p of [child] \<Rightarrow> Inr child | _ \<Rightarrow> Inl AssertFail) else Inr p)
   | _ \<Rightarrow> Inr p)"

definition OptimizeEliminateTrueFilter :: "plan \<Rightarrow> plan result" where
  "OptimizeEliminateTrueFilter = bottom_up eliminate_true_filter"

text \<open>Rules the repository leaves to be written return the plan.\<close>

definition OptimizeNLJAsHashJoin :: "plan \<Rightarrow> plan result" where "OptimizeNLJAsHashJoin p = Inr p"
definition OptimizeSortLimitAsTopN :: "plan \<Rightarrow> plan result" where "OptimizeSortLimitAsTopN p = Inr p"
definition OptimizeSeqScanAsIndexScan :: "plan \<Rightarrow> plan result" where "OptimizeSeqScanAsIndexScan p = Inr p"
definition OptimizeColumnPruning :: "plan \<Rightarrow> plan result" where "OptimizeColumnPruning p = Inr p"

section \<open>The pipelines\<close>

definition OptimizeCustom :: "((string \<times> nat) list \<Rightarrow> (string \<times> nat) list) \<Rightarrow> Catalog \<Rightarrow> plan \<Rightarrow> plan result" where
  "OptimizeCustom enum c p =
     rbind (OptimizeMergeProjection p) (\<lambda>p. rbind (OptimizeMergeFilterNLJ p) (\<lambda>p. rbind (OptimizeNLJAsHashJoin p) (\<lambda>p.
     rbind (OptimizeOrderByAsIndexScan enum c p) (\<lambda>p. rbind (OptimizeSortLimitAsTopN p) (\<lambda>p.
     rbind (OptimizeMergeFilterScan p) OptimizeSeqScanAsIndexScan)))))"

definition Optimize :: "((string \<times> nat) list \<Rightarrow> (string \<times> nat) list) \<Rightarrow> Catalog \<Rightarrow> bool \<Rightarrow> plan \<Rightarrow> plan result" where
  "Optimize enum c force_starter_rule p = (if force_starter_rule then
     rbind (OptimizeMergeProjection p) (\<lambda>p. rbind (OptimizeMergeFilterNLJ p) (\<lambda>p. rbind (OptimizeNLJAsIndexJoin enum c p) (\<lambda>p.
     rbind (OptimizeOrderByAsIndexScan enum c p) (\<lambda>p. rbind (OptimizeMergeFilterScan p) OptimizeSeqScanAsIndexScan))))
   else OptimizeCustom enum c p)"

fun cardinality_loop :: "string \<Rightarrow> (string \<times> nat) list \<Rightarrow> nat option result" where
  "cardinality_loop table_name [] = Inr None"
| "cardinality_loop table_name ((suffx, n) # rest) = rbind (EndsWith table_name suffx) (\<lambda>b.
     if b then Inr (Some n) else cardinality_loop table_name rest)"

definition EstimatedCardinality :: "string \<Rightarrow> nat option result" where
  "EstimatedCardinality table_name = cardinality_loop table_name
     [(''_1m'', 1000000), (''_100k'', 100000), (''_50k'', 50000), (''_10k'', 10000), (''_1k'', 1000), (''_100'', 100)]"

section \<open>Rewriting a predicate for a join\<close>

lemma rmapM_two: "rmapM f [a, b] = Inr cs \<longleftrightarrow> (\<exists>x y. f a = Inr x \<and> f b = Inr y \<and> cs = [x, y])"
  by (auto simp: rbind_Inr_iff)

lemma rewrite_eval:
  assumes "RewriteExpressionForJoin e ln rn = Inr e'" "array_free e" "\<And>c. c < ln \<Longrightarrow> f 0 c = g c" "\<And>c. c < rn \<Longrightarrow> f 1 c = g (ln + c)"
  shows "eval_with f True e' = eval_with (\<lambda>tup. g) False e"
  using assms(1,2)
proof (induction e arbitrary: e' rule: array_free.induct)
  case (1 ty l r)
  then show ?case by (auto simp: rmapM_two rbind_Inr_iff simp del: rmapM.simps)
next
  case (2 ty l r)
  then show ?case by (auto simp: rmapM_two rbind_Inr_iff simp del: rmapM.simps)
next
  case (3 ty l r)
  then show ?case by (auto simp: rmapM_two rbind_Inr_iff simp del: rmapM.simps)
qed (use assms(3,4) in \<open>auto simp: rbind_Inr_iff check_Inr_iff split: if_splits\<close>)

lemma rewrite_total:
  "array_free e \<Longrightarrow> columns_of e \<subseteq> {0} \<times> {..<ln + rn} \<Longrightarrow> \<exists>e'. RewriteExpressionForJoin e ln rn = Inr e'"
  by (induction e rule: array_free.induct) fastforce+

text \<open>C25: Rewriting a predicate for a join keeps its meaning: evaluated over the two tuples of the join,
  the rewritten predicate gives exactly the value, or the failure, that the original gives over the
  joined tuple, for every predicate without array literals.\<close>

theorem RewriteExpressionForJoin_equiv:
  assumes "RewriteExpressionForJoin e ln rn = Inr e'" "array_free e"
    "\<forall>i < ln. GetValue t js i = GetValue lt ls i" "\<forall>i < rn. GetValue t js (ln + i) = GetValue rt rs i"
  shows "EvaluateJoin (Some lt) ls (Some rt) rs e' = Evaluate (Some t) js e"
  unfolding Evaluate_eval_with EvaluateJoin_eval_with
  by (rule rewrite_eval [OF assms(1,2)]) (use assms(3,4) in \<open>auto simp: lookup_def\<close>)

definition int_column :: "string \<Rightarrow> Column" where
  "int_column name = \<lparr> column_name = name, column_type = INTEGER, col_length = 4, column_offset = 0 \<rparr>"

definition int_tuple :: "int list \<Rightarrow> Tuple" where
  "int_tuple xs = (case Tuple_ctor (map (set_int INTEGER I32 (cmin I32)) xs) (Schema_ctor (map (\<lambda>_. int_column ''c'') xs)) of
     Inl _ \<Rightarrow> Tuple_Empty | Inr t \<Rightarrow> t)"

definition ex_pred :: expr where
  "ex_pred = ComparisonExpression LessThan (ColumnValueExpression 0 0 (int_column ''c'')) (ColumnValueExpression 0 1 (int_column ''c''))"

lemma int_fits: "in_range I32 x \<Longrightarrow> fits (int_column n) (set_int INTEGER I32 (cmin I32) x)"
  using wf_set_int [of INTEGER I32 x] by (simp add: fits_def int_column_def GetTypeSize_def)

lemma col_start_int: "k \<le> length xs \<Longrightarrow> col_start (map (\<lambda>_. int_column n) xs) k = 4 * k"
  by (induction k) (simp_all add: col_start_Suc col_width_def int_column_def Column_IsInlined_def)

lemma GetValue_int_tuple:
  assumes "\<forall>x \<in> set xs. in_range I32 x" "length xs < 2 ^ 20" "i < length xs"
  shows "GetValue (int_tuple xs) (Schema_ctor (map (\<lambda>_. int_column ''c'') xs)) i = Inr (set_int INTEGER I32 (cmin I32) (xs ! i))"
proof -
  let ?cs = "map (\<lambda>_. int_column ''c'') xs" and ?vs = "map (set_int INTEGER I32 (cmin I32)) xs"
  have "var_size ?cs ?vs k = 0" if "k \<le> length xs" for k
    using that by (induction k) (simp_all add: var_size_def int_column_def Column_IsInlined_def)
  then have v: "var_start ?cs ?vs (length ?cs) < 2 ^ 31" using assms(2) by (simp add: var_start_def col_start_int)
  have "\<forall>i<length ?cs. fits (?cs ! i) (?vs ! i)" using assms(1) by (auto intro!: int_fits [unfolded cmin_simps])
  then obtain t where "Tuple_ctor ?vs (Schema_ctor ?cs) = Inr t" "\<forall>i<length ?cs. GetValue t (Schema_ctor ?cs) i = Inr (?vs ! i)"
    using Tuple_ctor_ok [of ?cs ?vs] v assms(2) by auto
  then show ?thesis using assms(3) by (simp add: int_tuple_def)
qed

theorem RewriteExpressionForJoin_equiv_witness:
  "\<exists>e'. RewriteExpressionForJoin ex_pred 1 1 = Inr e' \<and>
     EvaluateJoin (Some (int_tuple [3])) (Schema_ctor [int_column ''c'']) (Some (int_tuple [5])) (Schema_ctor [int_column ''c'']) e' =
     Evaluate (Some (int_tuple [3, 5])) (Schema_ctor [int_column ''c'', int_column ''c'']) ex_pred"
proof -
  obtain e' where e: "RewriteExpressionForJoin ex_pred 1 1 = Inr e'" using rewrite_total [of ex_pred 1 1] by (auto simp: ex_pred_def)
  have "array_free ex_pred" by (simp add: ex_pred_def)
  from RewriteExpressionForJoin_equiv [OF e this, of "int_tuple [3, 5]" "Schema_ctor [int_column ''c'', int_column ''c'']"
      "int_tuple [3]" "Schema_ctor [int_column ''c'']" "int_tuple [5]" "Schema_ctor [int_column ''c'']"]
  show ?thesis using e GetValue_int_tuple [of "[3, 5]" 0] GetValue_int_tuple [of "[3, 5]" 1] GetValue_int_tuple [of "[3]" 0]
      GetValue_int_tuple [of "[5]" 0] by (auto simp: in_range_def)
qed

section \<open>Rules that keep the rows\<close>

text \<open>A predicate that is a constant is a boolean and not NULL.\<close>

definition pred_ok :: "expr \<Rightarrow> bool" where
  "pred_ok e = (case e of ConstantValueExpression v \<Rightarrow> wf_value v \<and> type_id v = BOOLEAN \<and> \<not> IsNull v | _ \<Rightarrow> True)"

definition width :: "plan \<Rightarrow> nat" where
  "width p = length (columns (OutputSchema p))"

text \<open>The shape of a node over its children, as the planner builds it.\<close>

definition node_ok :: "Catalog \<Rightarrow> nat \<Rightarrow> plan_op \<Rightarrow> plan list \<Rightarrow> bool" where
  "node_ok c w node cs = (case node of
       SeqScanPlanNode t n p \<Rightarrow> cs = [] \<and> GetTable_oid c t \<noteq> None
     | FilterPlanNode e \<Rightarrow> length cs = 1 \<and> pred_ok e \<and> array_free e \<and> columns_of e \<subseteq> {0} \<times> {..<width (hd cs)} \<and> w = width (hd cs)
     | ProjectionPlanNode es \<Rightarrow> length cs = 1 \<and> length es = w
     | SortPlanNode obs \<Rightarrow> length cs = 1
     | NestedLoopJoinPlanNode e j \<Rightarrow> length cs = 2 \<and> j = INNER \<and> pred_ok e \<and> w = width (cs ! 0) + width (cs ! 1)
     | _ \<Rightarrow> True)"

fun plan_ok :: "Catalog \<Rightarrow> (nat \<Rightarrow> row list result) \<Rightarrow> (plan_op \<Rightarrow> row list list \<Rightarrow> row list result) \<Rightarrow> plan \<Rightarrow> bool" where
  "plan_ok c table other (Plan s node cs) \<longleftrightarrow> (\<forall>p \<in> set cs. plan_ok c table other p) \<and> length (columns s) < 2 ^ 32 \<and>
     node_ok c (length (columns s)) node cs \<and>
     (\<forall>rows. plan_rows table other (Plan s node cs) = Inr rows \<longrightarrow> (\<forall>row \<in> set rows. length row = length (columns s)))"

text \<open>The contract of a rewrite rule: on every node whose tree is well formed it returns a well-formed
  plan with the same rows and the same number of columns.\<close>

locale rewrite_rule =
  fixes rule :: "plan \<Rightarrow> plan result" and c :: Catalog and table :: "nat \<Rightarrow> row list result"
    and other :: "plan_op \<Rightarrow> row list list \<Rightarrow> row list result"
  assumes rule_rows: "plan_ok c table other p \<Longrightarrow>
    \<exists>q. rule p = Inr q \<and> plan_ok c table other q \<and> plan_rows table other q = plan_rows table other p \<and> width q = width p"
begin

lemma bottom_up_rows:
  "plan_ok c table other p \<Longrightarrow> \<exists>q. bottom_up rule p = Inr q \<and> plan_ok c table other q \<and>
     plan_rows table other q = plan_rows table other p \<and> width q = width p"
proof (induction p)
  case (Plan s node cs)
  have "\<forall>p \<in> set cs. \<exists>q. bottom_up rule p = Inr q \<and> plan_ok c table other q \<and>
      plan_rows table other q = plan_rows table other p \<and> width q = width p" using Plan by auto
  then obtain g where g: "\<And>p. p \<in> set cs \<Longrightarrow> bottom_up rule p = Inr (g p) \<and> plan_ok c table other (g p) \<and>
      plan_rows table other (g p) = plan_rows table other p \<and> width (g p) = width p" by metis
  have b: "bottom_up rule (Plan s node cs) = rule (Plan s node (map g cs))"
    using g by (simp add: rmapM_Inr_map [of cs "bottom_up rule" g])
  have "rmapM (plan_rows table other) (map g cs) = rmapM (plan_rows table other) cs"
  proof -
    have "rmapM (plan_rows table other) (map g ps) = rmapM (plan_rows table other) ps" if "set ps \<subseteq> set cs" for ps
      using that g by (induction ps) auto
    then show ?thesis by simp
  qed
  then have r: "plan_rows table other (Plan s node (map g cs)) = plan_rows table other (Plan s node cs)" by simp
  have "width (hd (map g cs)) = width (hd cs)" if "length cs = 1" using that g by (cases cs) auto
  moreover have "width (map g cs ! i) = width (cs ! i)" if "i < length cs" for i using that g by auto
  ultimately have "node_ok c (length (columns s)) node (map g cs)"
    using Plan.prems by (auto simp: node_ok_def split: plan_op.splits)
  then have "plan_ok c table other (Plan s node (map g cs))" using Plan.prems g r by auto
  from rule_rows [OF this] show ?case using b r by (auto simp: width_def)
qed

end

subsection \<open>Projections of all columns in order\<close>

lemma plan_rows_schema: "plan_rows table other (Plan s node cs) = plan_rows table other (Plan s' node cs)"
  by simp

lemma plan_ok_schema:
  "plan_ok c table other (Plan s node cs) \<Longrightarrow> length (columns s') = length (columns s) \<Longrightarrow> plan_ok c table other (Plan s' node cs)"
  by simp

lemma identity_projection:
  assumes "is_identical es" "length es = length row" shows "rmapM (eval_row row) es = Inr row"
proof -
  have "eval_row row (es ! i) = Inr (row ! i)" if i: "i < length es" for i
  proof -
    obtain ret where "es ! i = ColumnValueExpression 0 i ret"
      using assms(1) i by (cases "es ! i") (auto simp: is_identical_def)
    then show ?thesis using i assms(2) by (simp add: eval_row_def)
  qed
  then show ?thesis using assms(2) by (simp add: rmapM_Inr_iff)
qed

lemma rmapM_id: "(\<And>x. x \<in> set xs \<Longrightarrow> f x = Inr x) \<Longrightarrow> rmapM f xs = Inr xs"
  by (induction xs) auto

interpretation merge_projection: rewrite_rule merge_projection c table other for c table other
proof
  fix p assume ok: "plan_ok c table other p"
  show "\<exists>q. merge_projection p = Inr q \<and> plan_ok c table other q \<and> plan_rows table other q = plan_rows table other p \<and> width q = width p"
  proof (cases "\<exists>es. plan_op p = ProjectionPlanNode es")
    case False
    then show ?thesis using ok by (auto simp: merge_projection_def split: plan_op.splits)
  next
    case True
    then obtain s es cs where p: "p = Plan s (ProjectionPlanNode es) cs" by (cases p) auto
    then obtain child where cs: "cs = [child]" "length es = length (columns s)" "plan_ok c table other child"
      using ok by (cases cs) (auto simp: node_ok_def)
    obtain cs' n' s' where ch: "child = Plan s' n' cs'" by (cases child)
    show ?thesis
    proof (cases "same_types (columns s') (columns s) \<and> is_identical es")
      case False
      then show ?thesis using ok p cs ch by (auto simp: merge_projection_def)
    next
      case True
      then have w: "length (columns s) = length (columns s')" by (simp add: same_types_def)
      have "plan_rows table other p = plan_rows table other child"
      proof (cases "plan_rows table other child")
        case (Inr rows)
        then have "\<forall>row \<in> set rows. length row = length es" using cs(2,3) ch w by auto
        then have "rmapM (\<lambda>row. rmapM (eval_row row) es) rows = Inr rows"
          using True by (intro rmapM_id identity_projection) auto
        then show ?thesis using Inr p cs(1) by (simp add: node_rows_def)
      qed (simp add: p cs(1))
      then show ?thesis using True p cs ch w plan_ok_schema [OF cs(3) [unfolded ch] w] by (auto simp: merge_projection_def width_def)
    qed
  qed
qed

subsection \<open>Filters over joins\<close>

lemma IsPredicateTrue_ok:
  assumes "pred_ok e" shows "\<exists>b. IsPredicateTrue e = Inr b \<and> (b \<longrightarrow> (\<exists>v. e = ConstantValueExpression v \<and> holds_value v))"
proof (cases "\<exists>v. e = ConstantValueExpression v")
  case True
  then obtain v where v: "e = ConstantValueExpression v" by blast
  then have ty: "wf_value v" "type_id v = BOOLEAN" "\<not> IsNull v" using assms by (auto simp: pred_ok_def)
  have "CastAs v BOOLEAN = BooleanType_Copy v" using ty(2) by (simp add: CastAs_def BooleanType_CastAs_def)
  moreover have "BooleanType_Copy v = Inr v" using ty(1,2) by (simp add: BooleanType_Copy_def Value_int8_def wf_value_def BUSTUB_BOOLEAN_NULL_def)
  ultimately show ?thesis using v ty by (auto simp: IsPredicateTrue_def holds_value_def)
qed (auto simp: IsPredicateTrue_def split: expr.splits)

lemma rfilterM_all: "(\<And>x. x \<in> set xs \<Longrightarrow> p x = Inr True) \<Longrightarrow> rfilterM p xs = Inr xs"
  by (induction xs) auto

lemma rfilterM_map: "rfilterM p (map f xs) = rbind (rfilterM (\<lambda>x. p (f x)) xs) (\<lambda>ys. Inr (map f ys))"
proof (induction xs)
  case (Cons x xs)
  then show ?case by (cases "p (f x)"; cases "rfilterM (\<lambda>x. p (f x)) xs") simp_all
qed simp

lemma rfilterM_cong: "(\<And>x. x \<in> set xs \<Longrightarrow> p x = q x) \<Longrightarrow> rfilterM p xs = rfilterM q xs"
  by (induction xs) auto

lemma rewritten_join_rows:
  assumes "RewriteExpressionForJoin e ln rn = Inr e'" "array_free e" "\<forall>l \<in> set ls. length l = ln"
  shows "rfilterM (row_holds e) (map (\<lambda>(l, r). l @ r) (pairs ls rs)) =
    rbind (rfilterM (join_holds e') (pairs ls rs)) (\<lambda>ps. Inr (map (\<lambda>(l, r). l @ r) ps))"
proof -
  have "row_holds e (l @ r) = join_holds e' (l, r)" if "l \<in> set ls" for l r
  proof -
    have "eval_with (\<lambda>tup col. if tup = 0 then at l col else at r col) True e' = eval_with (\<lambda>tup. at (l @ r)) False e"
      using assms(3) that by (intro rewrite_eval [OF assms(1,2)]) (auto simp: at_def nth_append)
    then show ?thesis by (simp add: row_holds_def join_holds_def eval_row_def eval_join_def)
  qed
  then show ?thesis unfolding rfilterM_map by (intro arg_cong2 [of _ _ _ _ rbind] rfilterM_cong) (auto simp: pairs_def)
qed

lemma GetColumnCount_width: "plan_ok c table other p \<Longrightarrow> GetColumnCount (OutputSchema p) = width p"
  by (cases p) (simp add: GetColumnCount_def width_def)

lemma Clone_constant: "CloneWithChildren e cs = Inr (ConstantValueExpression v) \<Longrightarrow> e = ConstantValueExpression v"
  by (cases e) (auto split: list.splits if_splits)

lemma rewrite_pred_ok:
  assumes "RewriteExpressionForJoin e ln rn = Inr e'" "pred_ok e" shows "pred_ok e'"
proof (cases "\<exists>v. e' = ConstantValueExpression v")
  case True
  then obtain v where v: "e' = ConstantValueExpression v" by blast
  have "e = ConstantValueExpression v"
    using assms(1) v by (cases e) (auto simp: rbind_Inr_iff check_Inr_iff split: if_splits dest: Clone_constant)
  then show ?thesis using assms(2) v by simp
qed (auto simp: pred_ok_def split: expr.splits)

interpretation merge_filter_nlj: rewrite_rule merge_filter_nlj c table other for c table other
proof
  fix p assume ok: "plan_ok c table other p"
  show "\<exists>q. merge_filter_nlj p = Inr q \<and> plan_ok c table other q \<and> plan_rows table other q = plan_rows table other p \<and> width q = width p"
  proof (cases "\<exists>s e s' je j cs'. p = Plan s (FilterPlanNode e) [Plan s' (NestedLoopJoinPlanNode je j) cs']")
    case False
    have "merge_filter_nlj p = Inr p"
    proof (cases "\<exists>e. plan_op p = FilterPlanNode e")
      case True
      then obtain s e cs where p: "p = Plan s (FilterPlanNode e) cs" by (cases p) auto
      then obtain child where cs: "cs = [child]" using ok by (cases cs) (auto simp: node_ok_def)
      then have "\<nexists>je j. plan_op child = NestedLoopJoinPlanNode je j" using \<open>\<nexists>s e s' je j cs'. _ s e s' je j cs'\<close> p by (cases child) auto
      then show ?thesis using p cs by (auto simp: merge_filter_nlj_def split: plan_op.splits)
    qed (auto simp: merge_filter_nlj_def split: plan_op.splits)
    then show ?thesis using ok by simp
  next
    case True
    then obtain s e s' je j cs' where p: "p = Plan s (FilterPlanNode e) [Plan s' (NestedLoopJoinPlanNode je j) cs']" by blast
    have "plan_ok c table other (Plan s' (NestedLoopJoinPlanNode je j) cs')" using ok p by simp
    then have nlj: "length cs' = 2" "j = INNER" "pred_ok je" "length (columns s') = width (cs' ! 0) + width (cs' ! 1)"
      "\<forall>q \<in> set cs'. plan_ok c table other q" by (auto simp: node_ok_def)
    then obtain l r where lr: "cs' = [l, r]" by (auto simp: numeral_2_eq_2 length_Suc_conv)
    have f: "pred_ok e" "array_free e" "columns_of e \<subseteq> {0} \<times> {..<width l + width r}" "length (columns s) = width l + width r"
      using ok p nlj(4) lr by (auto simp: node_ok_def width_def)
    have cc: "GetColumnCount (OutputSchema l) = width l" "GetColumnCount (OutputSchema r) = width r"
      using nlj(5) lr by (auto intro: GetColumnCount_width)
    obtain b where b: "IsPredicateTrue je = Inr b" "b \<Longrightarrow> \<exists>v. je = ConstantValueExpression v \<and> holds_value v"
      using IsPredicateTrue_ok [OF nlj(3)] by auto
    show ?thesis
    proof (cases b)
      case False
      then show ?thesis using ok p lr b(1) by (auto simp: merge_filter_nlj_def)
    next
      case True
      then obtain v where v: "je = ConstantValueExpression v" "holds_value v" using b(2) by blast
      obtain e' where e': "RewriteExpressionForJoin e (width l) (width r) = Inr e'" using rewrite_total [OF f(2,3)] by blast
      let ?q = "Plan s (NestedLoopJoinPlanNode e' INNER) [l, r]"
      have m: "merge_filter_nlj p = Inr ?q" using p lr b(1) True e' cc nlj(2) by (simp add: merge_filter_nlj_def)
      have rows: "plan_rows table other ?q = plan_rows table other p"
      proof (cases "rmapM (plan_rows table other) [l, r]")
        case (Inr rss)
        then obtain ls rs where ls: "rss = [ls, rs]" "plan_rows table other l = Inr ls" by (auto simp: rbind_Inr_iff)
        have "\<forall>x \<in> set ls. length x = width l" using nlj(5) lr ls(2) by (cases l) (auto simp: width_def)
        note jr = rewritten_join_rows [OF e' f(2) this, of rs]
        have "rfilterM (join_holds je) (pairs ls rs) = Inr (pairs ls rs)"
          using v by (intro rfilterM_all) (auto simp: join_holds_def eval_join_def)
        then have "plan_rows table other (Plan s' (NestedLoopJoinPlanNode je INNER) [l, r]) = Inr (map (\<lambda>(l, r). l @ r) (pairs ls rs))"
          using Inr ls(1) by (simp add: node_rows_def del: rmapM.simps)
        then have "plan_rows table other p = rfilterM (row_holds e) (map (\<lambda>(l, r). l @ r) (pairs ls rs))"
          using p lr nlj(2) by (simp add: node_rows_def)
        moreover have "plan_rows table other ?q = rbind (rfilterM (join_holds e') (pairs ls rs)) (\<lambda>ps. Inr (map (\<lambda>(l, r). l @ r) ps))"
          using Inr ls(1) by (simp add: node_rows_def del: rmapM.simps)
        ultimately show ?thesis using jr by simp
      next
        case (Inl err)
        then show ?thesis using p lr by (simp del: rmapM.simps) (simp add: rbind_assoc)
      qed
      have s: "length (columns s) < 2 ^ 32"
        "\<forall>rows. plan_rows table other p = Inr rows \<longrightarrow> (\<forall>row \<in> set rows. length row = length (columns s))"
        using ok unfolding p plan_ok.simps by blast+
      have "node_ok c (length (columns s)) (NestedLoopJoinPlanNode e' INNER) [l, r]"
        using f(4) rewrite_pred_ok [OF e' f(1)] by (simp add: node_ok_def)
      then have "plan_ok c table other ?q" using s nlj(5) lr unfolding plan_ok.simps rows by simp
      then show ?thesis using m rows p by (simp add: width_def)
    qed
  qed
qed

subsection \<open>Filters over scans\<close>

interpretation merge_filter_scan: rewrite_rule merge_filter_scan c table other for c table other
proof
  fix p assume ok: "plan_ok c table other p"
  show "\<exists>q. merge_filter_scan p = Inr q \<and> plan_ok c table other q \<and> plan_rows table other q = plan_rows table other p \<and> width q = width p"
  proof (cases "\<exists>s e s' t n cs. p = Plan s (FilterPlanNode e) [Plan s' (SeqScanPlanNode t n None) cs]")
    case False
    have "merge_filter_scan p = Inr p"
    proof (cases "\<exists>e. plan_op p = FilterPlanNode e")
      case True
      then obtain s e cs where p: "p = Plan s (FilterPlanNode e) cs" by (cases p) auto
      then obtain child where cs: "cs = [child]" using ok by (cases cs) (auto simp: node_ok_def)
      then have "\<nexists>t n. plan_op child = SeqScanPlanNode t n None" using \<open>\<nexists>s e s' t n cs. _ s e s' t n cs\<close> p by (cases child) auto
      then show ?thesis using p cs by (auto simp: merge_filter_scan_def split: plan_op.splits option.splits)
    qed (auto simp: merge_filter_scan_def split: plan_op.splits)
    then show ?thesis using ok by simp
  next
    case True
    then obtain s e s' t n cs where p: "p = Plan s (FilterPlanNode e) [Plan s' (SeqScanPlanNode t n None) cs]" by blast
    then have "cs = []" "GetTable_oid c t \<noteq> None" using ok by (auto simp: node_ok_def)
    then have "plan_rows table other (Plan s (SeqScanPlanNode t n (Some e)) []) = plan_rows table other p"
      using p by (cases "table t") (simp_all add: node_rows_def)
    then show ?thesis using p ok \<open>GetTable_oid c t \<noteq> None\<close>
      by (auto simp: merge_filter_scan_def width_def node_ok_def)
  qed
qed

subsection \<open>Rules over indexes, on tables without an index\<close>

lemma index_rules_idle:
  assumes "\<And>n. GetTableIndexes enum c n = Inr []" "plan_ok c table other p"
  shows "nlj_as_index_join enum c p = Inr p" "order_by_as_index_scan enum c p = Inr p"
proof -
  obtain s node cs where p: "p = Plan s node cs" by (cases p)
  have m: "MatchIndex enum c n i = Inr None" for n i using assms(1) by (simp add: MatchIndex_def)
  show "nlj_as_index_join enum c p = Inr p"
  proof (cases "\<exists>e j. node = NestedLoopJoinPlanNode e j")
    case True
    then obtain l r where "cs = [l, r]" using assms(2) p by (auto simp: node_ok_def numeral_2_eq_2 length_Suc_conv)
    then show ?thesis using p m by (auto simp: nlj_as_index_join_def Let_def split: plan_op.splits expr.splits ComparisonType.splits)
  qed (use p in \<open>auto simp: nlj_as_index_join_def split: plan_op.splits\<close>)
  show "order_by_as_index_scan enum c p = Inr p"
  proof (cases "\<exists>obs. node = SortPlanNode obs")
    case True
    then obtain child where cs: "cs = [child]" using assms(2) p by (cases cs) (auto simp: node_ok_def)
    then have "plan_ok c table other child" using assms(2) p by simp
    then have "\<And>t n f. plan_op child = SeqScanPlanNode t n f \<Longrightarrow> GetTable_oid c t \<noteq> None" by (cases child) (auto simp: node_ok_def)
    then show ?thesis using p cs assms(1) by (fastforce simp: order_by_as_index_scan_def split: plan_op.splits option.splits)
  qed (use p in \<open>auto simp: order_by_as_index_scan_def split: plan_op.splits\<close>)
qed

lemma bottom_up_idle:
  assumes "\<And>q. plan_ok c table other q \<Longrightarrow> rule q = Inr q" "plan_ok c table other p"
  shows "bottom_up rule p = Inr p"
  using assms(2)
proof (induction p)
  case (Plan s node cs)
  have "rmapM (bottom_up rule) cs = Inr cs" using Plan by (intro rmapM_id) simp
  then show ?case using assms(1) [OF Plan.prems] by simp
qed

text \<open>The merging rules keep the output schema of a node.\<close>

lemma bottom_up_schema:
  assumes "\<And>p q. rule p = Inr q \<Longrightarrow> OutputSchema q = OutputSchema p"
  shows "bottom_up rule p = Inr q \<Longrightarrow> OutputSchema q = OutputSchema p"
  using assms by (cases p) (fastforce simp: rbind_Inr_iff)

lemma merge_schema:
  "merge_projection p = Inr q \<Longrightarrow> OutputSchema q = OutputSchema p"
  "merge_filter_nlj p = Inr q \<Longrightarrow> OutputSchema q = OutputSchema p"
  "merge_filter_scan p = Inr q \<Longrightarrow> OutputSchema q = OutputSchema p"
  by (auto simp: merge_projection_def merge_filter_nlj_def merge_filter_scan_def rbind_Inr_iff
      split: plan_op.splits list.splits if_splits option.splits)

lemma Optimize_rows:
  assumes "plan_ok c table other p" "\<And>n. GetTableIndexes enum c n = Inr []"
  shows "\<exists>q. Optimize enum c force_starter_rule p = Inr q \<and> plan_rows table other q = plan_rows table other p \<and> OutputSchema q = OutputSchema p"
proof -
  obtain p1 where p1: "OptimizeMergeProjection p = Inr p1" "plan_ok c table other p1" "plan_rows table other p1 = plan_rows table other p"
    using merge_projection.bottom_up_rows [OF assms(1)] by (auto simp: OptimizeMergeProjection_def)
  obtain p2 where p2: "OptimizeMergeFilterNLJ p1 = Inr p2" "plan_ok c table other p2" "plan_rows table other p2 = plan_rows table other p"
    using merge_filter_nlj.bottom_up_rows [OF p1(2)] p1(3) by (auto simp: OptimizeMergeFilterNLJ_def)
  have idle: "bottom_up (nlj_as_index_join enum c) q = Inr q" "bottom_up (order_by_as_index_scan enum c) q = Inr q"
    if "plan_ok c table other q" for q
    using bottom_up_idle [OF index_rules_idle(1) [OF assms(2)] that] bottom_up_idle [OF index_rules_idle(2) [OF assms(2)] that] by auto
  obtain p3 where p3: "OptimizeMergeFilterScan p2 = Inr p3" "plan_rows table other p3 = plan_rows table other p"
    using merge_filter_scan.bottom_up_rows [OF p2(2)] p2(3) by (auto simp: OptimizeMergeFilterScan_def)
  have "OutputSchema p3 = OutputSchema p"
    using p1(1) p2(1) p3(1) bottom_up_schema [OF merge_schema(1)] bottom_up_schema [OF merge_schema(2)] bottom_up_schema [OF merge_schema(3)]
    by (auto simp: OptimizeMergeProjection_def OptimizeMergeFilterNLJ_def OptimizeMergeFilterScan_def)
  then show ?thesis using p1(1) p2(1,2) p3 idle
    by (simp add: Optimize_def OptimizeCustom_def OptimizeNLJAsHashJoin_def OptimizeSortLimitAsTopN_def
        OptimizeSeqScanAsIndexScan_def OptimizeNLJAsIndexJoin_def OptimizeOrderByAsIndexScan_def)
qed


definition ex_values_plan :: "int \<Rightarrow> plan" where
  "ex_values_plan x = Plan (Schema_ctor [int_column ''c'']) (ValuesPlanNode [[ConstantValueExpression (set_int INTEGER I32 (cmin I32) x)]]) []"

definition ex_join_schema :: Schema where
  "ex_join_schema = Schema_ctor [int_column ''c'', int_column ''c'']"

definition ex_true :: expr where
  "ex_true = ConstantValueExpression (set_int BOOLEAN I8 (cmin I8) 1)"

definition ex_plan :: plan where
  "ex_plan = Plan ex_join_schema (FilterPlanNode ex_pred)
     [Plan ex_join_schema (NestedLoopJoinPlanNode ex_true INNER) [ex_values_plan 3, ex_values_plan 5]]"

lemma ex_schema_columns [simp]: "length (columns ex_join_schema) = 2" "length (columns (Schema_ctor [int_column n])) = 1"
  by (simp_all add: ex_join_schema_def Schema_ctor_def Let_def)

lemma ex_pred_holds: "row_holds ex_pred [set_int INTEGER I32 (cmin I32) 3, set_int INTEGER I32 (cmin I32) 5] = Inr True"
  by code_simp

lemma ex_plan_ok: "plan_ok Catalog_ctor (\<lambda>_. Inr []) (\<lambda>_ _. Inr []) ex_plan"
proof -
  have t: "pred_ok ex_true" "holds_value (set_int BOOLEAN I8 (cmin I8) 1)" by code_simp+
  have j: "join_holds ex_true (l, r) = Inr True" for l r using t(2) by (simp add: ex_true_def join_holds_def eval_join_def)
  show ?thesis
    using t(1) j ex_pred_holds by (auto simp: ex_plan_def ex_values_plan_def node_ok_def node_rows_def pairs_def width_def eval_row_def pred_ok_def ex_pred_def)
qed


section \<open>Where a rule changes the result\<close>

text \<open>The rows of a left join: a left row without a partner appears once, padded with NULLs.\<close>

definition left_join_rows :: "expr \<Rightarrow> Column list \<Rightarrow> row list \<Rightarrow> row list \<Rightarrow> row list result" where
  "left_join_rows e rcols ls rs = rbind (rmapM (\<lambda>l. rbind (rfilterM (join_holds e) (map (Pair l) rs)) (\<lambda>ps.
     if ps \<noteq> [] then Inr (map (\<lambda>(l, r). l @ r) ps)
     else rbind (rmapM (\<lambda>col. GetNullValueByType (column_type col)) rcols) (\<lambda>nulls. Inr [l @ nulls]))) ls) (\<lambda>rss. Inr (concat rss))"

text \<open>The rule that merges a filter into a join does not look at the type of the join.  Over a left join
  the filter moves from the joined rows into the join condition: rows that the filter drops come back
  padded with NULLs.\<close>

lemma MergeFilterNLJ_left_join:
  "merge_filter_nlj (Plan s (FilterPlanNode ex_pred) [Plan s' (NestedLoopJoinPlanNode ex_true LEFT) [ex_values_plan 5, ex_values_plan 3]]) =
     Inr (Plan s (NestedLoopJoinPlanNode (ComparisonExpression LessThan (ColumnValueExpression 0 0 (int_column ''c''))
       (ColumnValueExpression 1 0 (int_column ''c''))) LEFT) [ex_values_plan 5, ex_values_plan 3])"
  "rbind (left_join_rows ex_true [int_column ''c''] [[set_int INTEGER I32 (cmin I32) 5]] [[set_int INTEGER I32 (cmin I32) 3]])
      (rfilterM (row_holds ex_pred)) = Inr []"
  "left_join_rows (ComparisonExpression LessThan (ColumnValueExpression 0 0 (int_column ''c''))
       (ColumnValueExpression 1 0 (int_column ''c''))) [int_column ''c''] [[set_int INTEGER I32 (cmin I32) 5]] [[set_int INTEGER I32 (cmin I32) 3]] =
      Inr [[set_int INTEGER I32 (cmin I32) 5, set_int INTEGER I32 (cmin I32) (cmin I32)]]"
proof -
  have t: "IsPredicateTrue ex_true = Inr True" by code_simp
  show "merge_filter_nlj (Plan s (FilterPlanNode ex_pred) [Plan s' (NestedLoopJoinPlanNode ex_true LEFT) [ex_values_plan 5, ex_values_plan 3]]) =
     Inr (Plan s (NestedLoopJoinPlanNode (ComparisonExpression LessThan (ColumnValueExpression 0 0 (int_column ''c''))
       (ColumnValueExpression 1 0 (int_column ''c''))) LEFT) [ex_values_plan 5, ex_values_plan 3])"
    using t by (simp add: merge_filter_nlj_def ex_values_plan_def GetColumnCount_def ex_pred_def)
qed code_simp+

text \<open>\<open>IsPredicateTrue\<close> does not ask whether the constant is NULL: the byte of a NULL boolean is not zero,
  so the condition \<open>NULL\<close>, which no row satisfies, counts as true.\<close>

lemma IsPredicateTrue_null:
  "GetNullValueByType BOOLEAN = Inr (set_int BOOLEAN I8 (cmin I8) (cmin I8))"
  "IsPredicateTrue (ConstantValueExpression (set_int BOOLEAN I8 (cmin I8) (cmin I8))) = Inr True"
  "row_holds (ConstantValueExpression (set_int BOOLEAN I8 (cmin I8) (cmin I8))) row = Inr False"
proof -
  have "\<not> holds_value (set_int BOOLEAN I8 (cmin I8) (cmin I8))" by code_simp
  then show "row_holds (ConstantValueExpression (set_int BOOLEAN I8 (cmin I8) (cmin I8))) row = Inr False"
    by (simp add: row_holds_def eval_row_def)
qed code_simp+

text \<open>The rule that turns a sort into an index scan drops the filter of the scan below it.\<close>

lemma OrderByAsIndexScan_drops_filter:
  assumes "order_by_column_ids obs = Some ids" "GetTable_oid c t = Some info" "GetTableIndexes enum c (ti_name info) = Inr infos"
    "find (\<lambda>i. ids = GetKeyAttrs (ii_index i)) infos = Some ix"
  shows "order_by_as_index_scan enum c (Plan s (SortPlanNode obs) [Plan s' (SeqScanPlanNode t n (Some pred)) []]) =
    Inr (Plan s (IndexScanPlanNode (ti_oid info) (ii_index_oid ix) None []) [])"
  using assms by (simp add: order_by_as_index_scan_def)

end
