(* ===== verification/MockScan.thy ===== *)
theory MockScan
  imports Tuples StringUtil
begin

text \<open>
  The mock tables and their scan (execution/mock_scan_executor.cpp): the schemas, sizes and rows of
  the tables that the system serves for tests, and the executor that scans them.
\<close>

section \<open>The environment of a mock scan\<close>

text \<open>What the scan takes from outside: the process environment, the outputs of the generator of a table
  (its \<open>n\<close>-th 64-bit output, and its \<open>n\<close>-th draw from a range), and the permutation of
  \<open>std::shuffle\<close>.  The state of a generator is the number of draws made so far.\<close>

record mock_env =
  getenv :: "string \<Rightarrow> string option"
  rng_output :: "nat \<Rightarrow> nat"
  uniform :: "nat \<Rightarrow> int \<Rightarrow> int \<Rightarrow> int"
  shuffle :: "nat list \<Rightarrow> nat list"

definition MockRandomValuesEnabled :: "mock_env \<Rightarrow> bool" where
  "MockRandomValuesEnabled env = (case getenv env ''BUSTUB_ENABLE_RANDOM'' of None \<Rightarrow> False
     | Some v \<Rightarrow> v \<noteq> [] \<and> v \<noteq> ''0'')"

text \<open>An unsigned 64-bit quantity passed where an \<open>int32_t\<close> is expected keeps its low 32 bits.\<close>

definition int32_value :: "int \<Rightarrow> Value result" where
  "int32_value z = GetIntegerValue (static_cast I32 z)"

definition RandomValueForColumn :: "mock_env \<Rightarrow> Column \<Rightarrow> nat \<Rightarrow> (Value \<times> nat) result" where
  "RandomValueForColumn env col rng = (case column_type col of
       INTEGER \<Rightarrow> rbind (GetIntegerValue (uniform env rng 0 2000000)) (\<lambda>v. Inr (v, rng + 1))
     | VARCHAR \<Rightarrow> (let max_len = min (col_length col) 32; len = nat (uniform env rng 0 (int max_len));
           s = map (\<lambda>i. char_of (nat (uniform env (rng + 1 + i) 33 126))) [0..<len]
         in rbind (GetVarcharValue s) (\<lambda>v. Inr (v, rng + 1 + len)))
     | ty \<Rightarrow> rbind (GetZeroValueByType ty) (\<lambda>v. Inr (v, rng)))"

section \<open>The tables\<close>

definition ta_list_2022 :: "string list" where
  "ta_list_2022 = [''amstqq'', ''durovo'', ''joyceliaoo'', ''karthik-ramanathan-3006'', ''kush789'', ''lmwnshn'',
     ''mkpjnx'', ''skyzh'', ''thepinetree'', ''timlee0119'', ''yliang412'']"

definition ta_list_2023 :: "string list" where
  "ta_list_2023 = [''abigalekim'', ''arvinwu168'', ''christopherlim98'', ''David-Lyons'', ''fanyuex2'',
     ''Mayank-Baranwal'', ''skyzh'', ''yarkhinephyo'', ''yliang412'']"

definition ta_list_2023_fall :: "string list" where
  "ta_list_2023_fall = [''skyzh'', ''yliang412'', ''fernandolis10'', ''wiam8'', ''anurag-23'', ''Mayank-Baranwal'',
     ''abigalekim'', ''ChaosZhai'', ''aoleizhou'', ''averyqi115'', ''kswim8'']"

definition ta_list_2024 :: "string list" where
  "ta_list_2024 = [''AlSchlo'', ''walkingcabbages'', ''averyqi115'', ''lanlou1554'', ''sweetsuro'', ''ChaosZhai'',
     ''SDTheSlayer'', ''xx01cyx'', ''yliang412'', ''thelongmarch-azx'']"

definition ta_list_2024_fall :: "string list" where
  "ta_list_2024_fall = [''17zhangw'', ''connortsui20'', ''J-HowHuang'', ''lanlou1554'', ''prashanthduvvada'', ''unw9527'',
     ''xx01cyx'', ''yashkothari42'']"

definition ta_list_2025_spring :: "string list" where
  "ta_list_2025_spring = [''AlSchlo'', ''carpecodeum'', ''ChrisLaspias'', ''hyoungjook'', ''joesunil123'', ''mrwhitezz'',
     ''rmboyce'', ''yliang412'']"

definition ta_list_2025_fall :: "string list" where
  "ta_list_2025_fall = [''17zhangw'', ''quantumish'', ''songwdfu'', ''notSaranshMalik'', ''shinyumh'', ''s-wangru'',
     ''rayhhome'', ''MrWhitezz'']"

definition ta_oh_2022 :: "string list" where
  "ta_oh_2022 = [''Tuesday'', ''Wednesday'', ''Monday'', ''Wednesday'', ''Thursday'', ''Friday'', ''Wednesday'',
     ''Randomly'', ''Tuesday'', ''Monday'', ''Tuesday'']"

definition ta_oh_2023 :: "string list" where
  "ta_oh_2023 = [''Friday'', ''Thursday'', ''Tuesday'', ''Monday'', ''Tuesday'', ''Tuesday'', ''Randomly'',
     ''Wednesday'', ''Thursday'']"

definition ta_oh_2023_fall :: "string list" where
  "ta_oh_2023_fall = [''Randomly'', ''Tuesday'', ''Wednesday'', ''Tuesday'', ''Thursday'', ''Tuesday'', ''Friday'',
     ''Yesterday'', ''Friday'', ''Friday'', ''Never'']"

definition ta_oh_2024 :: "string list" where
  "ta_oh_2024 = [''Friday'', ''Thursday'', ''Friday'', ''Wednesday'', ''Thursday'', ''Yesterday'', ''Monday'',
     ''Tuesday'', ''Tuesday'', ''Monday'']"

definition ta_oh_2024_fall :: "string list" where
  "ta_oh_2024_fall = [''Wednesday'', ''Thursday'', ''Tuesday'', ''Monday'', ''Friday'', ''Thursday'', ''Tuesday'',
     ''Friday'']"

definition ta_oh_2025_spring :: "string list" where
  "ta_oh_2025_spring = [''Friday'', ''Monday'', ''Wednesday'', ''Tuesday'', ''Friday'', ''Thursday'', ''Monday'',
     ''Tuesday'']"

definition ta_oh_2025_fall :: "string list" where
  "ta_oh_2025_fall = [''Tuesday'', ''Monday'', ''Thursday'', ''Friday'', ''Tuesday'', ''Tuesday'', ''Friday'',
     ''Wednesday'']"

definition course_on_date :: "string list" where
  "course_on_date = [''Monday'', ''Tuesday'', ''Wednesday'', ''Thursday'', ''Friday'', ''Saturday'', ''Sunday'']"

text \<open>The list ends before the null pointer.\<close>

definition mock_table_list :: "string list" where
  "mock_table_list = [''__mock_table_1'', ''__mock_table_2'', ''__mock_table_3'', ''__mock_table_4'',
     ''__mock_table_tas_2022'', ''__mock_table_tas_2023'', ''__mock_table_tas_2023_fall'',
     ''__mock_table_tas_2024'', ''__mock_table_tas_2024_fall'', ''__mock_table_tas_2025_spring'',
     ''__mock_table_tas_2025_fall'', ''__mock_agg_input_small'', ''__mock_agg_input_big'',
     ''__mock_external_merge_sort_input'', ''__mock_table_schedule_2022'', ''__mock_table_schedule'',
     ''__mock_table_123'', ''__mock_graph'', ''__mock_t1'', ''__mock_t4_1m'', ''__mock_t5_1m'',
     ''__mock_t6_1m'', ''__mock_t7'', ''__mock_t8'', ''__mock_t9'', ''__mock_t10'', ''__mock_t11'']"

definition GRAPH_NODE_CNT :: nat where
  "GRAPH_NODE_CNT = 10"

definition mock_columns :: "(string \<times> TypeId \<times> nat) list \<Rightarrow> Schema result" where
  "mock_columns cs = rbind (rmapM (\<lambda>(n, ty, len). if len = 0 then Column_fixed n ty else Column_varlen n ty len) cs)
     (\<lambda>cols. Inr (Schema_ctor cols))"

definition GetMockTableSchemaOf :: "string \<Rightarrow> Schema result" where
  "GetMockTableSchemaOf table =
     (if table = ''__mock_table_1'' then mock_columns [(''colA'', INTEGER, 0), (''colB'', INTEGER, 0)] else
     if table = ''__mock_table_2'' then mock_columns [(''colC'', VARCHAR, 128), (''colD'', VARCHAR, 128)] else
     if table = ''__mock_table_3'' then mock_columns [(''colE'', INTEGER, 0), (''colF'', VARCHAR, 128)] else
     if table = ''__mock_table_4'' then mock_columns [(''colG'', INTEGER, 0), (''colH'', VARCHAR, 128)] else
     if table = ''__mock_table_tas_2022'' then mock_columns [(''github_id'', VARCHAR, 128), (''office_hour'', VARCHAR, 128)] else
     if table = ''__mock_table_tas_2023'' then mock_columns [(''github_id'', VARCHAR, 128), (''office_hour'', VARCHAR, 128)] else
     if table = ''__mock_table_tas_2023_fall'' then mock_columns [(''github_id'', VARCHAR, 128), (''office_hour'', VARCHAR, 128)] else
     if table = ''__mock_table_tas_2024'' then mock_columns [(''github_id'', VARCHAR, 128), (''office_hour'', VARCHAR, 128)] else
     if table = ''__mock_table_tas_2024_fall'' then mock_columns [(''github_id'', VARCHAR, 128), (''office_hour'', VARCHAR, 128)] else
     if table = ''__mock_table_tas_2025_spring'' then mock_columns [(''github_id'', VARCHAR, 128), (''office_hour'', VARCHAR, 128)] else
     if table = ''__mock_table_tas_2025_fall'' then mock_columns [(''github_id'', VARCHAR, 128), (''office_hour'', VARCHAR, 128)] else
     if table = ''__mock_table_schedule_2022'' then mock_columns [(''day_of_week'', VARCHAR, 128), (''has_lecture'', INTEGER, 0)] else
     if table = ''__mock_table_schedule'' then mock_columns [(''day_of_week'', VARCHAR, 128), (''has_lecture'', INTEGER, 0)] else
     if table = ''__mock_agg_input_small'' \<or> table = ''__mock_agg_input_big'' then mock_columns [(''v1'', INTEGER, 0), (''v2'', INTEGER, 0), (''v3'', INTEGER, 0), (''v4'', INTEGER, 0), (''v5'', INTEGER, 0), (''v6'', VARCHAR, 128)] else
     if table = ''__mock_external_merge_sort_input'' then mock_columns [(''v1'', INTEGER, 0), (''v2'', INTEGER, 0), (''v3'', INTEGER, 0)] else
     if table = ''__mock_graph'' then mock_columns [(''src'', INTEGER, 0), (''dst'', INTEGER, 0), (''src_label'', INTEGER, 0), (''dst_label'', INTEGER, 0), (''distance'', INTEGER, 0)] else
     if table = ''__mock_table_123'' then mock_columns [(''number'', INTEGER, 0)] else
     if table = ''__mock_t4_1m'' \<or> table = ''__mock_t5_1m'' \<or> table = ''__mock_t6_1m'' then mock_columns [(''x'', INTEGER, 0), (''y'', INTEGER, 0)] else
     if table = ''__mock_t1'' then mock_columns [(''x'', INTEGER, 0), (''y'', INTEGER, 0), (''z'', INTEGER, 0)] else
     if table = ''__mock_t7'' then mock_columns [(''v'', INTEGER, 0), (''v1'', INTEGER, 0), (''v2'', INTEGER, 0)] else
     if table = ''__mock_t8'' then mock_columns [(''v4'', INTEGER, 0)] else
     if table = ''__mock_t9'' then mock_columns [(''x'', INTEGER, 0), (''y'', INTEGER, 0)] else
     if table = ''__mock_t10'' then mock_columns [(''x'', INTEGER, 0), (''y'', INTEGER, 0)] else
     if table = ''__mock_t11'' then mock_columns [(''x'', INTEGER, 0), (''y'', INTEGER, 0)] else
      Inl (Throw ET_INVALID (''mock table '' @ table @ '' not found'')))"

definition GetSizeOf :: "string \<Rightarrow> nat" where
  "GetSizeOf table =
     (if table = ''__mock_table_1'' then 100 else
     if table = ''__mock_table_2'' then 100 else
     if table = ''__mock_table_3'' then 100 else
     if table = ''__mock_table_4'' then 100 else
     if table = ''__mock_table_tas_2022'' then length ta_list_2022 else
     if table = ''__mock_table_tas_2023'' then length ta_list_2023 else
     if table = ''__mock_table_tas_2023_fall'' then length ta_list_2023_fall else
     if table = ''__mock_table_tas_2024'' then length ta_list_2024 else
     if table = ''__mock_table_tas_2024_fall'' then length ta_list_2024_fall else
     if table = ''__mock_table_tas_2025_spring'' then length ta_list_2025_spring else
     if table = ''__mock_table_tas_2025_fall'' then length ta_list_2025_fall else
     if table = ''__mock_table_schedule_2022'' then length course_on_date else
     if table = ''__mock_table_schedule'' then length course_on_date else
     if table = ''__mock_agg_input_small'' then 1000 else
     if table = ''__mock_agg_input_big'' then 10000 else
     if table = ''__mock_external_merge_sort_input'' then 100000 else
     if table = ''__mock_graph'' then GRAPH_NODE_CNT * GRAPH_NODE_CNT else
     if table = ''__mock_table_123'' then 3 else
     if table = ''__mock_t1'' then 1000000 else
     if table = ''__mock_t4_1m'' \<or> table = ''__mock_t5_1m'' \<or> table = ''__mock_t6_1m'' then 1000000 else
     if table = ''__mock_t7'' then 1000000 else
     if table = ''__mock_t8'' then 10 else
     if table = ''__mock_t9'' then 10000000 else
     if table = ''__mock_t10'' then 10000 else
     if table = ''__mock_t11'' then 1000000 else
      0)"

definition GetShuffled :: "string \<Rightarrow> bool" where
  "GetShuffled table \<longleftrightarrow> table = ''__mock_t1'' \<or> table = ''__mock_t2_100k'' \<or> table = ''__mock_t3_1k''"

section \<open>The rows of the tables\<close>

text \<open>A row is a list of values that may fail to be built; the rows of the tables of names and of the
  schedules read the lists above at the cursor.\<close>

definition poop :: string where "poop = [CHR 0xF0, CHR 0x9F, CHR 0x92, CHR 0xA9]"
definition innocent :: string where "innocent = [CHR 0xF0, CHR 0x9F, CHR 0x98, CHR 0x87]"

definition row_values :: "Value result list \<Rightarrow> Value list result" where
  "row_values vs = rmapM (\<lambda>v. v) vs"

definition ta_row :: "string list \<Rightarrow> string list \<Rightarrow> nat \<Rightarrow> Value list result" where
  "ta_row ta_list ta_oh cursor = rbind (at ta_list cursor) (\<lambda>github_id. rbind (at ta_oh cursor) (\<lambda>office_hour.
     row_values [GetVarcharValue github_id, GetVarcharValue office_hour]))"

definition schedule_row :: "nat list \<Rightarrow> nat \<Rightarrow> Value list result" where
  "schedule_row lectures cursor = rbind (at course_on_date cursor) (\<lambda>day.
     row_values [GetVarcharValue day, GetIntegerValue (if cursor \<in> set lectures then 1 else 0)])"

definition mock_table_1_row :: "nat \<Rightarrow> Value list result" where
  "mock_table_1_row cursor = row_values [int32_value (int cursor), int32_value (int cursor * 100)]"

definition mock_table_2_row :: "nat \<Rightarrow> Value list result" where
  "mock_table_2_row cursor = row_values [GetVarcharValue (nat_to_string cursor @ ''-'' @ poop),
     GetVarcharValue (Repeat innocent (cursor mod 8))]"

definition mock_table_3_row :: "nat \<Rightarrow> Value list result" where
  "mock_table_3_row cursor = row_values [if cursor mod 2 = 0 then int32_value (int cursor) else GetNullValueByType INTEGER,
     GetVarcharValue (nat_to_string cursor @ ''-'' @ poop)]"

definition mock_table_4_row :: "nat \<Rightarrow> Value list result" where
  "mock_table_4_row cursor = row_values [if cursor mod 5 \<noteq> 0 then int32_value (int (cursor mod 5)) else GetNullValueByType INTEGER,
     let str = foldl (\<lambda>s _. s @ poop) poop [0..<cursor mod 3]
     in if cursor mod 10 \<noteq> 0 then GetVarcharValue str else GetNullValueByType VARCHAR]"

definition agg_input_row :: "nat \<Rightarrow> nat \<Rightarrow> nat \<Rightarrow> Value list result" where
  "agg_input_row per_group per_string cursor = row_values [int32_value (int ((cursor + 2) mod 10)), int32_value (int cursor),
     int32_value (int ((cursor + 50) mod 100)), int32_value (int (cursor div per_group)), GetIntegerValue 233,
     GetVarcharValue (Repeat poop (cursor mod per_string + 1))]"

definition external_merge_sort_row :: "nat \<Rightarrow> Value list result" where
  "external_merge_sort_row cursor = row_values [int32_value (int cursor), int32_value (int ((cursor + 1777) mod 15000)),
     int32_value (int ((cursor + 3) mod 111))]"

definition mock_graph_row :: "nat \<Rightarrow> Value list result" where
  "mock_graph_row cursor = (let src = static_cast I32 (int (cursor mod GRAPH_NODE_CNT));
       dst = static_cast I32 (int (cursor div GRAPH_NODE_CNT))
     in row_values [GetIntegerValue src, GetIntegerValue dst, int32_value (src * 100), int32_value (dst * 100),
       if src = dst then GetNullValueByType INTEGER else GetIntegerValue 1])"

definition mock_t1_row :: "nat \<Rightarrow> Value list result" where
  "mock_t1_row cursor = row_values [int32_value (int (cursor div 10000)), int32_value (int (cursor mod 10000)), int32_value (int cursor)]"

text \<open>The tables of one million rows: two columns, the second ten times the first.\<close>

definition times_ten_row :: "nat \<Rightarrow> Value list result" where
  "times_ten_row cursor = row_values [int32_value (int cursor), int32_value (int cursor * 10)]"

definition mock_t7_row :: "nat \<Rightarrow> Value list result" where
  "mock_t7_row cursor = row_values [int32_value (int (cursor mod 20)), int32_value (int cursor), int32_value (int cursor)]"

definition mock_t9_row :: "nat \<Rightarrow> Value list result" where
  "mock_t9_row cursor = row_values [int32_value (int (cursor div 10000)),
     int32_value (10000000 - int (cursor div 2 + cursor div 10000 mod 2 * (cursor div 2 mod 2)))]"

definition mock_t11_row :: "nat \<Rightarrow> Value list result" where
  "mock_t11_row cursor = row_values [int32_value (- 1 * int (cursor mod 1000) - 1), int32_value (int cursor * 10)]"

text \<open>With random values enabled, a row draws from the generator of the table.\<close>

definition random_t7_row :: "mock_env \<Rightarrow> nat \<Rightarrow> (Value list \<times> nat) result" where
  "random_t7_row env rng = rbind (row_values [int32_value (int (rng_output env rng mod 100)),
       int32_value (int (rng_output env (rng + 1) mod 1000000)), int32_value (int (rng_output env (rng + 2) mod 1000000))])
     (\<lambda>vs. Inr (vs, rng + 3))"

definition random_row :: "mock_env \<Rightarrow> Schema \<Rightarrow> nat \<Rightarrow> (Value list \<times> nat) result" where
  "random_row env schema rng = rfoldM (\<lambda>(vs, rng) col. rbind (RandomValueForColumn env col rng) (\<lambda>(v, rng). Inr (vs @ [v], rng)))
     ([], rng) (columns schema)"

text \<open>The chain of conditions of \<open>GetFunctionOf\<close>: the tables before the random ones, the random ones,
  and the tables after them with the default of zeros.\<close>

definition fixed_row :: "string \<Rightarrow> (nat \<Rightarrow> Value list result) option" where
  "fixed_row table =
     (if table = ''__mock_table_tas_2022'' then Some (ta_row ta_list_2022 ta_oh_2022)
      else if table = ''__mock_table_tas_2023'' then Some (ta_row ta_list_2023 ta_oh_2023)
      else if table = ''__mock_table_tas_2023_fall'' then Some (ta_row ta_list_2023_fall ta_oh_2023_fall)
      else if table = ''__mock_table_tas_2024'' then Some (ta_row ta_list_2024 ta_oh_2024)
      else if table = ''__mock_table_tas_2024_fall'' then Some (ta_row ta_list_2024_fall ta_oh_2024_fall)
      else if table = ''__mock_table_tas_2025_spring'' then Some (ta_row ta_list_2025_spring ta_oh_2025_spring)
      else if table = ''__mock_table_tas_2025_fall'' then Some (ta_row ta_list_2025_fall ta_oh_2025_fall)
      else if table = ''__mock_table_schedule_2022'' then Some (schedule_row [1, 3])
      else if table = ''__mock_table_schedule'' then Some (schedule_row [0, 2])
      else if table = ''__mock_table_1'' then Some mock_table_1_row
      else if table = ''__mock_table_2'' then Some mock_table_2_row
      else if table = ''__mock_table_3'' then Some mock_table_3_row
      else if table = ''__mock_table_4'' then Some mock_table_4_row
      else if table = ''__mock_agg_input_small'' then Some (agg_input_row 100 8)
      else if table = ''__mock_agg_input_big'' then Some (agg_input_row 1000 16)
      else if table = ''__mock_external_merge_sort_input'' then Some external_merge_sort_row
      else if table = ''__mock_table_123'' then Some (\<lambda>cursor. row_values [int32_value (int cursor + 1)])
      else if table = ''__mock_graph'' then Some mock_graph_row
      else if table = ''__mock_t1'' then Some mock_t1_row
      else if table = ''__mock_t8'' then Some (\<lambda>cursor. row_values [int32_value (int cursor)])
      else None)"

definition late_row :: "Schema \<Rightarrow> string \<Rightarrow> nat \<Rightarrow> Value list result" where
  "late_row schema table cursor =
     (if table = ''__mock_t4_1m'' then times_ten_row (cursor mod 500000)
      else if table = ''__mock_t5_1m'' then times_ten_row ((cursor + 30000) mod 500000)
      else if table = ''__mock_t6_1m'' then times_ten_row ((cursor + 60000) mod 500000)
      else if table = ''__mock_t7'' then mock_t7_row cursor
      else if table = ''__mock_t9'' then mock_t9_row cursor
      else if table = ''__mock_t10'' then times_ten_row cursor
      else if table = ''__mock_t11'' then mock_t11_row cursor
      else rmapM (\<lambda>col. GetZeroValueByType (column_type col)) (columns schema))"

definition row_of :: "mock_env \<Rightarrow> Schema \<Rightarrow> string \<Rightarrow> nat \<Rightarrow> nat \<Rightarrow> (Value list \<times> nat) result" where
  "row_of env schema table cursor rng = (case fixed_row table of
       Some f \<Rightarrow> rbind (f cursor) (\<lambda>vs. Inr (vs, rng))
     | None \<Rightarrow> if MockRandomValuesEnabled env \<and> table = ''__mock_t7'' then random_t7_row env rng
         else if MockRandomValuesEnabled env then random_row env schema rng
         else rbind (late_row schema table cursor) (\<lambda>vs. Inr (vs, rng)))"

definition GetFunctionOf :: "mock_env \<Rightarrow> Schema \<Rightarrow> string \<Rightarrow> nat \<Rightarrow> nat \<Rightarrow> (Tuple \<times> nat) result" where
  "GetFunctionOf env schema table cursor rng = rbind (row_of env schema table cursor rng) (\<lambda>(vs, rng).
     rbind (Tuple_ctor vs schema) (\<lambda>t. Inr (t, rng)))"

section \<open>The rows fit their schemas\<close>

definition row_fits :: "Column list \<Rightarrow> Value list \<Rightarrow> bool" where
  "row_fits cs vs \<longleftrightarrow> list_all2 fits cs vs \<and> length cs < 2 ^ 32 \<and> var_start cs vs (length cs) < 2 ^ 31"

lemma row_fits_tuple:
  assumes "row_fits cs vs"
  obtains t where "Tuple_ctor vs (Schema_ctor cs) = Inr t" "\<And>i. i < length cs \<Longrightarrow> GetValue t (Schema_ctor cs) i = Inr (vs ! i)"
proof -
  have "\<exists>t. Tuple_ctor vs (Schema_ctor cs) = Inr t \<and> length (data t) = var_start cs vs (length cs) \<and>
     (\<forall>i<length cs. GetValue t (Schema_ctor cs) i = Inr (vs ! i))"
    using assms by (intro Tuple_ctor_ok) (auto simp: row_fits_def list_all2_conv_all_nth)
  then show ?thesis using that by auto
qed

definition fits_type :: "TypeId \<Rightarrow> Value \<Rightarrow> bool" where
  "fits_type ty v \<longleftrightarrow> wf_value v \<and> type_id v = ty \<and> ser_size v \<le> 256"

definition builds :: "TypeId \<Rightarrow> Value result \<Rightarrow> bool" where
  "builds ty r \<longleftrightarrow> (\<exists>v. r = Inr v \<and> fits_type ty v)"

lemma builds_integer: "in_range I32 z \<Longrightarrow> builds INTEGER (GetIntegerValue z)"
  using wf_set_int [of INTEGER I32 z]
  by (simp add: builds_def fits_type_def GetIntegerValue_def Value_int32_def ser_size_def GetTypeSize_def BUSTUB_INT_NULL_def)

lemma builds_int32 [simp]: "builds INTEGER (int32_value z)"
  by (simp add: int32_value_def builds_integer)

lemma builds_numbers [simp]: "builds INTEGER (GetIntegerValue (static_cast I32 z))" "builds INTEGER (GetIntegerValue 0)"
  "builds INTEGER (GetIntegerValue 1)" "builds INTEGER (GetIntegerValue 233)"
  by (simp_all add: builds_integer) (simp_all add: builds_integer in_range_def)

lemma builds_string:
  assumes "length s \<le> 200"
  shows "builds VARCHAR (GetVarcharValue s)"
proof -
  obtain v where "Value_string VARCHAR s = Inr v" "wf_value v" "type_id v = VARCHAR" "\<not> IsNull v" "size_len v = length s + 1"
    using assms by (auto simp: Value_string_def wf_value_def IsNull_def BUSTUB_VALUE_NULL_def)
  then show ?thesis using assms by (auto simp: builds_def fits_type_def GetVarcharValue_def ser_size_def GetTypeSize_def)
qed

lemma builds_null [simp]: "builds INTEGER (GetNullValueByType INTEGER)" "builds VARCHAR (GetNullValueByType VARCHAR)"
proof -
  show "builds INTEGER (GetNullValueByType INTEGER)"
    using builds_integer [of "cmin I32"] by (simp add: GetNullValueByType_def BUSTUB_INT_NULL_def in_range_def)
  have "GetNullValueByType VARCHAR = Inr (Value_ctor VARCHAR)" "ser_size (Value_ctor VARCHAR) \<le> 256" "wf_value (Value_ctor VARCHAR)"
    "type_id (Value_ctor VARCHAR) = VARCHAR" by code_simp+
  then show "builds VARCHAR (GetNullValueByType VARCHAR)" by (simp add: builds_def fits_type_def)
qed

lemma row_values_builds: "list_all2 builds tys rs \<Longrightarrow> \<exists>vs. row_values rs = Inr vs \<and> list_all2 fits_type tys vs"
  unfolding row_values_def by (induction rule: list_all2_induct) (auto simp: builds_def)

lemma mock_columns_Inr:
  assumes "list_all (\<lambda>(n, ty, len). ty = INTEGER \<and> len = 0 \<or> ty = VARCHAR \<and> 0 < len) spec"
  shows "\<exists>cs. mock_columns spec = Inr (Schema_ctor cs) \<and> map column_type cs = map (fst \<circ> snd) spec \<and>
     (\<forall>c \<in> set cs. Column_IsInlined c \<longrightarrow> GetTypeSize (column_type c) = Inr (col_length c))"
proof -
  let ?f = "\<lambda>(n, ty, len). if len = 0 then Column_fixed n ty else Column_varlen n ty len"
  have "\<exists>cs. rmapM ?f spec = Inr cs \<and> map column_type cs = map (fst \<circ> snd) spec \<and>
      (\<forall>c \<in> set cs. Column_IsInlined c \<longrightarrow> GetTypeSize (column_type c) = Inr (col_length c))"
    using assms by (induction spec) (auto simp: Column_fixed_def Column_varlen_def TypeSize_def GetTypeSize_def Column_IsInlined_def)
  then show ?thesis by (auto simp: mock_columns_def)
qed

lemma row_fits_types:
  assumes "list_all2 fits_type (map column_type cs) vs" "length cs \<le> 100"
    "\<forall>c \<in> set cs. Column_IsInlined c \<longrightarrow> GetTypeSize (column_type c) = Inr (col_length c)"
  shows "row_fits cs vs"
proof -
  have l: "length vs = length cs" using assms(1) by (auto dest: list_all2_lengthD)
  have f: "fits (cs ! i) (vs ! i)" "ser_size (vs ! i) \<le> 256" if "i < length cs" for i
    using assms(1,3) that by (auto simp: list_all2_conv_all_nth fits_type_def fits_def)
  have w: "col_width c \<le> 8" if "c \<in> set cs" for c
    using assms(3) that by (cases "column_type c") (auto simp: col_width_def GetTypeSize_def Column_IsInlined_def)
  have "col_start cs (length cs) \<le> 8 * length cs" unfolding col_start_def
    using w by (induction cs) (simp_all add: add_mono)
  moreover have "var_size cs vs k \<le> 256 * k" if "k \<le> length cs" for k
    using that
  proof (induction k)
    case (Suc k)
    then show ?case using f(2) [of k] by (simp add: var_size_def)
  qed (simp add: var_size_def)
  ultimately have "var_start cs vs (length cs) \<le> 264 * length cs" by (fastforce simp: var_start_def)
  then show ?thesis using assms(2) f(1) l by (simp add: row_fits_def list_all2_conv_all_nth)
qed

text \<open>What every table promises: its schema is made of integer and string columns, and each of its rows is
  built and fits them.\<close>

definition table_ok :: "mock_env \<Rightarrow> string \<Rightarrow> bool" where
  "table_ok env table \<longleftrightarrow> (\<exists>spec. GetMockTableSchemaOf table = mock_columns spec \<and> length spec \<le> 100 \<and>
     list_all (\<lambda>(n, ty, len). ty = INTEGER \<and> len = 0 \<or> ty = VARCHAR \<and> 0 < len) spec \<and>
     (\<forall>cursor schema rng. cursor < GetSizeOf table \<longrightarrow> (\<exists>vs. row_of env schema table cursor rng = Inr (vs, rng) \<and>
       list_all2 fits_type (map (fst \<circ> snd) spec) vs)))"

lemma table_okI:
  assumes "GetMockTableSchemaOf table = mock_columns spec" "length spec \<le> 100"
    "list_all (\<lambda>(n, ty, len). ty = INTEGER \<and> len = 0 \<or> ty = VARCHAR \<and> 0 < len) spec"
    "fixed_row table = Some f \<or> fixed_row table = None \<and> \<not> MockRandomValuesEnabled env \<and> (\<forall>schema. late_row schema table = f)"
    "\<And>cursor. cursor < GetSizeOf table \<Longrightarrow> \<exists>vs. f cursor = Inr vs \<and> list_all2 fits_type (map (fst \<circ> snd) spec) vs"
  shows "table_ok env table"
proof -
  have "row_of env schema table cursor rng = rbind (f cursor) (\<lambda>vs. Inr (vs, rng))" for schema cursor rng
    using assms(4) by (auto simp: row_of_def)
  then show ?thesis unfolding table_ok_def using assms(1-3,5) by (intro exI [of _ spec]) fastforce
qed

lemma ta_row_ok:
  assumes "cursor < length xs" "length xs = length ys" "\<forall>x \<in> set xs. length x \<le> 200" "\<forall>y \<in> set ys. length y \<le> 200"
  shows "\<exists>vs. ta_row xs ys cursor = Inr vs \<and> list_all2 fits_type [VARCHAR, VARCHAR] vs"
  using assms unfolding ta_row_def by (simp add: row_values_builds builds_string)

lemmas table_defs = GetMockTableSchemaOf_def fixed_row_def late_row_def GetSizeOf_def

text \<open>One fact per table, in the order of \<open>GetFunctionOf\<close>.\<close>

lemma ta_table_ok:
  assumes "GetMockTableSchemaOf table = mock_columns [(''github_id'', VARCHAR, 128), (''office_hour'', VARCHAR, 128)]"
    "fixed_row table = Some (ta_row xs ys)" "GetSizeOf table = length xs" "length xs = length ys"
    "\<forall>x \<in> set xs. length x \<le> 200" "\<forall>y \<in> set ys. length y \<le> 200"
  shows "table_ok env table"
  using assms(2-6) by (intro table_okI [OF assms(1)]) (auto intro: ta_row_ok)

lemma ta_tables_ok:
  "table_ok env ''__mock_table_tas_2022''"
  "table_ok env ''__mock_table_tas_2023''"
  "table_ok env ''__mock_table_tas_2023_fall''"
  "table_ok env ''__mock_table_tas_2024''"
  "table_ok env ''__mock_table_tas_2024_fall''"
  "table_ok env ''__mock_table_tas_2025_spring''"
  "table_ok env ''__mock_table_tas_2025_fall''"
proof -
  show "table_ok env ''__mock_table_tas_2022''"
    by (rule ta_table_ok [where xs = ta_list_2022 and ys = ta_oh_2022]) (simp_all add: table_defs ta_list_2022_def ta_oh_2022_def)
  show "table_ok env ''__mock_table_tas_2023''"
    by (rule ta_table_ok [where xs = ta_list_2023 and ys = ta_oh_2023]) (simp_all add: table_defs ta_list_2023_def ta_oh_2023_def)
  show "table_ok env ''__mock_table_tas_2023_fall''"
    by (rule ta_table_ok [where xs = ta_list_2023_fall and ys = ta_oh_2023_fall]) (simp_all add: table_defs ta_list_2023_fall_def ta_oh_2023_fall_def)
  show "table_ok env ''__mock_table_tas_2024''"
    by (rule ta_table_ok [where xs = ta_list_2024 and ys = ta_oh_2024]) (simp_all add: table_defs ta_list_2024_def ta_oh_2024_def)
  show "table_ok env ''__mock_table_tas_2024_fall''"
    by (rule ta_table_ok [where xs = ta_list_2024_fall and ys = ta_oh_2024_fall]) (simp_all add: table_defs ta_list_2024_fall_def ta_oh_2024_fall_def)
  show "table_ok env ''__mock_table_tas_2025_spring''"
    by (rule ta_table_ok [where xs = ta_list_2025_spring and ys = ta_oh_2025_spring]) (simp_all add: table_defs ta_list_2025_spring_def ta_oh_2025_spring_def)
  show "table_ok env ''__mock_table_tas_2025_fall''"
    by (rule ta_table_ok [where xs = ta_list_2025_fall and ys = ta_oh_2025_fall]) (simp_all add: table_defs ta_list_2025_fall_def ta_oh_2025_fall_def)
qed

lemma schedule_row_ok:
  assumes "cursor < length course_on_date"
  shows "\<exists>vs. schedule_row ls cursor = Inr vs \<and> list_all2 fits_type [VARCHAR, INTEGER] vs"
proof -
  have "\<forall>d \<in> set course_on_date. length d \<le> 200" by code_simp
  then have "builds VARCHAR (GetVarcharValue (course_on_date ! cursor))" using assms by (simp add: builds_string)
  then show ?thesis using assms by (simp add: schedule_row_def row_values_builds)
qed

lemma schedule_tables_ok:
  "table_ok env ''__mock_table_schedule_2022''" "table_ok env ''__mock_table_schedule''"
proof -
  let ?spec = "[(''day_of_week'', VARCHAR, 128), (''has_lecture'', INTEGER, 0)]"
  show "table_ok env ''__mock_table_schedule_2022''"
    by (rule table_okI [where spec = ?spec and f = "schedule_row [1, 3]"]) (simp_all add: table_defs schedule_row_ok)
  show "table_ok env ''__mock_table_schedule''"
    by (rule table_okI [where spec = ?spec and f = "schedule_row [0, 2]"]) (simp_all add: table_defs schedule_row_ok)
qed

lemma length_repeat: "length (concat (replicate n s)) = n * length s"
  by (induction n) simp_all

lemma builds_repeat: "n < 17 \<Longrightarrow> builds VARCHAR (GetVarcharValue (Repeat poop n))"
  "n < 17 \<Longrightarrow> builds VARCHAR (GetVarcharValue (Repeat innocent n))"
  using builds_string [of "Repeat poop n"] builds_string [of "Repeat innocent n"]
  by (simp_all add: Repeat_def length_repeat static_cast_id in_range_def poop_def innocent_def)

lemma builds_numbered: "n < 100 \<Longrightarrow> builds VARCHAR (GetVarcharValue (nat_to_string n @ CHR ''-'' # poop))"
  using length_nat_to_string [of n 2] by (intro builds_string) (simp add: poop_def)

lemma length_foldl_poop: "length (foldl (\<lambda>s _. s @ poop) a xs) = length a + 4 * length xs"
  by (induction xs arbitrary: a) (simp_all add: poop_def)

lemma mock_table_rows_ok:
  "\<exists>vs. mock_table_1_row cursor = Inr vs \<and> list_all2 fits_type [INTEGER, INTEGER] vs"
  "cursor < 100 \<Longrightarrow> \<exists>vs. mock_table_2_row cursor = Inr vs \<and> list_all2 fits_type [VARCHAR, VARCHAR] vs"
  "cursor < 100 \<Longrightarrow> \<exists>vs. mock_table_3_row cursor = Inr vs \<and> list_all2 fits_type [INTEGER, VARCHAR] vs"
  "\<exists>vs. mock_table_4_row cursor = Inr vs \<and> list_all2 fits_type [INTEGER, VARCHAR] vs"
proof -
  have c: "cursor mod 8 < 17" "cursor mod 3 < 3" by (auto intro: order_less_le_trans [OF mod_less_divisor])
  have "builds VARCHAR (GetVarcharValue (foldl (\<lambda>s _. s @ poop) poop [0..<cursor mod 3]))"
    using c(2) length_foldl_poop [of poop "[0..<cursor mod 3]"] by (intro builds_string) (simp add: poop_def)
  then show "\<exists>vs. mock_table_4_row cursor = Inr vs \<and> list_all2 fits_type [INTEGER, VARCHAR] vs"
    unfolding mock_table_4_row_def Let_def by (intro row_values_builds) simp
qed (auto simp: mock_table_1_row_def mock_table_2_row_def mock_table_3_row_def intro!: row_values_builds builds_numbered builds_repeat
    intro: order_less_le_trans [OF mod_less_divisor])

lemma mock_tables_ok:
  "table_ok env ''__mock_table_1''" "table_ok env ''__mock_table_2''" "table_ok env ''__mock_table_3''" "table_ok env ''__mock_table_4''"
proof -
  show "table_ok env ''__mock_table_1''"
    by (rule table_okI [where spec = "[(''colA'', INTEGER, 0), (''colB'', INTEGER, 0)]" and f = mock_table_1_row])
       (simp_all add: table_defs mock_table_rows_ok)
  show "table_ok env ''__mock_table_2''"
    by (rule table_okI [where spec = "[(''colC'', VARCHAR, 128), (''colD'', VARCHAR, 128)]" and f = mock_table_2_row])
       (simp_all add: table_defs mock_table_rows_ok)
  show "table_ok env ''__mock_table_3''"
    by (rule table_okI [where spec = "[(''colE'', INTEGER, 0), (''colF'', VARCHAR, 128)]" and f = mock_table_3_row])
       (simp_all add: table_defs mock_table_rows_ok)
  show "table_ok env ''__mock_table_4''"
    by (rule table_okI [where spec = "[(''colG'', INTEGER, 0), (''colH'', VARCHAR, 128)]" and f = mock_table_4_row])
       (simp_all add: table_defs mock_table_rows_ok)
qed

lemma agg_row_ok:
  assumes "0 < per_string" "per_string \<le> 16"
  shows "\<exists>vs. agg_input_row per_group per_string cursor = Inr vs \<and> list_all2 fits_type [INTEGER, INTEGER, INTEGER, INTEGER, INTEGER, VARCHAR] vs"
proof -
  have "cursor mod per_string + 1 < 17" using assms mod_less_divisor [of per_string cursor] by linarith
  then show ?thesis unfolding agg_input_row_def
    by (intro row_values_builds) (simp add: builds_repeat)
qed

lemma agg_tables_ok: "table_ok env ''__mock_agg_input_small''" "table_ok env ''__mock_agg_input_big''"
proof -
  let ?spec = "[(''v1'', INTEGER, 0), (''v2'', INTEGER, 0), (''v3'', INTEGER, 0), (''v4'', INTEGER, 0), (''v5'', INTEGER, 0), (''v6'', VARCHAR, 128)]"
  show "table_ok env ''__mock_agg_input_small''"
    by (rule table_okI [where spec = ?spec and f = "agg_input_row 100 8"])
       (simp_all add: table_defs agg_row_ok)
  show "table_ok env ''__mock_agg_input_big''"
    by (rule table_okI [where spec = ?spec and f = "agg_input_row 1000 16"])
       (simp_all add: table_defs agg_row_ok)
qed

text \<open>The tables of integers.\<close>

lemma int_table_ok:
  assumes "GetMockTableSchemaOf table = mock_columns spec" "list_all (\<lambda>(n, ty, len). ty = INTEGER \<and> len = 0) spec" "length spec \<le> 100"
    "fixed_row table = Some f \<or> fixed_row table = None \<and> \<not> MockRandomValuesEnabled env \<and> (\<forall>schema. late_row schema table = f)"
    "\<And>cursor. \<exists>rs. f cursor = row_values rs \<and> length rs = length spec \<and> (\<forall>r \<in> set rs. builds INTEGER r)"
  shows "table_ok env table"
proof (rule table_okI [OF assms(1,3) _ assms(4)])
  show "list_all (\<lambda>(n, ty, len). ty = INTEGER \<and> len = 0 \<or> ty = VARCHAR \<and> 0 < len) spec" using assms(2) by (auto simp: list_all_iff)
  fix cursor
  obtain rs where "f cursor = row_values rs" "length rs = length spec" "\<forall>r \<in> set rs. builds INTEGER r" using assms(5) by blast
  moreover from this have "list_all2 builds (map (fst \<circ> snd) spec) rs"
    using assms(2) by (simp add: list_all2_conv_all_nth list_all_length case_prod_unfold)
  ultimately show "\<exists>vs. f cursor = Inr vs \<and> list_all2 fits_type (map (fst \<circ> snd) spec) vs" using row_values_builds by auto
qed

lemma int_rows_ok:
  "\<exists>rs. external_merge_sort_row cursor = row_values rs \<and> length rs = Suc (Suc (Suc 0)) \<and> (\<forall>r \<in> set rs. builds INTEGER r)"
  "\<exists>rs. mock_graph_row cursor = row_values rs \<and> length rs = Suc (Suc (Suc (Suc (Suc 0)))) \<and> (\<forall>r \<in> set rs. builds INTEGER r)"
  "\<exists>rs. mock_t1_row cursor = row_values rs \<and> length rs = Suc (Suc (Suc 0)) \<and> (\<forall>r \<in> set rs. builds INTEGER r)"
  "\<exists>rs. times_ten_row cursor = row_values rs \<and> length rs = Suc (Suc 0) \<and> (\<forall>r \<in> set rs. builds INTEGER r)"
  "\<exists>rs. mock_t7_row cursor = row_values rs \<and> length rs = Suc (Suc (Suc 0)) \<and> (\<forall>r \<in> set rs. builds INTEGER r)"
  "\<exists>rs. mock_t9_row cursor = row_values rs \<and> length rs = Suc (Suc 0) \<and> (\<forall>r \<in> set rs. builds INTEGER r)"
  "\<exists>rs. mock_t11_row cursor = row_values rs \<and> length rs = Suc (Suc 0) \<and> (\<forall>r \<in> set rs. builds INTEGER r)"
  "\<exists>rs. row_values [int32_value z] = row_values rs \<and> length rs = Suc 0 \<and> (\<forall>r \<in> set rs. builds INTEGER r)"
  unfolding external_merge_sort_row_def mock_graph_row_def mock_t1_row_def times_ten_row_def mock_t7_row_def mock_t9_row_def
    mock_t11_row_def Let_def
  by (rule exI, rule conjI, rule refl, simp)+

lemma int_tables_ok:
  "table_ok env ''__mock_external_merge_sort_input''"
  "table_ok env ''__mock_table_123''"
  "table_ok env ''__mock_graph''"
  "table_ok env ''__mock_t1''"
  "table_ok env ''__mock_t8''"
proof -
  show "table_ok env ''__mock_external_merge_sort_input''"
    by (rule int_table_ok [where spec = "[(''v1'', INTEGER, 0), (''v2'', INTEGER, 0), (''v3'', INTEGER, 0)]" and f = "external_merge_sort_row"])
       (use int_rows_ok in \<open>simp_all add: table_defs\<close>)
  show "table_ok env ''__mock_table_123''"
    by (rule int_table_ok [where spec = "[(''number'', INTEGER, 0)]" and f = "\<lambda>cursor. row_values [int32_value (int cursor + 1)]"])
       (use int_rows_ok in \<open>simp_all add: table_defs\<close>)
  show "table_ok env ''__mock_graph''"
    by (rule int_table_ok [where spec = "[(''src'', INTEGER, 0), (''dst'', INTEGER, 0), (''src_label'', INTEGER, 0), (''dst_label'', INTEGER, 0), (''distance'', INTEGER, 0)]" and f = "mock_graph_row"])
       (use int_rows_ok in \<open>simp_all add: table_defs\<close>)
  show "table_ok env ''__mock_t1''"
    by (rule int_table_ok [where spec = "[(''x'', INTEGER, 0), (''y'', INTEGER, 0), (''z'', INTEGER, 0)]" and f = "mock_t1_row"])
       (use int_rows_ok in \<open>simp_all add: table_defs\<close>)
  show "table_ok env ''__mock_t8''"
    by (rule int_table_ok [where spec = "[(''v4'', INTEGER, 0)]" and f = "\<lambda>cursor. row_values [int32_value (int cursor)]"])
       (use int_rows_ok in \<open>simp_all add: table_defs\<close>)
qed

lemma late_tables_ok:
  assumes "\<not> MockRandomValuesEnabled env"
  shows "table_ok env ''__mock_t4_1m''"
    "table_ok env ''__mock_t5_1m''"
    "table_ok env ''__mock_t6_1m''"
    "table_ok env ''__mock_t7''"
    "table_ok env ''__mock_t9''"
    "table_ok env ''__mock_t10''"
    "table_ok env ''__mock_t11''"
proof -
  show "table_ok env ''__mock_t4_1m''"
    by (rule int_table_ok [where spec = "[(''x'', INTEGER, 0), (''y'', INTEGER, 0)]" and f = "\<lambda>cursor. times_ten_row (cursor mod 500000)"])
       (use assms int_rows_ok in \<open>simp_all add: table_defs fun_eq_iff\<close>)
  show "table_ok env ''__mock_t5_1m''"
    by (rule int_table_ok [where spec = "[(''x'', INTEGER, 0), (''y'', INTEGER, 0)]" and f = "\<lambda>cursor. times_ten_row ((cursor + 30000) mod 500000)"])
       (use assms int_rows_ok in \<open>simp_all add: table_defs fun_eq_iff\<close>)
  show "table_ok env ''__mock_t6_1m''"
    by (rule int_table_ok [where spec = "[(''x'', INTEGER, 0), (''y'', INTEGER, 0)]" and f = "\<lambda>cursor. times_ten_row ((cursor + 60000) mod 500000)"])
       (use assms int_rows_ok in \<open>simp_all add: table_defs fun_eq_iff\<close>)
  show "table_ok env ''__mock_t7''"
    by (rule int_table_ok [where spec = "[(''v'', INTEGER, 0), (''v1'', INTEGER, 0), (''v2'', INTEGER, 0)]" and f = "mock_t7_row"])
       (use assms int_rows_ok in \<open>simp_all add: table_defs fun_eq_iff\<close>)
  show "table_ok env ''__mock_t9''"
    by (rule int_table_ok [where spec = "[(''x'', INTEGER, 0), (''y'', INTEGER, 0)]" and f = "mock_t9_row"])
       (use assms int_rows_ok in \<open>simp_all add: table_defs fun_eq_iff\<close>)
  show "table_ok env ''__mock_t10''"
    by (rule int_table_ok [where spec = "[(''x'', INTEGER, 0), (''y'', INTEGER, 0)]" and f = "times_ten_row"])
       (use assms int_rows_ok in \<open>simp_all add: table_defs fun_eq_iff\<close>)
  show "table_ok env ''__mock_t11''"
    by (rule int_table_ok [where spec = "[(''x'', INTEGER, 0), (''y'', INTEGER, 0)]" and f = "mock_t11_row"])
       (use assms int_rows_ok in \<open>simp_all add: table_defs fun_eq_iff\<close>)
qed

text \<open>Every table that the catalog lists for tests has a schema, and every row of it within its size is
  built without reading past the lists of names and fits that schema, so that a tuple made of it holds
  the values of the row.\<close>

theorem MockScan_rows_fit:
  assumes "\<not> MockRandomValuesEnabled env" "table \<in> set mock_table_list" "cursor < GetSizeOf table"
  shows "\<exists>cs vs t. GetMockTableSchemaOf table = Inr (Schema_ctor cs) \<and> row_of env (Schema_ctor cs) table cursor rng = Inr (vs, rng) \<and>
     row_fits cs vs \<and> GetFunctionOf env (Schema_ctor cs) table cursor rng = Inr (t, rng) \<and>
     (\<forall>i<length cs. GetValue t (Schema_ctor cs) i = Inr (vs ! i))"
proof -
  have "table_ok env table"
    using assms(2) late_tables_ok [OF assms(1)] int_tables_ok agg_tables_ok mock_tables_ok schedule_tables_ok ta_tables_ok
    unfolding mock_table_list_def by auto
  then obtain spec where spec: "GetMockTableSchemaOf table = mock_columns spec" "length spec \<le> 100"
      "list_all (\<lambda>(n, ty, len). ty = INTEGER \<and> len = 0 \<or> ty = VARCHAR \<and> 0 < len) spec"
      "\<forall>schema rng. \<exists>vs. row_of env schema table cursor rng = Inr (vs, rng) \<and> list_all2 fits_type (map (fst \<circ> snd) spec) vs"
    unfolding table_ok_def using assms(3) by blast
  obtain cs where cs: "mock_columns spec = Inr (Schema_ctor cs)" "map column_type cs = map (fst \<circ> snd) spec"
      "\<forall>c \<in> set cs. Column_IsInlined c \<longrightarrow> GetTypeSize (column_type c) = Inr (col_length c)"
    using mock_columns_Inr [OF spec(3)] by blast
  obtain vs where vs: "row_of env (Schema_ctor cs) table cursor rng = Inr (vs, rng)" "list_all2 fits_type (map (fst \<circ> snd) spec) vs"
    using spec(4) by blast
  have "length cs = length spec" using cs(2) map_eq_imp_length_eq by blast
  then have fit: "row_fits cs vs" using vs(2) cs(2,3) spec(2) by (intro row_fits_types) simp_all
  obtain t where "Tuple_ctor vs (Schema_ctor cs) = Inr t" "\<And>i. i < length cs \<Longrightarrow> GetValue t (Schema_ctor cs) i = Inr (vs ! i)"
    using row_fits_tuple [OF fit] by blast
  then show ?thesis using spec(1) cs(1) vs(1) fit by (auto simp: GetFunctionOf_def)
qed

definition plain_env :: mock_env where
  "plain_env = \<lparr> getenv = (\<lambda>_. None), rng_output = (\<lambda>n. n), uniform = (\<lambda>n lo hi. lo), shuffle = rev \<rparr>"

theorem MockScan_rows_fit_witness:
  "\<exists>cs t. GetMockTableSchemaOf ''__mock_table_tas_2022'' = Inr (Schema_ctor cs) \<and>
     GetFunctionOf plain_env (Schema_ctor cs) ''__mock_table_tas_2022'' 7 0 = Inr (t, 0) \<and>
     GetValue t (Schema_ctor cs) 0 = Inr (str_value ''skyzh'')"
proof -
  have p: "\<not> MockRandomValuesEnabled plain_env" "''__mock_table_tas_2022'' \<in> set mock_table_list" "7 < GetSizeOf ''__mock_table_tas_2022''"
    by code_simp+
  obtain cs vs t where c: "GetMockTableSchemaOf ''__mock_table_tas_2022'' = Inr (Schema_ctor cs)"
      "row_of plain_env (Schema_ctor cs) ''__mock_table_tas_2022'' 7 0 = Inr (vs, 0)" "row_fits cs vs"
      "GetFunctionOf plain_env (Schema_ctor cs) ''__mock_table_tas_2022'' 7 0 = Inr (t, 0)"
      "\<forall>i<length cs. GetValue t (Schema_ctor cs) i = Inr (vs ! i)"
    using MockScan_rows_fit [OF p, of 0] by blast
  have f: "fixed_row ''__mock_table_tas_2022'' = Some (ta_row ta_list_2022 ta_oh_2022)" by (simp add: fixed_row_def)
  have r: "ta_row ta_list_2022 ta_oh_2022 7 = Inr [str_value ''skyzh'', str_value ''Randomly'']" by code_simp
  have "vs = [str_value ''skyzh'', str_value ''Randomly'']" using c(2) f r by (simp add: row_of_def)
  moreover from this have "length cs = 2" using c(3) by (auto simp: row_fits_def dest: list_all2_lengthD)
  ultimately show ?thesis using c by auto
qed

end
