(* ===== verification/Executors.thy ===== *)
theory Executors
  imports Optimizer MockScan
begin

text \<open>
  The executors that the repository implements (src/bustub/src/execution) and the engine that polls them: the
  values, mock scan, filter, projection and check executors, the factory that builds a tree of executors
  from a plan, and the polling loop (include/execution/execution_engine.h).  The contract of an
  executor (\<open>Next\<close> hands out the remaining rows in batches) is the locale \<open>executor_contract\<close>; polling, filtering
  and projecting are proved over every child that keeps it.
\<close>

section \<open>Executors\<close>

text \<open>A call that may fail, or not return within the fuel it is given.\<close>

fun run :: "'a result option \<Rightarrow> ('a \<Rightarrow> 'b result option) \<Rightarrow> 'b result option" where
  "run None k = None"
| "run (Some (Inl e)) k = Some (Inl e)"
| "run (Some (Inr x)) k = k x"

text \<open>The result of \<open>Next\<close>: the executor afterwards, the two batches and the returned flag.\<close>

type_synonym 's next_result = "('s \<times> Tuple list \<times> RID list \<times> bool) result option"

text \<open>The fields in which filter and projection keep the last batch of their child.\<close>

record ChildBatch =
  child_tuples :: "Tuple list"
  child_rids :: "RID list"
  child_offset :: nat

definition no_batch :: ChildBatch where
  "no_batch = \<lparr> child_tuples = [], child_rids = [], child_offset = 0 \<rparr>"

text \<open>The executors with their fields; the plan node is represented by its output schema and the fields that
  the executor reads.  A mock scan holds the function of its table, its size, the shuffled indexes,
  the cursor, and the state of the random generator that the function owns.\<close>

datatype executor =
    ValuesExecutor Schema "expr list list" nat
  | MockScanExecutor Schema "nat \<Rightarrow> nat \<Rightarrow> (Tuple \<times> nat) result" nat "nat list" nat nat
  | FilterExecutor Schema expr executor ChildBatch
  | ProjectionExecutor Schema "expr list" executor ChildBatch
  | InitCheckExecutor Schema executor nat nat
  | TopNCheckExecutor Schema executor nat
  | TopNExecutor Schema
  | TopNPerGroupExecutor Schema executor
  | WindowFunctionExecutor Schema executor

fun GetOutputSchema :: "executor \<Rightarrow> Schema" where
  "GetOutputSchema (ValuesExecutor s vs c) = s"
| "GetOutputSchema (MockScanExecutor s f n idx c rng) = s"
| "GetOutputSchema (FilterExecutor s e c cb) = s"
| "GetOutputSchema (ProjectionExecutor s es c cb) = s"
| "GetOutputSchema (InitCheckExecutor s c i n) = s"
| "GetOutputSchema (TopNCheckExecutor s c p) = s"
| "GetOutputSchema (TopNExecutor s) = s"
| "GetOutputSchema (TopNPerGroupExecutor s c) = s"
| "GetOutputSchema (WindowFunctionExecutor s c) = s"

text \<open>\<open>Init\<close>.  Filter and projection leave their offset into the last child batch as it is.\<close>

definition executor_not_implemented :: "string \<Rightarrow> 'a result" where
  "executor_not_implemented name = Inl (Throw ET_NOT_IMPLEMENTED (name @ '' is not implemented''))"

fun Executor_Init :: "executor \<Rightarrow> executor result" where
  "Executor_Init (ValuesExecutor s vs c) = Inr (ValuesExecutor s vs 0)"
| "Executor_Init (MockScanExecutor s f n idx c rng) = Inr (MockScanExecutor s f n idx 0 rng)"
| "Executor_Init (FilterExecutor s e c cb) = rbind (Executor_Init c) (\<lambda>c. Inr (FilterExecutor s e c cb))"
| "Executor_Init (ProjectionExecutor s es c cb) = rbind (Executor_Init c) (\<lambda>c. Inr (ProjectionExecutor s es c cb))"
| "Executor_Init (InitCheckExecutor s c n_init n_next) = rbind (Executor_Init c) (\<lambda>c. Inr (InitCheckExecutor s c (n_init + 1) n_next))"
| "Executor_Init (TopNCheckExecutor s c prev) = rbind (Executor_Init c) (\<lambda>c. Inr (TopNCheckExecutor s c 0))"
| "Executor_Init (TopNExecutor s) = executor_not_implemented ''TopNExecutor''"
| "Executor_Init (TopNPerGroupExecutor s c) = executor_not_implemented ''TopNPerGroupExecutor''"
| "Executor_Init (WindowFunctionExecutor s c) = executor_not_implemented ''WindowFunctionExecutor''"

section \<open>Next\<close>

text \<open>The loops of the two leaf executors, over the rows from the cursor on.\<close>

definition RID_default :: RID where
  "RID_default = \<lparr> page_id = INVALID_PAGE_ID, slot_num = 0 \<rparr>"

definition values_tuple :: "Schema \<Rightarrow> expr list \<Rightarrow> Tuple result" where
  "values_tuple s row_expr = rbind (rmapM (Evaluate None (Schema_ctor [])) row_expr) (\<lambda>vs. Tuple_ctor vs s)"

fun values_loop :: "Schema \<Rightarrow> nat \<Rightarrow> expr list list \<Rightarrow> nat \<Rightarrow> Tuple list \<Rightarrow> RID list \<Rightarrow> (nat \<times> Tuple list \<times> RID list) result" where
  "values_loop s batch_size [] cursor tuple_batch rid_batch = Inr (cursor, tuple_batch, rid_batch)"
| "values_loop s batch_size (row_expr # rows) cursor tuple_batch rid_batch = (if length tuple_batch < batch_size
     then rbind (values_tuple s row_expr) (\<lambda>t. values_loop s batch_size rows (cursor + 1) (tuple_batch @ [t]) (rid_batch @ [RID_default]))
     else Inr (cursor, tuple_batch, rid_batch))"

definition ValuesExecutor_Next :: "nat \<Rightarrow> Schema \<Rightarrow> expr list list \<Rightarrow> nat \<Rightarrow> (nat \<times> Tuple list \<times> RID list \<times> bool) result" where
  "ValuesExecutor_Next batch_size s vs cursor = rbind (values_loop s batch_size (drop cursor vs) cursor [] [])
     (\<lambda>(cursor, tups, rds). Inr (cursor, tups, rds, tups \<noteq> []))"

definition MakeDummyRID :: RID where
  "MakeDummyRID = RID_of_int64 0"

definition mock_index :: "nat list \<Rightarrow> nat \<Rightarrow> nat result" where
  "mock_index shuffled_idx cursor = (if shuffled_idx = [] then Inr cursor else at shuffled_idx cursor)"

fun mock_loop :: "(nat \<Rightarrow> nat \<Rightarrow> (Tuple \<times> nat) result) \<Rightarrow> nat list \<Rightarrow> nat \<Rightarrow> nat list \<Rightarrow> nat \<Rightarrow> nat \<Rightarrow> Tuple list \<Rightarrow> RID list \<Rightarrow>
    (nat \<times> nat \<times> Tuple list \<times> RID list) result" where
  "mock_loop func shuffled_idx batch_size [] cursor rng tuple_batch rid_batch = Inr (cursor, rng, tuple_batch, rid_batch)"
| "mock_loop func shuffled_idx batch_size (i # is) cursor rng tuple_batch rid_batch = (if length tuple_batch < batch_size
     then rbind (mock_index shuffled_idx i) (\<lambda>k. rbind (func k rng) (\<lambda>(t, rng).
       mock_loop func shuffled_idx batch_size is (cursor + 1) rng (tuple_batch @ [t]) (rid_batch @ [MakeDummyRID])))
     else Inr (cursor, rng, tuple_batch, rid_batch))"

definition MockScanExecutor_Next :: "nat \<Rightarrow> (nat \<Rightarrow> nat \<Rightarrow> (Tuple \<times> nat) result) \<Rightarrow> nat \<Rightarrow> nat list \<Rightarrow> nat \<Rightarrow> nat \<Rightarrow>
    (nat \<times> nat \<times> Tuple list \<times> RID list \<times> bool) result" where
  "MockScanExecutor_Next batch_size func table_size shuffled_idx cursor rng =
     rbind (mock_loop func shuffled_idx batch_size [cursor..<table_size] cursor rng [] [])
     (\<lambda>(cursor, rng, tups, rds). Inr (cursor, rng, tups, rds, tups \<noteq> []))"

text \<open>Filter and projection treat the batches of their child alike.  What a child tuple contributes is
  \<open>emit\<close>: a tuple, or nothing when the predicate does not hold.  \<open>rest_loop\<close> is the loop over
  the tuples left from the last batch, which does not look at the size of the output; \<open>batch_loop\<close> is
  the loop over a new batch, which stops with the offset to continue from once the output is full.\<close>

definition filter_emit :: "Schema \<Rightarrow> expr \<Rightarrow> Tuple \<Rightarrow> Tuple option result" where
  "filter_emit s predicate t = rbind (Evaluate (Some t) s predicate) (\<lambda>v. Inr (if \<not> IsNull v \<and> GetAs_bool v then Some t else None))"

definition projection_emit :: "Schema \<Rightarrow> Schema \<Rightarrow> expr list \<Rightarrow> Tuple \<Rightarrow> Tuple option result" where
  "projection_emit s out expressions t = rbind (rmapM (Evaluate (Some t) s) expressions) (\<lambda>vs. rbind (Tuple_ctor vs out) (\<lambda>u. Inr (Some u)))"

definition push :: "Tuple option \<Rightarrow> RID \<Rightarrow> Tuple list \<times> RID list \<Rightarrow> Tuple list \<times> RID list" where
  "push o1 r = (\<lambda>(tups, rds). case o1 of None \<Rightarrow> (tups, rds) | Some u \<Rightarrow> (tups @ [u], rds @ [r]))"

definition rest_loop :: "(Tuple \<Rightarrow> Tuple option result) \<Rightarrow> ChildBatch \<Rightarrow> Tuple list \<times> RID list \<Rightarrow> (Tuple list \<times> RID list) result" where
  "rest_loop emit cb out = rfoldM (\<lambda>out i. rbind (at (child_tuples cb) i) (\<lambda>t. rbind (at (child_rids cb) i) (\<lambda>r.
     rbind (emit t) (\<lambda>o1. Inr (push o1 r out))))) out [child_offset cb..<length (child_tuples cb)]"

fun batch_loop :: "(Tuple \<Rightarrow> Tuple option result) \<Rightarrow> nat \<Rightarrow> Tuple list \<Rightarrow> RID list \<Rightarrow> nat list \<Rightarrow> Tuple list \<times> RID list \<Rightarrow>
    ((Tuple list \<times> RID list) \<times> nat option) result" where
  "batch_loop emit batch_size tups rds [] out = Inr (out, None)"
| "batch_loop emit batch_size tups rds (i # is) out = rbind (at tups i) (\<lambda>t. rbind (at rds i) (\<lambda>r. rbind (emit t) (\<lambda>o1.
     let out = push o1 r out in
     if o1 \<noteq> None \<and> batch_size \<le> length (fst out) then Inr (out, Some (if i + 1 < length tups then i + 1 else 0))
     else batch_loop emit batch_size tups rds is out)))"

text \<open>One turn: the tuples left over, then the next batch of the child.  It ends because the child is
  exhausted, because the output is full, or because the batch is used up.\<close>

datatype turn_end = Exhausted | Full | UsedUp

definition turn :: "('s \<Rightarrow> 's next_result) \<Rightarrow> (Tuple \<Rightarrow> Tuple option result) \<Rightarrow> nat \<Rightarrow> 's \<Rightarrow> ChildBatch \<Rightarrow> Tuple list \<times> RID list \<Rightarrow>
    ('s \<times> ChildBatch \<times> (Tuple list \<times> RID list) \<times> turn_end) result option" where
  "turn child_next emit batch_size c cb out =
     run (Some (if child_offset cb \<noteq> 0 then rest_loop emit cb out else Inr out)) (\<lambda>out.
     run (child_next c) (\<lambda>(c, tups, rds, status).
       if \<not> status then Some (Inr (c, \<lparr> child_tuples = tups, child_rids = rds, child_offset = 0 \<rparr>, out, Exhausted))
       else run (Some (batch_loop emit batch_size tups rds [0..<length tups] out)) (\<lambda>(out, offset).
         Some (Inr (c, \<lparr> child_tuples = tups, child_rids = rds, child_offset = (case offset of None \<Rightarrow> 0 | Some i \<Rightarrow> i) \<rparr>, out,
           case offset of None \<Rightarrow> UsedUp | Some i \<Rightarrow> Full)))))"

text \<open>The \<open>while (true)\<close> loop of the filter takes a turn after another, with fuel; the projection takes one turn.\<close>

fun filter_loop :: "nat \<Rightarrow> ('s \<Rightarrow> 's next_result) \<Rightarrow> (Tuple \<Rightarrow> Tuple option result) \<Rightarrow> nat \<Rightarrow> 's \<Rightarrow> ChildBatch \<Rightarrow> Tuple list \<times> RID list \<Rightarrow>
    ('s \<times> ChildBatch) next_result" where
  "filter_loop 0 child_next emit batch_size c cb out = None"
| "filter_loop (Suc fuel) child_next emit batch_size c cb out =
     run (turn child_next emit batch_size c cb out) (\<lambda>(c, cb, (tups, rds), e). case e of
         Exhausted \<Rightarrow> Some (Inr ((c, cb), tups, rds, tups \<noteq> []))
       | Full \<Rightarrow> Some (Inr ((c, cb), tups, rds, True))
       | UsedUp \<Rightarrow> filter_loop fuel child_next emit batch_size c cb (tups, rds))"

definition FilterExecutor_Next :: "nat \<Rightarrow> ('s \<Rightarrow> 's next_result) \<Rightarrow> nat \<Rightarrow> Schema \<Rightarrow> expr \<Rightarrow> 's \<Rightarrow> ChildBatch \<Rightarrow> ('s \<times> ChildBatch) next_result" where
  "FilterExecutor_Next fuel child_next batch_size s predicate c cb =
     filter_loop fuel child_next (filter_emit s predicate) batch_size c cb ([], [])"

definition ProjectionExecutor_Next :: "('s \<Rightarrow> 's next_result) \<Rightarrow> nat \<Rightarrow> Schema \<Rightarrow> Schema \<Rightarrow> expr list \<Rightarrow> 's \<Rightarrow> ChildBatch \<Rightarrow>
    ('s \<times> ChildBatch) next_result" where
  "ProjectionExecutor_Next child_next batch_size s out expressions c cb =
     run (turn child_next (projection_emit s out expressions) batch_size c cb ([], [])) (\<lambda>(c, cb, (tups, rds), e).
       Some (Inr ((c, cb), tups, rds, case e of Full \<Rightarrow> True | _ \<Rightarrow> tups \<noteq> [])))"

text \<open>\<open>Next\<close> on a tree of executors; the fuel is one for each level, and bounds the turns of a filter.  The
  check of the top-n executor asks that executor for its size, which throws.\<close>

primrec Executor_Next :: "nat \<Rightarrow> nat \<Rightarrow> executor \<Rightarrow> executor next_result" where
  "Executor_Next 0 n ex = None"
| "Executor_Next (Suc fuel) n ex = (case ex of
       ValuesExecutor s vs c \<Rightarrow> run (Some (ValuesExecutor_Next n s vs c)) (\<lambda>(c, tups, rds, b). Some (Inr (ValuesExecutor s vs c, tups, rds, b)))
     | MockScanExecutor s f table_size idx c rng \<Rightarrow> run (Some (MockScanExecutor_Next n f table_size idx c rng))
         (\<lambda>(c, rng, tups, rds, b). Some (Inr (MockScanExecutor s f table_size idx c rng, tups, rds, b)))
     | FilterExecutor s e c cb \<Rightarrow> run (FilterExecutor_Next fuel (Executor_Next fuel n) n (GetOutputSchema c) e c cb)
         (\<lambda>((c, cb), tups, rds, b). Some (Inr (FilterExecutor s e c cb, tups, rds, b)))
     | ProjectionExecutor s es c cb \<Rightarrow> run (ProjectionExecutor_Next (Executor_Next fuel n) n (GetOutputSchema c) s es c cb)
         (\<lambda>((c, cb), tups, rds, b). Some (Inr (ProjectionExecutor s es c cb, tups, rds, b)))
     | InitCheckExecutor s c n_init n_next \<Rightarrow> run (Executor_Next fuel n c) (\<lambda>(c, tups, rds, b).
         Some (Inr (InitCheckExecutor s c n_init (if b then n_next + 1 else n_next), tups, rds, b)))
     | TopNCheckExecutor s c prev \<Rightarrow> Some (executor_not_implemented ''TopNExecutor'')
     | TopNExecutor s \<Rightarrow> Some (Inr (ex, [], [], False))
     | TopNPerGroupExecutor s c \<Rightarrow> Some (Inr (ex, [], [], False))
     | WindowFunctionExecutor s c \<Rightarrow> Some (Inr (ex, [], [], False)))"

section \<open>The factory and the engine\<close>

definition JoinType_name :: "JoinType \<Rightarrow> string" where
  "JoinType_name j = (case j of JT_INVALID \<Rightarrow> ''Invalid'' | LEFT \<Rightarrow> ''Left'' | RIGHT \<Rightarrow> ''Right'' | INNER \<Rightarrow> ''Inner'' | OUTER \<Rightarrow> ''Outer'')"

text \<open>The constructors of the executors that are not implemented throw; those of the joins look at the type
  of the join first.\<close>

definition unimplemented :: "'a result" where
  "unimplemented = Inl (LogicError ''TODO(P3): Add implementation.'')"

definition join_ctor :: "JoinType \<Rightarrow> 'a result" where
  "join_ctor j = (if j \<noteq> LEFT \<and> j \<noteq> INNER
     then Inl (Throw ET_NOT_IMPLEMENTED (''join type '' @ JoinType_name j @ '' not supported'')) else unimplemented)"

definition MockScanExecutor_ctor :: "mock_env \<Rightarrow> Schema \<Rightarrow> string \<Rightarrow> executor" where
  "MockScanExecutor_ctor env s table = (let n = GetSizeOf table in
     MockScanExecutor s (GetFunctionOf env s table) n (if GetShuffled table then shuffle env [0..<n] else []) 0 0)"

text \<open>Every plan with a join fails in the constructor of the join, so that no check executors are ever
  registered for an executor that runs.\<close>

fun CreateExecutor :: "mock_env \<Rightarrow> bool \<Rightarrow> plan \<Rightarrow> executor result" where
  "CreateExecutor env topn_check (Plan s node children) = (case node of
       ValuesPlanNode vs \<Rightarrow> Inr (ValuesExecutor s vs 0)
     | MockScanPlanNode table \<Rightarrow> Inr (MockScanExecutor_ctor env s table)
     | SeqScanPlanNode t n p \<Rightarrow> unimplemented
     | IndexScanPlanNode t i p ks \<Rightarrow> unimplemented
     | NestedLoopJoinPlanNode p j \<Rightarrow> (case children of [] \<Rightarrow> Inl Undefined
         | [l] \<Rightarrow> rbind (CreateExecutor env topn_check l) (\<lambda>_. Inl Undefined)
         | l # r # _ \<Rightarrow> rbind (CreateExecutor env topn_check l) (\<lambda>_. rbind (CreateExecutor env topn_check r) (\<lambda>_. join_ctor j)))
     | HashJoinPlanNode ls rds j \<Rightarrow> (case children of
           [l, r] \<Rightarrow> rbind (CreateExecutor env topn_check l) (\<lambda>_. rbind (CreateExecutor env topn_check r) (\<lambda>_. join_ctor j))
         | _ \<Rightarrow> Inl AssertFail)
     | NestedIndexJoinPlanNode k t i n tn sch j \<Rightarrow> (case children of [] \<Rightarrow> Inl Undefined
         | c # _ \<Rightarrow> rbind (CreateExecutor env topn_check c) (\<lambda>_. join_ctor j))
     | _ \<Rightarrow> (case children of [c] \<Rightarrow> rbind (CreateExecutor env topn_check c) (\<lambda>child. case node of
           FilterPlanNode e \<Rightarrow> Inr (FilterExecutor s e child no_batch)
         | ProjectionPlanNode es \<Rightarrow> Inr (ProjectionExecutor s es child no_batch)
         | TopNPlanNode os n \<Rightarrow> Inr (TopNExecutor s)
         | TopNPerGroupPlanNode os gs n \<Rightarrow> Inr (TopNPerGroupExecutor s child)
         | WindowFunctionPlanNode cols fs \<Rightarrow> Inr (WindowFunctionExecutor s child)
         | _ \<Rightarrow> unimplemented)
         | _ \<Rightarrow> Inl AssertFail))"

definition BUSTUB_BATCH_SIZE :: nat where "BUSTUB_BATCH_SIZE = 20"

text \<open>The polling loop, over any \<open>Next\<close>; a result set of \<open>None\<close> is the null pointer.\<close>

fun PollExecutor :: "nat \<Rightarrow> ('s \<Rightarrow> 's next_result) \<Rightarrow> 's \<Rightarrow> Tuple list option \<Rightarrow> ('s \<times> Tuple list option) result option" where
  "PollExecutor 0 next_fn s result_set = None"
| "PollExecutor (Suc fuel) next_fn s result_set = run (next_fn s) (\<lambda>(s, tups, rds, b).
     if b then PollExecutor fuel next_fn s (map_option (\<lambda>rows. rows @ tups) result_set) else Some (Inr (s, result_set)))"

text \<open>The check executors of the nested loop joins, by their counts.\<close>

definition PerformChecks :: "((nat \<times> nat) \<times> (nat \<times> nat)) list \<Rightarrow> unit result" where
  "PerformChecks execs = (if \<forall>((l_init, l_next), (r_init, r_next)) \<in> set execs. l_next \<le> r_init + 1 then Inr () else Inl AssertFail)"

text \<open>Only an \<open>ExecutionException\<close> is caught; it empties the result set.\<close>

definition Execute :: "nat \<Rightarrow> mock_env \<Rightarrow> bool \<Rightarrow> plan \<Rightarrow> Tuple list option \<Rightarrow> (bool \<times> Tuple list option) result option" where
  "Execute fuel env topn_check p result_set = run (Some (CreateExecutor env topn_check p)) (\<lambda>ex.
     let body = run (Some (Executor_Init ex)) (\<lambda>ex. run (PollExecutor fuel (Executor_Next fuel BUSTUB_BATCH_SIZE) ex result_set)
       (\<lambda>(ex, result_set). run (Some (PerformChecks [])) (\<lambda>_. Some (Inr result_set))))
     in case body of Some (Inl (Throw ET_EXECUTION m)) \<Rightarrow> Some (Inr (False, map_option (\<lambda>_. []) result_set))
       | _ \<Rightarrow> run body (\<lambda>result_set. Some (Inr (True, result_set))))"

section \<open>The contract of an executor\<close>

text \<open>What the rows of a child contribute, each with the RID of its child row.\<close>

fun emit_all :: "(Tuple \<Rightarrow> Tuple option result) \<Rightarrow> (Tuple \<times> RID) list \<Rightarrow> (Tuple \<times> RID) list result" where
  "emit_all emit [] = Inr []"
| "emit_all emit ((t, r) # xs) = rbind (emit t) (\<lambda>o1. rbind (emit_all emit xs) (\<lambda>ys.
     Inr (case o1 of None \<Rightarrow> ys | Some u \<Rightarrow> (u, r) # ys)))"

lemma emit_all_append: "emit_all emit (xs @ ys) = rbind (emit_all emit xs) (\<lambda>as. rbind (emit_all emit ys) (\<lambda>bs. Inr (as @ bs)))"
  by (induction emit xs rule: emit_all.induct) (auto simp: rbind_assoc split: option.splits intro!: rbind_cong)

lemma emit_all_length: "emit_all emit xs = Inr ys \<Longrightarrow> length ys \<le> length xs"
  by (induction emit xs arbitrary: ys rule: emit_all.induct) (fastforce simp: rbind_Inr_iff split: option.splits)+

definition never_drops :: "(Tuple \<Rightarrow> Tuple option result) \<Rightarrow> bool" where
  "never_drops emit \<longleftrightarrow> (\<forall>t. emit t \<noteq> Inr None)"

lemma emit_all_nonempty: "never_drops emit \<Longrightarrow> emit_all emit xs = Inr ys \<Longrightarrow> xs \<noteq> [] \<Longrightarrow> ys \<noteq> []"
  by (cases xs) (auto simp: never_drops_def rbind_Inr_iff split: option.splits)

text \<open>The rows of the last child batch that are still to be used.\<close>

definition batch_rows :: "ChildBatch \<Rightarrow> (Tuple \<times> RID) list" where
  "batch_rows cb = zip (child_tuples cb) (child_rids cb)"

definition rest :: "ChildBatch \<Rightarrow> (Tuple \<times> RID) list" where
  "rest cb = (if child_offset cb = 0 then [] else drop (child_offset cb) (batch_rows cb))"

definition batch_ok :: "nat \<Rightarrow> ChildBatch \<Rightarrow> bool" where
  "batch_ok n cb \<longleftrightarrow> length (child_rids cb) = length (child_tuples cb) \<and> length (child_tuples cb) \<le> n"

lemma rest_length: "batch_ok n cb \<Longrightarrow> 0 < n \<Longrightarrow> length (rest cb) < n"
  by (auto simp: batch_ok_def rest_def batch_rows_def)

lemma emit_all_drop:
  assumes "length rds = length tups" "k < length tups" "emit_all emit (drop k (zip tups rds)) = Inr zs"
  obtains o1 ys where "emit (tups ! k) = Inr o1" "emit_all emit (drop (Suc k) (zip tups rds)) = Inr ys"
    "zs = (case o1 of None \<Rightarrow> ys | Some u \<Rightarrow> (u, rds ! k) # ys)"
proof -
  have "drop k (zip tups rds) = (tups ! k, rds ! k) # drop (Suc k) (zip tups rds)"
    using assms(1,2) by (simp add: Cons_nth_drop_Suc [symmetric])
  then show ?thesis using assms(3) that by (auto simp: rbind_Inr_iff)
qed

lemma rest_loop_rows:
  assumes "length (child_rids cb) = length (child_tuples cb)" "emit_all emit (drop k (batch_rows cb)) = Inr zs" "k \<le> length (child_tuples cb)"
  shows "rfoldM (\<lambda>out i. rbind (at (child_tuples cb) i) (\<lambda>t. rbind (at (child_rids cb) i) (\<lambda>r.
     rbind (emit t) (\<lambda>o1. Inr (push o1 r out))))) (map fst a, map snd a) [k..<length (child_tuples cb)] =
     Inr (map fst (a @ zs), map snd (a @ zs))"
  using assms(2,3)
proof (induction "length (child_tuples cb) - k" arbitrary: k a zs)
  case 0
  then show ?case by (simp add: batch_rows_def)
next
  case (Suc m)
  then have k: "k < length (child_tuples cb)" by simp
  obtain o1 ys where e: "emit (child_tuples cb ! k) = Inr o1" "emit_all emit (drop (Suc k) (batch_rows cb)) = Inr ys"
      "zs = (case o1 of None \<Rightarrow> ys | Some u \<Rightarrow> (u, child_rids cb ! k) # ys)"
    using emit_all_drop [OF assms(1) k] Suc.prems(1) by (metis batch_rows_def)
  have ih: "m = length (child_tuples cb) - Suc k" "Suc k \<le> length (child_tuples cb)" using Suc.hyps(2) k by auto
  have up: "[k..<length (child_tuples cb)] = k # [Suc k..<length (child_tuples cb)]" using k by (simp add: upt_conv_Cons)
  show ?case
  proof (cases o1)
    case None
    then show ?thesis using Suc.hyps(1) [OF ih(1) e(2) ih(2)] e k assms(1) by (simp add: up push_def)
  next
    case (Some u)
    then show ?thesis using Suc.hyps(1) [OF ih(1) e(2) ih(2), of "a @ [(u, child_rids cb ! k)]"] e k assms(1)
      by (simp add: up push_def)
  qed
qed

lemma batch_loop_rows:
  assumes "length rds = length tups" "emit_all emit (drop k (zip tups rds)) = Inr zs" "k \<le> length tups" "length a < n"
  shows "(batch_loop emit n tups rds [k..<length tups] (map fst a, map snd a) = Inr ((map fst (a @ zs), map snd (a @ zs)), None) \<and>
       length (a @ zs) < n) \<or>
     (\<exists>b ys off. batch_loop emit n tups rds [k..<length tups] (map fst a, map snd a) = Inr ((map fst b, map snd b), Some off) \<and>
       b @ ys = a @ zs \<and> length b = n \<and>
       emit_all emit (rest \<lparr> child_tuples = tups, child_rids = rds, child_offset = off \<rparr>) = Inr ys)"
  using assms(2-4)
proof (induction "length tups - k" arbitrary: k a zs)
  case 0
  then show ?case by simp
next
  case (Suc m)
  then have k: "k < length tups" by simp
  obtain o1 ys where e: "emit (tups ! k) = Inr o1" "emit_all emit (drop (Suc k) (zip tups rds)) = Inr ys"
      "zs = (case o1 of None \<Rightarrow> ys | Some u \<Rightarrow> (u, rds ! k) # ys)"
    using emit_all_drop [OF assms(1) k Suc.prems(1)] .
  have ih: "m = length tups - Suc k" "Suc k \<le> length tups" using Suc.hyps(2) k by auto
  have up: "[k..<length tups] = k # [Suc k..<length tups]" using k by (simp add: upt_conv_Cons)
  show ?case
  proof (cases o1)
    case None
    then show ?thesis using Suc.hyps(1) [OF ih(1) e(2) ih(2) Suc.prems(3)] e k assms(1) by (simp add: up push_def)
  next
    case (Some u)
    let ?a = "a @ [(u, rds ! k)]"
    show ?thesis
    proof (cases "length ?a < n")
      case True
      then show ?thesis using Some Suc.hyps(1) [OF ih(1) e(2) ih(2), of ?a] e k assms(1) by (simp add: up push_def)
    next
      case False
      let ?off = "if k + 1 < length tups then k + 1 else 0"
      have "emit_all emit (rest \<lparr> child_tuples = tups, child_rids = rds, child_offset = ?off \<rparr>) = Inr ys"
        using e(2) k assms(1) by (auto simp: rest_def batch_rows_def)
      then have "batch_loop emit n tups rds [k..<length tups] (map fst a, map snd a) = Inr ((map fst ?a, map snd ?a), Some ?off) \<and>
          ?a @ ys = a @ zs \<and> length ?a = n \<and> emit_all emit (rest \<lparr> child_tuples = tups, child_rids = rds, child_offset = ?off \<rparr>) = Inr ys"
        using Some e k False assms(1) Suc.prems(3) by (simp add: up push_def)
      then show ?thesis by blast
    qed
  qed
qed

text \<open>An executor hands out its remaining rows from the front: a call returns a prefix of at most
  \<open>batch_size\<close> rows, returns false only when no row is left, keeps its output schema, and stays ready
  for the next call.\<close>

locale executor_contract =
  fixes Next :: "'s \<Rightarrow> 's next_result"
    and rows :: "'s \<Rightarrow> (Tuple \<times> RID) list result"
    and schema :: "'s \<Rightarrow> Schema"
    and ready :: "'s \<Rightarrow> bool"
    and batch_size :: nat
  assumes batch_size: "0 < batch_size"
    and next_batch: "\<lbrakk>ready s; rows s = Inr xs\<rbrakk> \<Longrightarrow> \<exists>s' b ys. Next s = Some (Inr (s', map fst b, map snd b, b \<noteq> [])) \<and>
      xs = b @ ys \<and> rows s' = Inr ys \<and> ready s' \<and> schema s' = schema s \<and> length b \<le> batch_size \<and> (b = [] \<longrightarrow> xs = [])"
begin

lemma poll:
  assumes "ready s" "rows s = Inr xs" "length xs < fuel"
  shows "\<exists>s'. PollExecutor fuel Next s result_set = Some (Inr (s', map_option (\<lambda>r. r @ map fst xs) result_set)) \<and>
     rows s' = Inr [] \<and> ready s' \<and> schema s' = schema s"
  using assms
proof (induction fuel arbitrary: s xs result_set)
  case (Suc fuel)
  obtain s' b ys where n: "Next s = Some (Inr (s', map fst b, map snd b, b \<noteq> []))" "xs = b @ ys" "rows s' = Inr ys" "ready s'"
      "schema s' = schema s" "b = [] \<longrightarrow> xs = []"
    using next_batch [OF Suc.prems(1,2)] by blast
  show ?case
  proof (cases "b = []")
    case True
    then show ?thesis using n by (simp add: option.map_ident)
  next
    case False
    then have "length ys < fuel" using n(2) Suc.prems(3) by (cases b) simp_all
    from Suc.IH [OF n(4,3) this, of "map_option (\<lambda>r. r @ map fst b) result_set"] show ?thesis
      using n False by (auto simp: option.map_comp comp_def)
  qed
qed simp

lemma turn_rows:
  assumes "ready s" "rows s = Inr xs" "batch_ok batch_size cb" "length a + length (rest cb) < batch_size"
    "emit_all emit (rest cb @ xs) = Inr zs"
  shows "\<exists>s' cb' b e xs' ys. turn Next emit batch_size s cb (map fst a, map snd a) = Some (Inr (s', cb', (map fst b, map snd b), e)) \<and>
     ready s' \<and> schema s' = schema s \<and> rows s' = Inr xs' \<and> batch_ok batch_size cb' \<and> emit_all emit (rest cb' @ xs') = Inr ys \<and>
     b @ ys = a @ zs \<and> length b \<le> batch_size \<and> length xs' \<le> length xs \<and>
     (case e of Exhausted \<Rightarrow> ys = [] | Full \<Rightarrow> b \<noteq> []
      | UsedUp \<Rightarrow> rest cb' = [] \<and> length b < batch_size \<and> length xs' < length xs \<and> (never_drops emit \<longrightarrow> b \<noteq> []))"
proof -
  obtain z1 z2 where z: "emit_all emit (rest cb) = Inr z1" "emit_all emit xs = Inr z2" "zs = z1 @ z2"
    using assms(5) by (auto simp: emit_all_append rbind_Inr_iff)
  let ?a = "a @ z1"
  have r: "(if child_offset cb \<noteq> 0 then rest_loop emit cb (map fst a, map snd a) else Inr (map fst a, map snd a)) = Inr (map fst ?a, map snd ?a)"
  proof (cases "child_offset cb = 0 \<or> length (child_tuples cb) < child_offset cb")
    case True
    then have "z1 = []" using z(1) assms(3) by (auto simp: rest_def batch_ok_def batch_rows_def)
    then show ?thesis using True by (auto simp: rest_loop_def)
  next
    case False
    then show ?thesis using rest_loop_rows [of cb emit "child_offset cb" z1 a] assms(3) z(1)
      by (simp add: rest_loop_def rest_def batch_ok_def)
  qed
  have la: "length ?a < batch_size" using emit_all_length [OF z(1)] assms(4) by simp
  obtain s' b ys where n: "Next s = Some (Inr (s', map fst b, map snd b, b \<noteq> []))" "xs = b @ ys" "rows s' = Inr ys" "ready s'"
      "schema s' = schema s" "length b \<le> batch_size" "b = [] \<longrightarrow> xs = []"
    using next_batch [OF assms(1,2)] by blast
  obtain e1 e2 where e: "emit_all emit b = Inr e1" "emit_all emit ys = Inr e2" "z2 = e1 @ e2"
    using z(2) n(2) by (auto simp: emit_all_append rbind_Inr_iff)
  let ?cb = "\<lambda>off. \<lparr> child_tuples = map fst b, child_rids = map snd b, child_offset = off \<rparr>"
  have cb: "batch_ok batch_size (?cb off)" "rest (?cb 0) = []" for off using n(6) by (simp_all add: batch_ok_def rest_def)
  show ?thesis
  proof (cases "b = []")
    case True
    then have "turn Next emit batch_size s cb (map fst a, map snd a) = Some (Inr (s', ?cb 0, (map fst ?a, map snd ?a), Exhausted))"
      using r n(1) by (simp add: turn_def)
    moreover have "z2 = []" "ys = []" using True n(2,7) z(2) by auto
    ultimately show ?thesis using n cb la True z(3) by fastforce
  next
    case False
    have zip: "emit_all emit (drop 0 (zip (map fst b) (map snd b))) = Inr e1" using e(1) by (simp add: zip_map_fst_snd)
    consider "batch_loop emit batch_size (map fst b) (map snd b) [0..<length b] (map fst ?a, map snd ?a) =
          Inr ((map fst (?a @ e1), map snd (?a @ e1)), None)" "length (?a @ e1) < batch_size"
      | c ws off where "batch_loop emit batch_size (map fst b) (map snd b) [0..<length b] (map fst ?a, map snd ?a) =
          Inr ((map fst c, map snd c), Some off)" "c @ ws = ?a @ e1" "length c = batch_size" "emit_all emit (rest (?cb off)) = Inr ws"
      using batch_loop_rows [OF _ zip _ la] by auto
    then show ?thesis
    proof cases
      case 1
      then have "turn Next emit batch_size s cb (map fst a, map snd a) =
          Some (Inr (s', ?cb 0, (map fst (?a @ e1), map snd (?a @ e1)), UsedUp))"
        using r n(1) False by (simp add: turn_def)
      moreover have "never_drops emit \<Longrightarrow> ?a @ e1 \<noteq> []" using emit_all_nonempty [OF _ e(1) False] by simp
      ultimately show ?thesis using n cb e z(3) 1(2) False
        by (intro exI [of _ s'] exI [of _ "?cb 0"] exI [of _ "?a @ e1"] exI [of _ UsedUp] exI [of _ ys] exI [of _ e2]) (auto simp del: map_append)
    next
      case 2
      then have "turn Next emit batch_size s cb (map fst a, map snd a) = Some (Inr (s', ?cb off, (map fst c, map snd c), Full))"
        using r n(1) False by (simp add: turn_def)
      moreover have "emit_all emit (rest (?cb off) @ ys) = Inr (ws @ e2)" "c @ ws @ e2 = a @ zs" "c \<noteq> []"
        using 2 e z(3) batch_size by (auto simp: emit_all_append)
      ultimately show ?thesis using n cb 2(3)
        by (intro exI [of _ s'] exI [of _ "?cb off"] exI [of _ c] exI [of _ Full] exI [of _ ys] exI [of _ "ws @ e2"]) auto
    qed
  qed
qed

lemma filter_loop_rows:
  assumes "ready s" "rows s = Inr xs" "batch_ok batch_size cb" "length a + length (rest cb) < batch_size"
    "emit_all emit (rest cb @ xs) = Inr zs" "length xs < fuel"
  shows "\<exists>s' cb' b xs' ys. filter_loop fuel Next emit batch_size s cb (map fst a, map snd a) =
       Some (Inr ((s', cb'), map fst b, map snd b, b \<noteq> [])) \<and>
     ready s' \<and> schema s' = schema s \<and> rows s' = Inr xs' \<and> batch_ok batch_size cb' \<and> emit_all emit (rest cb' @ xs') = Inr ys \<and>
     b @ ys = a @ zs \<and> length b \<le> batch_size \<and> length xs' \<le> length xs \<and> (b = [] \<longrightarrow> ys = [])"
  using assms
proof (induction fuel arbitrary: s xs cb a zs)
  case (Suc fuel)
  obtain s1 cb1 b e xs1 ys where t: "turn Next emit batch_size s cb (map fst a, map snd a) = Some (Inr (s1, cb1, (map fst b, map snd b), e))"
      "ready s1" "schema s1 = schema s" "rows s1 = Inr xs1" "batch_ok batch_size cb1" "emit_all emit (rest cb1 @ xs1) = Inr ys"
      "b @ ys = a @ zs" "length b \<le> batch_size" "length xs1 \<le> length xs"
      "case e of Exhausted \<Rightarrow> ys = [] | Full \<Rightarrow> b \<noteq> []
        | UsedUp \<Rightarrow> rest cb1 = [] \<and> length b < batch_size \<and> length xs1 < length xs \<and> (never_drops emit \<longrightarrow> b \<noteq> [])"
    using turn_rows [OF Suc.prems(1-5)] by blast
  show ?case
  proof (cases e)
    case UsedUp
    then have "length b + length (rest cb1) < batch_size" "length xs1 < fuel" using t(10) Suc.prems(6) by auto
    from Suc.IH [OF t(2,4,5) this(1) t(6) this(2)] show ?thesis using UsedUp t by fastforce
  qed (use t in fastforce)+
qed simp

lemma projection_rows:
  assumes "ready s" "rows s = Inr xs" "batch_ok batch_size cb" "emit_all emit (rest cb @ xs) = Inr zs" "never_drops emit"
  shows "\<exists>s' cb' b e xs' ys. turn Next emit batch_size s cb ([], []) = Some (Inr (s', cb', (map fst b, map snd b), e)) \<and>
     ((case e of Full \<Rightarrow> True | _ \<Rightarrow> map fst b \<noteq> []) \<longleftrightarrow> b \<noteq> []) \<and>
     ready s' \<and> schema s' = schema s \<and> rows s' = Inr xs' \<and> batch_ok batch_size cb' \<and> emit_all emit (rest cb' @ xs') = Inr ys \<and>
     b @ ys = zs \<and> length b \<le> batch_size \<and> length xs' \<le> length xs \<and> (b = [] \<longrightarrow> ys = [])"
proof -
  have "length [] + length (rest cb) < batch_size" using rest_length [OF assms(3) batch_size] by simp
  from turn_rows [OF assms(1-3) this assms(4)] obtain s' cb' b e xs' ys where
      "turn Next emit batch_size s cb ([], []) = Some (Inr (s', cb', (map fst b, map snd b), e))" "ready s'" "schema s' = schema s"
      "rows s' = Inr xs'" "batch_ok batch_size cb'" "emit_all emit (rest cb' @ xs') = Inr ys" "b @ ys = zs" "length b \<le> batch_size"
      "length xs' \<le> length xs" "case e of Exhausted \<Rightarrow> ys = [] | Full \<Rightarrow> b \<noteq> []
        | UsedUp \<Rightarrow> rest cb' = [] \<and> length b < batch_size \<and> length xs' < length xs \<and> (never_drops emit \<longrightarrow> b \<noteq> [])"
    by fastforce
  moreover from this(10) have "((case e of Full \<Rightarrow> True | _ \<Rightarrow> map fst b \<noteq> []) \<longleftrightarrow> b \<noteq> [])" "b = [] \<longrightarrow> ys = []"
    using assms(5) by (auto split: turn_end.splits)
  ultimately show ?thesis by blast
qed

end

section \<open>Trees of executors\<close>

text \<open>The rows that an executor has still to produce, from the state of its tree.\<close>

fun mock_rows :: "(nat \<Rightarrow> nat \<Rightarrow> (Tuple \<times> nat) result) \<Rightarrow> nat list \<Rightarrow> nat list \<Rightarrow> nat \<Rightarrow> (Tuple \<times> RID) list result" where
  "mock_rows func shuffled_idx [] rng = Inr []"
| "mock_rows func shuffled_idx (i # is) rng = rbind (mock_index shuffled_idx i) (\<lambda>k. rbind (func k rng) (\<lambda>(t, rng).
     rbind (mock_rows func shuffled_idx is rng) (\<lambda>xs. Inr ((t, MakeDummyRID) # xs))))"

primrec remaining :: "executor \<Rightarrow> (Tuple \<times> RID) list result" where
  "remaining (ValuesExecutor s vs c) = rmapM (\<lambda>row. rbind (values_tuple s row) (\<lambda>t. Inr (t, RID_default))) (drop c vs)"
| "remaining (MockScanExecutor s f n idx c rng) = mock_rows f idx [c..<n] rng"
| "remaining (FilterExecutor s e c cb) = rbind (remaining c) (\<lambda>xs. emit_all (filter_emit (GetOutputSchema c) e) (rest cb @ xs))"
| "remaining (ProjectionExecutor s es c cb) = rbind (remaining c) (\<lambda>xs. emit_all (projection_emit (GetOutputSchema c) s es) (rest cb @ xs))"
| "remaining (InitCheckExecutor s c i n) = remaining c"
| "remaining (TopNCheckExecutor s c p) = executor_not_implemented ''TopNExecutor''"
| "remaining (TopNExecutor s) = Inr []"
| "remaining (TopNPerGroupExecutor s c) = Inr []"
| "remaining (WindowFunctionExecutor s c) = Inr []"

text \<open>The fuel that a call needs: one for each level, and for a filter as many turns as its child has
  rows left.\<close>

definition row_count :: "executor \<Rightarrow> nat" where
  "row_count ex = (case remaining ex of Inl e \<Rightarrow> 0 | Inr xs \<Rightarrow> length xs)"

primrec cost :: "executor \<Rightarrow> nat" where
  "cost (ValuesExecutor s vs c) = 1"
| "cost (MockScanExecutor s f n idx c rng) = 1"
| "cost (FilterExecutor s e c cb) = Suc (max (cost c) (Suc (row_count c)))"
| "cost (ProjectionExecutor s es c cb) = Suc (cost c)"
| "cost (InitCheckExecutor s c i n) = Suc (cost c)"
| "cost (TopNCheckExecutor s c p) = 1"
| "cost (TopNExecutor s) = 1"
| "cost (TopNPerGroupExecutor s c) = 1"
| "cost (WindowFunctionExecutor s c) = 1"

primrec batches_ok :: "nat \<Rightarrow> executor \<Rightarrow> bool" where
  "batches_ok n (ValuesExecutor s vs c) = True"
| "batches_ok n (MockScanExecutor s f k idx c rng) = (c \<le> k)"
| "batches_ok n (FilterExecutor s e c cb) = (batches_ok n c \<and> batch_ok n cb)"
| "batches_ok n (ProjectionExecutor s es c cb) = (batches_ok n c \<and> batch_ok n cb)"
| "batches_ok n (InitCheckExecutor s c i m) = batches_ok n c"
| "batches_ok n (TopNCheckExecutor s c p) = True"
| "batches_ok n (TopNExecutor s) = True"
| "batches_ok n (TopNPerGroupExecutor s c) = True"
| "batches_ok n (WindowFunctionExecutor s c) = True"

definition executor_ready :: "nat \<Rightarrow> nat \<Rightarrow> executor \<Rightarrow> bool" where
  "executor_ready fuel n ex \<longleftrightarrow> batches_ok n ex \<and> cost ex \<le> fuel"

lemma values_loop_rows:
  assumes "rmapM (\<lambda>row. rbind (values_tuple s row) (\<lambda>t. Inr (t, RID_default))) vs = Inr xs" "length a \<le> n"
  shows "\<exists>k. values_loop s n vs c (map fst a) (map snd a) = Inr (c + k, map fst (a @ take k xs), map snd (a @ take k xs)) \<and>
     k = min (n - length a) (length vs)"
  using assms
proof (induction vs arbitrary: xs a c)
  case (Cons v vs)
  obtain t ys where t: "values_tuple s v = Inr t" "rmapM (\<lambda>row. rbind (values_tuple s row) (\<lambda>t. Inr (t, RID_default))) vs = Inr ys"
      "xs = (t, RID_default) # ys"
    using Cons.prems(1) by (auto simp: rbind_Inr_iff)
  show ?case
  proof (cases "length a < n")
    case True
    then obtain k where "values_loop s n vs (c + 1) (map fst (a @ [(t, RID_default)])) (map snd (a @ [(t, RID_default)])) =
        Inr (c + 1 + k, map fst ((a @ [(t, RID_default)]) @ take k ys), map snd ((a @ [(t, RID_default)]) @ take k ys))"
        "k = min (n - Suc (length a)) (length vs)"
      using Cons.IH [OF t(2), of "a @ [(t, RID_default)]" "c + 1"] by auto
    then show ?thesis using True t by (auto intro!: exI [of _ "Suc k"])
  qed (use Cons.prems in auto)
qed simp

lemma mock_loop_rows:
  assumes "mock_rows f idx is rng = Inr xs" "length a \<le> n"
  shows "\<exists>k rng'. mock_loop f idx n is c rng (map fst a) (map snd a) = Inr (c + k, rng', map fst (a @ take k xs), map snd (a @ take k xs)) \<and>
     k = min (n - length a) (length is) \<and> mock_rows f idx (drop k is) rng' = Inr (drop k xs)"
  using assms
proof (induction "is" arbitrary: xs a c rng)
  case (Cons i "is")
  obtain j t rng1 ys where t: "mock_index idx i = Inr j" "f j rng = Inr (t, rng1)" "mock_rows f idx is rng1 = Inr ys"
      "xs = (t, MakeDummyRID) # ys"
    using Cons.prems(1) by (auto simp: rbind_Inr_iff)
  show ?case
  proof (cases "length a < n")
    case True
    then obtain k rng' where "mock_loop f idx n is (c + 1) rng1 (map fst (a @ [(t, MakeDummyRID)])) (map snd (a @ [(t, MakeDummyRID)])) =
        Inr (c + 1 + k, rng', map fst ((a @ [(t, MakeDummyRID)]) @ take k ys), map snd ((a @ [(t, MakeDummyRID)]) @ take k ys))"
        "k = min (n - Suc (length a)) (length is)" "mock_rows f idx (drop k is) rng' = Inr (drop k ys)"
      using Cons.IH [OF t(3), of "a @ [(t, MakeDummyRID)]" "c + 1"] by auto
    then show ?thesis using True t by (auto intro!: exI [of _ "Suc k"])
  next
    case False
    then show ?thesis using Cons.prems t by (auto intro!: exI [of _ rng])
  qed
qed simp

lemma rmapM_drop: "rmapM f xs = Inr ys \<Longrightarrow> rmapM f (drop k xs) = Inr (drop k ys)"
  by (auto simp: rmapM_Inr_iff)

lemma mock_rows_length: "mock_rows f idx is rng = Inr xs \<Longrightarrow> length xs = length is"
  by (induction "is" arbitrary: rng xs) (auto simp: rbind_Inr_iff)

lemma cost_pos: "0 < cost ex"
  by (induction ex) simp_all

lemma row_count_eq [simp]: "remaining ex = Inr xs \<Longrightarrow> row_count ex = length xs"
  by (simp add: row_count_def)

lemma projection_never_drops: "never_drops (projection_emit s out es)"
  by (auto simp: never_drops_def projection_emit_def rbind_Inr_iff)

text \<open>What one call of \<open>Next\<close> promises.\<close>

definition keeps_contract :: "nat \<Rightarrow> nat \<Rightarrow> executor \<Rightarrow> (Tuple \<times> RID) list \<Rightarrow> bool" where
  "keeps_contract fuel n ex xs \<longleftrightarrow> (\<exists>ex' b ys. Executor_Next fuel n ex = Some (Inr (ex', map fst b, map snd b, b \<noteq> [])) \<and>
     xs = b @ ys \<and> remaining ex' = Inr ys \<and> executor_ready fuel n ex' \<and> GetOutputSchema ex' = GetOutputSchema ex \<and>
     length b \<le> n \<and> (b = [] \<longrightarrow> xs = []))"

lemma values_contract:
  assumes "remaining (ValuesExecutor s vs c) = Inr xs" "0 < n"
  shows "keeps_contract (Suc fuel) n (ValuesExecutor s vs c) xs"
proof -
  have r: "rmapM (\<lambda>row. rbind (values_tuple s row) (\<lambda>t. Inr (t, RID_default))) (drop c vs) = Inr xs" using assms(1) by simp
  obtain k where k: "values_loop s n (drop c vs) c [] [] = Inr (c + k, map fst (take k xs), map snd (take k xs))" "k = min n (length (drop c vs))"
    using values_loop_rows [OF r, of "[]" n c] by auto
  have "rmapM (\<lambda>row. rbind (values_tuple s row) (\<lambda>t. Inr (t, RID_default))) (drop k (drop c vs)) = Inr (drop k xs)"
    by (rule rmapM_drop [OF r])
  then have "remaining (ValuesExecutor s vs (c + k)) = Inr (drop k xs)" by (simp add: add.commute)
  moreover have "length xs = length (drop c vs)" using r by (simp add: rmapM_Inr_iff)
  ultimately show ?thesis using k assms(2)
    by (auto simp: keeps_contract_def ValuesExecutor_Next_def executor_ready_def intro!: exI [of _ "take k xs"])
qed

lemma mock_contract:
  assumes "remaining (MockScanExecutor s f size1 idx c rng) = Inr xs" "c \<le> size1" "0 < n"
  shows "keeps_contract (Suc fuel) n (MockScanExecutor s f size1 idx c rng) xs"
proof -
  obtain k rng' where k: "mock_loop f idx n [c..<size1] c rng [] [] = Inr (c + k, rng', map fst (take k xs), map snd (take k xs))"
      "k = min n (size1 - c)" "mock_rows f idx (drop k [c..<size1]) rng' = Inr (drop k xs)"
    using mock_loop_rows [of f idx "[c..<size1]" rng xs "[]" n c] assms(1) by auto
  have "remaining (MockScanExecutor s f size1 idx (c + k) rng') = Inr (drop k xs)" using k(3) by (simp add: drop_upt)
  moreover have "length xs = size1 - c" using mock_rows_length assms(1) by fastforce
  ultimately show ?thesis using k(1,2) assms(2,3)
    by (auto simp: keeps_contract_def MockScanExecutor_Next_def executor_ready_def intro!: exI [of _ "take k xs"])
qed

lemma filter_contract:
  assumes child: "executor_contract (Executor_Next fuel n) remaining GetOutputSchema (executor_ready fuel n) n"
    and ex: "remaining (FilterExecutor s e c cb) = Inr zs" "executor_ready (Suc fuel) n (FilterExecutor s e c cb)"
  shows "keeps_contract (Suc fuel) n (FilterExecutor s e c cb) zs"
proof -
  let ?emit = "filter_emit (GetOutputSchema c) e"
  obtain xs where xs: "remaining c = Inr xs" "emit_all ?emit (rest cb @ xs) = Inr zs" using ex(1) by (auto simp: rbind_Inr_iff)
  have r: "executor_ready fuel n c" "batch_ok n cb" "length xs < fuel" using ex(2) xs(1) by (auto simp: executor_ready_def)
  have "length [] + length (rest cb) < n" using rest_length [OF r(2) executor_contract.batch_size [OF child]] by simp
  from executor_contract.filter_loop_rows [OF child r(1) xs(1) r(2) this xs(2) r(3)]
  obtain c' cb' b xs' ys where f: "filter_loop fuel (Executor_Next fuel n) ?emit n c cb ([], []) = Some (Inr ((c', cb'), map fst b, map snd b, b \<noteq> []))"
      "executor_ready fuel n c'" "GetOutputSchema c' = GetOutputSchema c" "remaining c' = Inr xs'" "batch_ok n cb'"
      "emit_all ?emit (rest cb' @ xs') = Inr ys" "b @ ys = zs" "length b \<le> n" "length xs' \<le> length xs" "b = [] \<longrightarrow> ys = []"
    by auto
  then have "remaining (FilterExecutor s e c' cb') = Inr ys" "executor_ready (Suc fuel) n (FilterExecutor s e c' cb')"
    using r(3) by (auto simp: executor_ready_def)
  then show ?thesis using f unfolding keeps_contract_def
    by (intro exI [of _ "FilterExecutor s e c' cb'"] exI [of _ b] exI [of _ ys]) (auto simp: FilterExecutor_Next_def)
qed

lemma projection_contract:
  assumes child: "executor_contract (Executor_Next fuel n) remaining GetOutputSchema (executor_ready fuel n) n"
    and ex: "remaining (ProjectionExecutor s es c cb) = Inr zs" "executor_ready (Suc fuel) n (ProjectionExecutor s es c cb)"
  shows "keeps_contract (Suc fuel) n (ProjectionExecutor s es c cb) zs"
proof -
  let ?emit = "projection_emit (GetOutputSchema c) s es"
  obtain xs where xs: "remaining c = Inr xs" "emit_all ?emit (rest cb @ xs) = Inr zs" using ex(1) by (auto simp: rbind_Inr_iff)
  have r: "executor_ready fuel n c" "batch_ok n cb" using ex(2) by (auto simp: executor_ready_def)
  from executor_contract.projection_rows [OF child r(1) xs(1) r(2) xs(2) projection_never_drops]
  obtain c' cb' b e xs' ys where f: "turn (Executor_Next fuel n) ?emit n c cb ([], []) = Some (Inr (c', cb', (map fst b, map snd b), e))"
      "(case e of Full \<Rightarrow> True | _ \<Rightarrow> map fst b \<noteq> []) \<longleftrightarrow> b \<noteq> []"
      "executor_ready fuel n c'" "GetOutputSchema c' = GetOutputSchema c" "remaining c' = Inr xs'" "batch_ok n cb'"
      "emit_all ?emit (rest cb' @ xs') = Inr ys" "b @ ys = zs" "length b \<le> n" "b = [] \<longrightarrow> ys = []"
    by blast
  then have "remaining (ProjectionExecutor s es c' cb') = Inr ys" "executor_ready (Suc fuel) n (ProjectionExecutor s es c' cb')"
    by (auto simp: executor_ready_def)
  then show ?thesis using f unfolding keeps_contract_def
    by (intro exI [of _ "ProjectionExecutor s es c' cb'"] exI [of _ b] exI [of _ ys]) (auto simp: ProjectionExecutor_Next_def)
qed

lemma Executor_Next_contract:
  assumes "0 < n" "executor_ready fuel n ex" "remaining ex = Inr xs"
  shows "keeps_contract fuel n ex xs"
  using assms(2,3)
proof (induction fuel arbitrary: ex xs)
  case 0
  then show ?case using cost_pos [of ex] by (simp add: executor_ready_def)
next
  case (Suc fuel)
  have child: "executor_contract (Executor_Next fuel n) remaining GetOutputSchema (executor_ready fuel n) n"
    using Suc.IH assms(1) by unfold_locales (auto simp: keeps_contract_def)
  show ?case
  proof (cases ex)
    case (InitCheckExecutor s c i k)
    then have c: "executor_ready fuel n c" "remaining c = Inr xs" using Suc.prems by (auto simp: executor_ready_def)
    then show ?thesis using Suc.IH [OF c] InitCheckExecutor
      by (fastforce simp: keeps_contract_def executor_ready_def)
  qed (use Suc.prems assms(1) values_contract mock_contract filter_contract [OF child] projection_contract [OF child] in
      \<open>auto simp: executor_ready_def executor_not_implemented_def\<close>, auto simp: keeps_contract_def executor_ready_def)
qed

interpretation executors: executor_contract "Executor_Next fuel (Suc m)" remaining GetOutputSchema "executor_ready fuel (Suc m)" "Suc m" for fuel m
  using Executor_Next_contract by unfold_locales (auto simp: keeps_contract_def)

section \<open>The engine computes the rows of the plan\<close>

text \<open>A tuple holds a row under a schema when it was built from the values of the row and they fit.\<close>

definition holds_row :: "Schema \<Rightarrow> row \<Rightarrow> Tuple \<Rightarrow> bool" where
  "holds_row s row t \<longleftrightarrow> (\<exists>cs. s = Schema_ctor cs \<and> row_fits cs row) \<and> Tuple_ctor row s = Inr t"

lemma holds_row_values:
  assumes "holds_row s row t"
  shows "GetValue t s i = at row i"
proof -
  obtain cs where cs: "s = Schema_ctor cs" "row_fits cs row" "Tuple_ctor row s = Inr t" using assms by (auto simp: holds_row_def)
  have len: "length row = length cs" using cs(2) by (auto simp: row_fits_def dest: list_all2_lengthD)
  have "col_start cs (length cs) < 2 ^ 32" using cs(2) by (auto simp: row_fits_def var_start_def)
  then have "length (columns s) = length cs" using cs(1) by (simp add: Schema_ctor_spec)
  moreover have "GetValue t s i = Inr (row ! i)" if "i < length cs" using row_fits_tuple [OF cs(2)] cs(1,3) that by (metis Inr_inject)
  ultimately show ?thesis using len by (cases "i < length cs") (simp_all add: GetValue_def GetColumn_def at_def)
qed

lemma Evaluate_row: "holds_row s row t \<Longrightarrow> Evaluate (Some t) s e = eval_row row e"
  unfolding Evaluate_eval_with eval_row_def by (rule eval_with_cong(1)) (simp add: lookup_def holds_row_values)

lemma Evaluate_no_row: "Evaluate None s e = eval_row [] e"
  unfolding Evaluate_eval_with eval_row_def by (rule eval_with_cong(1)) (simp add: lookup_def at_def)

definition holds_rows :: "Schema \<Rightarrow> row list \<Rightarrow> (Tuple \<times> RID) list \<Rightarrow> bool" where
  "holds_rows s rows xs \<longleftrightarrow> list_all2 (\<lambda>row x. holds_row s row (fst x)) rows xs"

lemma filter_holds:
  assumes "holds_rows s rows xs" "rfilterM (row_holds e) rows = Inr rows'"
  shows "\<exists>ys. emit_all (filter_emit s e) xs = Inr ys \<and> holds_rows s rows' ys"
  using assms unfolding holds_rows_def
proof (induction arbitrary: rows' rule: list_all2_induct)
  case (Cons row rows x xs)
  obtain v rest where v: "eval_row row e = Inr v" "rfilterM (row_holds e) rows = Inr rest"
      "rows' = (if holds_value v then row # rest else rest)"
    using Cons.prems by (auto simp: rbind_Inr_iff row_holds_def [of e row])
  then show ?case using Cons.IH [OF v(2)] Cons.hyps Evaluate_row [OF Cons.hyps(1), of e]
    by (cases x) (auto simp: filter_emit_def holds_value_def)
qed simp

lemma projection_holds:
  assumes "holds_rows s rows xs" "rmapM (\<lambda>row. rmapM (eval_row row) es) rows = Inr rows'" "list_all (row_fits cs) rows'"
  shows "\<exists>ys. emit_all (projection_emit s (Schema_ctor cs) es) xs = Inr ys \<and> holds_rows (Schema_ctor cs) rows' ys"
  using assms unfolding holds_rows_def
proof (induction arbitrary: rows' rule: list_all2_induct)
  case (Cons row rows x xs)
  obtain vs rest where v: "rmapM (eval_row row) es = Inr vs" "rmapM (\<lambda>row. rmapM (eval_row row) es) rows = Inr rest" "rows' = vs # rest"
    using Cons.prems by (auto simp: rbind_Inr_iff)
  have fit: "row_fits cs vs" "list_all (row_fits cs) rest" using Cons.prems(2) v(3) by auto
  obtain t where "Tuple_ctor vs (Schema_ctor cs) = Inr t" using row_fits_tuple [OF fit(1)] by blast
  moreover have "Evaluate (Some (fst x)) s = eval_row row" using Evaluate_row [OF Cons.hyps(1)] by blast
  ultimately show ?case using Cons.IH [OF v(2) fit(2)] v fit(1)
    by (cases x) (auto simp: projection_emit_def holds_row_def)
qed simp

lemma values_holds:
  assumes "rmapM (rmapM (eval_row [])) ess = Inr rows" "list_all (row_fits cs) rows"
  shows "\<exists>xs. rmapM (\<lambda>row. rbind (values_tuple (Schema_ctor cs) row) (\<lambda>t. Inr (t, RID_default))) ess = Inr xs \<and> holds_rows (Schema_ctor cs) rows xs"
  using assms
proof (induction ess arbitrary: rows)
  case (Cons es ess)
  obtain vs rest where v: "rmapM (eval_row []) es = Inr vs" "rmapM (rmapM (eval_row [])) ess = Inr rest" "rows = vs # rest"
    using Cons.prems by (auto simp: rbind_Inr_iff)
  have fit: "row_fits cs vs" "list_all (row_fits cs) rest" using Cons.prems(2) v(3) by auto
  obtain t where "Tuple_ctor vs (Schema_ctor cs) = Inr t" using row_fits_tuple [OF fit(1)] by blast
  moreover have "Evaluate None (Schema_ctor []) = eval_row []" using Evaluate_no_row by blast
  ultimately show ?case using Cons.IH [OF v(2) fit(2)] v fit(1)
    by (auto simp: values_tuple_def holds_rows_def holds_row_def)
qed (simp add: holds_rows_def)

text \<open>The rows of a mock table, in the order of the scan.\<close>

fun mock_value_rows :: "mock_env \<Rightarrow> Schema \<Rightarrow> string \<Rightarrow> nat list \<Rightarrow> nat \<Rightarrow> row list result" where
  "mock_value_rows env s table [] rng = Inr []"
| "mock_value_rows env s table (i # is) rng = rbind (row_of env s table i rng) (\<lambda>(vs, rng).
     rbind (mock_value_rows env s table is rng) (\<lambda>rows. Inr (vs # rows)))"

definition mock_scan :: "mock_env \<Rightarrow> Schema \<Rightarrow> string \<Rightarrow> row list result" where
  "mock_scan env s table = mock_value_rows env s table
     (if GetShuffled table then shuffle env [0..<GetSizeOf table] else [0..<GetSizeOf table]) 0"

lemma mock_holds:
  assumes "mock_value_rows env (Schema_ctor cs) table ks rng = Inr rows" "list_all (row_fits cs) rows"
    "list_all2 (\<lambda>i k. mock_index idx i = Inr k) is ks"
  shows "\<exists>xs. mock_rows (GetFunctionOf env (Schema_ctor cs) table) idx is rng = Inr xs \<and> holds_rows (Schema_ctor cs) rows xs"
  using assms(3,1,2)
proof (induction arbitrary: rows rng rule: list_all2_induct)
  case (Cons i "is" k ks)
  obtain vs rng' rest where v: "row_of env (Schema_ctor cs) table k rng = Inr (vs, rng')"
      "mock_value_rows env (Schema_ctor cs) table ks rng' = Inr rest" "rows = vs # rest"
    using Cons.prems(1) by (auto simp: rbind_Inr_iff)
  have fit: "row_fits cs vs" "list_all (row_fits cs) rest" using Cons.prems(2) v(3) by auto
  obtain t where "Tuple_ctor vs (Schema_ctor cs) = Inr t" using row_fits_tuple [OF fit(1)] by blast
  then show ?case using Cons.IH [OF v(2) fit(2)] v fit(1) Cons.hyps(1)
    by (auto simp: GetFunctionOf_def holds_rows_def holds_row_def)
qed (simp add: holds_rows_def)

text \<open>The plans that the engine can execute, with rows that fit the output schema of every node: values,
  mock scans, filters and projections.  \<open>other\<close> is the meaning that the reference semantics gives to a mock
  scan.  A filter has the schema of its child.\<close>

fun exec_ok :: "mock_env \<Rightarrow> (nat \<Rightarrow> row list result) \<Rightarrow> (plan_op \<Rightarrow> row list list \<Rightarrow> row list result) \<Rightarrow> plan \<Rightarrow> bool" where
  "exec_ok env table other (Plan s node children) \<longleftrightarrow>
     (\<exists>cs rows. s = Schema_ctor cs \<and> plan_rows table other (Plan s node children) = Inr rows \<and> list_all (row_fits cs) rows) \<and>
     (case node of
       ValuesPlanNode ess \<Rightarrow> children = []
     | MockScanPlanNode t \<Rightarrow> children = [] \<and> other node [] = mock_scan env s t \<and>
         (GetShuffled t \<longrightarrow> length (shuffle env [0..<GetSizeOf t]) = GetSizeOf t)
     | FilterPlanNode e \<Rightarrow> (case children of [c] \<Rightarrow> exec_ok env table other c \<and> OutputSchema c = s | _ \<Rightarrow> False)
     | ProjectionPlanNode es \<Rightarrow> (case children of [c] \<Rightarrow> exec_ok env table other c | _ \<Rightarrow> False)
     | _ \<Rightarrow> False)"

lemma rest_no_batch [simp]: "rest no_batch = []" "batch_ok n no_batch"
  by (simp_all add: rest_def no_batch_def batch_ok_def)

lemma mock_indexes:
  assumes "GetShuffled t \<longrightarrow> length (shuffle env [0..<GetSizeOf t]) = GetSizeOf t"
  shows "list_all2 (\<lambda>i k. mock_index (if GetShuffled t then shuffle env [0..<GetSizeOf t] else []) i = Inr k) [0..<GetSizeOf t]
     (if GetShuffled t then shuffle env [0..<GetSizeOf t] else [0..<GetSizeOf t])"
  using assms by (auto simp: list_all2_conv_all_nth mock_index_def)

lemma CreateExecutor_rows:
  assumes "exec_ok env table other p" "plan_rows table other p = Inr rows"
  shows "\<exists>ex ex' xs. CreateExecutor env topn_check p = Inr ex \<and> Executor_Init ex = Inr ex' \<and> remaining ex' = Inr xs \<and>
     holds_rows (OutputSchema p) rows xs \<and> batches_ok n ex' \<and> GetOutputSchema ex' = OutputSchema p"
  using assms
proof (induction p arbitrary: rows)
  case (Plan s node children)
  obtain cs where cs: "s = Schema_ctor cs" "list_all (row_fits cs) rows" using Plan.prems by auto
  show ?case
  proof (cases node)
    case (ValuesPlanNode ess)
    then show ?thesis using Plan.prems values_holds [of ess rows cs] cs by (auto simp: node_rows_def)
  next
    case (MockScanPlanNode t)
    then have m: "mock_scan env s t = Inr rows" "GetShuffled t \<longrightarrow> length (shuffle env [0..<GetSizeOf t]) = GetSizeOf t" "children = []"
      using Plan.prems by (auto simp: node_rows_def)
    show ?thesis using mock_holds [OF _ cs(2) mock_indexes [OF m(2)]] m(1,3) MockScanPlanNode cs(1)
      by (fastforce simp: mock_scan_def MockScanExecutor_ctor_def Let_def)
  next
    case (FilterPlanNode e)
    then obtain c where c: "children = [c]" "exec_ok env table other c" "OutputSchema c = s" using Plan.prems(1) by (auto split: list.splits)
    obtain rs where rs: "plan_rows table other c = Inr rs" "rfilterM (row_holds e) rs = Inr rows"
      using Plan.prems(2) c(1) FilterPlanNode by (auto simp: rbind_Inr_iff node_rows_def)
    obtain ex ex' xs where x: "CreateExecutor env topn_check c = Inr ex" "Executor_Init ex = Inr ex'" "remaining ex' = Inr xs"
        "holds_rows s rs xs" "batches_ok n ex'" "GetOutputSchema ex' = s"
      using Plan.IH [of c rs] c rs(1) by auto
    obtain ys where "emit_all (filter_emit s e) xs = Inr ys" "holds_rows s rows ys" using filter_holds [OF x(4) rs(2)] by blast
    then show ?thesis using x c(1) FilterPlanNode by auto
  next
    case (ProjectionPlanNode es)
    then obtain c where c: "children = [c]" "exec_ok env table other c" using Plan.prems(1) by (auto split: list.splits)
    obtain rs where rs: "plan_rows table other c = Inr rs" "rmapM (\<lambda>row. rmapM (eval_row row) es) rs = Inr rows"
      using Plan.prems(2) c(1) ProjectionPlanNode by (auto simp: rbind_Inr_iff node_rows_def)
    obtain ex ex' xs where x: "CreateExecutor env topn_check c = Inr ex" "Executor_Init ex = Inr ex'" "remaining ex' = Inr xs"
        "holds_rows (OutputSchema c) rs xs" "batches_ok n ex'" "GetOutputSchema ex' = OutputSchema c"
      using Plan.IH [of c rs] c rs(1) by auto
    obtain ys where "emit_all (projection_emit (OutputSchema c) s es) xs = Inr ys" "holds_rows s rows ys"
      using projection_holds [OF x(4) rs(2) cs(2)] cs(1) by blast
    then show ?thesis using x c(1) ProjectionPlanNode by auto
  qed (use Plan.prems(1) in auto)
qed

lemma Execute_rows:
  assumes "exec_ok env table other p" "plan_rows table other p = Inr rows"
  shows "\<exists>tuples enough. list_all2 (\<lambda>row t. \<forall>i. GetValue t (OutputSchema p) i = at row i) rows tuples \<and>
     (\<forall>fuel\<ge>enough. Execute fuel env topn_check p (Some done) = Some (Inr (True, Some (done @ tuples))))"
proof -
  obtain ex ex' xs where x: "CreateExecutor env topn_check p = Inr ex" "Executor_Init ex = Inr ex'" "remaining ex' = Inr xs"
      "holds_rows (OutputSchema p) rows xs" "batches_ok BUSTUB_BATCH_SIZE ex'"
    using CreateExecutor_rows [OF assms] by blast
  have n: "BUSTUB_BATCH_SIZE = Suc 19" by (simp add: BUSTUB_BATCH_SIZE_def)
  have "Execute fuel env topn_check p (Some done) = Some (Inr (True, Some (done @ map fst xs)))" if "cost ex' + Suc (length xs) \<le> fuel" for fuel
  proof -
    have "executor_ready fuel (Suc 19) ex'" "length xs < fuel" using that x(5) n by (simp_all add: executor_ready_def)
    from executors.poll [OF this(1) x(3) this(2), of "Some done"] show ?thesis
      using x(1,2) n by (auto simp: Execute_def PerformChecks_def)
  qed
  moreover have "list_all2 (\<lambda>row t. \<forall>i. GetValue t (OutputSchema p) i = at row i) rows (map fst xs)"
    using x(4) holds_row_values by (auto simp: holds_rows_def list_all2_conv_all_nth)
  ultimately show ?thesis by blast
qed

text \<open>C5: The engine executes every plan of values, mock scans, filters and projections whose rows fit: with
  enough fuel, polling its executors in batches ends without failure, and appends to the
  result set one tuple for each row of the plan, in order, each of which reads back as that row.\<close>

theorem Execute_refines_rows:
  assumes "exec_ok env table other p" "plan_rows table other p = Inr rows"
  shows "\<exists>tuples enough. list_all2 (\<lambda>row t. \<forall>i. GetValue t (OutputSchema p) i = at row i) rows tuples \<and>
     (\<forall>fuel\<ge>enough. Execute fuel env topn_check p (Some done) = Some (Inr (True, Some (done @ tuples))))"
  by (rule Execute_rows [OF assms])

definition ex_numbers :: Schema where
  "ex_numbers = Schema_ctor [int_column ''number'']"

definition ex_int :: "int \<Rightarrow> Value" where
  "ex_int x = set_int INTEGER I32 (cmin I32) x"

definition ex_number :: expr where
  "ex_number = ColumnValueExpression 0 0 (int_column ''number'')"

definition ex_scan_plan :: plan where
  "ex_scan_plan = Plan ex_numbers (MockScanPlanNode ''__mock_table_123'') []"

definition ex_filter_plan :: plan where
  "ex_filter_plan = Plan ex_numbers (FilterPlanNode (ComparisonExpression LessThan ex_number (ConstantValueExpression (ex_int 3)))) [ex_scan_plan]"

definition ex_exec_plan :: plan where
  "ex_exec_plan = Plan ex_numbers (ProjectionPlanNode [ArithmeticExpression Plus ex_number (ConstantValueExpression (ex_int 10))]) [ex_filter_plan]"

definition ex_other :: "plan_op \<Rightarrow> row list list \<Rightarrow> row list result" where
  "ex_other node rss = mock_scan plain_env ex_numbers ''__mock_table_123''"

lemma ex_exec_rows:
  "plan_rows (\<lambda>_. Inr []) ex_other ex_scan_plan = Inr [[ex_int 1], [ex_int 2], [ex_int 3]]"
  "plan_rows (\<lambda>_. Inr []) ex_other ex_filter_plan = Inr [[ex_int 1], [ex_int 2]]"
  "plan_rows (\<lambda>_. Inr []) ex_other ex_exec_plan = Inr [[ex_int 11], [ex_int 12]]"
  by code_simp+

lemma ex_exec_ok: "exec_ok plain_env (\<lambda>_. Inr []) ex_other ex_exec_plan"
proof -
  have f: "list_all (row_fits [int_column ''number'']) [[ex_int 1], [ex_int 2], [ex_int 3]]"
    "list_all (row_fits [int_column ''number'']) [[ex_int 11], [ex_int 12]]" "\<not> GetShuffled ''__mock_table_123''"
    by code_simp+
  have p: "exec_ok plain_env (\<lambda>_. Inr []) ex_other ex_scan_plan"
    using ex_exec_rows(1) f by (auto simp: ex_scan_plan_def ex_numbers_def ex_other_def)
  then have "exec_ok plain_env (\<lambda>_. Inr []) ex_other ex_filter_plan"
    using ex_exec_rows(2) f unfolding ex_filter_plan_def by (auto simp: ex_numbers_def) (simp add: ex_scan_plan_def ex_numbers_def)
  then show ?thesis using ex_exec_rows(3) f unfolding ex_exec_plan_def by (auto simp: ex_numbers_def)
qed

theorem Execute_refines_rows_witness:
  "\<exists>tuples enough. map (\<lambda>t. GetValue t ex_numbers 0) tuples = [Inr (ex_int 11), Inr (ex_int 12)] \<and>
     (\<forall>fuel\<ge>enough. Execute fuel plain_env False ex_exec_plan (Some []) = Some (Inr (True, Some tuples)))"
proof -
  obtain tuples enough where t: "list_all2 (\<lambda>row t. \<forall>i. GetValue t (OutputSchema ex_exec_plan) i = at row i) [[ex_int 11], [ex_int 12]] tuples"
      "\<forall>fuel\<ge>enough. Execute fuel plain_env False ex_exec_plan (Some []) = Some (Inr (True, Some ([] @ tuples)))"
    using Execute_refines_rows [OF ex_exec_ok ex_exec_rows(3), of False "[]"] by blast
  have "OutputSchema ex_exec_plan = ex_numbers" by (simp add: ex_exec_plan_def)
  then have "map (\<lambda>t. GetValue t ex_numbers 0) tuples = [Inr (ex_int 11), Inr (ex_int 12)]"
    using t(1) by (auto simp: list_all2_Cons1 at_def)
  then show ?thesis using t(2) by (intro exI [of _ tuples] exI [of _ enough]) simp
qed

text \<open>A plan whose nodes are not implemented fails in the constructor of the executor, outside the handler
  for execution exceptions.\<close>

lemma Execute_unimplemented: "Execute fuel env topn_check (Plan s (SeqScanPlanNode t name p) []) rows = Some (Inl (LogicError ''TODO(P3): Add implementation.''))"
  by (simp add: Execute_def unimplemented_def)

text \<open>\<open>Init\<close> of a filter does not reset the offset into the last batch of the child.  With a batch size of two,
  over the numbers 1, 2, 2, 2 and a filter for 2, the first call returns two rows and keeps the fourth; initialised
  again, the filter has four rows to return instead of three.\<close>

definition ex_reinit :: executor where
  "ex_reinit = FilterExecutor ex_numbers (ComparisonExpression Equal ex_number (ConstantValueExpression (ex_int 2)))
     (ValuesExecutor ex_numbers (map (\<lambda>x. [ConstantValueExpression (ex_int x)]) [1, 2, 2, 2]) 0) no_batch"

lemma Filter_reinit_repeats_rows:
  "row_count ex_reinit = 3"
  "(case Executor_Next 9 2 ex_reinit of Some (Inr (ex, tups, rids, b)) \<Rightarrow> rbind (Executor_Init ex) (\<lambda>ex. Inr (length tups, row_count ex)))
     = Inr (2, 4)"
  by code_simp+

text \<open>C21: Polling any tree of executors, in whatever state it is left between two calls, ends: with fuel for its
  levels and for one call more than there are rows left, it appends all remaining rows to the
  result set, in order, and leaves the executor exhausted.\<close>

theorem PollExecutor_drains:
  assumes "batches_ok (Suc m) ex" "remaining ex = Inr xs" "cost ex \<le> levels" "length xs < fuel"
  shows "\<exists>ex'. PollExecutor fuel (Executor_Next levels (Suc m)) ex (Some done) = Some (Inr (ex', Some (done @ map fst xs))) \<and>
     remaining ex' = Inr []"
  using executors.poll [of levels m ex xs fuel "Some done"] assms by (auto simp: executor_ready_def)

theorem PollExecutor_drains_witness:
  "\<exists>ex' tuples. length tuples = 3 \<and> PollExecutor 4 (Executor_Next 7 2) ex_reinit (Some []) = Some (Inr (ex', Some tuples)) \<and> remaining ex' = Inr []"
proof -
  obtain xs where xs: "remaining ex_reinit = Inr xs" "length xs = 3"
  proof -
    have "(case remaining ex_reinit of Inl e \<Rightarrow> False | Inr xs \<Rightarrow> length xs = 3)" by code_simp
    then show ?thesis using that by (cases "remaining ex_reinit") auto
  qed
  have "batches_ok (Suc 1) ex_reinit" "cost ex_reinit \<le> 7" by code_simp+
  from PollExecutor_drains [OF this(1) xs(1) this(2), of 4 "[]"] show ?thesis using xs(2) by (auto simp: numeral_2_eq_2)
qed

end
