(* ===== verification/Bound.thy ===== *)
theory Bound
  imports Optimizer
begin

text \<open>
  Bound statements (include/binder): the tree that the binder produces from a parsed query and the
  planner turns into a plan.  Bound expressions, table references and statements with the fields of
  their classes, and the methods of the expressions.  The invalid expression and table reference that the
  classes' default constructors make stand for an absent clause.
\<close>

section \<open>Bound expressions\<close>

datatype WindowBoundary = WB_INVALID | UNBOUNDED_PRECEDING | UNBOUNDED_FOLLOWING | CURRENT_ROW_RANGE | CURRENT_ROW_ROWS
  | EXPR_PRECEDING_ROWS | EXPR_FOLLOWING_ROWS | EXPR_PRECEDING_RANGE | EXPR_FOLLOWING_RANGE

datatype bexpr =
    BoundInvalid
  | BoundConstant Value
  | BoundColumnRef "string list"
  | BoundAggCall string bool "bexpr list"
  | BoundStar
  | BoundUnaryOp string bexpr
  | BoundBinaryOp string bexpr bexpr
  | BoundAlias string bexpr
  | BoundFuncCall string "bexpr list"
  | BoundWindow string "bexpr list" "bexpr list" "(OrderByType \<times> OrderByNullType \<times> bexpr) list" "bexpr option" "bexpr option"
      WindowBoundary WindowBoundary

type_synonym BoundOrderBy = "OrderByType \<times> OrderByNullType \<times> bexpr"

text \<open>The names that \<open>fmt::formatter<ExpressionType>\<close> prints.\<close>

fun ExpressionType_name :: "bexpr \<Rightarrow> string" where
  "ExpressionType_name BoundInvalid = ''Invalid''"
| "ExpressionType_name (BoundConstant v) = ''Constant''"
| "ExpressionType_name (BoundColumnRef n) = ''ColumnRef''"
| "ExpressionType_name (BoundAggCall f d as) = ''AggregationCall''"
| "ExpressionType_name BoundStar = ''Star''"
| "ExpressionType_name (BoundUnaryOp f a) = ''UnaryOperation''"
| "ExpressionType_name (BoundBinaryOp f l r) = ''BinaryOperation''"
| "ExpressionType_name (BoundAlias n e) = ''Alias''"
| "ExpressionType_name (BoundFuncCall f as) = ''FuncCall''"
| "ExpressionType_name (BoundWindow f as ps os s e b1 b2) = ''Window''"

definition IsInvalid :: "bexpr \<Rightarrow> bool" where "IsInvalid e \<longleftrightarrow> e = BoundInvalid"

fun HasAggregation :: "bexpr \<Rightarrow> bool result" where
  "HasAggregation BoundInvalid = Inl (LogicError ''has aggregation should have been implemented!'')"
| "HasAggregation BoundStar = Inl (Throw ET_INVALID ''`HasAggregation` should not have been called on `BoundStar`.'')"
| "HasAggregation (BoundAggCall f d as) = Inr True"
| "HasAggregation (BoundUnaryOp f a) = HasAggregation a"
| "HasAggregation (BoundBinaryOp f l r) = rbind (HasAggregation l) (\<lambda>b. if b then Inr True else HasAggregation r)"
| "HasAggregation (BoundAlias n e) = HasAggregation e"
| "HasAggregation (BoundConstant v) = Inr False"
| "HasAggregation (BoundColumnRef n) = Inr False"
| "HasAggregation (BoundFuncCall f as) = Inr False"
| "HasAggregation (BoundWindow f as ps os s e b1 b2) = Inr False"

fun HasWindowFunction :: "bexpr \<Rightarrow> bool" where
  "HasWindowFunction (BoundWindow f as ps os s e b1 b2) = True"
| "HasWindowFunction (BoundAlias n e) = HasWindowFunction e"
| "HasWindowFunction e = False"

definition BoundColumnRef_ToString :: "string list \<Rightarrow> string" where
  "BoundColumnRef_ToString col_name = intercalate ''.'' col_name"

text \<open>\<open>BoundColumnRef::Prepend\<close>; a null pointer is \<open>None\<close>.\<close>

definition BoundColumnRef_Prepend :: "string list option \<Rightarrow> string \<Rightarrow> string list option" where
  "BoundColumnRef_Prepend self pre = map_option ((#) pre) self"

section \<open>Table references and statements\<close>

record BoundBaseTable =
  bt_table :: string
  bt_oid :: nat
  bt_alias :: "string option"
  bt_schema :: Schema

definition GetBoundTableName :: "BoundBaseTable \<Rightarrow> string" where
  "GetBoundTableName t = (case bt_alias t of Some a \<Rightarrow> a | None \<Rightarrow> bt_table t)"

datatype table_ref =
    TableInvalid
  | BoundBaseTableRef BoundBaseTable
  | BoundJoinRef JoinType table_ref table_ref bexpr
  | BoundCrossProductRef table_ref table_ref
  | BoundExpressionListRef "bexpr list list" string
  | BoundSubqueryRef SelectStatement "string list list" string
  | BoundCTERef string string
  | TableEmpty
and SelectStatement =
  SelectStatement (sel_table: table_ref) (select_list: "bexpr list") (sel_where: bexpr) (group_by: "bexpr list")
    (having: bexpr) (limit_count: bexpr) (limit_offset: bexpr) (sel_sort: "BoundOrderBy list")
    (ctes: "(SelectStatement \<times> string list list \<times> string) list") (is_distinct: bool)

text \<open>An element of a \<open>CTEList\<close>: a subquery reference with its select list names and alias.\<close>

type_synonym cte = "SelectStatement \<times> string list list \<times> string"

fun TableReferenceType_name :: "table_ref \<Rightarrow> string" where
  "TableReferenceType_name TableInvalid = ''Invalid''"
| "TableReferenceType_name (BoundBaseTableRef t) = ''BaseTable''"
| "TableReferenceType_name (BoundJoinRef j l r c) = ''Join''"
| "TableReferenceType_name (BoundCrossProductRef l r) = ''CrossProduct''"
| "TableReferenceType_name (BoundExpressionListRef v i) = ''ExpressionList''"
| "TableReferenceType_name (BoundSubqueryRef s n a) = ''Subquery''"
| "TableReferenceType_name (BoundCTERef n a) = ''CTE''"
| "TableReferenceType_name TableEmpty = ''Empty''"

text \<open>The target list of an update pairs a column reference, null when the name could not be resolved,
  with an expression.\<close>

datatype BoundStatement =
    Select_Statement SelectStatement
  | Insert_Statement BoundBaseTable SelectStatement
  | Delete_Statement BoundBaseTable bexpr
  | Update_Statement BoundBaseTable bexpr "(string list option \<times> bexpr) list"
  | Create_Statement string "Column list" "string list"
  | Index_Statement string BoundBaseTable "string list list" string "string list" "(string \<times> int) list"
  | Explain_Statement BoundStatement nat
  | VariableSet_Statement string string
  | VariableShow_Statement string
  | Transaction_Statement string

fun StatementType_name :: "BoundStatement \<Rightarrow> string" where
  "StatementType_name (Select_Statement s) = ''Select''"
| "StatementType_name (Insert_Statement t s) = ''Insert''"
| "StatementType_name (Delete_Statement t e) = ''Delete''"
| "StatementType_name (Update_Statement t e tgts) = ''Update''"
| "StatementType_name (Create_Statement t cs pk) = ''Create''"
| "StatementType_name (Index_Statement n t cs ty o1 o2) = ''Index''"
| "StatementType_name (Explain_Statement s n) = ''Explain''"
| "StatementType_name (VariableSet_Statement n v) = ''VariableSet''"
| "StatementType_name (VariableShow_Statement n) = ''VariableShow''"
| "StatementType_name (Transaction_Statement t) = ''Transaction''"

end
