(* ===== verification/Binder.thy ===== *)
theory Binder
  imports Bound
begin

text \<open>
  The binder (src/binder, include/binder/binder.h): it turns the parse tree of the vendored parser into a bound
  statement.

  The nodes of the parse tree that the binder reads are datatypes with the fields that it reads.  A list of
  the parser is a list, with the empty one for the null pointer; a pointer that may be null is an option.
  Following a null pointer, and reading a node as a structure of another type, is undefined.  The binder's \<open>scope_\<close> and
  \<open>cte_scope_\<close> are arguments: the code restores them with a guard in every function that sets them.  The counter
  \<open>universal_id_\<close> is threaded.
\<close>

section \<open>Node tags\<close>

text \<open>A tag is the name of its enumerator without the prefix \<open>T_PG\<close>.\<close>

definition node_tags :: "string list" where
  "node_tags = [
    ''Invalid'', ''IndexInfo'', ''ExprContext'', ''ProjectionInfo'', ''JunkFilter'', ''ResultRelInfo'', ''EState'',
    ''TupleTableSlot'', ''Plan'', ''Result'', ''ProjectSet'', ''ModifyTable'', ''Append'', ''MergeAppend'',
    ''RecursiveUnion'', ''BitmapAnd'', ''BitmapOr'', ''Scan'', ''SeqScan'', ''SampleScan'', ''IndexScan'',
    ''IndexOnlyScan'', ''BitmapIndexScan'', ''BitmapHeapScan'', ''TidScan'', ''SubqueryScan'', ''FunctionScan'',
    ''ValuesScan'', ''TableFuncScan'', ''CteScan'', ''NamedTuplestoreScan'', ''WorkTableScan'', ''ForeignScan'',
    ''CustomScan'', ''Join'', ''NestLoop'', ''MergeJoin'', ''HashJoin'', ''Material'', ''Sort'', ''Group'', ''Agg'',
    ''WindowAgg'', ''Unique'', ''Gather'', ''GatherMerge'', ''Hash'', ''SetOp'', ''LockRows'', ''Limit'',
    ''NestLoopParam'', ''PlanRowMark'', ''PlanInvalItem'', ''PlanState'', ''ResultState'', ''ProjectSetState'',
    ''ModifyTableState'', ''AppendState'', ''MergeAppendState'', ''RecursiveUnionState'', ''BitmapAndState'',
    ''BitmapOrState'', ''ScanState'', ''SeqScanState'', ''SampleScanState'', ''IndexScanState'',
    ''IndexOnlyScanState'', ''BitmapIndexScanState'', ''BitmapHeapScanState'', ''TidScanState'',
    ''SubqueryScanState'', ''FunctionScanState'', ''TableFuncScanState'', ''ValuesScanState'', ''CteScanState'',
    ''NamedTuplestoreScanState'', ''WorkTableScanState'', ''ForeignScanState'', ''CustomScanState'', ''JoinState'',
    ''NestLoopState'', ''MergeJoinState'', ''HashJoinState'', ''MaterialState'', ''SortState'', ''GroupState'',
    ''AggState'', ''WindowAggState'', ''UniqueState'', ''GatherState'', ''GatherMergeState'', ''HashState'',
    ''SetOpState'', ''LockRowsState'', ''LimitState'', ''Alias'', ''RangeVar'', ''TableFunc'', ''Expr'', ''Var'',
    ''Const'', ''Param'', ''Aggref'', ''GroupingFunc'', ''WindowFunc'', ''ArrayRef'', ''FuncExpr'', ''NamedArgExpr'',
    ''OpExpr'', ''DistinctExpr'', ''NullIfExpr'', ''ScalarArrayOpExpr'', ''BoolExpr'', ''SubLink'', ''SubPlan'',
    ''AlternativeSubPlan'', ''FieldSelect'', ''FieldStore'', ''RelabelType'', ''CoerceViaIO'', ''ArrayCoerceExpr'',
    ''ConvertRowtypeExpr'', ''CollateExpr'', ''CaseExpr'', ''CaseWhen'', ''CaseTestExpr'', ''ArrayExpr'', ''RowExpr'',
    ''RowCompareExpr'', ''CoalesceExpr'', ''MinMaxExpr'', ''SQLValueFunction'', ''XmlExpr'', ''NullTest'',
    ''BooleanTest'', ''CoerceToDomain'', ''CoerceToDomainValue'', ''SetToDefault'', ''CurrentOfExpr'',
    ''NextValueExpr'', ''InferenceElem'', ''TargetEntry'', ''RangeTblRef'', ''JoinExpr'', ''FromExpr'',
    ''OnConflictExpr'', ''IntoClause'', ''ExprState'', ''AggrefExprState'', ''WindowFuncExprState'', ''SetExprState'',
    ''SubPlanState'', ''AlternativeSubPlanState'', ''DomainConstraintState'', ''PlannerInfo'', ''PlannerGlobal'',
    ''RelOptInfo'', ''IndexOptInfo'', ''ForeignKeyOptInfo'', ''ParamPathInfo'', ''Path'', ''IndexPath'',
    ''BitmapHeapPath'', ''BitmapAndPath'', ''BitmapOrPath'', ''TidPath'', ''SubqueryScanPath'', ''ForeignPath'',
    ''CustomPath'', ''NestPath'', ''MergePath'', ''HashPath'', ''AppendPath'', ''MergeAppendPath'', ''ResultPath'',
    ''MaterialPath'', ''UniquePath'', ''GatherPath'', ''GatherMergePath'', ''ProjectionPath'', ''ProjectSetPath'',
    ''SortPath'', ''GroupPath'', ''UpperUniquePath'', ''AggPath'', ''GroupingSetsPath'', ''MinMaxAggPath'',
    ''WindowAggPath'', ''SetOpPath'', ''RecursiveUnionPath'', ''LockRowsPath'', ''ModifyTablePath'', ''LimitPath'',
    ''EquivalenceClass'', ''EquivalenceMember'', ''PathKey'', ''PathTarget'', ''RestrictInfo'', ''PlaceHolderVar'',
    ''SpecialJoinInfo'', ''AppendRelInfo'', ''PartitionedChildRelInfo'', ''PlaceHolderInfo'', ''MinMaxAggInfo'',
    ''PlannerParamItem'', ''RollupData'', ''GroupingSetData'', ''StatisticExtInfo'', ''MemoryContext'',
    ''AllocSetContext'', ''SlabContext'', ''Value'', ''Integer'', ''Float'', ''String'', ''BitString'', ''Null'',
    ''List'', ''IntList'', ''OidList'', ''ExtensibleNode'', ''RawStmt'', ''Query'', ''PlannedStmt'', ''InsertStmt'',
    ''DeleteStmt'', ''UpdateStmt'', ''SelectStmt'', ''AlterTableStmt'', ''AlterTableCmd'', ''AlterDomainStmt'',
    ''SetOperationStmt'', ''GrantStmt'', ''GrantRoleStmt'', ''AlterDefaultPrivilegesStmt'', ''ClosePortalStmt'',
    ''ClusterStmt'', ''CopyStmt'', ''CreateStmt'', ''DefineStmt'', ''DropStmt'', ''TruncateStmt'', ''CommentStmt'',
    ''FetchStmt'', ''IndexStmt'', ''CreateFunctionStmt'', ''AlterFunctionStmt'', ''DoStmt'', ''RenameStmt'',
    ''RuleStmt'', ''NotifyStmt'', ''ListenStmt'', ''UnlistenStmt'', ''TransactionStmt'', ''ViewStmt'', ''LoadStmt'',
    ''CreateDomainStmt'', ''CreatedbStmt'', ''DropdbStmt'', ''VacuumStmt'', ''ExplainStmt'', ''CreateTableAsStmt'',
    ''CreateSeqStmt'', ''AlterSeqStmt'', ''VariableSetStmt'', ''VariableShowStmt'', ''VariableShowSelectStmt'',
    ''DiscardStmt'', ''CreateTrigStmt'', ''CreatePLangStmt'', ''CreateRoleStmt'', ''AlterRoleStmt'', ''DropRoleStmt'',
    ''LockStmt'', ''ConstraintsSetStmt'', ''ReindexStmt'', ''CheckPointStmt'', ''CreateSchemaStmt'',
    ''AlterDatabaseStmt'', ''AlterDatabaseSetStmt'', ''AlterRoleSetStmt'', ''CreateConversionStmt'',
    ''CreateCastStmt'', ''CreateOpClassStmt'', ''CreateOpFamilyStmt'', ''AlterOpFamilyStmt'', ''PrepareStmt'',
    ''ExecuteStmt'', ''CallStmt'', ''DeallocateStmt'', ''DeclareCursorStmt'', ''CreateTableSpaceStmt'',
    ''DropTableSpaceStmt'', ''AlterObjectDependsStmt'', ''AlterObjectSchemaStmt'', ''AlterOwnerStmt'',
    ''AlterOperatorStmt'', ''DropOwnedStmt'', ''ReassignOwnedStmt'', ''CompositeTypeStmt'', ''CreateTypeStmt'',
    ''CreateRangeStmt'', ''AlterEnumStmt'', ''AlterTSDictionaryStmt'', ''AlterTSConfigurationStmt'',
    ''CreateFdwStmt'', ''AlterFdwStmt'', ''CreateForeignServerStmt'', ''AlterForeignServerStmt'',
    ''CreateUserMappingStmt'', ''AlterUserMappingStmt'', ''DropUserMappingStmt'', ''AlterTableSpaceOptionsStmt'',
    ''AlterTableMoveAllStmt'', ''SecLabelStmt'', ''CreateForeignTableStmt'', ''ImportForeignSchemaStmt'',
    ''CreateExtensionStmt'', ''AlterExtensionStmt'', ''AlterExtensionContentsStmt'', ''CreateEventTrigStmt'',
    ''AlterEventTrigStmt'', ''RefreshMatViewStmt'', ''ReplicaIdentityStmt'', ''AlterSystemStmt'',
    ''CreatePolicyStmt'', ''AlterPolicyStmt'', ''CreateTransformStmt'', ''CreateAmStmt'', ''CreatePublicationStmt'',
    ''AlterPublicationStmt'', ''CreateSubscriptionStmt'', ''AlterSubscriptionStmt'', ''DropSubscriptionStmt'',
    ''CreateStatsStmt'', ''AlterCollationStmt'', ''ColumnRef'', ''ParamRef'', ''FuncCall'', ''ResTarget'',
    ''MultiAssignRef'', ''TypeCast'', ''CollateClause'', ''SortBy'', ''WindowDef'', ''RangeSubselect'',
    ''RangeFunction'', ''RangeTableSample'', ''RangeTableFunc'', ''RangeTableFuncCol'', ''TypeName'', ''ColumnDef'',
    ''IndexElem'', ''Constraint'', ''DefElem'', ''RangeTblEntry'', ''RangeTblFunction'', ''TableSampleClause'',
    ''WithCheckOption'', ''SortGroupClause'', ''GroupingSet'', ''WindowClause'', ''ObjectWithArgs'', ''AccessPriv'',
    ''CreateOpClassItem'', ''TableLikeClause'', ''FunctionParameter'', ''LockingClause'', ''RowMarkClause'',
    ''XmlSerialize'', ''WithClause'', ''InferClause'', ''OnConflictClause'', ''CommonTableExpr'', ''RoleSpec'',
    ''TriggerTransition'', ''PartitionElem'', ''PartitionSpec'', ''PartitionBoundSpec'', ''PartitionRangeDatum'',
    ''PartitionCmd'', ''IdentifySystemCmd'', ''BaseBackupCmd'', ''CreateReplicationSlotCmd'',
    ''DropReplicationSlotCmd'', ''StartReplicationCmd'', ''TimeLineHistoryCmd'', ''SQLCmd'', ''TriggerData'',
    ''EventTriggerData'', ''ReturnSetInfo'', ''WindowObjectData'', ''TIDBitmap'', ''InlineCodeBlock'', ''FdwRoutine'',
    ''IndexAmRoutine'', ''TsmRoutine'', ''ForeignKeyCacheInfo'']"

definition NodeTagToString :: "string \<Rightarrow> string" where
  "NodeTagToString tag = (if tag \<in> set [''AExpr'', ''AConst'', ''AStar'', ''AIndices'', ''AIndirection'', ''AArrayExpr''] then ''T'' @ tag
     else if tag \<in> set node_tags then ''T_'' @ tag else ''(UNKNOWN)'')"

fun WindowBoundaryToString :: "WindowBoundary \<Rightarrow> string" where
  "WindowBoundaryToString WB_INVALID = ''INVALID''"
| "WindowBoundaryToString UNBOUNDED_PRECEDING = ''UNBOUNDED PRECEDING''"
| "WindowBoundaryToString UNBOUNDED_FOLLOWING = ''UNBOUNDED FOLLOWING''"
| "WindowBoundaryToString CURRENT_ROW_RANGE = ''CURRENT ROW RANGE''"
| "WindowBoundaryToString CURRENT_ROW_ROWS = ''CURRENT ROW ROWS''"
| "WindowBoundaryToString EXPR_FOLLOWING_ROWS = ''EXPR FOLLOWING ROWS''"
| "WindowBoundaryToString EXPR_PRECEDING_ROWS = ''EXPR PRECEDING ROWS''"
| "WindowBoundaryToString EXPR_FOLLOWING_RANGE = ''EXPR FOLLOWING RANGE''"
| "WindowBoundaryToString EXPR_PRECEDING_RANGE = ''EXPR PRECEDING RANGE''"

section \<open>The parse tree\<close>

datatype PGValue = PGInteger int | PGFloat string | PGString string | PGNull | PGValueOther string

datatype PGBoolExprType = PG_AND_EXPR | PG_OR_EXPR | PG_NOT_EXPR
datatype PGSortByDir = PG_SORTBY_DEFAULT | PG_SORTBY_ASC | PG_SORTBY_DESC | PG_SORTBY_USING
datatype PGSortByNulls = PG_SORTBY_NULLS_DEFAULT | PG_SORTBY_NULLS_FIRST | PG_SORTBY_NULLS_LAST
datatype PGJoinType = PG_JOIN_INNER | PG_JOIN_LEFT | PG_JOIN_FULL | PG_JOIN_RIGHT | PG_JOIN_SEMI | PG_JOIN_ANTI
  | PG_JOIN_UNIQUE_OUTER | PG_JOIN_UNIQUE_INNER

text \<open>A field of a column reference is a string, a star or another node.\<close>

datatype pgfield = FieldString string | FieldStar | FieldOther string

text \<open>Expressions.  \<open>PGAExpr\<close> carries whether its kind is \<open>PG_AEXPR_OP\<close>; other nodes only have a tag.\<close>

datatype pgexpr =
    PGColumnRef "pgfield list"
  | PGAConst PGValue
  | PGResTarget "string option" "pgexpr option"
  | PGAStar
  | PGFuncCall string "pgexpr list" bool "pgwindow option"
  | PGAExpr bool string "pgexpr option" "pgexpr option"
  | PGBoolExpr PGBoolExprType "pgexpr list"
  | PGSortBy PGSortByDir PGSortByNulls "pgexpr option"
  | PGOtherExpr string
and pgwindow =
    PGWindowDef "pgexpr list" "pgexpr list" "pgexpr option" "pgexpr option" "32 word"

text \<open>Tables and selects.  A common table expression has its name, whether it is recursive and its query, when
  that is a select; the flag of a select says whether its WITH clause is recursive.  An element of the DISTINCT
  clause is null when no expression is given.\<close>

datatype pgtable =
    PGRangeVar string "string option"
  | PGJoinExpr PGJoinType pgtable pgtable "pgexpr option"
  | PGRangeSubselect bool pgselect "string option"
  | PGOtherTable string
and pgcte = PGCommonTableExpr string bool "pgselect option"
and pgselect =
    PGSelectStmt (valuesLists: "pgexpr list list") (with_recursive: bool) (with_ctes: "pgcte list") (fromClause: "pgtable list")
      (distinctClause: "pgexpr option list") (targetList: "pgexpr list") (whereClause: "pgexpr option") (groupClause: "pgexpr list")
      (havingClause: "pgexpr option") (limitCount: "pgexpr option") (limitOffset: "pgexpr option") (sortClause: "pgexpr list")

section \<open>Resolving columns\<close>

text \<open>A column that is not found is a null pointer, \<open>None\<close>.\<close>

fun schema_ref_loop :: "string list \<Rightarrow> Column list \<Rightarrow> string list option \<Rightarrow> string list option result" where
  "schema_ref_loop col_name [] column_ref = Inr column_ref"
| "schema_ref_loop col_name (column # cs) column_ref = (if Lower (column_name column) = hd col_name then
       if column_ref \<noteq> None then Inl (Throw ET_INVALID (intercalate ''.'' col_name @ '' is ambiguous in schema''))
       else schema_ref_loop col_name cs (Some [column_name column])
     else schema_ref_loop col_name cs column_ref)"

definition ResolveColumnRefFromSchema :: "Schema \<Rightarrow> string list \<Rightarrow> string list option result" where
  "ResolveColumnRefFromSchema schema col_name = (if length col_name \<noteq> 1 then Inr None
     else schema_ref_loop col_name (columns schema) None)"

text \<open>The two lookups of a name: as it stands, and without its first part when that is the name of the table.\<close>

definition resolve_both :: "(string list \<Rightarrow> string list option result) \<Rightarrow> string \<Rightarrow> string \<Rightarrow> string \<Rightarrow> string list \<Rightarrow> string list option result" where
  "resolve_both search pre alias message col_name =
     rbind (search col_name) (\<lambda>x. let direct = BoundColumnRef_Prepend x pre in
     rbind (if length col_name > 1 \<and> hd col_name = alias
       then rbind (search (tl col_name)) (\<lambda>x. Inr (BoundColumnRef_Prepend x pre)) else Inr None) (\<lambda>strip.
     if strip \<noteq> None \<and> direct \<noteq> None then Inl (Throw ET_INVALID (intercalate ''.'' col_name @ message))
     else if strip \<noteq> None then Inr strip else Inr direct))"

definition ResolveColumnRefFromBaseTableRef :: "BoundBaseTable \<Rightarrow> string list \<Rightarrow> string list option result" where
  "ResolveColumnRefFromBaseTableRef t col_name = resolve_both (ResolveColumnRefFromSchema (bt_schema t)) (GetBoundTableName t) (GetBoundTableName t)
     ('' is ambiguous in table '' @ bt_table t) col_name"

definition MatchSuffix :: "string list \<Rightarrow> string list \<Rightarrow> bool" where
  "MatchSuffix suffix_name full_name \<longleftrightarrow> length suffix_name \<le> length full_name \<and>
     rev suffix_name = take (length suffix_name) (rev (map Lower full_name))"

fun select_list_loop :: "string list \<Rightarrow> string list list \<Rightarrow> string list option \<Rightarrow> string list option result" where
  "select_list_loop col_name [] column_ref = Inr column_ref"
| "select_list_loop col_name (full # rest) column_ref = (if MatchSuffix col_name full then
       if column_ref \<noteq> None then Inl (Throw ET_INVALID (intercalate ''.'' col_name @ '' is ambiguous in subquery select list''))
       else select_list_loop col_name rest (Some full)
     else select_list_loop col_name rest column_ref)"

definition ResolveColumnRefFromSelectList :: "string list list \<Rightarrow> string list \<Rightarrow> string list option result" where
  "ResolveColumnRefFromSelectList names col_name = select_list_loop col_name names None"

text \<open>The name that is prepended is the one of the subquery, not \<open>alias\<close>.\<close>

definition ResolveColumnRefFromSubqueryRef :: "string list list \<Rightarrow> string \<Rightarrow> string \<Rightarrow> string list \<Rightarrow> string list option result" where
  "ResolveColumnRefFromSubqueryRef names subquery_alias alias col_name = resolve_both (ResolveColumnRefFromSelectList names) subquery_alias alias
     ('' is ambiguous in subquery '' @ subquery_alias) col_name"

definition either_side :: "string list \<Rightarrow> string list option result \<Rightarrow> string list option result \<Rightarrow> string list option result" where
  "either_side col_name left right = rbind left (\<lambda>l. rbind right (\<lambda>r.
     if l \<noteq> None \<and> r \<noteq> None then Inl (Throw ET_INVALID (intercalate ''.'' col_name @ '' is ambiguous''))
     else if l \<noteq> None then Inr l else Inr r))"

definition in_cte :: "cte list option \<Rightarrow> string \<Rightarrow> (string list list \<Rightarrow> string \<Rightarrow> 'a result) \<Rightarrow> 'a result" where
  "in_cte cte_scope name f = (case cte_scope of None \<Rightarrow> Inl Undefined
     | Some cs \<Rightarrow> (case List.find (\<lambda>(_, _, alias). name = alias) cs of None \<Rightarrow> Inl (LogicError ''CTE not found'')
       | Some (_, names, alias) \<Rightarrow> f names alias))"

fun ResolveColumnInternal :: "cte list option \<Rightarrow> table_ref \<Rightarrow> string list \<Rightarrow> string list option result" where
  "ResolveColumnInternal cs (BoundBaseTableRef t) col_name = ResolveColumnRefFromBaseTableRef t col_name"
| "ResolveColumnInternal cs (BoundCrossProductRef l r) col_name =
     either_side col_name (ResolveColumnInternal cs l col_name) (ResolveColumnInternal cs r col_name)"
| "ResolveColumnInternal cs (BoundJoinRef jt l r e) col_name =
     either_side col_name (ResolveColumnInternal cs l col_name) (ResolveColumnInternal cs r col_name)"
| "ResolveColumnInternal cs (BoundSubqueryRef s names alias) col_name = ResolveColumnRefFromSubqueryRef names alias alias col_name"
| "ResolveColumnInternal cs (BoundCTERef cte_name alias) col_name =
     in_cte cs cte_name (\<lambda>names cte_alias. ResolveColumnRefFromSubqueryRef names cte_alias alias col_name)"
| "ResolveColumnInternal cs t col_name = Inl (Throw ET_INVALID ''unsupported TableReferenceType'')"

definition ResolveColumn :: "cte list option \<Rightarrow> table_ref \<Rightarrow> string list \<Rightarrow> bexpr result" where
  "ResolveColumn cs scope col_name = assert (scope \<noteq> TableInvalid) (rbind (ResolveColumnInternal cs scope col_name) (\<lambda>e. case e of
       None \<Rightarrow> Inl (Throw ET_INVALID (''column '' @ intercalate ''.'' col_name @ '' not found''))
     | Some n \<Rightarrow> Inr (BoundColumnRef n)))"

text \<open>The columns of a table reference, by name.\<close>

fun GetAllColumns :: "cte list option \<Rightarrow> table_ref \<Rightarrow> string list list result" where
  "GetAllColumns cs (BoundBaseTableRef t) = Inr (map (\<lambda>c. [GetBoundTableName t, column_name c]) (columns (bt_schema t)))"
| "GetAllColumns cs (BoundCrossProductRef l r) = rbind (GetAllColumns cs l) (\<lambda>ls. rbind (GetAllColumns cs r) (\<lambda>rs. Inr (ls @ rs)))"
| "GetAllColumns cs (BoundJoinRef jt l r e) = rbind (GetAllColumns cs l) (\<lambda>ls. rbind (GetAllColumns cs r) (\<lambda>rs. Inr (ls @ rs)))"
| "GetAllColumns cs (BoundSubqueryRef s names alias) = Inr (map ((#) alias) names)"
| "GetAllColumns cs (BoundCTERef cte_name alias) = in_cte cs cte_name (\<lambda>names cte_alias. Inr (map (\<lambda>n. (cte_alias # n)[0 := alias]) names))"
| "GetAllColumns cs t = Inl (Throw ET_INVALID ''select * cannot be used with this TableReferenceType'')"

section \<open>Binding expressions\<close>

definition BindConstant :: "PGValue \<Rightarrow> bexpr result" where
  "BindConstant val = (case val of
       PGInteger ival \<Rightarrow> check (Terminate ''value out of range'') (ival \<le> cmax I32)
         (rbind (GetIntegerValue (static_cast I32 ival)) (\<lambda>v. Inr (BoundConstant v)))
     | PGFloat str \<Rightarrow> rbind (stod str) (\<lambda>parsed. rbind (GetDecimalValue parsed) (\<lambda>v. Inr (BoundConstant v)))
     | PGString str \<Rightarrow> rbind (GetVarcharValue str) (\<lambda>v. Inr (BoundConstant v))
     | PGNull \<Rightarrow> rbind (GetNullValueByType INTEGER) (\<lambda>v. Inr (BoundConstant v))
     | PGValueOther tag \<Rightarrow> Inl (Throw ET_INVALID (''unsupported pg value: '' @ NodeTagToString tag)))"

definition field_string :: "pgfield \<Rightarrow> string result" where
  "field_string f = (case f of FieldString s \<Rightarrow> Inr s | _ \<Rightarrow> Inl Undefined)"

definition BindColumnRef :: "table_ref option \<Rightarrow> cte list option \<Rightarrow> pgfield list \<Rightarrow> bexpr result" where
  "BindColumnRef scope cs flds = (case flds of [] \<Rightarrow> Inl Undefined
     | head_node # _ \<Rightarrow> (case head_node of
         FieldString _ \<Rightarrow> rbind (rmapM field_string flds) (\<lambda>column_names.
           case scope of None \<Rightarrow> Inl Undefined | Some t \<Rightarrow> ResolveColumn cs t column_names)
       | FieldStar \<Rightarrow> Inr BoundStar
       | FieldOther tag \<Rightarrow> Inl (Throw ET_INVALID (''ColumnRef type '' @ NodeTagToString tag @ '' not implemented!''))))"

definition has_option :: "32 word \<Rightarrow> nat \<Rightarrow> bool" where
  "has_option options k \<longleftrightarrow> bit options k"

text \<open>\<open>BindWindowFrame\<close>: the boundaries of a frame, from bits of its options.\<close>

definition BindWindowFrame :: "32 word \<Rightarrow> (WindowBoundary \<times> WindowBoundary) result" where
  "BindWindowFrame options = (if has_option options 5 \<or> has_option options 6
     then Inl (Throw ET_INVALID ''Window frames starting with unbounded following or ending in unbounded preceding make no sense'')
     else let range_mode = has_option options 1 in
       Inr (if has_option options 4 then UNBOUNDED_PRECEDING
            else if has_option options 10 then if range_mode then EXPR_PRECEDING_RANGE else EXPR_PRECEDING_ROWS
            else if has_option options 12 then if range_mode then EXPR_FOLLOWING_RANGE else EXPR_FOLLOWING_ROWS
            else if has_option options 8 then if range_mode then CURRENT_ROW_RANGE else CURRENT_ROW_ROWS
            else WB_INVALID,
            if has_option options 7 then UNBOUNDED_FOLLOWING
            else if has_option options 11 then if range_mode then EXPR_PRECEDING_RANGE else EXPR_PRECEDING_ROWS
            else if has_option options 13 then if range_mode then EXPR_FOLLOWING_RANGE else EXPR_FOLLOWING_ROWS
            else if has_option options 9 then if range_mode then CURRENT_ROW_RANGE else CURRENT_ROW_ROWS
            else WB_INVALID))"

definition is_agg_name :: "string \<Rightarrow> bool" where
  "is_agg_name f \<longleftrightarrow> f \<in> set [''min'', ''max'', ''first'', ''last'', ''sum'', ''count'', ''rank'', ''row_number'']"

definition agg_name :: "string \<Rightarrow> bexpr list \<Rightarrow> string" where
  "agg_name f children = (if f = ''count'' \<and> children = [] \<or> f = ''row_number'' then ''count_star'' else f)"

definition sort_direction :: "PGSortByDir \<Rightarrow> OrderByType result" where
  "sort_direction d = (case d of PG_SORTBY_DEFAULT \<Rightarrow> Inr OB_DEFAULT | PG_SORTBY_ASC \<Rightarrow> Inr ASC | PG_SORTBY_DESC \<Rightarrow> Inr DESC
     | PG_SORTBY_USING \<Rightarrow> Inl (Throw ET_NOT_IMPLEMENTED ''unimplemented order by type''))"

definition sort_nulls :: "PGSortByNulls \<Rightarrow> OrderByNullType" where
  "sort_nulls n = (case n of PG_SORTBY_NULLS_DEFAULT \<Rightarrow> NULLS_DEFAULT | PG_SORTBY_NULLS_FIRST \<Rightarrow> NULLS_FIRST
     | PG_SORTBY_NULLS_LAST \<Rightarrow> NULLS_LAST)"

text \<open>AND and OR over more than two arguments nest to the left.\<close>

definition fold_bool :: "string \<Rightarrow> string \<Rightarrow> bexpr list \<Rightarrow> bexpr result" where
  "fold_bool op_name upper exprs = (case exprs of e0 # e1 # es \<Rightarrow> Inr (foldl (BoundBinaryOp op_name) (BoundBinaryOp op_name e0 e1) es)
     | _ \<Rightarrow> Inl (Throw ET_INVALID (upper @ '' should have at least 1 arg'')))"

definition expr_not_implemented :: "string \<Rightarrow> 'a result" where
  "expr_not_implemented tag = Inl (Throw ET_INVALID (''Expr of type '' @ NodeTagToString tag @ '' not implemented''))"

text \<open>The mutually recursive binders of expressions: \<open>BindFuncCall\<close>, \<open>BindAExpr\<close>, \<open>BindBoolExpr\<close> and \<open>BindResTarget\<close>
  are the cases of \<open>BindExpression\<close>; \<open>bind_list\<close> is the loop of \<open>BindExpressionList\<close>.\<close>

function BindExpression :: "table_ref option \<Rightarrow> cte list option \<Rightarrow> pgexpr \<Rightarrow> bexpr result"
and bind_arguments :: "table_ref option \<Rightarrow> cte list option \<Rightarrow> pgexpr list \<Rightarrow> bexpr list result"
and bind_list :: "table_ref option \<Rightarrow> cte list option \<Rightarrow> pgexpr list \<Rightarrow> bexpr list result"
and bind_sort :: "table_ref option \<Rightarrow> cte list option \<Rightarrow> pgexpr list \<Rightarrow> BoundOrderBy list result"
and BindWindowExpression :: "table_ref option \<Rightarrow> cte list option \<Rightarrow> string \<Rightarrow> bexpr list \<Rightarrow> pgwindow \<Rightarrow> bexpr result" where
  "BindExpression sc cs (PGColumnRef flds) = BindColumnRef sc cs flds"
| "BindExpression sc cs (PGAConst v) = BindConstant v"
| "BindExpression sc cs (PGResTarget name val) = (case val of None \<Rightarrow> Inl AssertFail
     | Some val \<Rightarrow> rbind (BindExpression sc cs val) (\<lambda>e. Inr (case name of Some n \<Rightarrow> BoundAlias n e | None \<Rightarrow> e)))"
| "BindExpression sc cs PGAStar = Inr BoundStar"
| "BindExpression sc cs (PGFuncCall funcname args agg_distinct over) = rbind (bind_arguments sc cs args) (\<lambda>children.
     let f = Lower funcname in
     if is_agg_name f then (case over of None \<Rightarrow> Inr (BoundAggCall (agg_name f children) agg_distinct children)
       | Some w \<Rightarrow> if agg_distinct then Inl (Throw ET_INVALID ''DISTINCT is not supported in window functions'')
           else BindWindowExpression sc cs (agg_name f children) children w)
     else Inr (BoundFuncCall f children))"
| "BindExpression sc cs (PGAExpr is_op name l r) = (if \<not> is_op then Inl (Throw ET_INVALID ''unsupported op in AExpr'')
     else case (l, r) of
       (Some l, Some r) \<Rightarrow> rbind (BindExpression sc cs l) (\<lambda>l. rbind (BindExpression sc cs r) (\<lambda>r. Inr (BoundBinaryOp name l r)))
     | (None, Some r) \<Rightarrow> rbind (BindExpression sc cs r) (\<lambda>r. Inr (BoundUnaryOp name r))
     | (Some l, None) \<Rightarrow> rbind (BindExpression sc cs l) (\<lambda>_. Inl (Throw ET_INVALID ''unsupported AExpr: left == null while right != null''))
     | (None, None) \<Rightarrow> Inl (Throw ET_INVALID ''unsupported AExpr: left == null while right != null''))"
| "BindExpression sc cs (PGBoolExpr boolop args) = (if args = [] then Inl Undefined else rbind (bind_list sc cs args) (\<lambda>exprs. case boolop of
       PG_AND_EXPR \<Rightarrow> fold_bool ''and'' ''AND'' exprs
     | PG_OR_EXPR \<Rightarrow> fold_bool ''or'' ''OR'' exprs
     | PG_NOT_EXPR \<Rightarrow> (case exprs of [e] \<Rightarrow> Inr (BoundUnaryOp ''not'' e) | _ \<Rightarrow> Inl (Throw ET_INVALID ''NOT should have 1 arg''))))"
| "BindExpression sc cs (PGSortBy d n e) = expr_not_implemented ''SortBy''"
| "BindExpression sc cs (PGOtherExpr tag) = expr_not_implemented tag"
| "bind_arguments sc cs [] = Inr []"
| "bind_arguments sc cs (e # es) = rbind (BindExpression sc cs e) (\<lambda>b. rbind (bind_arguments sc cs es) (\<lambda>bs. Inr (b # bs)))"
| "bind_list sc cs [] = Inr []"
| "bind_list sc cs (e # es) = rbind (BindExpression sc cs e) (\<lambda>b.
     if b = BoundStar then Inl (Throw ET_INVALID ''unsupported * in expression list'')
     else rbind (bind_list sc cs es) (\<lambda>bs. Inr (b # bs)))"
| "bind_sort sc cs [] = Inr []"
| "bind_sort sc cs (e # es) = (case e of
       PGSortBy dir nulls target \<Rightarrow> rbind (sort_direction dir) (\<lambda>type. case target of None \<Rightarrow> Inl AssertFail
         | Some target \<Rightarrow> rbind (BindExpression sc cs target) (\<lambda>b. rbind (bind_sort sc cs es) (\<lambda>os. Inr ((type, sort_nulls nulls, b) # os))))
     | _ \<Rightarrow> Inl (Throw ET_NOT_IMPLEMENTED ''unsupported order by node''))"
| "BindWindowExpression sc cs func_name children (PGWindowDef partition_clause order_clause start_offset end_offset options) =
     rbind (bind_list sc cs partition_clause) (\<lambda>partition_by. rbind (bind_sort sc cs order_clause) (\<lambda>sort.
     rbind (case start_offset of None \<Rightarrow> Inr None | Some e \<Rightarrow> rbind (BindExpression sc cs e) (\<lambda>b. Inr (Some b))) (\<lambda>start.
     rbind (case end_offset of None \<Rightarrow> Inr None | Some e \<Rightarrow> rbind (BindExpression sc cs e) (\<lambda>b. Inr (Some b))) (\<lambda>stop.
     rbind (BindWindowFrame options) (\<lambda>(first, lst). Inr (BoundWindow func_name children partition_by sort start stop first lst))))))"
  by pat_completeness auto
termination
  by (relation "measure (\<lambda>x. case x of Inl (Inl (_, _, e)) \<Rightarrow> size e | Inl (Inr (_, _, es)) \<Rightarrow> size_list size es
      | Inr (Inl (_, _, es)) \<Rightarrow> size_list size es | Inr (Inr (Inl (_, _, es))) \<Rightarrow> size_list size es | Inr (Inr (Inr (_, _, _, _, w))) \<Rightarrow> size w)") auto

text \<open>A list that the code walks without checking it is not null.\<close>

definition BindExpressionList :: "table_ref option \<Rightarrow> cte list option \<Rightarrow> pgexpr list \<Rightarrow> bexpr list result" where
  "BindExpressionList sc cs es = (if es = [] then Inl Undefined else bind_list sc cs es)"

section \<open>Selects and tables\<close>

text \<open>\<open>BindValuesList\<close>: its loop over the rows; the argument is the length of the first row.\<close>

fun bind_rows :: "table_ref option \<Rightarrow> cte list option \<Rightarrow> pgexpr list list \<Rightarrow> nat option \<Rightarrow> bexpr list list result" where
  "bind_rows sc cs [] len = Inr []"
| "bind_rows sc cs (target # rest) len = rbind (BindExpressionList sc cs target) (\<lambda>row.
     if len \<noteq> None \<and> len \<noteq> Some (length row) then Inl (Throw ET_INVALID ''values must have the same length'')
     else rbind (bind_rows sc cs rest (case len of None \<Rightarrow> Some (length row) | Some n \<Rightarrow> Some n)) (\<lambda>rows. Inr (row # rows)))"

definition BindValuesList :: "table_ref option \<Rightarrow> cte list option \<Rightarrow> pgexpr list list \<Rightarrow> bexpr list list result" where
  "BindValuesList sc cs rows = rbind (bind_rows sc cs rows None) (\<lambda>all_values.
     if all_values = [] then Inl (Throw ET_INVALID ''at least one row of values should be provided'') else Inr all_values)"

text \<open>The VALUES clause of a select.\<close>

definition bind_values_clause :: "cte list option \<Rightarrow> pgexpr list list \<Rightarrow> nat \<Rightarrow> (SelectStatement \<times> nat) result" where
  "bind_values_clause cs rows uid = (let name = ''__values#'' @ nat_to_string uid in
     rbind (BindValuesList None cs rows) (\<lambda>vals.
       Inr (SelectStatement (BoundExpressionListRef vals name) (map (\<lambda>i. BoundColumnRef [name, nat_to_string i]) [0..<length (hd vals)])
         BoundInvalid [] BoundInvalid BoundInvalid BoundInvalid [] [] False, uid + 1)))"

text \<open>The names that a subquery gives its columns.\<close>

fun subquery_names :: "bexpr list \<Rightarrow> nat \<Rightarrow> string list list \<times> nat" where
  "subquery_names [] uid = ([], uid)"
| "subquery_names (col # cols) uid = (let (name, uid) = (case col of
       BoundColumnRef n \<Rightarrow> (n, uid) | BoundAlias a _ \<Rightarrow> ([a], uid) | _ \<Rightarrow> ([''__item#'' @ nat_to_string uid], uid + 1));
     (names, uid) = subquery_names cols uid in (name # names, uid))"

fun bind_items :: "table_ref \<Rightarrow> cte list option \<Rightarrow> pgexpr list \<Rightarrow> bexpr list \<Rightarrow> bool \<Rightarrow> bool \<Rightarrow> bool \<Rightarrow> bexpr list result" where
  "bind_items sc cs [] sel is_select_star has_agg has_window_agg = (if has_agg \<and> has_window_agg
     then Inl (Throw ET_INVALID ''cannot have both normal agg and window agg in same query'') else Inr sel)"
| "bind_items sc cs (target # rest) sel is_select_star has_agg has_window_agg = rbind (BindExpression (Some sc) cs target) (\<lambda>e.
     if e = BoundStar then
       if sel \<noteq> [] then Inl (Throw ET_INVALID ''select * cannot have other expressions in list'')
       else rbind (GetAllColumns cs sc) (\<lambda>cols. bind_items sc cs rest (map BoundColumnRef cols) True has_agg has_window_agg)
     else if is_select_star then Inl (Throw ET_INVALID ''select * cannot have other expressions in list'')
     else rbind (HasAggregation e) (\<lambda>agg.
       bind_items sc cs rest (sel @ [e]) is_select_star (has_agg \<or> agg) (has_window_agg \<or> HasWindowFunction e)))"

definition BindSelectList :: "table_ref \<Rightarrow> cte list option \<Rightarrow> pgexpr list \<Rightarrow> bexpr list result" where
  "BindSelectList sc cs targets = bind_items sc cs targets [] False False False"

definition bind_clause :: "table_ref \<Rightarrow> cte list option \<Rightarrow> pgexpr option \<Rightarrow> bexpr result" where
  "bind_clause sc cs clause = (case clause of None \<Rightarrow> Inr BoundInvalid | Some e \<Rightarrow> BindExpression (Some sc) cs e)"

definition bind_distinct :: "pgexpr option list \<Rightarrow> bool result" where
  "bind_distinct clause = (case clause of [] \<Rightarrow> Inr False
     | target # _ \<Rightarrow> if target \<noteq> None then Inl (Throw ET_NOT_IMPLEMENTED ''DISTINCT ON is not supported'') else Inr True)"

text \<open>The clauses of a select after FROM, in the order in which they are bound.\<close>

definition bind_clauses :: "pgselect \<Rightarrow> cte list option \<Rightarrow> cte list \<Rightarrow> table_ref \<Rightarrow> SelectStatement result" where
  "bind_clauses stmt cs own table = rbind (bind_distinct (distinctClause stmt)) (\<lambda>is_dist.
     if targetList stmt = [] then Inl (Throw ET_INVALID ''no select list'')
     else rbind (BindSelectList table cs (targetList stmt)) (\<lambda>items.
     rbind (bind_clause table cs (whereClause stmt)) (\<lambda>w.
     rbind (bind_list (Some table) cs (groupClause stmt)) (\<lambda>g.
     rbind (bind_clause table cs (havingClause stmt)) (\<lambda>h.
     rbind (bind_clause table cs (limitCount stmt)) (\<lambda>lc.
     rbind (bind_clause table cs (limitOffset stmt)) (\<lambda>lo.
     rbind (bind_sort (Some table) cs (sortClause stmt)) (\<lambda>so.
       Inr (SelectStatement table items w g h lc lo so own is_dist)))))))))"

definition BindBaseTableRef :: "Catalog \<Rightarrow> string \<Rightarrow> string option \<Rightarrow> BoundBaseTable result" where
  "BindBaseTableRef catalog table_name alias = rbind (GetTable catalog table_name) (\<lambda>info. case info of
       None \<Rightarrow> Inl (Throw ET_INVALID (''invalid table '' @ table_name))
     | Some ti \<Rightarrow> Inr \<lparr> bt_table = table_name, bt_oid = ti_oid ti, bt_alias = alias, bt_schema = ti_schema ti \<rparr>)"

definition BindRangeVar :: "Catalog \<Rightarrow> cte list option \<Rightarrow> string \<Rightarrow> string option \<Rightarrow> table_ref result" where
  "BindRangeVar catalog cs relname alias = (if (case cs of None \<Rightarrow> False | Some l \<Rightarrow> relname \<in> (\<lambda>(_, _, a). a) ` set l)
     then Inr (BoundCTERef relname (case alias of Some a \<Rightarrow> a | None \<Rightarrow> relname))
     else rbind (BindBaseTableRef catalog relname alias) (\<lambda>t. Inr (BoundBaseTableRef t)))"

definition join_type :: "PGJoinType \<Rightarrow> JoinType result" where
  "join_type jt = (let bad = (\<lambda>n. Inl (Throw ET_INVALID (''Join type '' @ nat_to_string n @ '' not supported''))) in case jt of
       PG_JOIN_INNER \<Rightarrow> Inr INNER | PG_JOIN_LEFT \<Rightarrow> Inr LEFT | PG_JOIN_FULL \<Rightarrow> Inr OUTER | PG_JOIN_RIGHT \<Rightarrow> Inr RIGHT
     | PG_JOIN_SEMI \<Rightarrow> bad 4 | PG_JOIN_ANTI \<Rightarrow> bad 5 | PG_JOIN_UNIQUE_OUTER \<Rightarrow> bad 6 | PG_JOIN_UNIQUE_INNER \<Rightarrow> bad 7)"

definition name_subquery :: "string \<Rightarrow> SelectStatement \<times> nat \<Rightarrow> cte \<times> nat" where
  "name_subquery alias = (\<lambda>(s, uid). let (names, uid) = subquery_names (select_list s) uid in ((s, names, alias), uid))"

text \<open>\<open>BindSelect\<close>, \<open>BindTableRef\<close> with \<open>BindJoin\<close> and \<open>BindRangeSubselect\<close> as its cases, the loops of \<open>BindFrom\<close> and
  \<open>BindCTE\<close>.  While a WITH clause is bound, the CTEs in scope are those of the enclosing select.\<close>

function BindSelect :: "Catalog \<Rightarrow> cte list option \<Rightarrow> pgselect \<Rightarrow> nat \<Rightarrow> (SelectStatement \<times> nat) result"
and BindFrom :: "Catalog \<Rightarrow> cte list option \<Rightarrow> pgtable list \<Rightarrow> nat \<Rightarrow> (table_ref \<times> nat) result"
and bind_cross :: "Catalog \<Rightarrow> cte list option \<Rightarrow> table_ref \<Rightarrow> pgtable list \<Rightarrow> nat \<Rightarrow> (table_ref \<times> nat) result"
and BindTableRef :: "Catalog \<Rightarrow> cte list option \<Rightarrow> pgtable \<Rightarrow> nat \<Rightarrow> (table_ref \<times> nat) result"
and BindCTE :: "Catalog \<Rightarrow> cte list option \<Rightarrow> bool \<Rightarrow> pgcte list \<Rightarrow> nat \<Rightarrow> (cte list \<times> nat) result" where
  "BindSelect catalog cs stmt uid = (if valuesLists stmt \<noteq> [] then bind_values_clause cs (valuesLists stmt) uid
     else rbind (BindCTE catalog cs (with_recursive stmt) (with_ctes stmt) uid) (\<lambda>(own, uid).
       let cs = (if with_ctes stmt = [] then cs else Some own) in
       rbind (BindFrom catalog cs (fromClause stmt) uid) (\<lambda>(table, uid).
       rbind (bind_clauses stmt cs own table) (\<lambda>s. Inr (s, uid)))))"
| "BindFrom catalog cs [] uid = Inr (TableEmpty, uid)"
| "BindFrom catalog cs (node # nodes) uid = rbind (BindTableRef catalog cs node uid) (\<lambda>(left, uid). bind_cross catalog cs left nodes uid)"
| "bind_cross catalog cs left [] uid = Inr (left, uid)"
| "bind_cross catalog cs left (node # nodes) uid = rbind (BindTableRef catalog cs node uid) (\<lambda>(right, uid).
     bind_cross catalog cs (BoundCrossProductRef left right) nodes uid)"
| "BindTableRef catalog cs (PGRangeVar relname alias) uid = rbind (BindRangeVar catalog cs relname alias) (\<lambda>t. Inr (t, uid))"
| "BindTableRef catalog cs (PGJoinExpr jt larg rarg quals) uid = rbind (join_type jt) (\<lambda>jt.
     rbind (BindTableRef catalog cs larg uid) (\<lambda>(left, uid). rbind (BindTableRef catalog cs rarg uid) (\<lambda>(right, uid).
     case quals of None \<Rightarrow> Inl AssertFail
     | Some e \<Rightarrow> rbind (BindExpression (Some (BoundJoinRef jt left right BoundInvalid)) cs e) (\<lambda>condition.
         Inr (BoundJoinRef jt left right condition, uid)))))"
| "BindTableRef catalog cs (PGRangeSubselect lateral subquery alias) uid =
     (if lateral then Inl (Throw ET_NOT_IMPLEMENTED ''LATERAL in subquery is not supported'')
      else let (alias, uid) = (case alias of Some a \<Rightarrow> (a, uid) | None \<Rightarrow> (''__subquery#'' @ nat_to_string uid, uid + 1)) in
        rbind (BindSelect catalog cs subquery uid) (\<lambda>r. let ((s, names, alias), uid) = name_subquery alias r in
          Inr (BoundSubqueryRef s names alias, uid)))"
| "BindTableRef catalog cs (PGOtherTable tag) uid = Inl (Throw ET_INVALID (''unsupported node type: '' @ NodeTagToString tag))"
| "BindCTE catalog cs recursive [] uid = Inr ([], uid)"
| "BindCTE catalog cs recursive (PGCommonTableExpr ctename cterecursive ctequery # rest) uid = (case ctequery of
       None \<Rightarrow> Inl (Throw ET_INVALID ''SELECT not found'')
     | Some query \<Rightarrow> if cterecursive \<or> recursive then Inl (Throw ET_NOT_IMPLEMENTED ''recursive CTE not supported'')
         else rbind (BindSelect catalog cs query uid) (\<lambda>r. let (sub, uid) = name_subquery ctename r in
           rbind (BindCTE catalog cs recursive rest uid) (\<lambda>(subs, uid). Inr (sub # subs, uid))))"
  by pat_completeness auto
termination
  by (relation "measure (\<lambda>x. case x of Inl (Inl (_, _, s, _)) \<Rightarrow> size s | Inl (Inr (_, _, us, _)) \<Rightarrow> size_list size us
      | Inr (Inl (_, _, _, us, _)) \<Rightarrow> size_list size us | Inr (Inr (Inl (_, _, t, _))) \<Rightarrow> size t | Inr (Inr (Inr (_, _, _, cs, _))) \<Rightarrow> size_list size cs)")
    (auto, (case_tac stmt; simp)+)

section \<open>Statements\<close>

text \<open>An element of CREATE TABLE: a column with its name, whether it has a collation, the last name of its type,
  the type's modifiers and its constraints; a constraint of the table; or another node.  A constraint is a primary
  key with its columns, or another one.\<close>

datatype PGConstraint = PG_CONSTR_PRIMARY "string list" | PG_CONSTR_OTHER

datatype pgelement =
    PGColumnDef "string option" bool string "pgexpr list" "PGConstraint list"
  | PGTableConstraint PGConstraint
  | PGOtherElement

datatype PGTransactionStmtKind = PG_TRANS_STMT_BEGIN | PG_TRANS_STMT_START | PG_TRANS_STMT_COMMIT | PG_TRANS_STMT_ROLLBACK
  | PG_TRANS_STMT_SAVEPOINT | PG_TRANS_STMT_RELEASE | PG_TRANS_STMT_ROLLBACK_TO | PG_TRANS_STMT_PREPARE
  | PG_TRANS_STMT_COMMIT_PREPARED | TRANS_STMT_ROLLBACK_PREPARED

text \<open>Statements.  The booleans say whether a list is present that the binder only compares with null: the columns of
  an insert, the WITH and FROM clauses of an update.  An option of EXPLAIN is its name.\<close>

datatype pgstmt =
    PGRawStmt pgstmt
  | PGCreateStmt string "pgelement list"
  | PGInsertStmt bool string "pgselect option"
  | PGSelect pgselect
  | PGExplainStmt "string list" pgstmt
  | PGDeleteStmt string "pgexpr option"
  | PGUpdateStmt bool bool string "pgexpr option" "(string \<times> pgexpr option) list"
  | PGIndexStmt "string option" string "(string option \<times> string list) list" "string option" "(string \<times> PGValue option) list"
  | PGVariableSetStmt string "pgexpr list"
  | PGVariableShowStmt string
  | PGTransactionStmt PGTransactionStmtKind
  | PGOtherStmt string

text \<open>The maximal length of a column type, converted from \<open>int\<close> to \<open>uint32_t\<close>.\<close>

definition type_modifier :: "string \<Rightarrow> pgexpr list \<Rightarrow> nat result" where
  "type_modifier message typmods = rbind (BindExpressionList None None typmods) (\<lambda>exprs. case exprs of
       [e] \<Rightarrow> (case e of BoundConstant v \<Rightarrow> rbind (Value_ToString v) (\<lambda>s. rbind (stoi s) (\<lambda>n. Inr (nat (n mod 2 ^ 32))))
         | _ \<Rightarrow> Inl StdBadCast)
     | _ \<Rightarrow> Inl (Throw ET_INVALID message))"

definition BindColumnDefinition :: "string option \<Rightarrow> bool \<Rightarrow> string \<Rightarrow> pgexpr list \<Rightarrow> Column result" where
  "BindColumnDefinition col collClause name typmods = (let colname = (case col of Some n \<Rightarrow> n | None \<Rightarrow> []) in
     if collClause then Inl (Throw ET_NOT_IMPLEMENTED ''coll clause on column is not supported'')
     else if name = ''int4'' then Column_fixed colname INTEGER
     else if name = ''double'' then Column_fixed colname DECIMAL
     else if name = ''bool'' then Column_fixed colname BOOLEAN
     else if name = ''varchar'' then rbind (type_modifier ''should specify max length for varchar field'' typmods) (Column_varlen colname VARCHAR)
     else if name = ''vector'' then rbind (type_modifier ''should specify vector length'' typmods) (Column_varlen colname VECTOR)
     else Inl (Throw ET_NOT_IMPLEMENTED (''unsupported type: '' @ name)))"

definition set_primary_key :: "string list \<Rightarrow> PGConstraint \<Rightarrow> (string list \<Rightarrow> string list) \<Rightarrow> string list result" where
  "set_primary_key pk c keys = (case c of
       PG_CONSTR_PRIMARY ks \<Rightarrow> if pk \<noteq> [] then Inl (Throw ET_NOT_IMPLEMENTED ''cannot have two primary keys'') else Inr (keys ks)
     | PG_CONSTR_OTHER \<Rightarrow> Inl (Throw ET_NOT_IMPLEMENTED ''unsupported constraint''))"

text \<open>A table constraint starts a loop over it and all elements that follow, which it takes for constraints;
  then the elements that follow are bound as usual.\<close>

fun constraint_loop :: "pgelement list \<Rightarrow> string list \<Rightarrow> string list result" where
  "constraint_loop [] pk = Inr pk"
| "constraint_loop (e # es) pk = (case e of
       PGTableConstraint c \<Rightarrow> rbind (set_primary_key pk c (\<lambda>ks. ks)) (constraint_loop es)
     | _ \<Rightarrow> Inl Undefined)"

fun create_loop :: "pgelement list \<Rightarrow> Column list \<Rightarrow> string list \<Rightarrow> (Column list \<times> string list) result" where
  "create_loop [] cols pk = Inr (cols, pk)"
| "create_loop (e # es) cols pk = (case e of
       PGColumnDef colname coll name typmods constraints \<Rightarrow> rbind (BindColumnDefinition colname coll name typmods) (\<lambda>centry.
         rbind (rfoldM (\<lambda>pk c. set_primary_key pk c (\<lambda>_. [column_name centry])) pk constraints) (create_loop es (cols @ [centry])))
     | PGTableConstraint c \<Rightarrow> rbind (constraint_loop (e # es) pk) (create_loop es cols)
     | PGOtherElement \<Rightarrow> Inl (Throw ET_NOT_IMPLEMENTED ''ColumnDef type not handled yet''))"

definition BindCreate :: "string \<Rightarrow> pgelement list \<Rightarrow> BoundStatement result" where
  "BindCreate table elements = (if elements = [] then Inl Undefined else rbind (create_loop elements [] []) (\<lambda>(cols, pk).
     if cols = [] then Inl (Throw ET_INVALID ''should have at least 1 column'') else Inr (Create_Statement table cols pk)))"

definition index_option :: "string \<times> PGValue option \<Rightarrow> (string \<times> int) result" where
  "index_option = (\<lambda>(name, arg). case arg of Some (PGInteger v) \<Rightarrow> Inr (name, static_cast I32 v) | _ \<Rightarrow> Inl Undefined)"

definition index_column :: "BoundBaseTable \<Rightarrow> string option \<times> string list \<Rightarrow> (string list \<times> string) result" where
  "index_column t = (\<lambda>(name, opclass). case name of
       None \<Rightarrow> Inl (Throw ET_NOT_IMPLEMENTED ''create index by expr is not supported yet'')
     | Some n \<Rightarrow> rbind (ResolveColumn None (BoundBaseTableRef t) [n]) (\<lambda>e. case e of
         BoundColumnRef c \<Rightarrow> Inr (c, case opclass of [] \<Rightarrow> [] | opt # _ \<Rightarrow> opt) | _ \<Rightarrow> Inl StdBadCast))"

definition BindIndex :: "Catalog \<Rightarrow> string option \<Rightarrow> string \<Rightarrow> (string option \<times> string list) list \<Rightarrow> string option \<Rightarrow>
    (string \<times> PGValue option) list \<Rightarrow> BoundStatement result" where
  "BindIndex catalog idxname relname params accessMethod options = rbind (BindBaseTableRef catalog relname None) (\<lambda>table.
     if params = [] then Inl Undefined else rbind (rmapM (index_column table) params) (\<lambda>cols.
     let index_type = (case accessMethod of None \<Rightarrow> [] | Some m \<Rightarrow> if m = ''art'' then [] else m) in
     rbind (rmapM index_option options) (\<lambda>opts. case idxname of None \<Rightarrow> Inl Undefined
       | Some name \<Rightarrow> Inr (Index_Statement name table (map fst cols) index_type (map snd cols) opts))))"

definition BindInsert :: "Catalog \<Rightarrow> bool \<Rightarrow> string \<Rightarrow> pgselect option \<Rightarrow> nat \<Rightarrow> (BoundStatement \<times> nat) result" where
  "BindInsert catalog cols relname sel uid = (if cols then Inl (Throw ET_NOT_IMPLEMENTED ''insert only supports all columns, don't specify columns'')
     else rbind (BindBaseTableRef catalog relname None) (\<lambda>table. rbind (StartsWith (bt_table table) ''__'') (\<lambda>internal.
       if internal then Inl (Throw ET_INVALID (''invalid table for insert: '' @ bt_table table))
       else case sel of None \<Rightarrow> Inl Undefined
         | Some s \<Rightarrow> rbind (BindSelect catalog None s uid) (\<lambda>(s, uid). Inr (Insert_Statement table s, uid)))))"

definition bind_filter :: "BoundBaseTable \<Rightarrow> pgexpr option \<Rightarrow> bexpr result" where
  "bind_filter table clause = (case clause of Some e \<Rightarrow> BindExpression (Some (BoundBaseTableRef table)) None e
     | None \<Rightarrow> rbind (GetBooleanValue_bool True) (\<lambda>v. Inr (BoundConstant v)))"

definition BindDelete :: "Catalog \<Rightarrow> string \<Rightarrow> pgexpr option \<Rightarrow> BoundStatement result" where
  "BindDelete catalog relname clause = rbind (BindBaseTableRef catalog relname None) (\<lambda>table.
     rbind (bind_filter table clause) (\<lambda>e. Inr (Delete_Statement table e)))"

definition BindUpdate :: "Catalog \<Rightarrow> bool \<Rightarrow> bool \<Rightarrow> string \<Rightarrow> pgexpr option \<Rightarrow> (string \<times> pgexpr option) list \<Rightarrow> BoundStatement result" where
  "BindUpdate catalog withc fromc relname clause targets =
     (if withc then Inl (Throw ET_NOT_IMPLEMENTED ''update with clause not supported yet'')
      else if fromc then Inl (Throw ET_NOT_IMPLEMENTED ''update from clause not supported yet'')
      else rbind (BindBaseTableRef catalog relname None) (\<lambda>table. rbind (bind_filter table clause) (\<lambda>filter_expr.
        rbind (rmapM (\<lambda>(name, val). rbind (ResolveColumnRefFromBaseTableRef table [name]) (\<lambda>column.
            case val of None \<Rightarrow> Inl AssertFail
            | Some e \<Rightarrow> rbind (BindExpression (Some (BoundBaseTableRef table)) None e) (\<lambda>b. Inr (column, b)))) targets) (\<lambda>target_expr.
          Inr (Update_Statement table filter_expr target_expr)))))"

definition BindVariableSet :: "string \<Rightarrow> pgexpr list \<Rightarrow> BoundStatement result" where
  "BindVariableSet name args = rbind (BindExpressionList None None args) (\<lambda>exprs. case exprs of
       [e] \<Rightarrow> (case e of BoundConstant v \<Rightarrow> rbind (Value_ToString v) (\<lambda>s. Inr (VariableSet_Statement name s))
         | _ \<Rightarrow> Inl (Throw ET_NOT_IMPLEMENTED ''Only constant is supported''))
     | _ \<Rightarrow> Inl (Throw ET_NOT_IMPLEMENTED ''Only exactly one arg is supported''))"

definition BindTransaction :: "PGTransactionStmtKind \<Rightarrow> BoundStatement result" where
  "BindTransaction kind = (case kind of PG_TRANS_STMT_COMMIT \<Rightarrow> Inr (Transaction_Statement ''commit'')
     | PG_TRANS_STMT_ROLLBACK \<Rightarrow> Inr (Transaction_Statement ''abort'')
     | PG_TRANS_STMT_BEGIN \<Rightarrow> Inr (Transaction_Statement ''begin'')
     | _ \<Rightarrow> Inl (Throw ET_NOT_IMPLEMENTED ''unsupported txn statement kind''))"

text \<open>The options of EXPLAIN are bits: binder 1, planner 2, optimizer 4, schema 8.\<close>

definition explain_options :: "string list \<Rightarrow> nat" where
  "explain_options options = (if options = [] then 15
     else (if ''binder'' \<in> set options \<or> ''b'' \<in> set options then 1 else 0) + (if ''planner'' \<in> set options \<or> ''p'' \<in> set options then 2 else 0)
        + (if ''optimizer'' \<in> set options \<or> ''o'' \<in> set options then 4 else 0) + (if ''schema'' \<in> set options \<or> ''s'' \<in> set options then 8 else 0))"

fun BindStatement :: "Catalog \<Rightarrow> pgstmt \<Rightarrow> nat \<Rightarrow> (BoundStatement \<times> nat) result" where
  "BindStatement catalog (PGRawStmt s) uid = BindStatement catalog s uid"
| "BindStatement catalog (PGCreateStmt t els) uid = rbind (BindCreate t els) (\<lambda>s. Inr (s, uid))"
| "BindStatement catalog (PGInsertStmt cols t s) uid = BindInsert catalog cols t s uid"
| "BindStatement catalog (PGSelect s) uid = rbind (BindSelect catalog None s uid) (\<lambda>(s, uid). Inr (Select_Statement s, uid))"
| "BindStatement catalog (PGExplainStmt options q) uid = rbind (BindStatement catalog q uid) (\<lambda>(s, uid).
     Inr (Explain_Statement s (explain_options options), uid))"
| "BindStatement catalog (PGDeleteStmt t w) uid = rbind (BindDelete catalog t w) (\<lambda>s. Inr (s, uid))"
| "BindStatement catalog (PGUpdateStmt wc fc t w tgts) uid = rbind (BindUpdate catalog wc fc t w tgts) (\<lambda>s. Inr (s, uid))"
| "BindStatement catalog (PGIndexStmt n t ps m opts) uid = rbind (BindIndex catalog n t ps m opts) (\<lambda>s. Inr (s, uid))"
| "BindStatement catalog (PGVariableSetStmt n args) uid = rbind (BindVariableSet n args) (\<lambda>s. Inr (s, uid))"
| "BindStatement catalog (PGVariableShowStmt n) uid = Inr (VariableShow_Statement n, uid)"
| "BindStatement catalog (PGTransactionStmt k) uid = rbind (BindTransaction k) (\<lambda>s. Inr (s, uid))"
| "BindStatement catalog (PGOtherStmt tag) uid = Inl (Throw ET_NOT_IMPLEMENTED (NodeTagToString tag))"

end
