(* ===== verification/Printing.thy ===== *)
theory Printing
  imports Executors Binder StringUtil
begin

text \<open>
  The text of plans and of bound statements, as \<open>EXPLAIN\<close> shows it (execution/fmt_impl.cpp, the
  \<open>PlanNodeToString\<close> of include/execution/plans, binder/fmt_impl.cpp and binder/statement).  The vendored formatting
  library is a parameter: \<open>quote\<close> is how it prints an element of a range or of a tuple, and \<open>window_order\<close> is the
  order in which the map of the window functions is iterated.
\<close>

record fmt_env =
  quote :: "string \<Rightarrow> string"
  window_order :: "(nat \<times> WindowFunction) list \<Rightarrow> (nat \<times> WindowFunction) list"

definition fmt_range :: "fmt_env \<Rightarrow> string list \<Rightarrow> string" where
  "fmt_range f es = ''['' @ intercalate '', '' (map (quote f) es) @ '']''"

definition fmt_bool :: "bool \<Rightarrow> string" where
  "fmt_bool b = (if b then ''true'' else ''false'')"

section \<open>The names of enumerations\<close>

fun OrderByType_name :: "OrderByType \<Rightarrow> string" where
  "OrderByType_name OB_INVALID = ''Invalid''"
| "OrderByType_name ASC = ''Ascending''"
| "OrderByType_name DESC = ''Descending''"
| "OrderByType_name OB_DEFAULT = ''Default''"

fun OrderByNullType_name :: "OrderByNullType \<Rightarrow> string" where
  "OrderByNullType_name NULLS_DEFAULT = ''Default''"
| "OrderByNullType_name NULLS_FIRST = ''NullsFirst''"
| "OrderByNullType_name NULLS_LAST = ''NullsLast''"

fun AggregationType_name :: "AggregationType \<Rightarrow> string" where
  "AggregationType_name CountStarAggregate = ''count_star''"
| "AggregationType_name CountAggregate = ''count''"
| "AggregationType_name SumAggregate = ''sum''"
| "AggregationType_name MinAggregate = ''min''"
| "AggregationType_name MaxAggregate = ''max''"

fun WindowFunctionType_name :: "WindowFunctionType \<Rightarrow> string" where
  "WindowFunctionType_name W_CountStarAggregate = ''count_star''"
| "WindowFunctionType_name W_CountAggregate = ''count''"
| "WindowFunctionType_name W_SumAggregate = ''sum''"
| "WindowFunctionType_name W_MinAggregate = ''min''"
| "WindowFunctionType_name W_MaxAggregate = ''max''"
| "WindowFunctionType_name W_Rank = ''rank''"

section \<open>Plans\<close>

definition fmt_exprs :: "fmt_env \<Rightarrow> expr list \<Rightarrow> string result" where
  "fmt_exprs f es = rbind (rmapM expr_ToString es) (\<lambda>ss. Inr (fmt_range f ss))"

text \<open>An element of \<open>order_bys_\<close> is a tuple, printed as such.\<close>

definition fmt_order_by :: "fmt_env \<Rightarrow> OrderBy \<Rightarrow> string result" where
  "fmt_order_by f = (\<lambda>(ty, nulls, e). rbind (expr_ToString e) (\<lambda>s. Inr (''('' @ quote f (OrderByType_name ty) @ '', '' @
     quote f (OrderByNullType_name nulls) @ '', '' @ quote f s @ '')'')))"

definition fmt_order_bys :: "fmt_env \<Rightarrow> OrderBy list \<Rightarrow> string result" where
  "fmt_order_bys f os = rbind (rmapM (fmt_order_by f) os) (\<lambda>ss. Inr (''['' @ intercalate '', '' ss @ '']''))"

definition WindowFunction_ToString :: "fmt_env \<Rightarrow> WindowFunction \<Rightarrow> string result" where
  "WindowFunction_ToString f w = rbind (expr_ToString (wf_function w)) (\<lambda>a. rbind (fmt_exprs f (wf_partition_by w)) (\<lambda>p.
     rbind (fmt_order_bys f (wf_order_by w)) (\<lambda>q. Inr (''{ function_arg='' @ a @ '', type='' @ WindowFunctionType_name (wf_type w) @
       '', partition_by='' @ p @ '', order_by='' @ q @ '' }''))))"

text \<open>The columns of a window node are \<open>ColumnValueExpression\<close>s, the placeholders among them with the index \<open>-1\<close>.\<close>

definition window_column :: "expr \<Rightarrow> string result" where
  "window_column e = (case e of ColumnValueExpression t c col \<Rightarrow>
       if c = 2 ^ 32 - 1 then Inr ''placeholder, '' else rbind (expr_ToString e) (\<lambda>s. Inr (s @ '', ''))
     | _ \<Rightarrow> Inl StdBadCast)"

definition newline :: string where "newline = [CHR 0x0A]"

fun PlanNodeToString :: "fmt_env \<Rightarrow> plan_op \<Rightarrow> string result" where
  "PlanNodeToString f (SeqScanPlanNode t n None) = Inr (''SeqScan { table='' @ n @ '' }'')"
| "PlanNodeToString f (SeqScanPlanNode t n (Some p)) = rbind (expr_ToString p) (\<lambda>s. Inr (''SeqScan { table='' @ n @ '', filter='' @ s @ '' }''))"
| "PlanNodeToString f (IndexScanPlanNode t i None ks) = Inr (''IndexScan { index_oid='' @ nat_to_string i @ '' }'')"
| "PlanNodeToString f (IndexScanPlanNode t i (Some p) ks) = rbind (expr_ToString p) (\<lambda>s.
     Inr (''IndexScan { index_oid='' @ nat_to_string i @ '', filter='' @ s @ '' }''))"
| "PlanNodeToString f (InsertPlanNode t) = Inr (''Insert { table_oid='' @ nat_to_string t @ '' }'')"
| "PlanNodeToString f (UpdatePlanNode t es) = rbind (fmt_exprs f es) (\<lambda>s.
     Inr (''Update { table_oid='' @ nat_to_string t @ '', target_exprs='' @ s @ '' }''))"
| "PlanNodeToString f (DeletePlanNode t) = Inr (''Delete { table_oid='' @ nat_to_string t @ '' }'')"
| "PlanNodeToString f (AggregationPlanNode gs as tys) = rbind (fmt_exprs f as) (\<lambda>a. rbind (fmt_exprs f gs) (\<lambda>g.
     Inr (''Agg { types='' @ fmt_range f (map AggregationType_name tys) @ '', aggregates='' @ a @ '', group_by='' @ g @ '' }'')))"
| "PlanNodeToString f (LimitPlanNode n) = Inr (''Limit { limit='' @ nat_to_string n @ '' }'')"
| "PlanNodeToString f (NestedLoopJoinPlanNode p j) = rbind (expr_ToString p) (\<lambda>s.
     Inr (''NestedLoopJoin { type='' @ JoinType_name j @ '', predicate='' @ s @ '' }''))"
| "PlanNodeToString f (NestedIndexJoinPlanNode k t i index_name index_table sch j) = rbind (expr_ToString k) (\<lambda>s.
     Inr (''NestedIndexJoin { type='' @ JoinType_name j @ '', key_predicate='' @ s @ '', index='' @ index_name @
       '', index_table='' @ index_table @ '' }''))"
| "PlanNodeToString f (HashJoinPlanNode ls rs j) = rbind (fmt_exprs f ls) (\<lambda>l. rbind (fmt_exprs f rs) (\<lambda>r.
     Inr (''HashJoin { type='' @ JoinType_name j @ '', left_key='' @ l @ '', right_key='' @ r @ '' }'')))"
| "PlanNodeToString f (FilterPlanNode p) = rbind (expr_ToString p) (\<lambda>s. Inr (''Filter { predicate='' @ s @ '' }''))"
| "PlanNodeToString f (ValuesPlanNode vs) = Inr (''Values { rows='' @ nat_to_string (length vs) @ '' }'')"
| "PlanNodeToString f (ProjectionPlanNode es) = rbind (fmt_exprs f es) (\<lambda>s. Inr (''Projection { exprs='' @ s @ '' }''))"
| "PlanNodeToString f (SortPlanNode os) = rbind (fmt_order_bys f os) (\<lambda>s. Inr (''ExternalMergeSort { order_bys='' @ s @ '' }''))"
| "PlanNodeToString f (TopNPlanNode os n) = rbind (fmt_order_bys f os) (\<lambda>s.
     Inr (''TopN { n='' @ nat_to_string n @ '', order_bys='' @ s @ ''}''))"
| "PlanNodeToString f (TopNPerGroupPlanNode os gs n) = Inr ''TopNPerGroupPlan PlanNodeToString Not Implemented''"
| "PlanNodeToString f (MockScanPlanNode t) = Inr (''MockScan { table='' @ t @ '' }'')"
| "PlanNodeToString f (WindowFunctionPlanNode cs ws) = rbind (rmapM window_column cs) (\<lambda>cols.
     rbind (rmapM (\<lambda>(k, w). rbind (WindowFunction_ToString f w) (\<lambda>s. Inr (''    '' @ nat_to_string k @ ''=>'' @ s))) (window_order f ws)) (\<lambda>ms.
     Inr (''WindowFunc {'' @ newline @ ''  columns='' @ concat cols @ '','' @ newline @ ''  window_functions={'' @ newline @
       intercalate ('','' @ newline) ms @ newline @ ''  }'' @ newline @ ''}'')))"

text \<open>\<open>AbstractPlanNode::ToString\<close> and \<open>ChildrenToString\<close> with its indentation of two.\<close>

fun plan_ToString :: "fmt_env \<Rightarrow> bool \<Rightarrow> plan \<Rightarrow> string result"
and children_lines :: "fmt_env \<Rightarrow> bool \<Rightarrow> plan list \<Rightarrow> string list result" where
  "plan_ToString f with_schema (Plan s node children) = rbind (PlanNodeToString f node) (\<lambda>n.
     rbind (children_lines f with_schema children) (\<lambda>ls.
     Inr (n @ (if with_schema then '' | '' @ Schema_ToString True s else []) @
       (if children = [] then [] else newline @ intercalate newline ls))))"
| "children_lines f with_schema [] = Inr []"
| "children_lines f with_schema (p # ps) = rbind (plan_ToString f with_schema p) (\<lambda>s.
     rbind (Indent 2) (\<lambda>ind. rbind (children_lines f with_schema ps) (\<lambda>ls.
     Inr (map ((@) ind) (Split s (CHR 0x0A)) @ ls))))"

section \<open>Bound statements\<close>

definition fmt_joined :: "string list \<Rightarrow> string" where
  "fmt_joined ss = IndentAllLines (''['' @ intercalate '', '' ss @ '']'') 2 True"

fun bexpr_ToString :: "fmt_env \<Rightarrow> bexpr \<Rightarrow> string result"
and bexprs_ToString :: "fmt_env \<Rightarrow> bexpr list \<Rightarrow> string list result"
and border_bys_ToString :: "fmt_env \<Rightarrow> (OrderByType \<times> OrderByNullType \<times> bexpr) list \<Rightarrow> string list result"
and offset_ToString :: "fmt_env \<Rightarrow> bexpr option \<Rightarrow> string result" where
  "bexpr_ToString f BoundInvalid = Inr []"
| "bexpr_ToString f (BoundConstant v) = Value_ToString v"
| "bexpr_ToString f (BoundColumnRef n) = Inr (BoundColumnRef_ToString n)"
| "bexpr_ToString f (BoundAggCall name d as) = rbind (bexprs_ToString f as) (\<lambda>ss.
     Inr (name @ (if d then ''_distinct('' else ''('') @ fmt_range f ss @ '')''))"
| "bexpr_ToString f BoundStar = Inr ''*''"
| "bexpr_ToString f (BoundUnaryOp op a) = rbind (bexpr_ToString f a) (\<lambda>s. Inr (''('' @ op @ s @ '')''))"
| "bexpr_ToString f (BoundBinaryOp op l r) = rbind (bexpr_ToString f l) (\<lambda>a. rbind (bexpr_ToString f r) (\<lambda>b.
     Inr (''('' @ a @ op @ b @ '')'')))"
| "bexpr_ToString f (BoundAlias alias c) = rbind (bexpr_ToString f c) (\<lambda>s. Inr (''('' @ s @ '' as '' @ alias @ '')''))"
| "bexpr_ToString f (BoundFuncCall name as) = rbind (bexprs_ToString f as) (\<lambda>ss. Inr (name @ ''('' @ fmt_range f ss @ '')''))"
| "bexpr_ToString f (BoundWindow name as ps os so eo s e) = rbind (bexprs_ToString f ps) (\<lambda>p. rbind (border_bys_ToString f os) (\<lambda>q.
     rbind (offset_ToString f so) (\<lambda>_. rbind (offset_ToString f eo) (\<lambda>_. rbind (bexprs_ToString f as) (\<lambda>ss.
     Inr (name @ ''('' @ fmt_range f ss @ '') Over {  partition_by='' @ fmt_joined p @ '',  order_by='' @ fmt_joined q @ '' }''))))))"
| "bexprs_ToString f [] = Inr []"
| "bexprs_ToString f (e # es) = rbind (bexpr_ToString f e) (\<lambda>s. rbind (bexprs_ToString f es) (\<lambda>ss. Inr (s # ss)))"
| "border_bys_ToString f [] = Inr []"
| "border_bys_ToString f ((ty, nulls, e) # os) = rbind (bexpr_ToString f e) (\<lambda>s. rbind (border_bys_ToString f os) (\<lambda>ss.
     Inr ((''BoundOrderBy { type='' @ OrderByType_name ty @ '', nulls='' @ OrderByNullType_name nulls @ '', expr='' @ s @ '' }'') # ss)))"
| "offset_ToString f None = Inr ''None''"
| "offset_ToString f (Some e) = bexpr_ToString f e"

definition base_table_ToString :: "BoundBaseTable \<Rightarrow> string" where
  "base_table_ToString t = ''BoundBaseTableRef { table='' @ bt_table t @ '', oid='' @ nat_to_string (bt_oid t) @
     (case bt_alias t of None \<Rightarrow> [] | Some a \<Rightarrow> '', alias='' @ a) @ '' }''"

definition subquery_ToString :: "fmt_env \<Rightarrow> string \<Rightarrow> string list list \<Rightarrow> string \<Rightarrow> string" where
  "subquery_ToString f s names alias = ''BoundSubqueryRef {'' @ newline @ ''  alias='' @ alias @ '','' @ newline @ ''  subquery='' @
     IndentAllLines s 2 True @ '','' @ newline @ ''  columns='' @ fmt_range f (map (intercalate ''.'') names) @ '','' @ newline @ ''}''"

fun table_ref_ToString :: "fmt_env \<Rightarrow> table_ref \<Rightarrow> string result"
and select_ToString :: "fmt_env \<Rightarrow> SelectStatement \<Rightarrow> string result"
and ctes_ToString :: "fmt_env \<Rightarrow> (SelectStatement \<times> string list list \<times> string) list \<Rightarrow> string list result" where
  "table_ref_ToString f TableInvalid = Inr []"
| "table_ref_ToString f (BoundBaseTableRef t) = Inr (base_table_ToString t)"
| "table_ref_ToString f (BoundJoinRef j l r c) = rbind (table_ref_ToString f l) (\<lambda>a. rbind (table_ref_ToString f r) (\<lambda>b.
     rbind (bexpr_ToString f c) (\<lambda>s. Inr (''BoundJoin { type='' @ JoinType_name j @ '', left='' @ a @ '', right='' @ b @ '', condition='' @ s @ '' }''))))"
| "table_ref_ToString f (BoundCrossProductRef l r) = rbind (table_ref_ToString f l) (\<lambda>a. rbind (table_ref_ToString f r) (\<lambda>b.
     Inr (''BoundCrossProductRef { left='' @ a @ '', right='' @ b @ '' }'')))"
| "table_ref_ToString f (BoundExpressionListRef vs i) = rbind (rmapM (bexprs_ToString f) vs) (\<lambda>ss.
     Inr (''BoundExpressionListRef { identifier='' @ i @ '', values=['' @ intercalate '', '' (map (fmt_range f) ss) @ ''] }''))"
| "table_ref_ToString f (BoundSubqueryRef s names alias) = rbind (select_ToString f s) (\<lambda>t. Inr (subquery_ToString f t names alias))"
| "table_ref_ToString f (BoundCTERef n alias) = Inr (''BoundCTERef { alias='' @ alias @ '', cte='' @ n @ '' }'')"
| "table_ref_ToString f TableEmpty = Inr ''<empty>''"
| "select_ToString f (SelectStatement t items w gs h lc lo os cs d) =
     rbind (table_ref_ToString f t) (\<lambda>ts. rbind (bexprs_ToString f items) (\<lambda>is. rbind (bexprs_ToString f gs) (\<lambda>gss.
     rbind (bexpr_ToString f h) (\<lambda>hs. rbind (bexpr_ToString f w) (\<lambda>ws. rbind (bexpr_ToString f lc) (\<lambda>lcs. rbind (bexpr_ToString f lo) (\<lambda>los.
     rbind (border_bys_ToString f os) (\<lambda>oss. rbind (ctes_ToString f cs) (\<lambda>css.
     Inr (''BoundSelect {'' @ newline @ ''  table='' @ IndentAllLines ts 2 True @ '','' @ newline @ ''  columns='' @ fmt_range f is @ '','' @ newline @
       ''  groupBy='' @ fmt_range f gss @ '','' @ newline @ ''  having='' @ hs @ '','' @ newline @ ''  where='' @ ws @ '','' @ newline @
       ''  limit='' @ lcs @ '','' @ newline @ ''  offset='' @ los @ '','' @ newline @ ''  order_by='' @ fmt_range f oss @ '','' @ newline @
       ''  is_distinct='' @ fmt_bool d @ '','' @ newline @ ''  ctes='' @ IndentAllLines (intercalate ('','' @ newline) css) 2 True @ '','' @ newline @
       ''}''))))))))))"
| "ctes_ToString f [] = Inr []"
| "ctes_ToString f ((s, names, alias) # cs) = rbind (select_ToString f s) (\<lambda>t. rbind (ctes_ToString f cs) (\<lambda>ss.
     Inr (subquery_ToString f t names alias # ss)))"

text \<open>A target of an update whose column could not be resolved is a null pointer, which the formatter follows.\<close>

definition target_ToString :: "fmt_env \<Rightarrow> string list option \<times> bexpr \<Rightarrow> string result" where
  "target_ToString f = (\<lambda>(c, e). case c of None \<Rightarrow> Inl Undefined | Some n \<Rightarrow> rbind (bexpr_ToString f e) (\<lambda>s.
     Inr (''('' @ quote f (BoundColumnRef_ToString n) @ '', '' @ quote f s @ '')'')))"

fun statement_ToString :: "fmt_env \<Rightarrow> BoundStatement \<Rightarrow> string result" where
  "statement_ToString f (Select_Statement s) = select_ToString f s"
| "statement_ToString f (Insert_Statement t s) = rbind (select_ToString f s) (\<lambda>ss. Inr (''BoundInsert {'' @ newline @ ''  table='' @
     base_table_ToString t @ '','' @ newline @ ''  select='' @ IndentAllLines ss 2 False @ newline @ ''}''))"
| "statement_ToString f (Delete_Statement t e) = rbind (bexpr_ToString f e) (\<lambda>s.
     Inr (''Delete { table='' @ base_table_ToString t @ '', expr='' @ s @ '' }''))"
| "statement_ToString f (Update_Statement t e tgts) = rbind (bexpr_ToString f e) (\<lambda>s. rbind (rmapM (target_ToString f) tgts) (\<lambda>ss.
     Inr (''BoundUpdate {'' @ newline @ ''  table='' @ base_table_ToString t @ '','' @ newline @ ''  filter_expr='' @ s @ '','' @ newline @
       ''  target_expr=['' @ intercalate '', '' ss @ ''],'' @ newline @ ''}'')))"
| "statement_ToString f (Create_Statement t cs pk) = Inr (''BoundCreate {'' @ newline @ ''  table='' @ t @ newline @ ''  columns='' @
     fmt_range f (map (Column_ToString True) cs) @ newline @ ''  primary_key='' @ fmt_range f pk @ newline @ ''}'')"
| "statement_ToString f (Index_Statement n t cs ty col_options opts) = Inr (''BoundIndex { index_name='' @ n @ '', table='' @ base_table_ToString t @
     '', cols='' @ fmt_range f (map BoundColumnRef_ToString cs) @ '', using='' @ ty @ '', col_options=['' @ intercalate '','' col_options @
     ''], options=['' @ intercalate '','' (map (\<lambda>(k, v). ''('' @ quote f k @ '', '' @ to_string v @ '')'') opts) @ ''] }'')"
| "statement_ToString f (Explain_Statement s n) = rbind (statement_ToString f s) (\<lambda>ss. Inr (''BoundExplain {'' @ newline @ ''  statement='' @
     IndentAllLines ss 2 True @ '','' @ newline @ ''  options='' @ nat_to_string n @ '','' @ newline @ ''}''))"
| "statement_ToString f (VariableSet_Statement n v) = Inr (''BoundVariableSet { variable='' @ n @ '', value='' @ v @ '' }'')"
| "statement_ToString f (VariableShow_Statement n) = Inr (''BoundVariableShow { variable='' @ n @ '' }'')"
| "statement_ToString f (Transaction_Statement t) = Inr (''BoundTransaction { type='' @ t @ '' }'')"

section \<open>The layout of a plan's text\<close>

text \<open>The text of a plan without splitting and indenting again: a line for each node, in preorder, indented by its depth.\<close>

definition node_line :: "fmt_env \<Rightarrow> bool \<Rightarrow> Schema \<Rightarrow> plan_op \<Rightarrow> string result" where
  "node_line f with_schema s node = rbind (PlanNodeToString f node) (\<lambda>n. Inr (n @ (if with_schema then '' | '' @ Schema_ToString True s else [])))"

fun outline :: "fmt_env \<Rightarrow> bool \<Rightarrow> nat \<Rightarrow> plan \<Rightarrow> string list result"
and outlines :: "fmt_env \<Rightarrow> bool \<Rightarrow> nat \<Rightarrow> plan list \<Rightarrow> string list result" where
  "outline f with_schema depth (Plan s node children) = rbind (node_line f with_schema s node) (\<lambda>n.
     rbind (outlines f with_schema (Suc depth) children) (\<lambda>ls. Inr ((replicate (2 * depth) (CHR '' '') @ n) # ls)))"
| "outlines f with_schema depth [] = Inr []"
| "outlines f with_schema depth (p # ps) = rbind (outline f with_schema depth p) (\<lambda>ls.
     rbind (outlines f with_schema depth ps) (\<lambda>ms. Inr (ls @ ms)))"

text \<open>Every node prints as one line, which is not empty.\<close>

fun single_lines :: "fmt_env \<Rightarrow> bool \<Rightarrow> plan \<Rightarrow> bool" where
  "single_lines f with_schema (Plan s node children) \<longleftrightarrow>
     (\<forall>n. node_line f with_schema s node = Inr n \<longrightarrow> n \<noteq> [] \<and> CHR 0x0A \<notin> set n) \<and>
     (\<forall>p \<in> set children. single_lines f with_schema p)"

definition plain_lines :: "string list \<Rightarrow> bool" where
  "plain_lines ls \<longleftrightarrow> (\<forall>l \<in> set ls. l \<noteq> [] \<and> CHR 0x0A \<notin> set l)"

lemma Split_intercalate: "plain_lines ls \<Longrightarrow> Split (intercalate newline ls) (CHR 0x0A) = ls"
proof (induction newline ls rule: intercalate.induct)
  case (2 s)
  then show ?case by (simp add: plain_lines_def Split_none)
next
  case (3 s t r)
  then show ?case by (simp add: plain_lines_def Split_append newline_def)
qed simp

lemma outline_shift:
  "outline f ws (Suc d) p = rbind (outline f ws d p) (\<lambda>ls. Inr (map ((@) ''  '') ls))"
  "outlines f ws (Suc d) ps = rbind (outlines f ws d ps) (\<lambda>ls. Inr (map ((@) ''  '') ls))"
  by (induction f ws d p and f ws d ps rule: outline_outlines.induct)
    (auto simp: rbind_assoc intro!: rbind_cong)

lemma outline_plain:
  "single_lines f ws p \<Longrightarrow> outline f ws d p = Inr ls \<Longrightarrow> plain_lines ls \<and> ls \<noteq> []"
  "\<forall>p \<in> set ps. single_lines f ws p \<Longrightarrow> outlines f ws d ps = Inr ls \<Longrightarrow> plain_lines ls \<and> (ps \<noteq> [] \<longrightarrow> ls \<noteq> [])"
  by (induction f ws d p and f ws d ps arbitrary: ls and ls rule: outline_outlines.induct)
    (fastforce simp: plain_lines_def rbind_Inr_iff)+

lemma intercalate_Cons: "ls \<noteq> [] \<Longrightarrow> intercalate sep (l # ls) = l @ sep @ intercalate sep ls"
  by (cases ls) simp_all

lemma plan_text:
  "single_lines f ws p \<Longrightarrow> plan_ToString f ws p = rbind (outline f ws 0 p) (\<lambda>ls. Inr (intercalate newline ls))"
  "\<forall>p \<in> set ps. single_lines f ws p \<Longrightarrow> children_lines f ws ps = outlines f ws (Suc 0) ps"
proof (induction f ws p and f ws ps rule: plan_ToString_children_lines.induct)
  case (1 f ws s node children)
  then have c: "children_lines f ws children = outlines f ws (Suc 0) children" by simp
  have "(if children = [] then [] else newline @ intercalate newline ls) = (if ls = [] then [] else newline @ intercalate newline ls)"
    if "outlines f ws (Suc 0) children = Inr ls" for ls
    using outline_plain(2) [OF _ that] 1(2) that by auto
  then show ?case
    by (auto simp: c node_line_def rbind_assoc intercalate_Cons intro!: rbind_cong split: if_splits)
next
  case (3 f ws p ps)
  have "map ((@) ''  '') (Split (intercalate newline ls) (CHR 0x0A)) = map ((@) ''  '') ls" if "outline f ws 0 p = Inr ls" for ls
    using outline_plain(1) [OF _ that] 3(3) by (simp add: Split_intercalate)
  moreover have "Indent 2 = Inr ''  ''" by code_simp
  ultimately show ?case using 3
    by (auto simp: outline_shift(1) [of f ws 0 p] rbind_assoc intro!: rbind_cong)
qed simp


definition ex_fmt :: fmt_env where
  "ex_fmt = \<lparr> quote = (\<lambda>s. [CHR 0x22] @ s @ [CHR 0x22]), window_order = (\<lambda>ws. ws) \<rparr>"


end
