(* ===== verification/Planner.thy ===== *)
theory Planner
  imports Bound
begin

text \<open>
  The planner (src/planner, include/planner/planner.h): it turns a bound statement into a plan.

  \<open>AddAggCallToContext\<close> replaces aggregate calls inside the statement it plans, so every operation that
  plans a statement also returns the statement as it leaves it.  A common table expression (CTE) is
  planned anew at each reference, through a pointer to the list of the statement in scope: the lists are
  kept in a store and the pointer is an index into it.  Because a reference names its CTE, the recursion
  need not end; the number of nested expansions that the call stack has room for is a parameter, and the
  one that does not fit is undefined.
\<close>

section \<open>The planner's state\<close>

record PlannerContext =
  allow_aggregation :: bool
  next_aggregation :: nat
  aggregations :: "bexpr list"
  expr_in_agg :: "expr list"
  cte_list :: "nat option"

record Planner =
  ctx :: PlannerContext
  universal_id :: nat
  cte_store :: "cte list list"

definition PlannerContext_ctor :: PlannerContext where
  "PlannerContext_ctor = \<lparr> allow_aggregation = False, next_aggregation = 0, aggregations = [], expr_in_agg = [], cte_list = None \<rparr>"

definition Planner_ctor :: Planner where
  "Planner_ctor = \<lparr> ctx = PlannerContext_ctor, universal_id = 0, cte_store = [] \<rparr>"

text \<open>\<open>ContextGuard\<close>: a fresh context that keeps only the CTE list.  The destructor restores the old context.\<close>

definition NewContext :: "PlannerContext \<Rightarrow> PlannerContext" where
  "NewContext c = PlannerContext_ctor \<lparr> cte_list := cte_list c \<rparr>"

definition AddAggregation :: "PlannerContext \<Rightarrow> bexpr \<Rightarrow> PlannerContext result" where
  "AddAggregation c e = (if \<not> allow_aggregation c then Inl (Throw ET_INVALID ''AggCall not allowed in this position'')
     else Inr (c \<lparr> aggregations := aggregations c @ [e] \<rparr>))"

definition UNNAMED_COLUMN :: string where "UNNAMED_COLUMN = ''<unnamed>''"

section \<open>Expressions\<close>

fun duplicated :: "string \<Rightarrow> Column list \<Rightarrow> bool \<Rightarrow> bool" where
  "duplicated name [] seen = False"
| "duplicated name (c # cs) seen = (if name = column_name c then seen \<or> duplicated name cs True else duplicated name cs seen)"

definition PlanColumnRef :: "string list \<Rightarrow> plan list \<Rightarrow> (string \<times> expr) result" where
  "PlanColumnRef name children = (let col_name = BoundColumnRef_ToString name in
     case children of
       [] \<Rightarrow> Inl (Throw ET_INVALID ''column ref should have at least one child'')
     | [child] \<Rightarrow> let schema = OutputSchema child in
         if duplicated col_name (columns schema) False then Inl (Throw ET_INVALID ''duplicated column found in schema'')
         else rbind (GetColIdx schema col_name) (\<lambda>col_idx. rbind (GetColumn schema col_idx) (\<lambda>col_type.
           Inr (col_name, ColumnValueExpression 0 col_idx col_type)))
     | [left, right] \<Rightarrow> let left_schema = OutputSchema left; right_schema = OutputSchema right in
         (case (TryGetColIdx left_schema col_name, TryGetColIdx right_schema col_name) of
            (Some i, Some j) \<Rightarrow> Inl (Throw ET_INVALID (''ambiguous column name '' @ col_name))
          | (Some i, None) \<Rightarrow> rbind (GetColumn left_schema i) (\<lambda>c. Inr (col_name, ColumnValueExpression 0 i c))
          | (None, Some j) \<Rightarrow> rbind (GetColumn right_schema j) (\<lambda>c. Inr (col_name, ColumnValueExpression 1 j c))
          | (None, None) \<Rightarrow> Inl (Throw ET_INVALID (''column name '' @ col_name @ '' not found'')))
     | _ \<Rightarrow> Inl (LogicError ''no executor with expression has more than two children for now''))"

definition PlanConstant :: "Value \<Rightarrow> expr" where
  "PlanConstant v = ConstantValueExpression v"

definition not_supported :: "bexpr \<Rightarrow> 'a result" where
  "not_supported e = Inl (Throw ET_INVALID (''expression type '' @ ExpressionType_name e @ '' not supported in planner yet''))"

definition pseudo_agg :: "PlannerContext \<Rightarrow> bool \<Rightarrow> bexpr" where
  "pseudo_agg c dist = BoundAggCall (''__pseudo_agg#'' @ nat_to_string (length (aggregations c))) dist []"

text \<open>The rewritten expression and the context with the calls that were taken out of it.\<close>

fun AddAggCallToContext :: "bexpr \<Rightarrow> PlannerContext \<Rightarrow> (bexpr \<times> PlannerContext) result"
and AddAggCallToContext_list :: "bexpr list \<Rightarrow> PlannerContext \<Rightarrow> (bexpr list \<times> PlannerContext) result" where
  "AddAggCallToContext (BoundAggCall f d as) c =
     rbind (AddAggregation c (BoundAggCall f d as)) (\<lambda>c'. Inr (pseudo_agg c d, c'))"
| "AddAggCallToContext (BoundColumnRef n) c = Inr (BoundColumnRef n, c)"
| "AddAggCallToContext (BoundBinaryOp f l r) c = rbind (AddAggCallToContext l c) (\<lambda>(l, c).
     rbind (AddAggCallToContext r c) (\<lambda>(r, c). Inr (BoundBinaryOp f l r, c)))"
| "AddAggCallToContext (BoundFuncCall f as) c = rbind (AddAggCallToContext_list as c) (\<lambda>(as, c). Inr (BoundFuncCall f as, c))"
| "AddAggCallToContext (BoundConstant v) c = Inr (BoundConstant v, c)"
| "AddAggCallToContext (BoundAlias n e) c = rbind (AddAggCallToContext e c) (\<lambda>(e, c). Inr (BoundAlias n e, c))"
| "AddAggCallToContext BoundInvalid c = not_supported BoundInvalid"
| "AddAggCallToContext BoundStar c = not_supported BoundStar"
| "AddAggCallToContext (BoundUnaryOp f a) c = not_supported (BoundUnaryOp f a)"
| "AddAggCallToContext (BoundWindow f as ps os s e b1 b2) c = not_supported (BoundWindow f as ps os s e b1 b2)"
| "AddAggCallToContext_list [] c = Inr ([], c)"
| "AddAggCallToContext_list (e # es) c = rbind (AddAggCallToContext e c) (\<lambda>(e, c).
     rbind (AddAggCallToContext_list es c) (\<lambda>(es, c). Inr (e # es, c)))"

text \<open>\<open>PlanExpression\<close>, with \<open>PlanBinaryOp\<close> and \<open>PlanFuncCall\<close> in its cases for binary operators and function
  calls; planning an aggregate call takes the next of the columns prepared for them.\<close>

fun PlanExpression :: "bexpr \<Rightarrow> plan list \<Rightarrow> PlannerContext \<Rightarrow> ((string \<times> expr) \<times> PlannerContext) result"
and PlanArguments :: "bexpr list \<Rightarrow> plan list \<Rightarrow> PlannerContext \<Rightarrow> (expr list \<times> PlannerContext) result" where
  "PlanExpression (BoundAggCall f d as) children c =
     (if next_aggregation c \<ge> length (expr_in_agg c) then Inl (Throw ET_INVALID ''unexpected agg call'')
      else Inr ((UNNAMED_COLUMN, expr_in_agg c ! next_aggregation c), c \<lparr> next_aggregation := next_aggregation c + 1 \<rparr>))"
| "PlanExpression (BoundColumnRef n) children c = rbind (PlanColumnRef n children) (\<lambda>r. Inr (r, c))"
| "PlanExpression (BoundBinaryOp op_name larg rarg) children c =
     rbind (PlanExpression larg children c) (\<lambda>((_, left), c).
     rbind (PlanExpression rarg children c) (\<lambda>((_, right), c).
     rbind (GetBinaryExpressionFromFactory op_name left right) (\<lambda>e. Inr ((UNNAMED_COLUMN, e), c))))"
| "PlanExpression (BoundFuncCall f as) children c =
     rbind (PlanArguments as children c) (\<lambda>(args, c).
     rbind (if f = ''construct_array'' then Inr (ArrayExpression args) else GetFuncCallFromFactory f args) (\<lambda>e.
       Inr ((UNNAMED_COLUMN, e), c)))"
| "PlanExpression (BoundConstant v) children c = Inr ((UNNAMED_COLUMN, PlanConstant v), c)"
| "PlanExpression (BoundAlias n e) children c = rbind (PlanExpression e children c) (\<lambda>((_, e), c). Inr ((n, e), c))"
| "PlanExpression (BoundWindow f as ps os s e b1 b2) children c = Inl (Throw ET_INVALID ''should not parse window expressions here'')"
| "PlanExpression BoundInvalid children c = not_supported BoundInvalid"
| "PlanExpression BoundStar children c = not_supported BoundStar"
| "PlanExpression (BoundUnaryOp f a) children c = not_supported (BoundUnaryOp f a)"
| "PlanArguments [] children c = Inr ([], c)"
| "PlanArguments (e # es) children c = rbind (PlanExpression e children c) (\<lambda>((_, e), c).
     rbind (PlanArguments es children c) (\<lambda>(es, c). Inr (e # es, c)))"

text \<open>A list of expressions with the names they give to their columns.\<close>

fun PlanNamed :: "bexpr list \<Rightarrow> plan list \<Rightarrow> PlannerContext \<Rightarrow> ((string \<times> expr) list \<times> PlannerContext) result" where
  "PlanNamed [] children c = Inr ([], c)"
| "PlanNamed (e # es) children c = rbind (PlanExpression e children c) (\<lambda>(ne, c).
     rbind (PlanNamed es children c) (\<lambda>(nes, c). Inr (ne # nes, c)))"

text \<open>Naming the columns of a select list: \<open>universal_id_\<close> numbers those without a name.\<close>

fun name_columns :: "string list \<Rightarrow> nat \<Rightarrow> string list \<times> nat" where
  "name_columns [] n = ([], n)"
| "name_columns (x # xs) n = (if x = UNNAMED_COLUMN
     then let (ys, m) = name_columns xs (n + 1) in ((''__unnamed#'' @ nat_to_string n) # ys, m)
     else let (ys, m) = name_columns xs n in (x # ys, m))"

definition make_projection :: "expr list \<Rightarrow> string list \<Rightarrow> plan \<Rightarrow> plan result" where
  "make_projection exprs names child = rbind (InferProjectionSchema exprs) (\<lambda>s. rbind (RenameSchema s names) (\<lambda>s'.
     Inr (Plan s' (ProjectionPlanNode exprs) [child])))"

section \<open>Aggregations\<close>

definition PlanAggCall :: "bexpr \<Rightarrow> plan list \<Rightarrow> PlannerContext \<Rightarrow> (AggregationType \<times> expr list) result" where
  "PlanAggCall agg_call children c = (case agg_call of
       BoundAggCall func_name dist args \<Rightarrow>
         if dist then Inl (Throw ET_NOT_IMPLEMENTED ''distinct agg is not implemented yet'')
         else rbind (PlanArguments args children (NewContext c)) (\<lambda>(exprs, _). GetAggCallFromFactory func_name exprs)
     | _ \<Rightarrow> Inl (Throw ET_NOT_IMPLEMENTED ''alias for agg call is not supported for now''))"

text \<open>The input expressions and types of the aggregate calls in the context.\<close>

fun plan_agg_calls :: "bexpr list \<Rightarrow> plan \<Rightarrow> PlannerContext \<Rightarrow> (expr \<times> AggregationType) list result" where
  "plan_agg_calls [] child c = Inr []"
| "plan_agg_calls (item # items) child c = rbind (PlanAggCall item [child] c) (\<lambda>(agg_type, exprs).
     rbind (case exprs of [] \<Rightarrow> rbind (GetIntegerValue 1) (\<lambda>v. Inr (ConstantValueExpression v))
       | [e] \<Rightarrow> Inr e | _ \<Rightarrow> Inl (Throw ET_NOT_IMPLEMENTED ''only agg call of zero/one arg is supported'')) (\<lambda>e.
       rbind (plan_agg_calls items child c) (\<lambda>rest. Inr ((e, agg_type) # rest))))"

definition agg_column :: "nat \<Rightarrow> expr result" where
  "agg_column i = rbind (Column_fixed ''<agg_result>'' INTEGER) (\<lambda>c. Inr (ColumnValueExpression 0 i c))"

definition PlanSelectAgg :: "SelectStatement \<Rightarrow> plan \<Rightarrow> PlannerContext \<Rightarrow> (plan \<times> SelectStatement) result" where
  "PlanSelectAgg statement child c0 = (let c = (NewContext c0) \<lparr> allow_aggregation := True \<rparr> in
     rbind (PlanNamed (group_by statement) [child] c) (\<lambda>(groups, c).
     rbind (if IsInvalid (having statement) then Inr (having statement, c) else AddAggCallToContext (having statement) c) (\<lambda>(hav, c).
     rbind (AddAggCallToContext_list (select_list statement) c) (\<lambda>(items, c).
     rbind (plan_agg_calls (aggregations c) child c) (\<lambda>aggs.
     rbind (rmapM agg_column (map ((+) (length groups)) [0..<length aggs])) (\<lambda>agg_cols.
     let c = c \<lparr> expr_in_agg := agg_cols \<rparr>;
         group_by_exprs = map snd groups; input_exprs = map fst aggs; types = map snd aggs;
         output_col_names = map fst groups @ map (\<lambda>i. ''agg#'' @ nat_to_string i) [0..<length aggs] in
     rbind (InferAggSchema group_by_exprs input_exprs types) (\<lambda>s.
     rbind (RenameSchema s output_col_names) (\<lambda>s'.
     let plan = Plan s' (AggregationPlanNode group_by_exprs input_exprs types) [child] in
     rbind (if IsInvalid hav then Inr (plan, c)
       else rbind (PlanExpression hav [plan] c) (\<lambda>((_, e), c). Inr (Plan (OutputSchema plan) (FilterPlanNode e) [plan], c))) (\<lambda>(plan, c).
     rbind (PlanNamed items [plan] c) (\<lambda>(cols, c).
     rbind (make_projection (map snd cols) (map fst cols) plan) (\<lambda>p.
       Inr (p, case statement of SelectStatement t _ w g _ lc lo so ct d \<Rightarrow> SelectStatement t items w g hav lc lo so ct d))))))))))))"

section \<open>Window functions\<close>

fun same_order :: "OrderBy list \<Rightarrow> OrderBy list \<Rightarrow> bool result" where
  "same_order ((t1, n1, e1) # os) ((t2, n2, e2) # ps) = (if t2 \<noteq> t1 \<or> n2 \<noteq> n1 then Inr False
     else rbind (expr_ToString e2) (\<lambda>s2. rbind (expr_ToString e1) (\<lambda>s1. if s2 \<noteq> s1 then Inr False else same_order os ps)))"
| "same_order os ps = Inr (os = [] \<and> ps = [])"

definition CheckOrderByCompatible :: "OrderBy list list \<Rightarrow> unit result" where
  "CheckOrderByCompatible order_by_exprs = (case order_by_exprs of [] \<Rightarrow> Inr ()
     | first # _ \<Rightarrow> rfoldM (\<lambda>_ o1. rbind (if length o1 \<noteq> length first then Inr False else same_order first o1) (\<lambda>ok.
         if ok then Inr () else Inl (Throw ET_INVALID ''order by clause of window functions are not compatible''))) () order_by_exprs)"

fun plan_order_bys :: "BoundOrderBy list \<Rightarrow> plan \<Rightarrow> PlannerContext \<Rightarrow> (OrderBy list \<times> PlannerContext) result" where
  "plan_order_bys [] child c = Inr ([], c)"
| "plan_order_bys ((ty, nulls, e) # os) child c = rbind (PlanExpression e [child] c) (\<lambda>((_, e), c).
     rbind (plan_order_bys os child c) (\<lambda>(os, c). Inr ((ty, nulls, e) # os, c)))"

text \<open>One window call: its partition, order and argument expressions and its type.\<close>

definition plan_window_call :: "bexpr \<Rightarrow> plan \<Rightarrow> PlannerContext \<Rightarrow>
    ((expr list \<times> OrderBy list \<times> expr \<times> WindowFunctionType) \<times> PlannerContext) result" where
  "plan_window_call window_item child c = (case window_item of
       BoundWindow func_name args partition_by order_bys s e first lst \<Rightarrow>
         if first \<noteq> UNBOUNDED_PRECEDING \<or> (lst \<noteq> CURRENT_ROW_ROWS \<and> lst \<noteq> CURRENT_ROW_RANGE)
         then Inl (Throw ET_INVALID ''BusTub currently only support window function with default window frame settings'')
         else rbind (PlanArguments partition_by [child] c) (\<lambda>(ps, c).
           if func_name = ''rank'' \<and> order_bys = [] then Inl (Throw ET_INVALID ''order by clause is mandatory for rank function'')
           else rbind (plan_order_bys order_bys child c) (\<lambda>(os, c).
             rbind (PlanArguments args [child] c) (\<lambda>(raw_args, c).
             rbind (GetWindowAggCallFromFactory func_name raw_args) (\<lambda>(ty, clean_args).
             rbind (case clean_args of [] \<Rightarrow> rbind (GetIntegerValue 1) (\<lambda>v. Inr (ConstantValueExpression v))
               | [a] \<Rightarrow> Inr a | _ \<Rightarrow> Inl (Throw ET_NOT_IMPLEMENTED ''only agg call of zero/one arg is supported'')) (\<lambda>arg.
               Inr ((ps, os, arg, ty), c))))))
     | _ \<Rightarrow> Inl StdBadCast)"

record window_plan =
  wp_columns :: "expr list"
  wp_names :: "string list"
  wp_indexes :: "nat list"
  wp_calls :: "(expr list \<times> OrderBy list \<times> expr \<times> WindowFunctionType) list"

text \<open>The column of a window call is a placeholder with index \<open>uint32_t(-1)\<close>.\<close>

fun plan_window_items :: "bexpr list \<Rightarrow> nat \<Rightarrow> plan \<Rightarrow> PlannerContext \<Rightarrow> nat \<Rightarrow> (window_plan \<times> PlannerContext \<times> nat) result" where
  "plan_window_items [] i child c uid = Inr (\<lparr> wp_columns = [], wp_names = [], wp_indexes = [], wp_calls = [] \<rparr>, c, uid)"
| "plan_window_items (item # items) i child c uid =
     (if \<not> HasWindowFunction item then
        rbind (PlanExpression item [child] c) (\<lambda>((name, e), c).
          let (name, uid) = (if name = UNNAMED_COLUMN then (''__unnamed#'' @ nat_to_string uid, uid + 1) else (name, uid)) in
          rbind (plan_window_items items (i + 1) child c uid) (\<lambda>(w, c, uid).
            Inr (w \<lparr> wp_columns := e # wp_columns w, wp_names := name # wp_names w \<rparr>, c, uid)))
      else rbind (Column_fixed ''<placeholder>'' INTEGER) (\<lambda>col.
        rbind (case item of BoundAlias n e \<Rightarrow> Inr (n, e, uid)
          | BoundWindow f as ps os s e b1 b2 \<Rightarrow> Inr (''__unnamed#'' @ nat_to_string uid, item, uid + 1)
          | _ \<Rightarrow> Inl AssertFail) (\<lambda>(name, window_item, uid).
        rbind (plan_window_call window_item child c) (\<lambda>(call, c).
        rbind (plan_window_items items (i + 1) child c uid) (\<lambda>(w, c, uid).
          Inr (w \<lparr> wp_columns := ColumnValueExpression 0 4294967295 col # wp_columns w, wp_names := name # wp_names w,
                   wp_indexes := i # wp_indexes w, wp_calls := call # wp_calls w \<rparr>, c, uid))))))"

definition PlanSelectWindow :: "SelectStatement \<Rightarrow> plan \<Rightarrow> PlannerContext \<Rightarrow> nat \<Rightarrow> (plan \<times> PlannerContext \<times> nat) result" where
  "PlanSelectWindow statement child c uid =
     rbind (plan_window_items (select_list statement) 0 child c uid) (\<lambda>(w, c, uid).
     let calls = wp_calls w; order_by_exprs = map (\<lambda>(ps, os, a, ty). os) calls in
     rbind (CheckOrderByCompatible order_by_exprs) (\<lambda>_.
     rbind (InferWindowSchema (wp_columns w)) (\<lambda>s.
     rbind (RenameSchema s (wp_names w)) (\<lambda>s'.
     rbind (WindowFunctionPlanNode_ctor s' child (wp_indexes w) (wp_columns w) (map (\<lambda>(ps, os, a, ty). ps) calls) order_by_exprs
       (map (\<lambda>(ps, os, a, ty). a) calls) (map (\<lambda>(ps, os, a, ty). ty) calls)) (\<lambda>p. Inr (p, c, uid))))))"

section \<open>Table references without subqueries\<close>

definition PlanBaseTableRef :: "Catalog \<Rightarrow> BoundBaseTable \<Rightarrow> plan result" where
  "PlanBaseTableRef catalog t = rbind (GetTable catalog (bt_table t)) (\<lambda>info. case info of
       None \<Rightarrow> Inl AssertFail
     | Some table \<Rightarrow> rbind (StartsWith (ti_name table) ''__'') (\<lambda>internal.
         let s = InferScanSchema (GetBoundTableName t) (bt_schema t) in
         if internal then rbind (StartsWith (ti_name table) ''__mock'') (\<lambda>mock.
           if mock then Inr (Plan s (MockScanPlanNode (ti_name table)) [])
           else Inl (Throw ET_INVALID (''unsupported internal table: '' @ ti_name table)))
         else Inr (Plan s (SeqScanPlanNode (ti_oid table) (ti_name table) None) [])))"

definition make_join :: "plan \<Rightarrow> plan \<Rightarrow> expr \<Rightarrow> JoinType \<Rightarrow> plan" where
  "make_join left right e jt = Plan (InferJoinSchema left right) (NestedLoopJoinPlanNode e jt) [left, right]"

fun plan_rows_of_values :: "bexpr list list \<Rightarrow> PlannerContext \<Rightarrow> (expr list list \<times> PlannerContext) result" where
  "plan_rows_of_values [] c = Inr ([], c)"
| "plan_rows_of_values (row # rows) c = rbind (PlanArguments row [] c) (\<lambda>(es, c).
     rbind (plan_rows_of_values rows c) (\<lambda>(ess, c). Inr (es # ess, c)))"

definition PlanExpressionListRef :: "bexpr list list \<Rightarrow> string \<Rightarrow> PlannerContext \<Rightarrow> (plan \<times> PlannerContext) result" where
  "PlanExpressionListRef rows identifier c = rbind (plan_rows_of_values rows c) (\<lambda>(all_exprs, c).
     rbind (at all_exprs 0) (\<lambda>first_row.
     rbind (rmapM (\<lambda>(idx, col). rbind (GetReturnType col) (\<lambda>ty. Inr (WithColumnName ty (identifier @ ''.'' @ nat_to_string idx))))
       (enumerate 0 first_row)) (\<lambda>cols. Inr (Plan (Schema_ctor cols) (ValuesPlanNode all_exprs) [], c))))"

section \<open>The clauses of a select\<close>

definition empty_from :: plan where
  "empty_from = Plan (Schema_ctor []) (ValuesPlanNode [[]]) []"

definition column_refs :: "Schema \<Rightarrow> expr list" where
  "column_refs s = map (\<lambda>(i, col). ColumnValueExpression 0 i col) (enumerate 0 (columns s))"

definition plan_where :: "bexpr \<Rightarrow> plan \<Rightarrow> PlannerContext \<Rightarrow> (plan \<times> PlannerContext) result" where
  "plan_where w plan c = (if IsInvalid w then Inr (plan, c)
     else rbind (PlanExpression w [plan] c) (\<lambda>((_, e), c). Inr (Plan (OutputSchema plan) (FilterPlanNode e) [plan], c)))"

fun scan_aggs :: "bexpr list \<Rightarrow> (bool \<times> bool) result" where
  "scan_aggs [] = Inr (False, False)"
| "scan_aggs (item # items) = rbind (HasAggregation item) (\<lambda>agg. if agg then Inr (True, False)
     else if HasWindowFunction item then Inr (False, True) else scan_aggs items)"

definition plan_normal_select :: "bexpr list \<Rightarrow> plan \<Rightarrow> PlannerContext \<Rightarrow> nat \<Rightarrow> (plan \<times> PlannerContext \<times> nat) result" where
  "plan_normal_select items plan c uid = rbind (PlanNamed items [plan] c) (\<lambda>(cols, c).
     let (names, uid) = name_columns (map fst cols) uid in
     rbind (make_projection (map snd cols) names plan) (\<lambda>p. Inr (p, c, uid)))"

definition plan_distinct :: "bool \<Rightarrow> plan \<Rightarrow> plan" where
  "plan_distinct dist child = (if dist
     then Plan (OutputSchema child) (AggregationPlanNode (column_refs (OutputSchema child)) [] []) [child] else child)"

definition plan_sort :: "BoundOrderBy list \<Rightarrow> plan \<Rightarrow> PlannerContext \<Rightarrow> (plan \<times> PlannerContext) result" where
  "plan_sort sorts plan c = (if sorts = [] then Inr (plan, c)
     else rbind (plan_order_bys sorts plan c) (\<lambda>(os, c). Inr (Plan (OutputSchema plan) (SortPlanNode os) [plan], c)))"

text \<open>The value of a LIMIT or OFFSET clause; the \<open>int32_t\<close> is converted to a \<open>size_t\<close>.\<close>

definition limit_value :: "string \<Rightarrow> bexpr \<Rightarrow> nat option result" where
  "limit_value clause e = (if IsInvalid e then Inr None else (case e of
       BoundConstant v \<Rightarrow> rbind (CastAs v INTEGER) (\<lambda>_. if GetTypeId v = INTEGER then Inr (Some (nat (GetAs I32 v mod 2 ^ 64)))
         else Inl (Throw ET_NOT_IMPLEMENTED (clause @ '' clause must be an integer constant.'')))
     | _ \<Rightarrow> Inl (Throw ET_NOT_IMPLEMENTED (clause @ '' clause must be an integer constant.''))))"

definition plan_limit :: "bexpr \<Rightarrow> bexpr \<Rightarrow> plan \<Rightarrow> plan result" where
  "plan_limit cnt offset plan = (if IsInvalid cnt \<and> IsInvalid offset then Inr plan
     else rbind (limit_value ''LIMIT'' cnt) (\<lambda>limit. rbind (limit_value ''OFFSET'' offset) (\<lambda>off.
       if off \<noteq> None then Inl (Throw ET_NOT_IMPLEMENTED ''OFFSET clause is not supported yet.'')
       else Inr (case limit of None \<Rightarrow> plan | Some n \<Rightarrow> Plan (OutputSchema plan) (LimitPlanNode n) [plan]))))"

text \<open>The select list of a statement over the planned FROM and WHERE clauses.\<close>

definition plan_items :: "SelectStatement \<Rightarrow> plan \<Rightarrow> PlannerContext \<Rightarrow> nat \<Rightarrow> (plan \<times> SelectStatement \<times> PlannerContext \<times> nat) result" where
  "plan_items statement plan c uid = rbind (scan_aggs (select_list statement)) (\<lambda>(has_agg, has_window_agg).
     if has_window_agg then
       if \<not> IsInvalid (having statement) then Inl (Throw ET_INVALID ''HAVING on window function is not supported yet.'')
       else if group_by statement \<noteq> [] then Inl (Throw ET_INVALID ''Group by is not allowed to use with window function.'')
       else rbind (PlanSelectWindow statement plan c uid) (\<lambda>(p, c, uid). Inr (p, statement, c, uid))
     else if \<not> IsInvalid (having statement) \<or> group_by statement \<noteq> [] \<or> has_agg then
       rbind (PlanSelectAgg statement plan c) (\<lambda>(p, statement). Inr (p, statement, c, uid))
     else rbind (plan_normal_select (select_list statement) plan c uid) (\<lambda>(p, c, uid). Inr (p, statement, c, uid)))"

text \<open>Everything after the FROM clause.\<close>

definition plan_clauses :: "SelectStatement \<Rightarrow> plan \<Rightarrow> Planner \<Rightarrow> (plan \<times> SelectStatement \<times> Planner) result" where
  "plan_clauses statement plan st = rbind (plan_where (sel_where statement) plan (ctx st)) (\<lambda>(plan, c).
     rbind (plan_items statement plan c (universal_id st)) (\<lambda>(plan, statement, c, uid).
     let plan = plan_distinct (is_distinct statement) plan in
     rbind (plan_sort (sel_sort statement) plan c) (\<lambda>(plan, c).
     rbind (plan_limit (limit_count statement) (limit_offset statement) plan) (\<lambda>plan.
       Inr (plan, statement, st \<lparr> ctx := c, universal_id := uid \<rparr>)))))"

text \<open>Entering a select: a new context, with the statement's own CTEs in scope when it has any; and
  leaving it.\<close>

definition enter_select :: "SelectStatement \<Rightarrow> Planner \<Rightarrow> Planner" where
  "enter_select statement st = (let c = NewContext (ctx st) in
     if ctes statement = [] then st \<lparr> ctx := c \<rparr>
     else st \<lparr> ctx := c \<lparr> cte_list := Some (length (cte_store st)) \<rparr>, cte_store := cte_store st @ [ctes statement] \<rparr>)"

definition leave_select :: "SelectStatement \<Rightarrow> Planner \<Rightarrow> table_ref \<Rightarrow> SelectStatement \<Rightarrow> Planner \<Rightarrow> SelectStatement \<times> Planner" where
  "leave_select entered st0 table statement st = (case statement of SelectStatement t l w g h lc lo so ct d \<Rightarrow>
     (SelectStatement table l w g h lc lo so (if ctes entered = [] then ct else last (cte_store st)) d,
      st \<lparr> ctx := ctx st0, cte_store := (if ctes entered = [] then cte_store st else butlast (cte_store st)) \<rparr>))"

definition subquery_projection :: "plan \<Rightarrow> string list list \<Rightarrow> string \<Rightarrow> plan result" where
  "subquery_projection select_node names alias =
     rbind (rmapM (\<lambda>i. rbind (at names i) (\<lambda>n. Inr (alias @ ''.'' @ intercalate ''.'' n)))
       [0..<length (columns (OutputSchema select_node))]) (\<lambda>output_column_names.
     make_projection (column_refs (OutputSchema select_node)) output_column_names select_node)"

fun find_cte :: "string \<Rightarrow> cte list \<Rightarrow> nat option" where
  "find_cte name [] = None"
| "find_cte name ((s, names, alias) # cs) = (if alias = name then Some 0 else map_option Suc (find_cte name cs))"

definition update_cte :: "nat \<Rightarrow> nat \<Rightarrow> SelectStatement \<Rightarrow> Planner \<Rightarrow> Planner" where
  "update_cte k j sel st = st \<lparr> cte_store := (cte_store st)[k := (cte_store st ! k)[j := (sel, snd (cte_store st ! k ! j))]] \<rparr>"

section \<open>Selects and table references\<close>

lemma size_sel_table: "size (sel_table statement) < size statement"
  by (cases statement) simp

function (sequential) PlanSelect :: "Catalog \<Rightarrow> nat \<Rightarrow> SelectStatement \<Rightarrow> Planner \<Rightarrow> (plan \<times> SelectStatement \<times> Planner) result"
and PlanTableRef :: "Catalog \<Rightarrow> nat \<Rightarrow> table_ref \<Rightarrow> Planner \<Rightarrow> (plan \<times> table_ref \<times> Planner) result"
and PlanCTERef :: "Catalog \<Rightarrow> nat \<Rightarrow> string \<Rightarrow> string \<Rightarrow> Planner \<Rightarrow> (plan \<times> Planner) result" where
  "PlanSelect catalog room statement st0 = (let st = enter_select statement st0 in
     rbind (if sel_table statement = TableEmpty then Inr (empty_from, TableEmpty, st)
            else PlanTableRef catalog room (sel_table statement) st) (\<lambda>(plan, table, st).
     rbind (plan_clauses statement plan st) (\<lambda>(plan, statement', st).
       Inr (plan, leave_select statement st0 table statement' st))))"
| "PlanTableRef catalog room (BoundBaseTableRef t) st =
     rbind (PlanBaseTableRef catalog t) (\<lambda>p. Inr (p, BoundBaseTableRef t, st))"
| "PlanTableRef catalog room (BoundCrossProductRef l r) st =
     rbind (PlanTableRef catalog room l st) (\<lambda>(left, l, st). rbind (PlanTableRef catalog room r st) (\<lambda>(right, r, st).
     rbind (GetBooleanValue_bool True) (\<lambda>true. Inr (make_join left right (ConstantValueExpression true) INNER, BoundCrossProductRef l r, st))))"
| "PlanTableRef catalog room (BoundJoinRef jt l r condition) st =
     rbind (PlanTableRef catalog room l st) (\<lambda>(left, l, st). rbind (PlanTableRef catalog room r st) (\<lambda>(right, r, st).
     rbind (PlanExpression condition [left, right] (ctx st)) (\<lambda>((_, e), c).
       Inr (make_join left right e jt, BoundJoinRef jt l r condition, st \<lparr> ctx := c \<rparr>))))"
| "PlanTableRef catalog room (BoundExpressionListRef rows identifier) st =
     rbind (PlanExpressionListRef rows identifier (ctx st)) (\<lambda>(p, c). Inr (p, BoundExpressionListRef rows identifier, st \<lparr> ctx := c \<rparr>))"
| "PlanTableRef catalog room (BoundSubqueryRef sel names alias) st =
     rbind (PlanSelect catalog room sel st) (\<lambda>(p, sel, st). rbind (subquery_projection p names alias) (\<lambda>p.
       Inr (p, BoundSubqueryRef sel names alias, st)))"
| "PlanTableRef catalog room (BoundCTERef name alias) st =
     rbind (PlanCTERef catalog room name alias st) (\<lambda>(p, st). Inr (p, BoundCTERef name alias, st))"
| "PlanTableRef catalog room t st =
     Inl (Throw ET_INVALID (''the table ref type '' @ TableReferenceType_name t @ '' is not supported in planner yet''))"
| "PlanCTERef catalog room name alias st = (case cte_list (ctx st) of None \<Rightarrow> Inl Undefined
     | Some k \<Rightarrow> rbind (at (cte_store st) k) (\<lambda>cs. case find_cte name cs of None \<Rightarrow> Inl (LogicError ''CTE not found'')
       | Some j \<Rightarrow> (case room of 0 \<Rightarrow> Inl Undefined
         | Suc room' \<Rightarrow> (case cs ! j of (sel, names, _) \<Rightarrow>
             rbind (PlanSelect catalog room' sel st) (\<lambda>(p, sel, st). rbind (subquery_projection p names alias) (\<lambda>p.
               Inr (p, update_cte k j sel st)))))))"
  by pat_completeness auto
termination
  by (relation "measures [\<lambda>x. case x of Inl (_, room, s, _) \<Rightarrow> room | Inr (Inl (_, room, t, _)) \<Rightarrow> room | Inr (Inr (_, room, _)) \<Rightarrow> room,
      \<lambda>x. case x of Inl (_, _, s, _) \<Rightarrow> Suc (size s) | Inr (Inl (_, _, t, _)) \<Rightarrow> Suc (size t) | Inr (Inr _) \<Rightarrow> 0]")
    (auto simp: size_sel_table)

section \<open>Other statements\<close>

definition one_column :: "string \<Rightarrow> Schema result" where
  "one_column name = rbind (Column_fixed name INTEGER) (\<lambda>c. Inr (Schema_ctor [c]))"

definition PlanInsert :: "Catalog \<Rightarrow> nat \<Rightarrow> BoundBaseTable \<Rightarrow> SelectStatement \<Rightarrow> Planner \<Rightarrow> plan result" where
  "PlanInsert catalog room t sel st = rbind (PlanSelect catalog room sel st) (\<lambda>(select_node, _, _).
     if map column_type (columns (bt_schema t)) \<noteq> map column_type (columns (OutputSchema select_node))
     then Inl (Throw ET_INVALID ''table schema mismatch'')
     else rbind (one_column ''__bustub_internal.insert_rows'') (\<lambda>s. Inr (Plan s (InsertPlanNode (bt_oid t)) [select_node])))"

definition PlanDelete :: "Catalog \<Rightarrow> nat \<Rightarrow> BoundBaseTable \<Rightarrow> bexpr \<Rightarrow> Planner \<Rightarrow> plan result" where
  "PlanDelete catalog room t e st = rbind (PlanTableRef catalog room (BoundBaseTableRef t) st) (\<lambda>(table, _, st).
     rbind (PlanExpression e [table] (ctx st)) (\<lambda>((_, condition), _).
     rbind (one_column ''__bustub_internal.delete_rows'') (\<lambda>s.
       Inr (Plan s (DeletePlanNode (bt_oid t)) [Plan (OutputSchema table) (FilterPlanNode condition) [table]]))))"

text \<open>The loop over the assignments of an update fills the target expressions; a null column reference
  is dereferenced.\<close>

fun plan_targets :: "(string list option \<times> bexpr) list \<Rightarrow> plan \<Rightarrow> PlannerContext \<Rightarrow> expr option list \<Rightarrow> expr option list result" where
  "plan_targets [] filter_node c targets = Inr targets"
| "plan_targets ((col, target_expr) # rest) filter_node c targets =
     rbind (PlanExpression target_expr [filter_node] c) (\<lambda>((_, e), c).
     rbind (case col of None \<Rightarrow> Inl Undefined | Some n \<Rightarrow> PlanColumnRef n [filter_node]) (\<lambda>(_, col_expr).
     rbind (case col_expr of ColumnValueExpression _ i _ \<Rightarrow> Inr i | _ \<Rightarrow> Inl Undefined) (\<lambda>i.
     rbind (at targets i) (\<lambda>_. plan_targets rest filter_node c (targets[i := Some e])))))"

definition PlanUpdate :: "Catalog \<Rightarrow> nat \<Rightarrow> BoundBaseTable \<Rightarrow> bexpr \<Rightarrow> (string list option \<times> bexpr) list \<Rightarrow> Planner \<Rightarrow> plan result" where
  "PlanUpdate catalog room t filter_expr target_exprs st = rbind (PlanTableRef catalog room (BoundBaseTableRef t) st) (\<lambda>(table, _, st).
     rbind (PlanExpression filter_expr [table] (ctx st)) (\<lambda>((_, condition), c).
     let filter_node = Plan (OutputSchema table) (FilterPlanNode condition) [table] in
     rbind (plan_targets target_exprs filter_node c (replicate (GetColumnCount (OutputSchema filter_node)) None)) (\<lambda>targets.
     rbind (rmapM (\<lambda>(i, e). case e of Some e \<Rightarrow> Inr e
         | None \<Rightarrow> rbind (GetColumn (OutputSchema filter_node) i) (\<lambda>col. Inr (ColumnValueExpression 0 i col))) (enumerate 0 targets)) (\<lambda>exprs.
     rbind (one_column ''__bustub_internal.update_rows'') (\<lambda>s. Inr (Plan s (UpdatePlanNode (bt_oid t) exprs) [filter_node]))))))"

definition PlanQuery :: "Catalog \<Rightarrow> nat \<Rightarrow> BoundStatement \<Rightarrow> plan result" where
  "PlanQuery catalog room statement = (let st = Planner_ctor in case statement of
       Select_Statement s \<Rightarrow> rbind (PlanSelect catalog room s st) (\<lambda>(p, _, _). Inr p)
     | Insert_Statement t s \<Rightarrow> PlanInsert catalog room t s st
     | Delete_Statement t e \<Rightarrow> PlanDelete catalog room t e st
     | Update_Statement t e tgts \<Rightarrow> PlanUpdate catalog room t e tgts st
     | _ \<Rightarrow> Inl (Throw ET_INVALID (''the statement '' @ StatementType_name statement @ '' is not supported in planner yet'')))"

definition MakeOutputSchema :: "(string \<times> TypeId) list \<Rightarrow> Schema result" where
  "MakeOutputSchema exprs = rbind (rmapM (\<lambda>(col_name, ty). if ty \<noteq> VARCHAR then Column_fixed col_name ty
     else Column_varlen col_name ty 128) exprs) (\<lambda>cols. Inr (Schema_ctor cols))"

end
