(* ===== verification/PlanSemantics.thy ===== *)
theory PlanSemantics
  imports Planner
begin

text \<open>
  What bound queries mean, and that the plans that the planner makes of them compute it: \<open>beval\<close> gives a bound
  expression its value with columns looked up by name, \<open>sem_select\<close> and \<open>sem_ref\<close> give selects and table
  references their rows, over the rows of the base tables.
\<close>

section \<open>What a bound expression means\<close>

text \<open>A binary operator on values, and the value of an expression whose columns are looked up by name.  The
  flag is that of \<open>eval_with\<close>: arrays over the two rows of a join.\<close>

definition op_value :: "string \<Rightarrow> Value \<Rightarrow> Value \<Rightarrow> Value result" where
  "op_value op a b =
     (if op = ''='' \<or> op = ''=='' then rbind (PerformComparison Equal a b) GetBooleanValue_cmp
      else if op = ''!='' \<or> op = ''<>'' then rbind (PerformComparison NotEqual a b) GetBooleanValue_cmp
      else if op = ''<'' then rbind (PerformComparison LessThan a b) GetBooleanValue_cmp
      else if op = ''<='' then rbind (PerformComparison LessThanOrEqual a b) GetBooleanValue_cmp
      else if op = ''>'' then rbind (PerformComparison GreaterThan a b) GetBooleanValue_cmp
      else if op = ''>='' then rbind (PerformComparison GreaterThanOrEqual a b) GetBooleanValue_cmp
      else if op = ''+'' then integer_or_null (Arithmetic_PerformComputation Plus a b)
      else if op = ''-'' then integer_or_null (Arithmetic_PerformComputation Minus a b)
      else if op = ''and'' then GetBooleanValue_cmp (Logic_PerformComputation And a b)
      else if op = ''or'' then GetBooleanValue_cmp (Logic_PerformComputation Or a b)
      else Inl Undefined)"

fun beval :: "(string \<Rightarrow> Value result) \<Rightarrow> bool \<Rightarrow> bexpr \<Rightarrow> Value result"
and beval_list :: "(string \<Rightarrow> Value result) \<Rightarrow> bool \<Rightarrow> bexpr list \<Rightarrow> double list result" where
  "beval env j (BoundConstant v) = Inr v"
| "beval env j (BoundColumnRef n) = env (BoundColumnRef_ToString n)"
| "beval env j (BoundBinaryOp op l r) = rbind (beval env j l) (\<lambda>a. rbind (beval env j r) (\<lambda>b. op_value op a b))"
| "beval env j (BoundAlias n e) = beval env j e"
| "beval env j (BoundFuncCall f es) = rbind (beval_list env j es) (\<lambda>ds.
     GetVectorValue ((if j then replicate (length es) 0 else []) @ ds))"
| "beval env j e = Inl Undefined"
| "beval_list env j [] = Inr []"
| "beval_list env j (e # es) = rbind (beval env j e) (\<lambda>v. rbind (array_element v) (\<lambda>d.
     rbind (beval_list env j es) (\<lambda>ds. Inr (d # ds))))"

lemma binary_factory_eval:
  assumes "GetBinaryExpressionFromFactory op l r = Inr e"
  shows "eval_with f j e = rbind (eval_with f j l) (\<lambda>a. rbind (eval_with f j r) (\<lambda>b. op_value op a b))"
  using assms
  by (simp add: GetBinaryExpressionFromFactory_def op_value_def ArithmeticExpression_ctor_def LogicExpression_ctor_def
      split: if_splits) (auto simp: rbind_Inr_iff not_implemented_def split: if_splits)

lemma PlanColumnRef_shape: "PlanColumnRef n children = Inr (nm, pe) \<Longrightarrow> \<exists>t i col. pe = ColumnValueExpression t i col"
  by (auto simp: rbind_Inr_iff PlanColumnRef_def Let_def split: list.splits if_splits option.splits)

text \<open>Planning keeps the meaning, when the columns of the planned expression are those of the names.\<close>

definition resolves :: "plan list \<Rightarrow> (nat \<Rightarrow> nat \<Rightarrow> Value result) \<Rightarrow> (string \<Rightarrow> Value result) \<Rightarrow> bool" where
  "resolves children f env \<longleftrightarrow> (\<forall>n nm t i col. PlanColumnRef n children = Inr (nm, ColumnValueExpression t i col) \<longrightarrow>
     f t i = env (BoundColumnRef_ToString n))"

lemma PlanExpression_eval_aux:
  shows "PlanExpression e children c = Inr ((nm, pe), c') \<Longrightarrow> resolves children f env \<Longrightarrow> expr_in_agg c = [] \<Longrightarrow>
      eval_with f j pe = beval env j e \<and> c' = c"
    and "PlanArguments es children c = Inr (pes, c') \<Longrightarrow> resolves children f env \<Longrightarrow> expr_in_agg c = [] \<Longrightarrow>
      eval_list f j pes = beval_list env j es \<and> c' = c \<and> length pes = length es"
proof (induction e children c and es children c arbitrary: nm pe c' and pes c' rule: PlanExpression_PlanArguments.induct)
  case (2 n children c)
  then have r: "PlanColumnRef n children = Inr (nm, pe)" "c' = c" by (auto simp: rbind_Inr_iff)
  then obtain t i col where "pe = ColumnValueExpression t i col" using PlanColumnRef_shape by blast
  then show ?case using 2(2) r unfolding resolves_def by simp
qed (auto simp: rbind_Inr_iff PlanConstant_def not_supported_def GetFuncCallFromFactory_def binary_factory_eval split: if_splits)

text \<open>Columns by name: in one row, where the name must be unique; and in the two rows of a join, the first
  match on the left or on the right.\<close>

definition schema_names :: "Schema \<Rightarrow> string list" where
  "schema_names s = map column_name (columns s)"

fun index_of :: "string \<Rightarrow> string list \<Rightarrow> nat option" where
  "index_of n [] = None"
| "index_of n (x # xs) = (if x = n then Some 0 else map_option Suc (index_of n xs))"

definition row_env :: "string list \<Rightarrow> row \<Rightarrow> string \<Rightarrow> Value result" where
  "row_env names row n = (if count_list names n = 1 then (case index_of n names of Some i \<Rightarrow> at row i | None \<Rightarrow> Inl Undefined)
     else Inl Undefined)"

definition join_env :: "string list \<Rightarrow> string list \<Rightarrow> row \<Rightarrow> row \<Rightarrow> string \<Rightarrow> Value result" where
  "join_env ls rs l r n = (case (index_of n ls, index_of n rs) of
     (Some i, None) \<Rightarrow> at l i | (None, Some i) \<Rightarrow> at r i | _ \<Rightarrow> Inl Undefined)"

lemma TryGetColIdx_names: "TryGetColIdx s n = index_of n (schema_names s)"
proof -
  have "find_col n cs i = map_option ((+) i) (index_of n (map column_name cs))" for cs i
  proof (induction cs arbitrary: i)
    case (Cons c cs)
    then show ?case by (cases "index_of n (map column_name cs)") auto
  qed simp
  then show ?thesis by (cases "index_of n (schema_names s)") (auto simp: TryGetColIdx_def schema_names_def)
qed

lemma duplicated_count: "duplicated n cs seen \<longleftrightarrow> (if seen then 1 else 2) \<le> count_list (map column_name cs) n"
proof (induction cs arbitrary: seen)
  case (Cons c cs)
  show ?case by (cases "column_name c = n"; cases seen) (simp_all add: Cons.IH)
qed simp

lemma index_of_bounds: "index_of n xs = Some i \<Longrightarrow> i < length xs \<and> xs ! i = n"
  by (induction xs arbitrary: i) (auto split: if_splits)

lemma index_of_None: "index_of n xs = None \<longleftrightarrow> n \<notin> set xs"
  by (induction xs) auto

lemma PlanColumnRef_single:
  assumes "PlanColumnRef n [child] = Inr (nm, ColumnValueExpression t i col)"
  shows "at row i = row_env (schema_names (OutputSchema child)) row (BoundColumnRef_ToString n)"
    "col \<in> set (columns (OutputSchema child))" "nm = BoundColumnRef_ToString n" "t = 0"
proof -
  let ?n = "BoundColumnRef_ToString n" and ?names = "schema_names (OutputSchema child)"
  have i: "index_of ?n ?names = Some i" "\<not> duplicated ?n (columns (OutputSchema child)) False" "GetColumn (OutputSchema child) i = Inr col"
    "nm = ?n" "t = 0"
    using assms by (auto simp: PlanColumnRef_def Let_def GetColIdx_def TryGetColIdx_names rbind_Inr_iff split: if_splits option.splits)
  have "count_list ?names ?n < 2" using i(2) by (simp add: duplicated_count schema_names_def)
  moreover have "?n \<in> set ?names" using index_of_bounds [OF i(1)] nth_mem by metis
  then have "count_list ?names ?n \<noteq> 0" by (simp add: count_list_0_iff)
  ultimately have "count_list ?names ?n = 1" by linarith
  then show "at row i = row_env ?names row ?n" using i(1) by (simp add: row_env_def)
  show "col \<in> set (columns (OutputSchema child))" using i(3) by (auto simp: GetColumn_def at_Inr_iff)
  show "nm = ?n" "t = 0" using i by simp_all
qed

lemma PlanColumnRef_join:
  assumes "PlanColumnRef n [left, right] = Inr (nm, ColumnValueExpression t i col)"
  shows "(if t = 0 then at l i else at r i) =
    join_env (schema_names (OutputSchema left)) (schema_names (OutputSchema right)) l r (BoundColumnRef_ToString n)"
  using assms by (auto simp: PlanColumnRef_def Let_def TryGetColIdx_names rbind_Inr_iff join_env_def split: option.splits)

text \<open>Planning an expression over one child keeps its meaning: on every row of the child, the planned
  expression evaluates to the value, or the failure, that the bound expression has when each of its column
  names stands for the value of the only column with that name.\<close>

lemma PlanExpression_row:
  assumes "PlanExpression e [child] c = Inr ((nm, pe), c')" "expr_in_agg c = []"
  shows "eval_row row pe = beval (row_env (schema_names (OutputSchema child)) row) False e" "c' = c"
  using PlanExpression_eval_aux(1) [of e "[child]" c nm pe c' "\<lambda>t i. at row i" "row_env (schema_names (OutputSchema child)) row" False]
    PlanColumnRef_single(1) assms by (auto simp: eval_row_def resolves_def)

lemma PlanExpression_join:
  assumes "PlanExpression e [left, right] c = Inr ((nm, pe), c')" "expr_in_agg c = []"
  shows "eval_join l r pe = beval (join_env (schema_names (OutputSchema left)) (schema_names (OutputSchema right)) l r) True e" "c' = c"
  using PlanExpression_eval_aux(1) [of e "[left, right]" c nm pe c' "\<lambda>t i. if t = 0 then at l i else at r i"
      "join_env (schema_names (OutputSchema left)) (schema_names (OutputSchema right)) l r" True]
    PlanColumnRef_join assms by (auto simp: eval_join_def resolves_def)

lemma PlanArguments_const:
  assumes "PlanArguments es [] c = Inr (pes, c')" "expr_in_agg c = []"
  shows "rmapM (eval_row []) pes = rmapM (beval (\<lambda>_. Inl Undefined) False) es" "c' = c" "length pes = length es"
proof -
  have ev: "eval_row [] pe = beval (\<lambda>_. Inl Undefined) False e \<and> c2 = c1"
    if "PlanExpression e [] c1 = Inr ((nm, pe), c2)" "expr_in_agg c1 = []" for e nm pe c1 c2
    using PlanExpression_eval_aux(1) [of e "[]" c1 nm pe c2 "\<lambda>t i. at [] i" "\<lambda>_. Inl Undefined" False] that
    by (auto simp: eval_row_def PlanColumnRef_def resolves_def)
  have "rmapM (eval_row []) pes = rmapM (beval (\<lambda>_. Inl Undefined) False) es \<and> c' = c \<and> length pes = length es"
    using assms
  proof (induction es arbitrary: pes c c')
    case (Cons e es)
    then obtain nm pe c1 pes' where 1: "PlanExpression e [] c = Inr ((nm, pe), c1)" "PlanArguments es [] c1 = Inr (pes', c')" "pes = pe # pes'"
      by (auto simp: rbind_Inr_iff)
    from ev [OF 1(1) Cons.prems(2)] Cons.IH [of c1 pes' c'] 1(2,3) Cons.prems(2) show ?case by simp
  qed simp
  then show "rmapM (eval_row []) pes = rmapM (beval (\<lambda>_. Inl Undefined) False) es" "c' = c" "length pes = length es" by simp_all
qed

section \<open>What a select means\<close>

definition base_rows :: "Catalog \<Rightarrow> (nat \<Rightarrow> row list result) \<Rightarrow> (plan_op \<Rightarrow> row list list \<Rightarrow> row list result) \<Rightarrow> BoundBaseTable \<Rightarrow> row list result" where
  "base_rows catalog table other t = rbind (PlanBaseTableRef catalog t) (plan_rows table other)"

definition bound_holds :: "(string \<Rightarrow> Value result) \<Rightarrow> bool \<Rightarrow> bexpr \<Rightarrow> bool result" where
  "bound_holds env j e = rbind (beval env j e) (\<lambda>v. Inr (holds_value v))"

text \<open>The rows of a select and the named columns and rows of a table reference, over the rows of the base
  tables: WHERE filters the rows of the FROM clause and the select list is computed for each row left.\<close>

fun sem_select :: "(BoundBaseTable \<Rightarrow> row list result) \<Rightarrow> SelectStatement \<Rightarrow> row list result"
and sem_ref :: "(BoundBaseTable \<Rightarrow> row list result) \<Rightarrow> table_ref \<Rightarrow> (string list \<times> row list) result" where
  "sem_select base (SelectStatement t items w g h lc lo so ct d) =
     rbind (if t = TableEmpty then Inr ([], [[]]) else sem_ref base t) (\<lambda>(names, rows).
     rbind (if IsInvalid w then Inr rows else rfilterM (\<lambda>row. bound_holds (row_env names row) False w) rows) (\<lambda>rows.
       rmapM (\<lambda>row. rmapM (beval (row_env names row) False) items) rows))"
| "sem_ref base (BoundBaseTableRef t) = rbind (base t) (\<lambda>rows.
     Inr (map (\<lambda>c. GetBoundTableName t @ ''.'' @ column_name c) (columns (bt_schema t)), rows))"
| "sem_ref base (BoundCrossProductRef l r) = rbind (sem_ref base l) (\<lambda>(nl, ls). rbind (sem_ref base r) (\<lambda>(nr, rs).
     Inr (nl @ nr, map (\<lambda>(l, r). l @ r) (pairs ls rs))))"
| "sem_ref base (BoundJoinRef jt l r e) = rbind (sem_ref base l) (\<lambda>(nl, ls). rbind (sem_ref base r) (\<lambda>(nr, rs).
     rbind (rfilterM (\<lambda>(l, r). bound_holds (join_env nl nr l r) True e) (pairs ls rs)) (\<lambda>ps.
       Inr (nl @ nr, map (\<lambda>(l, r). l @ r) ps))))"
| "sem_ref base (BoundExpressionListRef rows ident) = rbind (rmapM (rmapM (beval (\<lambda>_. Inl Undefined) False)) rows) (\<lambda>vals.
     Inr (map (\<lambda>i. ident @ ''.'' @ nat_to_string i) [0..<length (hd rows)], vals))"
| "sem_ref base (BoundSubqueryRef s names alias) = rbind (sem_select base s) (\<lambda>rows.
     Inr (map (\<lambda>n. alias @ ''.'' @ intercalate ''.'' n) (take (length (select_list s)) names), rows))"
| "sem_ref base t = Inl Undefined"

text \<open>Selects without aggregation, window functions, DISTINCT, ORDER BY, LIMIT and CTEs, over inner joins.\<close>

fun plain_select :: "SelectStatement \<Rightarrow> bool" and plain_ref :: "table_ref \<Rightarrow> bool" where
  "plain_select (SelectStatement t items w g h lc lo so ct d) \<longleftrightarrow> (t = TableEmpty \<or> plain_ref t) \<and> scan_aggs items = Inr (False, False) \<and>
     g = [] \<and> IsInvalid h \<and> IsInvalid lc \<and> IsInvalid lo \<and> so = [] \<and> ct = [] \<and> \<not> d"
| "plain_ref (BoundBaseTableRef t) \<longleftrightarrow> True"
| "plain_ref (BoundCrossProductRef l r) \<longleftrightarrow> plain_ref l \<and> plain_ref r"
| "plain_ref (BoundJoinRef jt l r e) \<longleftrightarrow> jt = INNER \<and> plain_ref l \<and> plain_ref r"
| "plain_ref (BoundExpressionListRef rows ident) \<longleftrightarrow> True"
| "plain_ref (BoundSubqueryRef s names alias) \<longleftrightarrow> plain_select s"
| "plain_ref t \<longleftrightarrow> False"

section \<open>The planner is correct\<close>

lemma schema_loop_names:
  "map column_name (columns (schema_loop cs i off s)) = map column_name (columns s) @ map column_name cs"
  by (induction cs arbitrary: i off s) (simp_all add: Let_def)

lemma schema_names_ctor [simp]: "schema_names (Schema_ctor cs) = map column_name cs"
  by (simp add: schema_names_def Schema_ctor_def schema_loop_names)

lemma length_columns_names: "length (columns s) = length (schema_names s)"
  by (simp add: schema_names_def)

lemma make_projection_shape:
  assumes "make_projection es names child = Inr p" "length names = length es"
  shows "\<exists>s. p = Plan s (ProjectionPlanNode es) [child] \<and> schema_names s = names"
proof -
  obtain s1 cs s where 1: "rmapM (\<lambda>e. rbind (GetReturnType e) (\<lambda>c. Inr (WithColumnName c ''<unnamed>''))) es = Inr cs"
    "s1 = Schema_ctor cs" "RenameSchema s1 names = Inr s" "p = Plan s (ProjectionPlanNode es) [child]"
    using assms(1) by (auto simp: make_projection_def InferProjectionSchema_def rbind_Inr_iff)
  have "length (columns s1) = length names" using 1(1,2) assms(2) by (simp add: rmapM_Inr_iff length_columns_names)
  then have "schema_names s = names" using 1(3)
    by (auto simp: RenameSchema_def Column_rename_def split: if_splits intro!: nth_equalityI)
  then show ?thesis using 1(4) by blast
qed

lemma PlanNamed_rows:
  assumes "PlanNamed items [child] c = Inr (cols, c')" "expr_in_agg c = []"
  shows "c' = c \<and> length cols = length items \<and>
    (\<forall>row. rmapM (eval_row row) (map snd cols) = rmapM (beval (row_env (schema_names (OutputSchema child)) row) False) items)"
  using assms
proof (induction items arbitrary: cols c c')
  case (Cons e es)
  then obtain nm pe c1 cols' where 1: "PlanExpression e [child] c = Inr ((nm, pe), c1)" "PlanNamed es [child] c1 = Inr (cols', c')"
    "cols = (nm, pe) # cols'"
    by (auto simp: rbind_Inr_iff)
  from PlanExpression_row [OF 1(1) Cons.prems(2)] Cons.IH [of c1 cols' c'] 1(2,3) Cons.prems(2) show ?case by simp
qed simp

lemma name_columns_length: "name_columns xs n = (ys, m) \<Longrightarrow> length ys = length xs"
  by (induction xs arbitrary: n ys m) (auto simp: Let_def split: if_splits prod.splits)

lemma plan_normal_select_rows:
  assumes "plan_normal_select items child c uid = Inr (p, c', uid')" "expr_in_agg c = []"
  shows "c' = c \<and> length (columns (OutputSchema p)) = length items \<and> plan_rows table other p =
    rbind (plan_rows table other child) (rmapM (\<lambda>row. rmapM (beval (row_env (schema_names (OutputSchema child)) row) False) items))"
proof -
  obtain cols c1 where 0: "PlanNamed items [child] c = Inr (cols, c1)"
    using assms(1) by (auto simp: plan_normal_select_def rbind_Inr_iff)
  obtain names uid1 where n: "name_columns (map fst cols) uid = (names, uid1)" by force
  then have 1: "PlanNamed items [child] c = Inr (cols, c')" "name_columns (map fst cols) uid = (names, uid')"
    "make_projection (map snd cols) names child = Inr p"
    using assms(1) 0 by (auto simp: plan_normal_select_def rbind_Inr_iff Let_def)
  note cols = PlanNamed_rows [OF 1(1) assms(2)]
  have "length names = length (map snd cols)" using name_columns_length [OF 1(2)] by simp
  then obtain s where p: "p = Plan s (ProjectionPlanNode (map snd cols)) [child]" "schema_names s = names"
    using make_projection_shape [OF 1(3)] by blast
  have "plan_rows table other p = rbind (plan_rows table other child) (rmapM (\<lambda>row. rmapM (eval_row row) (map snd cols)))"
    by (simp add: p(1) node_rows_def rbind_assoc)
  also have "(\<lambda>row. rmapM (eval_row row) (map snd cols)) = (\<lambda>row. rmapM (beval (row_env (schema_names (OutputSchema child)) row) False) items)"
    using cols by blast
  finally show ?thesis using cols p name_columns_length [OF 1(2)] by (simp add: length_columns_names)
qed

lemma plan_where_rows:
  assumes "plan_where w child c = Inr (p, c')" "expr_in_agg c = []"
  shows "c' = c \<and> OutputSchema p = OutputSchema child \<and> plan_rows table other p = rbind (plan_rows table other child) (\<lambda>rows.
    if IsInvalid w then Inr rows else rfilterM (\<lambda>row. bound_holds (row_env (schema_names (OutputSchema child)) row) False w) rows)"
proof (cases "IsInvalid w")
  case True
  then show ?thesis using assms by (simp add: plan_where_def)
next
  case False
  then obtain nm e where e: "PlanExpression w [child] c = Inr ((nm, e), c')" "p = Plan (OutputSchema child) (FilterPlanNode e) [child]"
    using assms(1) by (auto simp: plan_where_def rbind_Inr_iff)
  have "row_holds e = (\<lambda>row. bound_holds (row_env (schema_names (OutputSchema child)) row) False w)"
    using PlanExpression_row(1) [OF e(1) assms(2)] by (simp add: row_holds_def bound_holds_def fun_eq_iff)
  then show ?thesis using e PlanExpression_row(2) [OF e(1) assms(2)] False by (simp add: node_rows_def rbind_assoc)
qed

lemma column_refs_row:
  assumes "length row = length (columns s)" shows "rmapM (eval_row row) (column_refs s) = Inr row"
  using assms by (simp add: rmapM_Inr_iff column_refs_def eval_row_def nth_enumerate_eq)

lemma subquery_projection_shape:
  assumes "subquery_projection p names alias = Inr q"
  shows "\<exists>s. q = Plan s (ProjectionPlanNode (column_refs (OutputSchema p))) [p] \<and>
    schema_names s = map (\<lambda>n. alias @ ''.'' @ intercalate ''.'' n) (take (length (columns (OutputSchema p))) names)"
proof -
  let ?n = "length (columns (OutputSchema p))"
  obtain out where out: "rmapM (\<lambda>i. rbind (at names i) (\<lambda>n. Inr (alias @ ''.'' @ intercalate ''.'' n))) [0..<?n] = Inr out"
    "make_projection (column_refs (OutputSchema p)) out p = Inr q"
    using assms by (auto simp: subquery_projection_def rbind_Inr_iff)
  have len: "length out = ?n" "?n \<le> length names" and nth: "\<forall>i < ?n. out ! i = alias @ ''.'' @ intercalate ''.'' (names ! i)"
    using out(1) by (auto simp: rmapM_Inr_iff rbind_Inr_iff at_Inr_iff intro: leI)
  then have "out = map (\<lambda>n. alias @ ''.'' @ intercalate ''.'' n) (take ?n names)" by (intro nth_equalityI) auto
  then show ?thesis using make_projection_shape [OF out(2)] len(1) by (auto simp: column_refs_def)
qed

lemma subquery_projection_names:
  "subquery_projection p names alias = Inr q \<Longrightarrow>
    schema_names (OutputSchema q) = map (\<lambda>n. alias @ ''.'' @ intercalate ''.'' n) (take (length (columns (OutputSchema p))) names)"
  using subquery_projection_shape by fastforce

lemma subquery_projection_rows:
  assumes "subquery_projection p names alias = Inr q"
    and "\<And>rows row. plan_rows table other p = Inr rows \<Longrightarrow> row \<in> set rows \<Longrightarrow> length row = length (columns (OutputSchema p))"
  shows "plan_rows table other q = plan_rows table other p"
proof -
  obtain s where q: "q = Plan s (ProjectionPlanNode (column_refs (OutputSchema p))) [p]" using subquery_projection_shape [OF assms(1)] by blast
  have "rmapM (\<lambda>row. rmapM (eval_row row) (column_refs (OutputSchema p))) rows = Inr rows" if "plan_rows table other p = Inr rows" for rows
    using assms(2) [OF that] by (subst rmapM_Inr_map [where g = "\<lambda>x. x"]) (auto simp: column_refs_row)
  then show ?thesis by (cases "plan_rows table other p") (simp_all add: q node_rows_def)
qed

lemma sem_select_width: "sem_select base s = Inr rows \<Longrightarrow> row \<in> set rows \<Longrightarrow> length row = length (select_list s)"
  by (cases s) (auto simp: rbind_Inr_iff rmapM_Inr_iff in_set_conv_nth)

lemma PlanBaseTableRef_names:
  "PlanBaseTableRef catalog t = Inr p \<Longrightarrow> schema_names (OutputSchema p) = map (\<lambda>c. GetBoundTableName t @ ''.'' @ column_name c) (columns (bt_schema t))"
  by (auto simp: PlanBaseTableRef_def rbind_Inr_iff Let_def InferScanSchema_def Column_rename_def split: option.splits if_splits)

lemma plan_rows_of_values_rows:
  assumes "plan_rows_of_values rows c = Inr (ess, c')" "expr_in_agg c = []"
  shows "rmapM (rmapM (eval_row [])) ess = rmapM (rmapM (beval (\<lambda>_. Inl Undefined) False)) rows \<and> c' = c \<and> map length ess = map length rows"
  using assms
proof (induction rows arbitrary: ess c c')
  case (Cons row rows)
  then obtain es c1 ess' where 1: "PlanArguments row [] c = Inr (es, c1)" "plan_rows_of_values rows c1 = Inr (ess', c')" "ess = es # ess'"
    by (auto simp: rbind_Inr_iff)
  from PlanArguments_const [OF 1(1) Cons.prems(2)] Cons.IH [of c1 ess' c'] 1(2,3) Cons.prems(2) show ?case by simp
qed simp

lemma PlanExpressionListRef_rows:
  assumes "PlanExpressionListRef rows ident c = Inr (p, c')" "expr_in_agg c = []"
  shows "plan_rows table other p = rmapM (rmapM (beval (\<lambda>_. Inl Undefined) False)) rows \<and>
    schema_names (OutputSchema p) = map (\<lambda>i. ident @ ''.'' @ nat_to_string i) [0..<length (hd rows)] \<and> c' = c"
proof -
  obtain ess cols where 1: "plan_rows_of_values rows c = Inr (ess, c')" "ess \<noteq> []"
    "rmapM (\<lambda>(idx, col). rbind (GetReturnType col) (\<lambda>ty. Inr (WithColumnName ty (ident @ ''.'' @ nat_to_string idx)))) (enumerate 0 (ess ! 0)) = Inr cols"
    "p = Plan (Schema_ctor cols) (ValuesPlanNode ess) []"
    using assms(1) by (auto simp: PlanExpressionListRef_def rbind_Inr_iff at_Inr_iff)
  note r = plan_rows_of_values_rows [OF 1(1) assms(2)]
  then have "length (ess ! 0) = length (hd rows)" using 1(2) by (cases ess; cases rows) auto
  moreover have "map column_name cols = map (\<lambda>i. ident @ ''.'' @ nat_to_string i) [0..<length (ess ! 0)]"
  proof (rule nth_equalityI)
    fix i assume "i < length (map column_name cols)"
    then obtain x where x: "WithColumnName x (ident @ ''.'' @ nat_to_string i) = cols ! i" "i < length (ess ! 0)" "i < length cols"
      using 1(3) by (auto simp: rmapM_Inr_iff rbind_Inr_iff nth_enumerate_eq)
    have "column_name (cols ! i) = ident @ ''.'' @ nat_to_string i" unfolding x(1) [symmetric] by (simp add: WithColumnName_def)
    then show "map column_name cols ! i = map (\<lambda>i. ident @ ''.'' @ nat_to_string i) [0..<length (ess ! 0)] ! i"
      using x(2,3) by simp
  qed (use 1(3) in \<open>simp add: rmapM_Inr_iff\<close>)
  ultimately show ?thesis using r 1(4) by (simp add: node_rows_def)
qed

lemma GetBooleanValue_true: "\<exists>v. GetBooleanValue_bool True = Inr v \<and> holds_value v"
  by (rule exI [of _ "set_int BOOLEAN I8 BUSTUB_BOOLEAN_NULL 1"], intro conjI) code_simp+

lemma rfilterM_True: "(\<And>x. x \<in> set xs \<Longrightarrow> f x = Inr True) \<Longrightarrow> rfilterM f xs = Inr xs"
  by (induction xs) auto

lemma make_join_rows:
  "plan_rows table other (make_join left right e INNER) = rbind (plan_rows table other left) (\<lambda>ls. rbind (plan_rows table other right) (\<lambda>rs.
     rbind (rfilterM (join_holds e) (pairs ls rs)) (\<lambda>ps. Inr (map (\<lambda>(l, r). l @ r) ps))))"
  by (simp add: make_join_def node_rows_def rbind_assoc)

lemma make_join_names: "schema_names (OutputSchema (make_join left right e jt)) = schema_names (OutputSchema left) @ schema_names (OutputSchema right)"
  by (simp add: make_join_def InferJoinSchema_def schema_names_def) (simp add: schema_names_def [symmetric])

lemma plan_clauses_rows:
  assumes "plan_clauses s child st = Inr (p, s', st')" "plain_select s" "expr_in_agg (ctx st) = []"
  shows "s' = s \<and> length (columns (OutputSchema p)) = length (select_list s) \<and>
    plan_rows table other p = rbind (plan_rows table other child) (\<lambda>rows.
      rbind (if IsInvalid (sel_where s) then Inr rows else rfilterM (\<lambda>row. bound_holds (row_env (schema_names (OutputSchema child)) row) False (sel_where s)) rows)
        (rmapM (\<lambda>row. rmapM (beval (row_env (schema_names (OutputSchema child)) row) False) (select_list s))))"
proof -
  obtain t items w g h lc lo so ct d where s: "s = SelectStatement t items w g h lc lo so ct d" by (cases s)
  have pl: "scan_aggs items = Inr (False, False)" "g = []" "IsInvalid h" "IsInvalid lc" "IsInvalid lo" "so = []" "\<not> d"
    using assms(2) s by simp_all
  obtain p1 c1 c2 uid where 1: "plan_where w child (ctx st) = Inr (p1, c1)" "plan_normal_select items p1 c1 (universal_id st) = Inr (p, c2, uid)" "s' = s"
    using assms(1) s pl by (auto simp: plan_clauses_def plan_items_def plan_distinct_def plan_sort_def plan_limit_def rbind_Inr_iff Let_def)
  note w = plan_where_rows [OF 1(1) assms(3)]
  have "expr_in_agg c1 = []" using w assms(3) by simp
  from plan_normal_select_rows [OF 1(2) this] w 1(3) show ?thesis unfolding s SelectStatement.sel by (simp add: rbind_assoc)
qed

lemma leave_select_plain: "plain_select s \<Longrightarrow> leave_select s st0 (sel_table s) s st = (s, st \<lparr> ctx := ctx st0 \<rparr>)"
  by (cases s) (simp add: leave_select_def)

lemma enter_select_ctx: "expr_in_agg (ctx (enter_select s st)) = []"
  by (simp add: enter_select_def NewContext_def PlannerContext_ctor_def Let_def)

lemma sem_select_unfold:
  "sem_select base s = rbind (if sel_table s = TableEmpty then Inr ([], [[]]) else sem_ref base (sel_table s)) (\<lambda>(names, rows).
     rbind (if IsInvalid (sel_where s) then Inr rows else rfilterM (\<lambda>row. bound_holds (row_env names row) False (sel_where s)) rows) (\<lambda>rows.
       rmapM (\<lambda>row. rmapM (beval (row_env names row) False) (select_list s)) rows))"
  by (cases s) simp

lemma Plan_rows:
  "PlanSelect catalog room s st = Inr (p, s', st') \<Longrightarrow> plain_select s \<Longrightarrow>
     plan_rows table other p = sem_select (base_rows catalog table other) s \<and>
     length (columns (OutputSchema p)) = length (select_list s) \<and> s' = s \<and> ctx st' = ctx st"
  "PlanTableRef catalog room t st = Inr (p, t', st') \<Longrightarrow> plain_ref t \<Longrightarrow> expr_in_agg (ctx st) = [] \<Longrightarrow>
     sem_ref (base_rows catalog table other) t = rbind (plan_rows table other p) (\<lambda>rows. Inr (schema_names (OutputSchema p), rows)) \<and>
     t' = t \<and> ctx st' = ctx st"
  "PlanCTERef catalog room n al st = Inr (p, st') \<Longrightarrow> True"
proof (induction catalog room s st and catalog room t st and catalog room n al st
    arbitrary: p s' st' and p t' st' and p st' rule: PlanSelect_PlanTableRef_PlanCTERef.induct)
  case (1 catalog room s st0)
  let ?st = "enter_select s st0" and ?base = "base_rows catalog table other"
  let ?t = "sel_table s"
  obtain p1 t1 st1 s2 st2 where r: "(if ?t = TableEmpty then Inr (empty_from, TableEmpty, ?st) else PlanTableRef catalog room ?t ?st) = Inr (p1, t1, st1)"
    "plan_clauses s p1 st1 = Inr (p, s2, st2)" "leave_select s st0 t1 s2 st2 = (s', st')"
    using 1(2) by (auto simp: rbind_Inr_iff Let_def)
  have from1: "(if ?t = TableEmpty then Inr ([], [[]]) else sem_ref ?base ?t) =
      rbind (plan_rows table other p1) (\<lambda>rows. Inr (schema_names (OutputSchema p1), rows)) \<and> t1 = ?t \<and> ctx st1 = ctx ?st"
  proof (cases "?t = TableEmpty")
    case True
    then show ?thesis using r(1) by (auto simp: empty_from_def node_rows_def)
  next
    case False
    then have "plain_ref ?t" using 1(3) by (cases s) auto
    then show ?thesis using 1(1) [OF refl False, of p1 t1 st1] r(1) False enter_select_ctx [of s st0] by simp
  qed
  then have agg: "expr_in_agg (ctx st1) = []" by (simp add: enter_select_ctx)
  note cl = plan_clauses_rows [OF r(2) 1(3) agg, of table other]
  have sel: "sem_select ?base s = plan_rows table other p" unfolding sem_select_unfold from1 [THEN conjunct1]
    using cl by (simp add: rbind_assoc)
  have "s' = s" "st' = st2 \<lparr> ctx := ctx st0 \<rparr>" using cl from1 r(3) leave_select_plain [OF 1(3)] by simp_all
  then show ?case using sel cl by simp
next
  case (3 catalog room l r st)
  from 3(3) obtain p1 l1 st1 p2 r1 st2 v where q: "PlanTableRef catalog room l st = Inr (p1, l1, st1)" "PlanTableRef catalog room r st1 = Inr (p2, r1, st2)"
    "GetBooleanValue_bool True = Inr v" "p = make_join p1 p2 (ConstantValueExpression v) INNER" "t' = BoundCrossProductRef l1 r1" "st' = st2"
    by (auto simp: rbind_Inr_iff)
  have i1: "sem_ref (base_rows catalog table other) l = rbind (plan_rows table other p1) (\<lambda>rows. Inr (schema_names (OutputSchema p1), rows)) \<and> l1 = l \<and> ctx st1 = ctx st"
    using 3(1) [OF q(1)] 3(4,5) by simp
  have i2: "sem_ref (base_rows catalog table other) r = rbind (plan_rows table other p2) (\<lambda>rows. Inr (schema_names (OutputSchema p2), rows)) \<and> r1 = r \<and> ctx st2 = ctx st1"
    using 3(2) [OF q(2)] 3(4,5) i1 by simp
  have "holds_value v" using GetBooleanValue_true q(3) by auto
  then have "rfilterM (join_holds (ConstantValueExpression v)) ps = Inr ps" for ps
    by (intro rfilterM_True) (auto simp: join_holds_def eval_join_def)
  then show ?case using i1 i2 q by (simp add: make_join_rows make_join_names rbind_assoc)
next
  case (4 catalog room jt l r e st)
  from 4(3) obtain p1 l1 st1 p2 r1 st2 nm pe c where q: "PlanTableRef catalog room l st = Inr (p1, l1, st1)" "PlanTableRef catalog room r st1 = Inr (p2, r1, st2)"
    "PlanExpression e [p1, p2] (ctx st2) = Inr ((nm, pe), c)" "p = make_join p1 p2 pe INNER" "t' = BoundJoinRef jt l1 r1 e" "st' = st2 \<lparr> ctx := c \<rparr>"
    using 4(4) by (auto simp: rbind_Inr_iff)
  have i1: "sem_ref (base_rows catalog table other) l = rbind (plan_rows table other p1) (\<lambda>rows. Inr (schema_names (OutputSchema p1), rows)) \<and> l1 = l \<and> ctx st1 = ctx st"
    using 4(1) [OF q(1)] 4(4,5) by simp
  have i2: "sem_ref (base_rows catalog table other) r = rbind (plan_rows table other p2) (\<lambda>rows. Inr (schema_names (OutputSchema p2), rows)) \<and> r1 = r \<and> ctx st2 = ctx st1"
    using 4(2) [OF q(2)] 4(4,5) i1 by simp
  have agg: "expr_in_agg (ctx st2) = []" using i1 i2 4(5) by simp
  have "join_holds pe = (\<lambda>(x, y). bound_holds (join_env (schema_names (OutputSchema p1)) (schema_names (OutputSchema p2)) x y) True e)"
    using PlanExpression_join(1) [OF q(3) agg] by (auto simp: join_holds_def bound_holds_def)
  then show ?case using i1 i2 q PlanExpression_join(2) [OF q(3) agg] by (simp add: make_join_rows make_join_names rbind_assoc)
next
  case (5 catalog room rows ident st)
  then show ?case using PlanExpressionListRef_rows [of rows ident "ctx st", where table = table and other = other] by (auto simp: rbind_Inr_iff)
next
  case (6 catalog room sel names al st)
  from 6(2) obtain p1 sel1 where q: "PlanSelect catalog room sel st = Inr (p1, sel1, st')" "subquery_projection p1 names al = Inr p"
    "t' = BoundSubqueryRef sel1 names al" by (auto simp: rbind_Inr_iff)
  have i: "plan_rows table other p1 = sem_select (base_rows catalog table other) sel" "length (columns (OutputSchema p1)) = length (select_list sel)"
    "sel1 = sel" "ctx st' = ctx st" using 6(1) [OF q(1)] 6(3) by simp_all
  have "plan_rows table other p = plan_rows table other p1"
    by (rule subquery_projection_rows [OF q(2)]) (use i sem_select_width in auto)
  then show ?case using i q(3) subquery_projection_names [OF q(2)] by simp
qed (auto simp: rbind_Inr_iff base_rows_def PlanBaseTableRef_names)

lemma PlanQuery_sem:
  assumes "PlanQuery catalog room (Select_Statement s) = Inr p" "plain_select s"
  shows "plan_rows table other p = sem_select (base_rows catalog table other) s"
  using assms Plan_rows(1) [of catalog room s Planner_ctor p] by (auto simp: PlanQuery_def rbind_Inr_iff)

text \<open>C4: The plan of a query computes the query: for every select without aggregation, window functions,
  DISTINCT, ORDER BY, LIMIT and CTEs, over base tables, inner joins, cross products, value lists and
  subqueries, nested in any way, the rows of the plan are those of the query, or both fail in the same way:
  the rows of the FROM clause for which WHERE holds, with the select list computed by name on each.\<close>

theorem PlanQuery_rows:
  assumes "PlanQuery catalog room (Select_Statement s) = Inr p" "plain_select s"
  shows "plan_rows table other p = sem_select (base_rows catalog table other) s"
  by (rule PlanQuery_sem [OF assms])

definition ex_const :: "int \<Rightarrow> bexpr" where
  "ex_const x = BoundConstant (set_int INTEGER I32 (cmin I32) x)"

definition ex_values_ref :: "string \<Rightarrow> int list \<Rightarrow> table_ref" where
  "ex_values_ref n xs = BoundExpressionListRef (map (\<lambda>x. [ex_const x]) xs) n"

definition ex_select :: "table_ref \<Rightarrow> bexpr list \<Rightarrow> bexpr \<Rightarrow> SelectStatement" where
  "ex_select t items w = SelectStatement t items w [] BoundInvalid BoundInvalid BoundInvalid [] [] False"

text \<open>\<open>select a.0 + b.0 from (values (1), (2)) a join (values (10), (20)) b on a.0 < b.0 where b.0 = 20\<close>\<close>

definition ex_query :: SelectStatement where
  "ex_query = ex_select (BoundJoinRef INNER (ex_values_ref ''a'' [1, 2]) (ex_values_ref ''b'' [10, 20])
       (BoundBinaryOp ''<'' (BoundColumnRef [''a'', ''0'']) (BoundColumnRef [''b'', ''0''])))
     [BoundBinaryOp ''+'' (BoundColumnRef [''a'', ''0'']) (BoundColumnRef [''b'', ''0''])]
     (BoundBinaryOp ''='' (BoundColumnRef [''b'', ''0'']) (ex_const 20))"

theorem PlanQuery_rows_witness:
  "\<exists>p. PlanQuery Catalog_ctor 0 (Select_Statement ex_query) = Inr p \<and>
     plan_rows (\<lambda>_. Inr []) (\<lambda>_ _. Inr []) p = Inr (map (\<lambda>x. [set_int INTEGER I32 (cmin I32) x]) [21, 22])"
proof -
  have "\<not> isl (PlanQuery Catalog_ctor 0 (Select_Statement ex_query))" by code_simp
  then obtain p where p: "PlanQuery Catalog_ctor 0 (Select_Statement ex_query) = Inr p" by (cases "PlanQuery Catalog_ctor 0 (Select_Statement ex_query)") auto
  have "plain_select ex_query" by code_simp
  moreover have "sem_select (base_rows Catalog_ctor (\<lambda>_. Inr []) (\<lambda>_ _. Inr [])) ex_query =
      Inr (map (\<lambda>x. [set_int INTEGER I32 (cmin I32) x]) [21, 22])" by code_simp
  ultimately show ?thesis using p PlanQuery_rows [OF p, of "\<lambda>_. Inr []" "\<lambda>_ _. Inr []"] by simp
qed

text \<open>\<open>with c as (select count(1) as n from (values (1)) v) select x.n from c x, c y\<close>: planning the first
  reference replaces the call inside the CTE by a placeholder, so the second reference fails.\<close>

definition ex_cte_ref :: "table_ref \<Rightarrow> SelectStatement" where
  "ex_cte_ref t = SelectStatement t [BoundColumnRef [''x'', ''n'']] BoundInvalid [] BoundInvalid BoundInvalid BoundInvalid []
     [(ex_select (ex_values_ref ''v'' [1]) [BoundAlias ''n'' (BoundAggCall ''count'' False [ex_const 1])] BoundInvalid, [[''n'']], ''c'')] False"

lemma PlanCTERef_aggregate_twice:
  "\<not> isl (PlanQuery Catalog_ctor 5 (Select_Statement (ex_cte_ref (BoundCTERef ''c'' ''x''))))"
  "PlanQuery Catalog_ctor 5 (Select_Statement (ex_cte_ref (BoundCrossProductRef (BoundCTERef ''c'' ''x'') (BoundCTERef ''c'' ''y'')))) =
     Inl (Throw ET_INVALID ''unsupported agg_call __pseudo_agg#0 with 0 args'')"
  by code_simp+

text \<open>A target of an update that the binder could not resolve is a null pointer, which the planner follows.\<close>

lemma plan_targets_null: "plan_targets tgts p c targets = Inr out \<Longrightarrow> None \<notin> fst ` set tgts"
proof (induction tgts arbitrary: c targets)
  case (Cons tgt tgts)
  obtain col e where tgt: "tgt = (col, e)" by (cases tgt)
  then obtain n where "col = Some n" using Cons.prems by (cases col) (auto simp: rbind_Inr_iff)
  moreover from this obtain c' targets' where "plan_targets tgts p c' targets' = Inr out"
    using Cons.prems tgt by (clarsimp simp: rbind_Inr_iff)
  ultimately show ?case using Cons.IH tgt by auto
qed simp

end
