(* ===== verification/FrontEnd.thy ===== *)
theory FrontEnd
  imports Binder PlanSemantics
begin

text \<open>
  The binder and the planner together: the columns that the binder resolves are those of the plan, and queries on which the
  two disagree.
\<close>

section \<open>The width of a planned select\<close>

lemma RenameSchema_width: "RenameSchema s names = Inr s' \<Longrightarrow> length (columns s') = length names"
  by (auto simp: RenameSchema_def length_columns_names GetColumnCount_def split: if_splits)

lemma make_projection_width: "make_projection es names child = Inr p \<Longrightarrow> length (columns (OutputSchema p)) = length names"
  by (auto simp: make_projection_def rbind_Inr_iff dest: RenameSchema_width)

lemma PlanNamed_length: "PlanNamed items children c = Inr (cols, c') \<Longrightarrow> length cols = length items"
  by (induction items arbitrary: cols c c') (auto simp: rbind_Inr_iff)

lemma AddAggCallToContext_list_length: "AddAggCallToContext_list es c = Inr (es', c') \<Longrightarrow> length es' = length es"
  by (induction es arbitrary: es' c c') (auto simp: rbind_Inr_iff)

lemma PlanSelectAgg_width: "PlanSelectAgg s child c = Inr (p, s') \<Longrightarrow> length (columns (OutputSchema p)) = length (select_list s)"
  by (auto simp: PlanSelectAgg_def rbind_Inr_iff Let_def dest!: make_projection_width PlanNamed_length AddAggCallToContext_list_length)

lemma plan_window_items_width: "plan_window_items items i child c uid = Inr (w, c', uid') \<Longrightarrow> length (wp_names w) = length items"
proof (induction items arbitrary: i c uid w c' uid')
  case (Cons item items)
  then show ?case by (auto simp: rbind_Inr_iff Let_def split: if_splits prod.splits bexpr.splits)
qed simp

lemma PlanSelectWindow_width: "PlanSelectWindow s child c uid = Inr (p, c', uid') \<Longrightarrow> length (columns (OutputSchema p)) = length (select_list s)"
  by (auto simp: PlanSelectWindow_def rbind_Inr_iff Let_def WindowFunctionPlanNode_ctor_def dest!: plan_window_items_width RenameSchema_width split: if_splits)

lemma plan_normal_select_width:
  assumes "plan_normal_select items child c uid = Inr (p, c', uid')"
  shows "length (columns (OutputSchema p)) = length items"
proof -
  obtain cols c1 where cols: "PlanNamed items [child] c = Inr (cols, c1)"
    using assms by (auto simp: plan_normal_select_def rbind_Inr_iff)
  obtain names uid1 where "name_columns (map fst cols) uid = (names, uid1)" by force
  moreover from this have "make_projection (map snd cols) names child = Inr p"
    using assms cols by (auto simp: plan_normal_select_def rbind_Inr_iff)
  ultimately show ?thesis using cols by (auto dest!: make_projection_width name_columns_length PlanNamed_length)
qed

lemma plan_clauses_width:
  assumes "plan_clauses s child st = Inr (p, s', st')"
  shows "length (columns (OutputSchema p)) = length (select_list s)"
proof -
  obtain p1 c1 p2 s2 c2 uid p3 c3 where 1: "plan_items s p1 c1 (universal_id st) = Inr (p2, s2, c2, uid)"
    "plan_sort (sel_sort s2) (plan_distinct (is_distinct s2) p2) c2 = Inr (p3, c3)" "plan_limit (limit_count s2) (limit_offset s2) p3 = Inr p"
    using assms by (auto simp: plan_clauses_def rbind_Inr_iff Let_def)
  have "length (columns (OutputSchema p2)) = length (select_list s)"
    using 1(1) by (auto simp: plan_items_def rbind_Inr_iff PlanSelectAgg_width PlanSelectWindow_width plan_normal_select_width split: if_splits)
  moreover have "OutputSchema p3 = OutputSchema p2" using 1(2) by (auto simp: plan_sort_def plan_distinct_def rbind_Inr_iff split: if_splits)
  moreover have "OutputSchema p = OutputSchema p3" using 1(3) by (auto simp: plan_limit_def rbind_Inr_iff split: if_splits option.splits)
  ultimately show ?thesis by simp
qed

lemma PlanSelect_width: "PlanSelect catalog room s st = Inr (p, s', st') \<Longrightarrow> length (columns (OutputSchema p)) = length (select_list s)"
  by (auto simp: rbind_Inr_iff Let_def dest: plan_clauses_width)

section \<open>The names that the binder gives\<close>

text \<open>Table references as the binder makes them where no CTE is in scope: every column of a subquery has a name.\<close>

fun well_named :: "table_ref \<Rightarrow> bool" where
  "well_named (BoundBaseTableRef t) \<longleftrightarrow> True"
| "well_named (BoundCrossProductRef l r) \<longleftrightarrow> well_named l \<and> well_named r"
| "well_named (BoundJoinRef jt l r e) \<longleftrightarrow> well_named l \<and> well_named r"
| "well_named (BoundSubqueryRef s names alias) \<longleftrightarrow> length names = length (select_list s) \<and> [] \<notin> set names"
| "well_named t \<longleftrightarrow> False"

lemma subquery_names_ok:
  "subquery_names cols uid = (names, uid') \<Longrightarrow> BoundColumnRef [] \<notin> set cols \<Longrightarrow> length names = length cols \<and> [] \<notin> set names"
proof (induction cols arbitrary: uid names uid')
  case (Cons col cols)
  obtain n uid1 where n: "(case col of BoundColumnRef n \<Rightarrow> (n, uid) | BoundAlias a _ \<Rightarrow> ([a], uid) | _ \<Rightarrow> ([''__item#'' @ nat_to_string uid], uid + 1)) = (n, uid1)"
    by (metis surj_pair)
  then have "n \<noteq> []" using Cons.prems(2) by (cases col) auto
  then show ?case using Cons n by (auto simp: Let_def split: prod.splits)
qed simp

lemma GetAllColumns_nonempty: "GetAllColumns cs t = Inr cols \<Longrightarrow> [] \<notin> set cols"
  by (induction cs t arbitrary: cols rule: GetAllColumns.induct) (auto simp: rbind_Inr_iff in_cte_def split: option.splits)

lemma resolve_both_Some:
  "resolve_both f pre al msg n = Inr (Some m) \<Longrightarrow> \<exists>x n'. m = pre # x \<and> f n' = Inr (Some x)"
  by (auto simp: resolve_both_def rbind_Inr_iff BoundColumnRef_Prepend_def Let_def split: if_splits)

lemma either_side_Some: "either_side n l r = Inr (Some m) \<Longrightarrow> l = Inr (Some m) \<or> r = Inr (Some m)"
  by (auto simp: either_side_def rbind_Inr_iff split: if_splits)

lemma ResolveColumnInternal_nonempty: "ResolveColumnInternal cs t n = Inr (Some m) \<Longrightarrow> m \<noteq> []"
  by (induction cs t n rule: ResolveColumnInternal.induct)
    (auto simp: ResolveColumnRefFromBaseTableRef_def ResolveColumnRefFromSubqueryRef_def in_cte_def
      dest!: resolve_both_Some either_side_Some split: option.splits)

lemma BindExpression_nonempty: "BindExpression sc cs e \<noteq> Inr (BoundColumnRef [])"
proof (induction e rule: measure_induct_rule [where f = size])
  case (less e)
  show ?case
  proof (cases e)
    case (PGColumnRef flds)
    then show ?thesis using ResolveColumnInternal_nonempty
      by (auto simp: BindColumnRef_def ResolveColumn_def check_def rbind_Inr_iff split: list.splits pgfield.splits option.splits if_splits)
  next
    case (PGResTarget name val)
    then show ?thesis using less by (auto simp: rbind_Inr_iff split: option.splits)
  next
    case (PGFuncCall f args d over)
    then show ?thesis by (cases over) (auto simp: rbind_Inr_iff Let_def split: option.splits if_splits, case_tac a, auto simp: rbind_Inr_iff)
  next
    case (PGBoolExpr b args)
    have "foldl (BoundBinaryOp op) (BoundBinaryOp op e0 e1) es \<noteq> BoundColumnRef []" for op e0 e1 es
      by (induction es arbitrary: e0 e1) auto
    then show ?thesis using PGBoolExpr by (auto simp: rbind_Inr_iff fold_bool_def split: if_splits PGBoolExprType.splits list.splits)
  qed (auto simp: rbind_Inr_iff BindConstant_def check_def expr_not_implemented_def split: PGValue.splits option.splits if_splits)
qed

lemma bind_items_nonempty:
  "bind_items sc cs targets sel star agg win = Inr items \<Longrightarrow> BoundColumnRef [] \<notin> set sel \<Longrightarrow> BoundColumnRef [] \<notin> set items"
proof (induction targets arbitrary: sel star agg win)
  case Nil
  then show ?case by (auto split: if_splits)
next
  case (Cons t ts)
  obtain e where e: "BindExpression (Some sc) cs t = Inr e" using Cons.prems(1) by (auto simp: rbind_Inr_iff)
  have ne: "e \<noteq> BoundColumnRef []" using e BindExpression_nonempty by metis
  show ?case
  proof (cases "e = BoundStar")
    case True
    obtain cols where cols: "GetAllColumns cs sc = Inr cols" "bind_items sc cs ts (map BoundColumnRef cols) True agg win = Inr items"
      using Cons.prems(1) e True by (auto simp: rbind_Inr_iff split: if_splits)
    then show ?thesis using Cons.IH [OF cols(2)] GetAllColumns_nonempty [OF cols(1)] by auto
  next
    case False
    then obtain a where "bind_items sc cs ts (sel @ [e]) star (agg \<or> a) (win \<or> HasWindowFunction e) = Inr items"
      using Cons.prems(1) e by (auto simp: rbind_Inr_iff split: if_splits)
    then show ?thesis using Cons.IH Cons.prems(2) ne by auto
  qed
qed

lemma BindSelect_nonempty: "BindSelect catalog cs stmt uid = Inr (s, uid') \<Longrightarrow> BoundColumnRef [] \<notin> set (select_list s)"
  by (auto simp: bind_values_clause_def bind_clauses_def BindSelectList_def rbind_Inr_iff Let_def dest!: bind_items_nonempty split: if_splits)

lemma BindTableRef_well_named:
  "BindTableRef catalog None node uid = Inr (ref, uid') \<Longrightarrow> well_named ref"
proof (induction node arbitrary: uid ref uid' rule: measure_induct_rule [where f = size])
  case (less node)
  show ?case
  proof (cases node)
    case (PGJoinExpr jt l r q)
    then obtain ref1 uid1 ref2 uid2 jt' c where "BindTableRef catalog None l uid = Inr (ref1, uid1)" "BindTableRef catalog None r uid1 = Inr (ref2, uid2)"
      "ref = BoundJoinRef jt' ref1 ref2 c"
      using less.prems by (auto simp: rbind_Inr_iff split: option.splits)
    then show ?thesis using less.IH [of l uid ref1 uid1] less.IH [of r uid1 ref2 uid2] PGJoinExpr by simp
  next
    case (PGRangeSubselect lat s al)
    then obtain al' uid1 s' uid2 names where "BindSelect catalog None s uid1 = Inr (s', uid2)"
      "subquery_names (select_list s') uid2 = (names, uid')" "ref = BoundSubqueryRef s' names al'"
      using less.prems by (auto simp: rbind_Inr_iff name_subquery_def Let_def simp del: BindSelect.simps split: if_splits prod.splits option.splits)
    then show ?thesis using subquery_names_ok BindSelect_nonempty by auto
  qed (use less.prems in \<open>auto simp: rbind_Inr_iff BindRangeVar_def\<close>)
qed

lemma PlanTableRef_columns:
  assumes "PlanTableRef catalog room ref st = Inr (p, ref', st')" "well_named ref"
  shows "\<exists>cols. GetAllColumns cs ref = Inr cols \<and> schema_names (OutputSchema p) = map BoundColumnRef_ToString cols"
  using assms
proof (induction ref arbitrary: st p ref' st' rule: well_named.induct)
  case (1 t)
  then show ?case by (auto simp: rbind_Inr_iff PlanBaseTableRef_names BoundColumnRef_ToString_def)
next
  case (2 l r)
  then obtain p1 l1 st1 p2 r1 st2 pe where q: "PlanTableRef catalog room l st = Inr (p1, l1, st1)" "PlanTableRef catalog room r st1 = Inr (p2, r1, st2)"
    "p = make_join p1 p2 pe INNER" by (auto simp: rbind_Inr_iff)
  then show ?case using "2.IH"(1) [OF q(1)] "2.IH"(2) [OF q(2)] "2.prems"(2) by (auto simp: make_join_names)
next
  case (3 jt l r e)
  then obtain p1 l1 st1 p2 r1 st2 pe where q: "PlanTableRef catalog room l st = Inr (p1, l1, st1)" "PlanTableRef catalog room r st1 = Inr (p2, r1, st2)"
    "p = make_join p1 p2 pe jt" by (auto simp: rbind_Inr_iff)
  then show ?case using "3.IH"(1) [OF q(1)] "3.IH"(2) [OF q(2)] "3.prems"(2) by (auto simp: make_join_names)
next
  case (4 s names al)
  then obtain p1 s1 where q: "PlanSelect catalog room s st = Inr (p1, s1, st')" "subquery_projection p1 names al = Inr p" by (auto simp: rbind_Inr_iff)
  have w: "length (columns (OutputSchema p1)) = length names" using PlanSelect_width [OF q(1)] "4.prems"(2) by simp
  have "schema_names (OutputSchema p) = map (\<lambda>n. al @ ''.'' @ intercalate ''.'' n) (take (length (columns (OutputSchema p1))) names)"
    using subquery_projection_names [OF q(2)] .
  moreover have "al @ ''.'' @ intercalate ''.'' n = BoundColumnRef_ToString (al # n)" if "n \<in> set names" for n
  proof -
    have "n \<noteq> []" using that "4.prems"(2) by auto
    then show ?thesis by (cases n) (simp_all add: BoundColumnRef_ToString_def)
  qed
  ultimately have "schema_names (OutputSchema p) = map BoundColumnRef_ToString (map ((#) al) names)" using w by simp
  then show ?case by simp
qed simp_all

lemma schema_ref_loop_Some:
  "schema_ref_loop n cs acc = Inr (Some x) \<Longrightarrow> acc = Some x \<or> (\<exists>c \<in> set cs. x = [column_name c])"
  by (induction cs arbitrary: acc) (auto split: if_splits)

lemma select_list_loop_Some: "select_list_loop n names acc = Inr (Some x) \<Longrightarrow> acc = Some x \<or> x \<in> set names"
  by (induction names arbitrary: acc) (auto split: if_splits)

lemma ResolveColumnInternal_in:
  "ResolveColumnInternal cs ref n = Inr (Some m) \<Longrightarrow> well_named ref \<Longrightarrow> GetAllColumns cs ref = Inr cols \<Longrightarrow> m \<in> set cols"
proof (induction ref arbitrary: cols rule: well_named.induct)
  case (1 t)
  then obtain x n' where "m = GetBoundTableName t # x" "ResolveColumnRefFromSchema (bt_schema t) n' = Inr (Some x)"
    by (auto simp: ResolveColumnRefFromBaseTableRef_def dest!: resolve_both_Some)
  then show ?case using "1.prems"(3) by (auto simp: ResolveColumnRefFromSchema_def dest!: schema_ref_loop_Some split: if_splits)
next
  case (4 s names al)
  then obtain x n' where "m = al # x" "ResolveColumnRefFromSelectList names n' = Inr (Some x)"
    by (auto simp: ResolveColumnRefFromSubqueryRef_def dest!: resolve_both_Some)
  then show ?case using "4.prems"(3) by (auto simp: ResolveColumnRefFromSelectList_def dest!: select_list_loop_Some)
qed (auto simp: rbind_Inr_iff dest!: either_side_Some)

lemma count_list_distinct: "distinct xs \<Longrightarrow> x \<in> set xs \<Longrightarrow> count_list xs x = 1"
  by (induction xs) (auto simp: count_list_0_iff)

lemma PlanColumnRef_distinct:
  assumes "distinct (schema_names (OutputSchema p))" "BoundColumnRef_ToString m \<in> set (schema_names (OutputSchema p))"
  shows "\<exists>i. PlanColumnRef m [p] = Inr (BoundColumnRef_ToString m, ColumnValueExpression 0 i (columns (OutputSchema p) ! i)) \<and>
    i < length (columns (OutputSchema p)) \<and> column_name (columns (OutputSchema p) ! i) = BoundColumnRef_ToString m"
proof -
  let ?n = "BoundColumnRef_ToString m" and ?names = "schema_names (OutputSchema p)"
  obtain i where i: "index_of ?n ?names = Some i" using assms(2) index_of_None [of ?n ?names] by auto
  have b: "i < length (columns (OutputSchema p))" "column_name (columns (OutputSchema p) ! i) = ?n"
    using index_of_bounds [OF i] by (auto simp: schema_names_def)
  have "count_list ?names ?n = 1" using assms by (simp add: count_list_distinct)
  then have "\<not> duplicated ?n (columns (OutputSchema p)) False" by (simp add: duplicated_count schema_names_def)
  then show ?thesis using i b by (auto simp: PlanColumnRef_def Let_def GetColIdx_def TryGetColIdx_names GetColumn_def at_def)
qed

text \<open>C11: The binder and the planner agree on columns: every column that the binder resolves in a table, join or
  subquery, with no CTE in scope, is the column of that name in the plan that the planner makes of it, as long as the
  names of the columns differ.\<close>

theorem bound_columns_plan:
  assumes "BindTableRef catalog None node uid = Inr (ref, uid')" "PlanTableRef catalog room ref st = Inr (p, ref', st')"
    and "ResolveColumn None ref name = Inr e" "distinct (schema_names (OutputSchema p))"
  shows "\<exists>m i. e = BoundColumnRef m \<and> i < length (columns (OutputSchema p)) \<and>
     column_name (columns (OutputSchema p) ! i) = BoundColumnRef_ToString m \<and>
     PlanColumnRef m [p] = Inr (BoundColumnRef_ToString m, ColumnValueExpression 0 i (columns (OutputSchema p) ! i))"
proof -
  have w: "well_named ref" using BindTableRef_well_named [OF assms(1)] .
  obtain m where m: "e = BoundColumnRef m" "ResolveColumnInternal None ref name = Inr (Some m)"
    using assms(3) by (auto simp: ResolveColumn_def check_def rbind_Inr_iff split: if_splits option.splits)
  obtain cols where "GetAllColumns None ref = Inr cols" "schema_names (OutputSchema p) = map BoundColumnRef_ToString cols"
    using PlanTableRef_columns [OF assms(2) w] by blast
  then have "BoundColumnRef_ToString m \<in> set (schema_names (OutputSchema p))" using ResolveColumnInternal_in [OF m(2) w] by auto
  then show ?thesis using PlanColumnRef_distinct [OF assms(4)] m(1) by blast
qed

definition ex_one :: "string \<Rightarrow> int \<Rightarrow> pgselect" where
  "ex_one name x = PGSelectStmt [] False [] [] [] [PGResTarget (Some name) (Some (PGAConst (PGInteger x)))] None [] None None None []"

definition ex_col :: "string list \<Rightarrow> pgexpr" where
  "ex_col names = PGResTarget None (Some (PGColumnRef (map FieldString names)))"

definition ex_from :: "pgcte list \<Rightarrow> pgtable list \<Rightarrow> string list \<Rightarrow> pgselect" where
  "ex_from cts tabs col = PGSelectStmt [] False cts tabs [] [ex_col col] None [] None None None []"

text \<open>\<open>(select 1 as n) x join (select 2 as k) y on x.n = y.k\<close>\<close>

definition ex_join :: pgtable where
  "ex_join = PGJoinExpr PG_JOIN_INNER (PGRangeSubselect False (ex_one ''n'' 1) (Some ''x'')) (PGRangeSubselect False (ex_one ''k'' 2) (Some ''y''))
     (Some (PGAExpr True ''='' (Some (PGColumnRef [FieldString ''x'', FieldString ''n''])) (Some (PGColumnRef [FieldString ''k'']))))"

theorem bound_columns_plan_witness:
  "\<exists>ref p ref' st' col. BindTableRef Catalog_ctor None ex_join 0 = Inr (ref, 0) \<and> PlanTableRef Catalog_ctor 0 ref Planner_ctor = Inr (p, ref', st') \<and>
     ResolveColumn None ref [''k''] = Inr (BoundColumnRef [''y'', ''k'']) \<and>
     PlanColumnRef [''y'', ''k''] [p] = Inr (''y.k'', ColumnValueExpression 0 1 col)"
proof -
  define ref where "ref = fst (projr (BindTableRef Catalog_ctor None ex_join 0))"
  define r where "r = projr (PlanTableRef Catalog_ctor 0 ref Planner_ctor)"
  have b: "BindTableRef Catalog_ctor None ex_join 0 = Inr (ref, 0)" unfolding ref_def by code_simp
  have p: "PlanTableRef Catalog_ctor 0 ref Planner_ctor = Inr (fst r, fst (snd r), snd (snd r))" unfolding r_def ref_def by code_simp
  have c: "ResolveColumn None ref [''k''] = Inr (BoundColumnRef [''y'', ''k''])" unfolding ref_def by code_simp
  have n: "schema_names (OutputSchema (fst r)) = [''x.n'', ''y.k'']" unfolding r_def ref_def by code_simp
  then obtain m i where i: "BoundColumnRef [''y'', ''k''] = BoundColumnRef m" "i < length (columns (OutputSchema (fst r)))"
      "column_name (columns (OutputSchema (fst r)) ! i) = BoundColumnRef_ToString m"
      "PlanColumnRef m [fst r] = Inr (BoundColumnRef_ToString m, ColumnValueExpression 0 i (columns (OutputSchema (fst r)) ! i))"
    using bound_columns_plan [OF b p c] by auto
  have "schema_names (OutputSchema (fst r)) ! i = column_name (columns (OutputSchema (fst r)) ! i)"
    using i(2) by (simp add: schema_names_def)
  then have "[''x.n'', ''y.k''] ! i = ''y.k''" "i < 2" using n i(1-3) length_columns_names [of "OutputSchema (fst r)"]
    by (auto simp: BoundColumnRef_ToString_def)
  then have "i = 1" by (auto simp: less_2_cases_iff)
  then show ?thesis using b p c i(1,4)
    by (intro exI [of _ ref] exI [of _ "fst r"] exI [of _ "fst (snd r)"] exI [of _ "snd (snd r)"]) (auto simp: BoundColumnRef_ToString_def)
qed

section \<open>Where binder and planner disagree\<close>

text \<open>\<open>with c as (select 1 as n) select x.n from c x\<close>: the binder resolves the column under the name of the CTE, the
  planner names it after the alias of the reference, and the query fails.  Without the alias it is planned.\<close>

lemma CTE_alias_not_planned:
  "\<exists>s. BindStatement Catalog_ctor (PGSelect (ex_from [PGCommonTableExpr ''c'' False (Some (ex_one ''n'' 1))] [PGRangeVar ''c'' (Some ''x'')] [''x'', ''n''])) 0 = Inr (s, 0) \<and>
     PlanQuery Catalog_ctor 9 s = Inl (LogicError ''Column does not exist'')"
  "\<exists>s p. BindStatement Catalog_ctor (PGSelect (ex_from [PGCommonTableExpr ''c'' False (Some (ex_one ''n'' 1))] [PGRangeVar ''c'' None] [''n''])) 0 = Inr (s, 0) \<and>
     PlanQuery Catalog_ctor 9 s = Inr p"
proof -
  let ?q = "\<lambda>a col. BindStatement Catalog_ctor (PGSelect (ex_from [PGCommonTableExpr ''c'' False (Some (ex_one ''n'' 1))] [PGRangeVar ''c'' a] col)) 0"
  have "?q (Some ''x'') [''x'', ''n''] = Inr (fst (projr (?q (Some ''x'') [''x'', ''n''])), 0)"
    "PlanQuery Catalog_ctor 9 (fst (projr (?q (Some ''x'') [''x'', ''n'']))) = Inl (LogicError ''Column does not exist'')" by code_simp+
  then show "\<exists>s. ?q (Some ''x'') [''x'', ''n''] = Inr (s, 0) \<and> PlanQuery Catalog_ctor 9 s = Inl (LogicError ''Column does not exist'')" by blast
  have "?q None [''n''] = Inr (fst (projr (?q None [''n''])), 0)" "\<not> isl (PlanQuery Catalog_ctor 9 (fst (projr (?q None [''n'']))))" by code_simp+
  then show "\<exists>s p. ?q None [''n''] = Inr (s, 0) \<and> PlanQuery Catalog_ctor 9 s = Inr p" by (metis sum.collapse(2))
qed

text \<open>A CTE that is defined by a reference to a CTE of the enclosing select with the same name.\<close>

lemma PlanCTERef_loops:
  assumes "cte_list (ctx st) = Some k" "k < length (cte_store st)" "find_cte a (cte_store st ! k) = Some j"
    and "fst (cte_store st ! k ! j) = s" "sel_table s = BoundCTERef a b" "ctes s = []"
  shows "PlanCTERef catalog room a al st = Inl Undefined"
  using assms
proof (induction room arbitrary: st s al b)
  case 0
  then show ?case by (auto simp: at_def split: prod.splits)
next
  case (Suc room)
  have "PlanCTERef catalog room a b (enter_select s st) = Inl Undefined"
    using Suc.prems by (intro Suc.IH [of _ s b]) (auto simp: enter_select_def NewContext_def PlannerContext_ctor_def)
  then have "PlanSelect catalog room s st = Inl Undefined" using Suc.prems(5) by (simp add: Let_def)
  then show ?case using Suc.prems by (auto simp: at_def split: prod.splits)
qed

definition ex_nested_cte :: pgselect where
  "ex_nested_cte = ex_from [PGCommonTableExpr ''a'' False (Some (ex_one ''n'' 1))]
     [PGRangeSubselect False (ex_from [PGCommonTableExpr ''a'' False (Some (ex_from [] [PGRangeVar ''a'' None] [''n'']))] [PGRangeVar ''a'' None] [''n'']) (Some ''q'')]
     [''n'']"


text \<open>Parse trees that the binder does not survive: a join without a condition (\<open>cross join\<close>, \<open>using\<close>), a column in
  a VALUES clause, an insert with DEFAULT VALUES, a table without columns, a varchar column without a length.\<close>

lemma BindTableRef_cross_join:
  "BindTableRef catalog cs l uid = Inr (left, uid1) \<Longrightarrow> BindTableRef catalog cs r uid1 = Inr (right, uid2) \<Longrightarrow>
     BindTableRef catalog cs (PGJoinExpr PG_JOIN_INNER l r None) uid = Inl AssertFail"
  by (simp add: join_type_def)

lemma BindStatement_undefined:
  "BindStatement catalog (PGSelect (PGSelectStmt [[PGColumnRef [FieldString ''a'']]] False [] [] [] [] None [] None None None [])) uid = Inl Undefined"
  "BindStatement catalog (PGCreateStmt ''t'' []) uid = Inl Undefined"
  "BindStatement catalog (PGCreateStmt ''t'' [PGColumnDef (Some ''a'') False ''varchar'' [] []]) uid = Inl Undefined"
  "BindStatement catalog (PGCreateStmt ''t'' [PGColumnDef (Some ''a'') False ''int4'' [] [], PGTableConstraint (PG_CONSTR_PRIMARY [''a'']),
     PGColumnDef (Some ''b'') False ''int4'' [] []]) uid = Inl Undefined"
  by (simp_all add: bind_values_clause_def BindValuesList_def BindExpressionList_def BindColumnRef_def field_string_def Let_def
      BindCreate_def BindColumnDefinition_def type_modifier_def set_primary_key_def Column_fixed_def TypeSize_def)

end
