(* ===== verification/Transactions.thy ===== *)
theory Transactions
  imports Heap Expressions
begin

text \<open>
  Transactions (include/concurrency/transaction.h, transaction_manager.h, watermark.h, src/concurrency/transaction_manager.cpp and
  transaction_manager_impl.cpp): the states of a transaction, its undo logs, the manager's table of transactions, and the version
  links that connect the tuples of a heap with their undo logs.

  A pointer to a transaction is its id in the manager's table, which keeps every transaction.  Each operation holds its latch
  from the first to the last access, so it is one step.  Timestamps are not yet assigned by the repository's code: they keep the values of
  the constructor.
\<close>

unbundle bit_operations_syntax

section \<open>Transactions\<close>

datatype TransactionState = RUNNING | TAINTED | COMMITTED | ABORTED
datatype IsolationLevel = READ_UNCOMMITTED | SNAPSHOT_ISOLATION | SERIALIZABLE

fun TransactionState_name :: "TransactionState \<Rightarrow> string" where
  "TransactionState_name RUNNING = ''RUNNING''"
| "TransactionState_name ABORTED = ''ABORTED''"
| "TransactionState_name COMMITTED = ''COMMITTED''"
| "TransactionState_name TAINTED = ''TAINTED''"

fun IsolationLevel_name :: "IsolationLevel \<Rightarrow> string" where
  "IsolationLevel_name READ_UNCOMMITTED = ''READ_UNCOMMITTED''"
| "IsolationLevel_name SNAPSHOT_ISOLATION = ''SNAPSHOT_ISOLATION''"
| "IsolationLevel_name SERIALIZABLE = ''SERIALIZABLE''"

definition INVALID_TXN_ID :: int where "INVALID_TXN_ID = - 1"
definition INVALID_TS :: int where "INVALID_TS = - 1"
definition TXN_START_ID :: int where "TXN_START_ID = 2 ^ 62"

record UndoLink =
  prev_txn :: int
  prev_log_idx :: int

definition UndoLink_IsValid :: "UndoLink \<Rightarrow> bool" where
  "UndoLink_IsValid l \<longleftrightarrow> prev_txn l \<noteq> INVALID_TXN_ID"

record UndoLog =
  log_deleted :: bool
  modified_fields :: "bool list"
  log_tuple :: Tuple
  log_ts :: int
  prev_version :: UndoLink

record Transaction =
  txn_id :: int
  isolation_level :: IsolationLevel
  txn_state :: TransactionState
  read_ts :: int
  commit_ts :: int
  undo_logs :: "UndoLog list"
  write_set :: "nat \<rightharpoonup> RID set"
  scan_predicates :: "nat \<rightharpoonup> expr list"

definition Transaction_ctor :: "int \<Rightarrow> IsolationLevel \<Rightarrow> Transaction" where
  "Transaction_ctor i level = \<lparr> txn_id = i, isolation_level = level, txn_state = RUNNING, read_ts = 0, commit_ts = INVALID_TS,
     undo_logs = [], write_set = (\<lambda>_. None), scan_predicates = (\<lambda>_. None) \<rparr>"

definition GetTransactionIdHumanReadable :: "Transaction \<Rightarrow> int" where
  "GetTransactionIdHumanReadable t = txn_id t XOR TXN_START_ID"

definition ModifyUndoLog :: "Transaction \<Rightarrow> int \<Rightarrow> UndoLog \<Rightarrow> Transaction result" where
  "ModifyUndoLog t log_idx new_log = (if 0 \<le> log_idx \<and> nat log_idx < length (undo_logs t)
     then Inr (t \<lparr> undo_logs := (undo_logs t)[nat log_idx := new_log] \<rparr>) else Inl Undefined)"

definition AppendUndoLog :: "Transaction \<Rightarrow> UndoLog \<Rightarrow> UndoLink \<times> Transaction" where
  "AppendUndoLog t log = (\<lparr> prev_txn = txn_id t, prev_log_idx = static_cast I32 (int (length (undo_logs t))) \<rparr>,
     t \<lparr> undo_logs := undo_logs t @ [log] \<rparr>)"

definition AppendWriteSet :: "Transaction \<Rightarrow> nat \<Rightarrow> RID \<Rightarrow> Transaction" where
  "AppendWriteSet t oid r = t \<lparr> write_set := (write_set t)(oid \<mapsto> insert r (case write_set t oid of None \<Rightarrow> {} | Some s \<Rightarrow> s)) \<rparr>"

definition AppendScanPredicate :: "Transaction \<Rightarrow> nat \<Rightarrow> expr \<Rightarrow> Transaction" where
  "AppendScanPredicate t oid e =
     t \<lparr> scan_predicates := (scan_predicates t)(oid \<mapsto> (case scan_predicates t oid of None \<Rightarrow> [] | Some es \<Rightarrow> es) @ [e]) \<rparr>"

text \<open>\<open>Transaction::GetUndoLog\<close> indexes the vector without a check.\<close>

definition Transaction_GetUndoLog :: "Transaction \<Rightarrow> nat \<Rightarrow> UndoLog result" where
  "Transaction_GetUndoLog t log_id = at (undo_logs t) log_id"

definition ClearUndoLog :: "Transaction \<Rightarrow> Transaction" where
  "ClearUndoLog t = t \<lparr> undo_logs := [] \<rparr>"

definition SetTainted :: "Transaction \<Rightarrow> Transaction result" where
  "SetTainted t = (if txn_state t = RUNNING then Inr (t \<lparr> txn_state := TAINTED \<rparr>)
     else Inl (Terminate (''transaction not in running state: '' @ TransactionState_name (txn_state t))))"

section \<open>The transaction manager\<close>

record Watermark =
  wm_commit_ts :: int
  wm_watermark :: int
  current_reads :: "(int \<times> int) list"

definition Watermark_ctor :: "int \<Rightarrow> Watermark" where
  "Watermark_ctor c = \<lparr> wm_commit_ts = c, wm_watermark = c, current_reads = [] \<rparr>"

definition AddTxn :: "Watermark \<Rightarrow> int \<Rightarrow> Watermark result" where
  "AddTxn w read = (if read < wm_commit_ts w then Inl (Throw ET_INVALID ''read ts < commit ts'') else Inr w)"

definition RemoveTxn :: "Watermark \<Rightarrow> int \<Rightarrow> Watermark" where
  "RemoveTxn w read = w"

definition UpdateCommitTs :: "Watermark \<Rightarrow> int \<Rightarrow> Watermark" where
  "UpdateCommitTs w c = w \<lparr> wm_commit_ts := c \<rparr>"

definition Watermark_GetWatermark :: "Watermark \<Rightarrow> int" where
  "Watermark_GetWatermark w = (if current_reads w = [] then wm_commit_ts w else wm_watermark w)"

record TransactionManager =
  txn_map :: "int \<rightharpoonup> Transaction"
  version_info :: "int \<rightharpoonup> nat \<rightharpoonup> UndoLink"
  running_txns :: Watermark
  last_commit_ts :: int
  next_txn_id :: int

definition TransactionManager_ctor :: TransactionManager where
  "TransactionManager_ctor = \<lparr> txn_map = (\<lambda>_. None), version_info = (\<lambda>_. None), running_txns = Watermark_ctor 0,
     last_commit_ts = 0, next_txn_id = TXN_START_ID \<rparr>"

definition set_txn :: "TransactionManager \<Rightarrow> int \<Rightarrow> Transaction \<Rightarrow> TransactionManager" where
  "set_txn m i t = m \<lparr> txn_map := (txn_map m)(i \<mapsto> t) \<rparr>"

definition Begin :: "TransactionManager \<Rightarrow> IsolationLevel \<Rightarrow> (int \<times> TransactionManager) result" where
  "Begin m level = (let i = next_txn_id m; t = (case txn_map m i of None \<Rightarrow> Transaction_ctor i level | Some old \<Rightarrow> old);
       m = (set_txn m i t) \<lparr> next_txn_id := static_cast I64 (i + 1) \<rparr> in
     rbind (AddTxn (running_txns m) (read_ts (Transaction_ctor i level))) (\<lambda>w. Inr (i, m \<lparr> running_txns := w \<rparr>)))"

definition VerifyTxn :: "Transaction \<Rightarrow> bool" where
  "VerifyTxn t = True"

definition Abort :: "TransactionManager \<Rightarrow> int \<Rightarrow> TransactionManager result" where
  "Abort m i = (case txn_map m i of None \<Rightarrow> Inl Undefined
     | Some t \<Rightarrow> if txn_state t \<noteq> RUNNING \<and> txn_state t \<noteq> TAINTED then Inl (Throw ET_INVALID ''txn not in running / tainted state'')
         else Inr ((set_txn m i (t \<lparr> txn_state := ABORTED \<rparr>)) \<lparr> running_txns := RemoveTxn (running_txns m) (read_ts t) \<rparr>))"

definition Commit :: "TransactionManager \<Rightarrow> int \<Rightarrow> (bool \<times> TransactionManager) result" where
  "Commit m i = (case txn_map m i of None \<Rightarrow> Inl Undefined
     | Some t \<Rightarrow> if txn_state t \<noteq> RUNNING then Inl (Throw ET_INVALID ''txn not in running state'')
         else if isolation_level t = SERIALIZABLE \<and> \<not> VerifyTxn t then rbind (Abort m i) (\<lambda>m. Inr (False, m))
         else Inr (True, (set_txn m i (t \<lparr> txn_state := COMMITTED \<rparr>))
           \<lparr> running_txns := RemoveTxn (UpdateCommitTs (running_txns m) (commit_ts t)) (read_ts t) \<rparr>))"

definition GarbageCollection :: "TransactionManager \<Rightarrow> TransactionManager result" where
  "GarbageCollection m = Inl (LogicError ''not implemented'')"

text \<open>The links of the versions, by page and slot.  A check that is a null \<open>std::function\<close> is \<open>None\<close>.\<close>

definition page_links :: "TransactionManager \<Rightarrow> int \<Rightarrow> nat \<rightharpoonup> UndoLink" where
  "page_links m p = (case version_info m p of None \<Rightarrow> (\<lambda>_. None) | Some links \<Rightarrow> links)"

definition UpdateUndoLink :: "TransactionManager \<Rightarrow> RID \<Rightarrow> UndoLink option \<Rightarrow> (UndoLink option \<Rightarrow> bool) option \<Rightarrow> bool \<times> TransactionManager" where
  "UpdateUndoLink m r prev_link chk = (let links = page_links m (page_id r);
       m = m \<lparr> version_info := (version_info m)(page_id r \<mapsto> links) \<rparr> in
     if (case chk of None \<Rightarrow> False | Some f \<Rightarrow> \<not> f (links (slot_num r))) then (False, m)
     else (True, m \<lparr> version_info := (version_info m)(page_id r \<mapsto> links(slot_num r := prev_link)) \<rparr>))"

definition GetUndoLink :: "TransactionManager \<Rightarrow> RID \<Rightarrow> UndoLink option" where
  "GetUndoLink m r = (case version_info m (page_id r) of None \<Rightarrow> None | Some links \<Rightarrow> links (slot_num r))"

definition GetUndoLogOptional :: "TransactionManager \<Rightarrow> UndoLink \<Rightarrow> UndoLog option result" where
  "GetUndoLogOptional m l = (case txn_map m (prev_txn l) of None \<Rightarrow> Inr None
     | Some t \<Rightarrow> rbind (Transaction_GetUndoLog t (nat (prev_log_idx l mod 2 ^ 64))) (\<lambda>log. Inr (Some log)))"

definition Manager_GetUndoLog :: "TransactionManager \<Rightarrow> UndoLink \<Rightarrow> UndoLog result" where
  "Manager_GetUndoLog m l = rbind (GetUndoLogOptional m l) (\<lambda>log. case log of
     Some log \<Rightarrow> Inr log | None \<Rightarrow> Inl (Throw ET_INVALID ''undo log not exist''))"

section \<open>Tuples with their links\<close>

definition AcquireTablePageReadLock :: "'b bpm \<Rightarrow> 'b \<Rightarrow> RID \<Rightarrow> (page \<times> 'b) result" where
  "AcquireTablePageReadLock bpm b r = AcquirePage bpm b (page_id r)"

definition AcquireTablePageWriteLock :: "'b bpm \<Rightarrow> 'b \<Rightarrow> RID \<Rightarrow> (page \<times> 'b) result" where
  "AcquireTablePageWriteLock bpm b r = AcquirePage bpm b (page_id r)"

definition UpdateTupleInPlaceWithLockAcquired :: "TupleMeta \<Rightarrow> Tuple \<Rightarrow> RID \<Rightarrow> page \<Rightarrow> page result" where
  "UpdateTupleInPlaceWithLockAcquired meta tuple r p = UpdateTupleInPlaceUnsafe p meta tuple r"

definition GetTupleWithLockAcquired :: "RID \<Rightarrow> page \<Rightarrow> (TupleMeta \<times> Tuple) result" where
  "GetTupleWithLockAcquired r p = rbind (TablePage_GetTuple p r) (\<lambda>(meta, tuple). Inr (meta, SetRid tuple r))"

definition GetTupleMetaWithLockAcquired :: "RID \<Rightarrow> page \<Rightarrow> TupleMeta result" where
  "GetTupleMetaWithLockAcquired r p = TablePage_GetTupleMeta p r"

definition UpdateTupleAndUndoLink :: "'b bpm \<Rightarrow> 'b \<Rightarrow> TransactionManager \<Rightarrow> RID \<Rightarrow> UndoLink option \<Rightarrow> TupleMeta \<Rightarrow> Tuple \<Rightarrow>
    (TupleMeta \<Rightarrow> Tuple \<Rightarrow> RID \<Rightarrow> UndoLink option \<Rightarrow> bool) option \<Rightarrow> (bool \<times> 'b \<times> TransactionManager) result" where
  "UpdateTupleAndUndoLink bpm b m r undo_link meta tuple chk = rbind (AcquireTablePageWriteLock bpm b r) (\<lambda>(p, b).
     rbind (TablePage_GetTuple p r) (\<lambda>(base_meta, base_tuple).
       if (case chk of None \<Rightarrow> False | Some f \<Rightarrow> \<not> f base_meta base_tuple r undo_link) then Inr (False, b, m)
       else rbind (if meta \<noteq> base_meta \<or> \<not> IsTupleContentEqual tuple base_tuple
           then rbind (UpdateTupleInPlaceWithLockAcquired meta tuple r p) (DropPage bpm b (page_id r)) else Inr b) (\<lambda>b.
         Inr (True, b, snd (UpdateUndoLink m r undo_link None)))))"

definition GetTupleAndUndoLink :: "'b bpm \<Rightarrow> 'b \<Rightarrow> TransactionManager \<Rightarrow> RID \<Rightarrow> ((TupleMeta \<times> Tuple \<times> UndoLink option) \<times> 'b) result" where
  "GetTupleAndUndoLink bpm b m r = rbind (AcquireTablePageReadLock bpm b r) (\<lambda>(p, b).
     rbind (TablePage_GetTuple p r) (\<lambda>(meta, tuple). Inr ((meta, tuple, GetUndoLink m r), b)))"

section \<open>The states of a transaction\<close>

text \<open>One step of the system: a transaction begins, commits, aborts or is tainted, appends or changes an undo log, or a link is changed.\<close>

inductive txn_step :: "TransactionManager \<Rightarrow> TransactionManager \<Rightarrow> bool" where
  start: "Begin m level = Inr (i, m') \<Longrightarrow> txn_step m m'"
| commit: "Commit m i = Inr (ok, m') \<Longrightarrow> txn_step m m'"
| abort: "Abort m i = Inr m' \<Longrightarrow> txn_step m m'"
| taint: "txn_map m i = Some t \<Longrightarrow> SetTainted t = Inr t' \<Longrightarrow> txn_step m (set_txn m i t')"
| append: "txn_map m i = Some t \<Longrightarrow> AppendUndoLog t log = (l, t') \<Longrightarrow> txn_step m (set_txn m i t')"
| modify: "txn_map m i = Some t \<Longrightarrow> ModifyUndoLog t k log = Inr t' \<Longrightarrow> txn_step m (set_txn m i t')"
| link: "UpdateUndoLink m r new chk = (ok, m') \<Longrightarrow> txn_step m m'"

text \<open>The table of transactions: the ids in use are those that were given out.\<close>

definition txns_inv :: "TransactionManager \<Rightarrow> bool" where
  "txns_inv m \<longleftrightarrow> TXN_START_ID \<le> next_txn_id m \<and> next_txn_id m < 2 ^ 63 \<and>
     (\<forall>i. txn_map m i \<noteq> None \<longleftrightarrow> TXN_START_ID \<le> i \<and> i < next_txn_id m) \<and> (\<forall>i t. txn_map m i = Some t \<longrightarrow> txn_id t = i)"

text \<open>What a step may do to a transaction: its id and level stay, its undo logs only grow in number, and its state moves from
  running to tainted, committed or aborted, or from tainted to aborted.\<close>

definition state_moves :: "TransactionState \<Rightarrow> TransactionState \<Rightarrow> bool" where
  "state_moves s s' \<longleftrightarrow> s' = s \<or> s = RUNNING \<or> s = TAINTED \<and> s' = ABORTED"

definition txn_extends :: "Transaction \<Rightarrow> Transaction \<Rightarrow> bool" where
  "txn_extends t t' \<longleftrightarrow> txn_id t' = txn_id t \<and> isolation_level t' = isolation_level t \<and> length (undo_logs t) \<le> length (undo_logs t') \<and>
     state_moves (txn_state t) (txn_state t')"

lemma txn_extends_refl [simp]: "txn_extends t t"
  by (simp add: txn_extends_def state_moves_def)

lemma txn_extends_trans: "txn_extends t t' \<Longrightarrow> txn_extends t' t'' \<Longrightarrow> txn_extends t t''"
  by (auto simp: txn_extends_def state_moves_def)

lemmas txn_op_defs = Begin_def Commit_def Abort_def SetTainted_def AppendUndoLog_def ModifyUndoLog_def UpdateUndoLink_def set_txn_def Let_def
  RemoveTxn_def UpdateCommitTs_def AddTxn_def VerifyTxn_def Transaction_ctor_def

lemma txn_step_extends:
  assumes "txn_step m m'" "txns_inv m" "txn_map m i = Some t"
  shows "\<exists>t'. txn_map m' i = Some t' \<and> txn_extends t t'"
  using assms
proof (cases rule: txn_step.cases)
  case (start level j)
  then show ?thesis using assms(2,3) by (auto simp: txn_op_defs rbind_Inr_iff txns_inv_def split: if_splits option.splits)
qed (use assms(2,3) in \<open>auto simp: txn_op_defs rbind_Inr_iff txn_extends_def state_moves_def split: if_splits option.splits\<close>)

lemma txn_step_inv:
  assumes "txn_step m m'" "txns_inv m" "next_txn_id m < 2 ^ 63 - 1"
  shows "txns_inv m'"
  using assms(1)
proof (cases rule: txn_step.cases)
  case (start level j)
  have "static_cast I64 (next_txn_id m + 1) = next_txn_id m + 1"
    using assms(2,3) by (intro static_cast_id) (auto simp: in_range_def txns_inv_def TXN_START_ID_def)
  then show ?thesis using start assms(2,3) by (auto simp: txn_op_defs rbind_Inr_iff txns_inv_def split: if_splits option.splits)
      (metis order_less_imp_le)
qed (use assms(2) in \<open>auto simp: txn_op_defs rbind_Inr_iff txns_inv_def split: if_splits option.splits\<close>)

text \<open>Runs of the system in which the counter of transaction ids does not overflow.\<close>

inductive txn_run :: "TransactionManager \<Rightarrow> TransactionManager \<Rightarrow> bool" where
  refl: "txn_run m m"
| step: "txn_run m m' \<Longrightarrow> txn_step m' m'' \<Longrightarrow> next_txn_id m' < 2 ^ 63 - 1 \<Longrightarrow> txn_run m m''"

lemma txn_run_inv: "txn_run m m' \<Longrightarrow> txns_inv m \<Longrightarrow> txns_inv m'"
  by (induction rule: txn_run.induct) (auto intro: txn_step_inv)

lemma txn_run_extends:
  "txn_run m m' \<Longrightarrow> txns_inv m \<Longrightarrow> txn_map m i = Some t \<Longrightarrow> \<exists>t'. txn_map m' i = Some t' \<and> txn_extends t t'"
proof (induction rule: txn_run.induct)
  case (step m m' m'')
  then obtain t' where t': "txn_map m' i = Some t'" "txn_extends t t'" by blast
  then show ?case using txn_step_extends [OF step.hyps(2) txn_run_inv [OF step.hyps(1) step.prems(1)] t'(1)] txn_extends_trans by blast
qed simp

lemma txns_inv_ctor: "txns_inv TransactionManager_ctor"
  by (simp add: txns_inv_def TransactionManager_ctor_def TXN_START_ID_def)


definition ex_begun :: TransactionManager where
  "ex_begun = snd (projr (Begin TransactionManager_ctor SNAPSHOT_ISOLATION))"

definition ex_ended :: TransactionManager where
  "ex_ended = snd (projr (Commit ex_begun TXN_START_ID))"

definition ex_second :: TransactionManager where
  "ex_second = snd (projr (Begin ex_ended SERIALIZABLE))"

lemma ex_txn_runs:
  "txn_run TransactionManager_ctor ex_begun" "txn_run TransactionManager_ctor ex_ended" "txn_run ex_ended ex_second"
  "txn_map ex_ended TXN_START_ID = Some ((Transaction_ctor TXN_START_ID SNAPSHOT_ISOLATION) \<lparr> txn_state := COMMITTED \<rparr>)"
proof -
  have b: "Begin TransactionManager_ctor SNAPSHOT_ISOLATION = Inr (TXN_START_ID, ex_begun)"
    by (simp add: ex_begun_def Begin_def TransactionManager_ctor_def set_txn_def Let_def AddTxn_def Watermark_ctor_def Transaction_ctor_def)
  have n: "static_cast I64 (TXN_START_ID + 1) = TXN_START_ID + 1" by code_simp
  have m: "txn_map ex_begun TXN_START_ID = Some (Transaction_ctor TXN_START_ID SNAPSHOT_ISOLATION)" "next_txn_id ex_begun = TXN_START_ID + 1"
    by (simp_all add: ex_begun_def Begin_def TransactionManager_ctor_def set_txn_def Let_def AddTxn_def Watermark_ctor_def Transaction_ctor_def n)
  have c: "Commit ex_begun TXN_START_ID = Inr (True, ex_ended)"
    by (simp add: ex_ended_def Commit_def m(1) Transaction_ctor_def)
  show e: "txn_map ex_ended TXN_START_ID = Some ((Transaction_ctor TXN_START_ID SNAPSHOT_ISOLATION) \<lparr> txn_state := COMMITTED \<rparr>)"
    by (simp add: ex_ended_def Commit_def m(1) Transaction_ctor_def set_txn_def)
  have e2: "next_txn_id ex_ended = TXN_START_ID + 1" "wm_commit_ts (running_txns ex_ended) = - 1"
    by (simp_all add: ex_ended_def Commit_def m Transaction_ctor_def set_txn_def RemoveTxn_def UpdateCommitTs_def INVALID_TS_def)
  have s: "\<exists>i. Begin ex_ended SERIALIZABLE = Inr (i, ex_second)"
    by (simp add: ex_second_def Begin_def Let_def AddTxn_def set_txn_def e2 Transaction_ctor_def)
  have l: "TXN_START_ID + 1 < 2 ^ 63 - 1" by (simp add: TXN_START_ID_def)
  show "txn_run TransactionManager_ctor ex_begun"
    by (rule txn_run.step [OF txn_run.refl txn_step.start [OF b]]) (simp add: TransactionManager_ctor_def TXN_START_ID_def)
  then show "txn_run TransactionManager_ctor ex_ended"
    by (rule txn_run.step [OF _ txn_step.commit [OF c]]) (use m(2) l in simp)
  show "txn_run ex_ended ex_second" using s txn_run.step [OF txn_run.refl txn_step.start] e2(1) l by metis
qed


text \<open>An undo log stays reachable through the link that was returned when it was appended.\<close>

lemma AppendUndoLog_link:
  assumes "txns_inv m" "txn_map m i = Some t" "AppendUndoLog t log = (l, t')" "length (undo_logs t) < 2 ^ 31"
  shows "GetUndoLogOptional (set_txn m i t') l = Inr (Some log)"
proof -
  have i: "txn_id t = i" using assms(1,2) by (simp add: txns_inv_def)
  have "static_cast I32 (int (length (undo_logs t))) = int (length (undo_logs t))"
    using assms(4) by (intro static_cast_id) (simp add: in_range_def)
  then show ?thesis using assms(3,4) i by (auto simp: AppendUndoLog_def GetUndoLogOptional_def set_txn_def Transaction_GetUndoLog_def at_def)
qed

section \<open>The links are a map from RIDs\<close>

lemma GetUndoLink_page: "GetUndoLink m r = page_links m (page_id r) (slot_num r)"
  by (simp add: GetUndoLink_def page_links_def split: option.splits)

lemma UpdateUndoLink_ok: "fst (UpdateUndoLink m r new chk) \<longleftrightarrow> (case chk of None \<Rightarrow> True | Some f \<Rightarrow> f (GetUndoLink m r))"
  by (simp add: UpdateUndoLink_def GetUndoLink_page Let_def split: option.splits)

lemma UpdateUndoLink_links:
  "GetUndoLink (snd (UpdateUndoLink m r new chk)) = (if fst (UpdateUndoLink m r new chk) then (GetUndoLink m)(r := new) else GetUndoLink m)"
proof
  fix s :: RID
  show "GetUndoLink (snd (UpdateUndoLink m r new chk)) s = (if fst (UpdateUndoLink m r new chk) then (GetUndoLink m)(r := new) else GetUndoLink m) s"
    by (cases r; cases s) (auto simp: UpdateUndoLink_def GetUndoLink_def page_links_def Let_def split: option.splits)
qed

lemma UpdateUndoLink_txns: "txn_map (snd (UpdateUndoLink m r new chk)) = txn_map m"
  by (simp add: UpdateUndoLink_def Let_def)

text \<open>C23: The version links refine a map from RIDs to links: an update changes exactly the link of its RID, when there is no check or
  the check accepts the current link, and changes nothing else, and otherwise it changes no link and says so.\<close>

theorem UpdateUndoLink_refines_map:
  "(fst (UpdateUndoLink m r new chk) \<longleftrightarrow> (case chk of None \<Rightarrow> True | Some f \<Rightarrow> f (GetUndoLink m r))) \<and>
   GetUndoLink (snd (UpdateUndoLink m r new chk)) = (if fst (UpdateUndoLink m r new chk) then (GetUndoLink m)(r := new) else GetUndoLink m) \<and>
   txn_map (snd (UpdateUndoLink m r new chk)) = txn_map m"
  by (intro conjI UpdateUndoLink_ok UpdateUndoLink_links UpdateUndoLink_txns)

section \<open>Writers in conflict\<close>

text \<open>Attempts to replace the link that they saw, one step each, in the order in which they get the latch.\<close>

fun attempts :: "TransactionManager \<Rightarrow> RID \<Rightarrow> UndoLink option \<Rightarrow> UndoLink list \<Rightarrow> bool list \<times> TransactionManager" where
  "attempts m r seen [] = ([], m)"
| "attempts m r seen (new # news) = (let (ok, m) = UpdateUndoLink m r (Some new) (Some (\<lambda>cur. cur = seen)); (oks, m) = attempts m r seen news in (ok # oks, m))"

lemma attempts_fail:
  "GetUndoLink m r \<noteq> seen \<Longrightarrow> fst (attempts m r seen news) = replicate (length news) False \<and> GetUndoLink (snd (attempts m r seen news)) = GetUndoLink m"
proof (induction news arbitrary: m)
  case (Cons new news)
  obtain ok m1 where u: "UpdateUndoLink m r (Some new) (Some (\<lambda>cur. cur = seen)) = (ok, m1)" by fastforce
  have "\<not> ok" "GetUndoLink m1 = GetUndoLink m"
    using Cons.prems UpdateUndoLink_ok [of m r "Some new" "Some (\<lambda>cur. cur = seen)"] UpdateUndoLink_links [of m r "Some new" "Some (\<lambda>cur. cur = seen)"] u by auto
  then show ?case using Cons.IH [of m1] Cons.prems u by (auto simp: Let_def split: prod.splits)
qed simp



section \<open>Tuples and their links change together\<close>

lemma set_row_same: "distinct (map fst rows) \<Longrightarrow> (r, x) \<in> set rows \<Longrightarrow> set_row r x rows = rows"
  by (auto simp: set_row_def intro!: map_idI) (metis eq_key_imp_eq_value)

lemma set_row_mem: "(r, x) \<in> set rows \<Longrightarrow> (r, y) \<in> set (set_row r y rows)"
  by (force simp: set_row_def)

text \<open>The update of a tuple with its link is an update in place, unless the tuple stays as it is.\<close>

lemma UpdateTupleAndUndoLink_in_place:
  assumes "AcquirePage bpm b (page_id r) = Inr (p, b1)" "TablePage_GetTuple p r = Inr (m0, t0)"
    and "case chk of None \<Rightarrow> True | Some f \<Rightarrow> f m0 t0 r l"
  shows "UpdateTupleAndUndoLink bpm b m r l m' t chk = (if m' = m0 \<and> data t = data t0 then Inr (True, b1, snd (UpdateUndoLink m r l None))
     else rbind (UpdateTupleInPlace bpm b m' t r None) (\<lambda>(ok, b). Inr (ok, b, snd (UpdateUndoLink m r l None))))"
  using assms by (auto simp: UpdateTupleAndUndoLink_def AcquireTablePageWriteLock_def UpdateTupleInPlaceWithLockAcquired_def
      IsTupleContentEqual_def UpdateTupleInPlace_def rbind_assoc split: option.splits)

context heap_on_pool
begin

lemma acquire_row:
  assumes "heap_rep (page_of b) h pgs" "pool_inv b" "(r, m0, d) \<in> set (heap_rows pgs)"
  obtains p b1 where "AcquirePage bpm b (page_id r) = Inr (p, b1)" "pool_inv b1" "page_of b1 = page_of b"
    "TablePage_GetTuple p r = Inr (m0, \<lparr> rid = r, data = d \<rparr>)"
proof -
  obtain xs us ys p nxt ndel where p: "pgs = xs @ (page_id r, us) # ys" "slot_num r < length us" "us ! slot_num r = (m0, d)"
      "page_of b (page_id r) = Some p" "represents p nxt ndel us"
    by (rule heap_split [OF assms(1,3)])
  obtain b1 where "AcquirePage bpm b (page_id r) = Inr (p, b1)" "pool_inv b1" "page_of b1 = page_of b"
    using AcquirePage_ok [OF assms(2) p(4)] by auto
  then show ?thesis using that GetTuple_represents [OF p(5), of r] p(2,3) by simp
qed

lemma update_linked_row:
  assumes h: "heap_rep (page_of b) h pgs" "pool_inv b" and r: "(r, m0, d) \<in> set (heap_rows pgs)" and m': "in_range I64 (ts m')"
    and len: "length (data t) = length d" and chk: "case chk of None \<Rightarrow> True | Some f \<Rightarrow> f m0 \<lparr> rid = r, data = d \<rparr> r l"
  shows "\<exists>b' pgs'. UpdateTupleAndUndoLink bpm b m r l m' t chk = Inr (True, b', snd (UpdateUndoLink m r l None)) \<and> pool_inv b' \<and>
     heap_rep (page_of b') h pgs' \<and> heap_rows pgs' = set_row r (m', data t) (heap_rows pgs)"
proof -
  obtain p b1 where p: "AcquirePage bpm b (page_id r) = Inr (p, b1)" "pool_inv b1" "page_of b1 = page_of b"
    "TablePage_GetTuple p r = Inr (m0, \<lparr> rid = r, data = d \<rparr>)" by (rule acquire_row [OF h r])
  note u = UpdateTupleAndUndoLink_in_place [OF p(1,4) chk, of m m' t]
  show ?thesis
  proof (cases "m' = m0 \<and> data t = d")
    case True
    have "set_row r (m', data t) (heap_rows pgs) = heap_rows pgs"
      using True r h(1) by (intro set_row_same distinct_heap_rows) (auto simp: heap_rep_def)
    then show ?thesis using u True p(2,3) h(1) by (intro exI [of _ b1] exI [of _ pgs]) simp
  next
    case False
    then show ?thesis using u update_in_place_row [OF h r m' len, of None] by auto
  qed
qed

lemma get_linked_row:
  assumes "heap_rep (page_of b) h pgs" "pool_inv b" "(r, m0, d) \<in> set (heap_rows pgs)"
  shows "\<exists>b'. GetTupleAndUndoLink bpm b m r = Inr ((m0, \<lparr> rid = r, data = d \<rparr>, GetUndoLink m r), b')"
  by (rule acquire_row [OF assms]) (simp add: GetTupleAndUndoLink_def AcquireTablePageReadLock_def)

end


lemma one_row_heap:
  obtains r h b pgs where "direct_inv um_inv um_contents (cmax I32) b" "heap_rep (direct_pages um_contents b) h pgs"
    "heap_rows pgs = [(r, \<lparr> ts = 5, is_deleted = False \<rparr>, ''abc'')]"
proof -
  obtain h0 b0 where c: "direct_inv um_inv um_contents (cmax I32) b0" "0 < direct_quota (cmax I32) b0" "heap_rep (direct_pages um_contents b0) h0 [(first_page_id h0, [])]"
    by (rule fresh_memory_heap)
  let ?m = "\<lparr> ts = 5, is_deleted = False \<rparr>"
  have "\<exists>r h b pgs. TableHeap_InsertTuple 2 (direct_pool (Unlimited_WritePage 1) (Unlimited_ReadPage 1)) None h0 b0 ?m \<lparr> rid = end_rid, data = ''abc'' \<rparr> = Some (Inr (r, h, b)) \<and>
     direct_inv um_inv um_contents (cmax I32) b \<and> direct_quota (cmax I32) b0 \<le> Suc (direct_quota (cmax I32) b) \<and> heap_rep (direct_pages um_contents b) h pgs \<and>
     heap_rows pgs = heap_rows [(first_page_id h0, [])] @ [(r, ?m, data \<lparr> rid = end_rid, data = ''abc'' \<rparr>)]"
    by (rule memory_heap.insert_appends [OF c(3,1,2)]) (simp_all add: in_range_def MAX_TUPLE_def)
  then show ?thesis using that by (auto simp: heap_rows_def page_rows_def)
qed


end
