(* ===== verification/Instance.thy ===== *)
theory Instance
  imports Printing FrontEnd Transactions
begin

text \<open>
  The instance (common/bustub_instance.cpp, common/bustub_ddl.cpp, include/common/bustub_instance.h): a session over
  the catalog and the transaction manager that runs the statements of a query text and the internal commands, and the
  writers that receive the results.  The parser and the formatting library are vendored code and, like the buffer pool, parameters.
\<close>

section \<open>Writers\<close>

text \<open>The calls on a \<open>ResultWriter\<close>, the output of a session.\<close>

datatype event = WriteCell string | WriteHeaderCell string | BeginHeader | EndHeader | BeginRow | EndRow
  | BeginTable bool | EndTable | OneCell string

text \<open>The \<open>OneCell\<close> of the base class.\<close>

fun ResultWriter_OneCell :: "event \<Rightarrow> event list" where
  "ResultWriter_OneCell (OneCell cell) = [BeginTable True, BeginRow, WriteCell cell, EndRow, EndTable]"
| "ResultWriter_OneCell e = [e]"

text \<open>\<open>SimpleStreamWriter\<close> by the text that each call appends to its stream.\<close>

definition bold :: "string \<Rightarrow> string" where
  "bold s = CHR 0x1B # ''[1m'' @ s @ CHR 0x1B # ''[0m''"

fun SimpleStreamWriter :: "bool \<Rightarrow> string \<Rightarrow> event \<Rightarrow> string" where
  "SimpleStreamWriter disable_header separator (WriteCell cell) = cell @ separator"
| "SimpleStreamWriter disable_header separator (WriteHeaderCell cell) = (if disable_header then [] else bold cell @ separator)"
| "SimpleStreamWriter disable_header separator EndHeader = (if disable_header then [] else newline)"
| "SimpleStreamWriter disable_header separator EndRow = newline"
| "SimpleStreamWriter disable_header separator e = []"

definition stream_text :: "bool \<Rightarrow> string \<Rightarrow> event list \<Rightarrow> string" where
  "stream_text disable_header separator es =
     concat (map (SimpleStreamWriter disable_header separator) (concat (map ResultWriter_OneCell es)))"

text \<open>\<open>StringVectorWriter\<close>; a cell goes to the last row, which has to exist.\<close>

fun StringVectorWriter :: "string list list \<Rightarrow> event \<Rightarrow> string list list result" where
  "StringVectorWriter vs (WriteCell cell) = (if vs = [] then Inl Undefined else Inr (butlast vs @ [last vs @ [cell]]))"
| "StringVectorWriter vs BeginRow = Inr (vs @ [[]])"
| "StringVectorWriter vs (BeginTable simplified_output) = Inr []"
| "StringVectorWriter vs e = Inr vs"

definition vector_rows :: "event list \<Rightarrow> string list list result" where
  "vector_rows es = rfoldM StringVectorWriter [] (concat (map ResultWriter_OneCell es))"

text \<open>\<open>HtmlWriter\<close> with its flag; the copy of the cells on the console is left out.\<close>

fun Escape_char :: "char \<Rightarrow> string" where
  "Escape_char ch = (if ch = CHR ''&'' then ''&amp;'' else if ch = CHR 0x22 then ''&quot;'' else if ch = CHR 0x27 then ''&apos;''
     else if ch = CHR ''<'' then ''&lt;'' else if ch = CHR ''>'' then ''&gt;'' else [ch])"

definition Escape :: "string \<Rightarrow> string" where
  "Escape str = concat (map Escape_char str)"

fun HtmlWriter :: "bool \<times> string \<Rightarrow> event \<Rightarrow> bool \<times> string" where
  "HtmlWriter (simplified, ss) (WriteCell cell) = (simplified, ss @ (if simplified then Escape cell else ''<td>'' @ Escape cell @ ''</td>''))"
| "HtmlWriter (simplified, ss) (WriteHeaderCell cell) = (simplified, ss @ (if simplified then Escape cell else ''<td>'' @ Escape cell @ ''</td>''))"
| "HtmlWriter (simplified, ss) BeginHeader = (simplified, ss @ (if simplified then [] else ''<thead><tr>''))"
| "HtmlWriter (simplified, ss) EndHeader = (simplified, ss @ (if simplified then [] else ''</tr></thead>''))"
| "HtmlWriter (simplified, ss) BeginRow = (simplified, ss @ (if simplified then [] else ''<tr>''))"
| "HtmlWriter (simplified, ss) EndRow = (simplified, ss @ (if simplified then [] else ''</tr>''))"
| "HtmlWriter (simplified, ss) (BeginTable simplified_output) = (simplified_output, ss @ (if simplified_output then ''<div>'' else ''<table>''))"
| "HtmlWriter (simplified, ss) EndTable = (simplified, ss @ (if simplified then ''</div>'' else ''</table>''))"
| "HtmlWriter (simplified, ss) (OneCell cell) = (simplified, ss)"

definition html_text :: "event list \<Rightarrow> string" where
  "html_text es = snd (foldl HtmlWriter (False, []) (concat (map ResultWriter_OneCell es)))"

section \<open>Sessions\<close>

text \<open>The fields of \<open>BusTubInstance\<close> that change, with the calls made on the writer.  A transaction is a pointer into the map of
  the manager, which never removes one: it is given by its id.\<close>

record 'b inst =
  inst_catalog :: Catalog
  inst_pool :: 'b
  txn_manager :: TransactionManager
  session_variables :: "string \<rightharpoonup> string"
  current_txn :: "int option"
  managed_txn_mode :: bool
  written :: "event list"

text \<open>What the instance takes from outside: the buffer pool, the environment of the mock tables, the formatting library, the order of
  unordered maps, the parser, the hash function of the indexes; and the fuel of the loops.  The parser returns an error message or a parse
  tree, which is null for a query text without statements.\<close>

record 'b world =
  w_bpm :: "'b bpm"
  w_mock :: mock_env
  w_fmt :: fmt_env
  w_enum :: "(string \<times> nat) list \<Rightarrow> (string \<times> nat) list"
  w_parse :: "string \<Rightarrow> string + pgstmt list option"
  w_hash :: "buffer \<Rightarrow> nat"
  w_fuel :: nat
  w_room :: nat

text \<open>An operation that may throw keeps the changes made before.  \<open>None\<close> stands for a lack of fuel.\<close>

type_synonym ('s, 'a) act = "'s \<Rightarrow> ('a result \<times> 's) option"

definition act_return :: "'a \<Rightarrow> ('s, 'a) act" where
  "act_return x s = Some (Inr x, s)"

definition act_result :: "'a result \<Rightarrow> ('s, 'a) act" where
  "act_result r s = Some (r, s)"

definition act_bind :: "('s, 'a) act \<Rightarrow> ('a \<Rightarrow> ('s, 'b) act) \<Rightarrow> ('s, 'b) act" where
  "act_bind m f s = (case m s of None \<Rightarrow> None | Some (Inl e, s) \<Rightarrow> Some (Inl e, s) | Some (Inr x, s) \<Rightarrow> f x s)"

definition act_get :: "('s \<Rightarrow> 'a) \<Rightarrow> ('s, 'a) act" where
  "act_get g s = Some (Inr (g s), s)"

definition act_modify :: "('s \<Rightarrow> 's) \<Rightarrow> ('s, unit) act" where
  "act_modify g s = Some (Inr (), g s)"

text \<open>A computation with fuel that does not change the state.\<close>

definition act_run :: "'a result option \<Rightarrow> ('s, 'a) act" where
  "act_run r s = (case r of None \<Rightarrow> None | Some x \<Rightarrow> Some (x, s))"

fun act_each :: "('a \<Rightarrow> ('s, unit) act) \<Rightarrow> 'a list \<Rightarrow> ('s, unit) act" where
  "act_each f [] = act_return ()"
| "act_each f (x # xs) = act_bind (f x) (\<lambda>_. act_each f xs)"

definition emit :: "event \<Rightarrow> ('b inst, unit) act" where
  "emit e = act_modify (\<lambda>i. i \<lparr> written := written i @ [e] \<rparr>)"

definition WriteOneCell :: "string \<Rightarrow> ('b inst, unit) act" where
  "WriteOneCell cell = emit (OneCell cell)"

definition BusTubInstance_ctor :: "'b \<Rightarrow> 'b inst" where
  "BusTubInstance_ctor b = \<lparr> inst_catalog = Catalog_ctor, inst_pool = b, txn_manager = TransactionManager_ctor,
     session_variables = (\<lambda>_. None), current_txn = None, managed_txn_mode = False, written = [] \<rparr>"

definition EnableManagedTxn :: "'b inst \<Rightarrow> 'b inst" where
  "EnableManagedTxn i = i \<lparr> managed_txn_mode := True \<rparr>"

definition GetSessionVariable :: "'b inst \<Rightarrow> string \<Rightarrow> string" where
  "GetSessionVariable i key = (case session_variables i key of Some v \<Rightarrow> v | None \<Rightarrow> [])"

definition IsForceStarterRule :: "'b inst \<Rightarrow> bool" where
  "IsForceStarterRule i = (let v = Lower (GetSessionVariable i ''force_optimizer_starter_rule'') in v = ''1'' \<or> v = ''true'' \<or> v = ''yes'')"

section \<open>Definition statements\<close>

text \<open>The columns of an index key: integers, one or two of them.\<close>

definition key_column :: "Schema \<Rightarrow> string \<Rightarrow> nat result" where
  "key_column s name = rbind (GetColIdx s name) (\<lambda>idx. rbind (GetColumn s idx) (\<lambda>c.
     if column_type c \<noteq> INTEGER then Inl (Throw ET_NOT_IMPLEMENTED ''only support creating index on integer column'') else Inr idx))"

definition key_columns :: "Schema \<Rightarrow> string list \<Rightarrow> (nat list \<times> Schema) result" where
  "key_columns s names = rbind (rmapM (key_column s) names) (\<lambda>col_ids. rbind (CopySchema s col_ids) (\<lambda>key_schema.
     if col_ids = [] \<or> length col_ids > 2 then Inl (Throw ET_NOT_IMPLEMENTED ''only support creating index with exactly one or two columns'')
     else Inr (col_ids, key_schema)))"

definition TWO_INTEGER_SIZE :: nat where "TWO_INTEGER_SIZE = 8"

text \<open>The call of \<open>Catalog::CreateIndex\<close>.\<close>

definition create_index :: "'b world \<Rightarrow> string \<Rightarrow> string \<Rightarrow> Schema \<Rightarrow> nat list \<times> Schema \<Rightarrow> bool \<Rightarrow> IndexType \<Rightarrow> ('b inst, IndexInfo option) act" where
  "create_index w index_name table schema = (\<lambda>(col_ids, key_schema) is_primary_key index_type i.
     case CreateIndex (w_fuel w) (w_bpm w) (inst_pool i) (inst_catalog i) index_name table schema key_schema col_ids TWO_INTEGER_SIZE TWO_INTEGER_SIZE
         (w_hash w) is_primary_key index_type of
       None \<Rightarrow> None
     | Some (Inl e) \<Rightarrow> Some (Inl e, i)
     | Some (Inr (info, c, b)) \<Rightarrow> Some (Inr info, i \<lparr> inst_catalog := c, inst_pool := b \<rparr>))"

definition create_table :: "'b world \<Rightarrow> string \<Rightarrow> Schema \<Rightarrow> bool \<Rightarrow> ('b inst, TableInfo option) act" where
  "create_table w table schema with_heap i = (case CreateTable (w_bpm w) (inst_pool i) (inst_catalog i) table schema with_heap of
       Inl e \<Rightarrow> Some (Inl e, i)
     | Inr (info, c, b) \<Rightarrow> Some (Inr info, i \<lparr> inst_catalog := c, inst_pool := b \<rparr>))"

text \<open>\<open>info\<close> is null when the table exists; with a primary key it is dereferenced before the test.\<close>

definition HandleCreateStatement :: "'b world \<Rightarrow> string \<Rightarrow> Column list \<Rightarrow> string list \<Rightarrow> ('b inst, unit) act" where
  "HandleCreateStatement w table cols primary_key = act_bind (create_table w table (Schema_ctor cols) True) (\<lambda>info.
     act_bind (if primary_key = [] then act_return None else (case info of None \<Rightarrow> act_result (Inl Undefined)
       | Some t \<Rightarrow> act_bind (act_result (key_columns (ti_schema t) primary_key)) (\<lambda>key.
           create_index w (table @ ''_pk'') table (ti_schema t) key True BPlusTreeIndex))) (\<lambda>index.
     case info of None \<Rightarrow> act_result (Inl (Throw ET_INVALID ''Failed to create table''))
     | Some t \<Rightarrow> (case index of
         Some ix \<Rightarrow> WriteOneCell (''Table created with id = '' @ nat_to_string (ti_oid t) @ '', Primary key index created with id = '' @ nat_to_string (ii_index_oid ix))
       | None \<Rightarrow> WriteOneCell (''Table created with id = '' @ nat_to_string (ti_oid t)))))"

definition index_type_of :: "string \<Rightarrow> IndexType result" where
  "index_type_of ty = (if ty = [] then Inr BPlusTreeIndex else if ty = ''hash'' then Inr HashTableIndex
     else if ty = ''bplustree'' then Inr BPlusTreeIndex else if ty = ''stl_ordered'' then Inr STLOrderedIndexType
     else if ty = ''stl_unordered'' then Inr STLUnorderedIndexType else Inl (LogicError (''unsupported index type '' @ ty)))"

definition HandleIndexStatement :: "'b world \<Rightarrow> string \<Rightarrow> BoundBaseTable \<Rightarrow> string list list \<Rightarrow> string \<Rightarrow> ('b inst, unit) act" where
  "HandleIndexStatement w index_name t cols ty =
     act_bind (act_result (rbind (rmapM (\<lambda>c. if c = [] then Inl Undefined else Inr (last c)) cols) (key_columns (bt_schema t)))) (\<lambda>key.
     act_bind (act_result (index_type_of ty)) (\<lambda>index_type.
     act_bind (create_index w index_name (bt_table t) (bt_schema t) key False index_type) (\<lambda>info.
     case info of None \<Rightarrow> act_result (Inl (Throw ET_INVALID ''Failed to create index''))
     | Some ix \<Rightarrow> WriteOneCell (''Index created with id = '' @ nat_to_string (ii_index_oid ix) @ '' with type = '' @ IndexType_name (ii_index_type ix)))))"

definition HandleVariableShowStatement :: "string \<Rightarrow> ('b inst, unit) act" where
  "HandleVariableShowStatement variable = act_bind (act_get (\<lambda>i. GetSessionVariable i variable)) (\<lambda>content.
     WriteOneCell (variable @ ''='' @ content))"

definition HandleVariableSetStatement :: "string \<Rightarrow> string \<Rightarrow> ('b inst, unit) act" where
  "HandleVariableSetStatement variable v = act_modify (\<lambda>i. i \<lparr> session_variables := (session_variables i)(variable \<mapsto> v) \<rparr>)"

text \<open>The options of \<open>EXPLAIN\<close> are bits: binder, planner, optimizer and schema.\<close>

definition explains :: "nat \<Rightarrow> nat \<Rightarrow> bool" where
  "explains options k \<longleftrightarrow> odd (options div 2 ^ k)"

definition explain_part :: "bool \<Rightarrow> string \<Rightarrow> string result \<Rightarrow> string result" where
  "explain_part shown title text = (if shown then rbind text (\<lambda>s. Inr (title @ newline @ s @ newline)) else Inr [])"

definition HandleExplainStatement :: "'b world \<Rightarrow> BoundStatement \<Rightarrow> nat \<Rightarrow> ('b inst, unit) act" where
  "HandleExplainStatement w statement options = act_bind (act_get (\<lambda>i. (inst_catalog i, IsForceStarterRule i))) (\<lambda>(c, force).
     act_bind (act_result (
       rbind (explain_part (explains options 0) ''=== BINDER ==='' (statement_ToString (w_fmt w) statement)) (\<lambda>s1.
       rbind (PlanQuery c (w_room w) statement) (\<lambda>p.
       rbind (explain_part (explains options 1) ''=== PLANNER ==='' (plan_ToString (w_fmt w) (explains options 3) p)) (\<lambda>s2.
       rbind (Optimize (w_enum w) c force p) (\<lambda>q.
       rbind (explain_part (explains options 2) ''=== OPTIMIZER ==='' (plan_ToString (w_fmt w) (explains options 3) q)) (\<lambda>s3.
       Inr (s1 @ s2 @ s3)))))))) WriteOneCell)"

section \<open>Transactions\<close>

definition txn_text :: "string \<Rightarrow> Transaction \<Rightarrow> string" where
  "txn_text pre t = pre @ ''txn_id='' @ to_string (GetTransactionIdHumanReadable t) @ '' txn_real_id='' @ to_string (txn_id t) @ '' read_ts='' @
     to_string (read_ts t) @ '' commit_ts='' @ to_string (commit_ts t) @ '' status='' @ TransactionState_name (txn_state t) @ '' iso_lvl='' @
     IsolationLevel_name (isolation_level t)"

text \<open>\<open>dump_current_txn\<close> follows \<open>current_txn_\<close>, which may be null.\<close>

definition get_txn :: "int \<Rightarrow> ('b inst, Transaction) act" where
  "get_txn txn i = Some (case txn_map (txn_manager i) txn of None \<Rightarrow> Inl Undefined | Some t \<Rightarrow> Inr t, i)"

definition dump_current_txn :: "string \<Rightarrow> ('b inst, unit) act" where
  "dump_current_txn pre = act_bind (act_get current_txn) (\<lambda>c. case c of None \<Rightarrow> act_result (Inl Undefined)
     | Some txn \<Rightarrow> act_bind (get_txn txn) (\<lambda>t. WriteOneCell (txn_text pre t)))"

definition set_current :: "int option \<Rightarrow> ('b inst, unit) act" where
  "set_current c = act_modify (\<lambda>i. i \<lparr> current_txn := c \<rparr>)"

text \<open>The operations of the manager, on the instance.\<close>

definition begin_txn :: "IsolationLevel \<Rightarrow> ('b inst, int) act" where
  "begin_txn level i = (case Begin (txn_manager i) level of Inl e \<Rightarrow> Some (Inl e, i)
     | Inr (txn, m) \<Rightarrow> Some (Inr txn, i \<lparr> txn_manager := m \<rparr>))"

definition commit_txn :: "int \<Rightarrow> ('b inst, bool) act" where
  "commit_txn txn i = (case Commit (txn_manager i) txn of Inl e \<Rightarrow> Some (Inl e, i)
     | Inr (ok, m) \<Rightarrow> Some (Inr ok, i \<lparr> txn_manager := m \<rparr>))"

definition abort_txn :: "int \<Rightarrow> ('b inst, unit) act" where
  "abort_txn txn i = (case Abort (txn_manager i) txn of Inl e \<Rightarrow> Some (Inl e, i)
     | Inr m \<Rightarrow> Some (Inr (), i \<lparr> txn_manager := m \<rparr>))"

definition isolation_of :: "string \<Rightarrow> IsolationLevel result" where
  "isolation_of iso_lvl = (if iso_lvl = ''serializable'' then Inr SERIALIZABLE else if iso_lvl = ''snapshot_isolation'' \<or> iso_lvl = [] then Inr SNAPSHOT_ISOLATION
     else Inl (Throw ET_INVALID ''unsupported global_isolation_level''))"

definition ended_text :: "string \<Rightarrow> Transaction \<Rightarrow> string" where
  "ended_text pre t = pre @ '', txn_id='' @ to_string (GetTransactionIdHumanReadable t) @ '', status='' @ TransactionState_name (txn_state t) @
     '', read_ts='' @ to_string (read_ts t)"

text \<open>\<open>txn\<close> is the transaction of the call, never null.\<close>

definition HandleTxnStatement :: "int \<Rightarrow> string \<Rightarrow> ('b inst, unit) act" where
  "HandleTxnStatement txn ty = act_bind (act_get (\<lambda>i. i)) (\<lambda>i.
     if managed_txn_mode i \<and> current_txn i \<noteq> None \<and> current_txn i \<noteq> Some txn then act_result (Inl AssertFail)
     else if ty = ''begin'' then
       (if \<not> managed_txn_mode i then WriteOneCell ''begin statement is only supported in managed txn mode, please use bustub-shell''
        else act_bind (act_result (isolation_of (Lower (GetSessionVariable i ''global_isolation_level'')))) (\<lambda>level.
          act_bind (begin_txn level) (\<lambda>new. act_bind (set_current (Some new)) (\<lambda>_.
          dump_current_txn (if current_txn i \<noteq> None then ''pause current txn and begin new txn '' else ''begin txn '')))))
     else if ty = ''commit'' then
       act_bind (commit_txn txn) (\<lambda>res. act_bind (get_txn txn) (\<lambda>t.
       act_bind (WriteOneCell (ended_text (if res then ''txn committed'' else ''txn failed to commit'') t @ '', commit_ts='' @ to_string (commit_ts t))) (\<lambda>_.
       set_current None)))
     else if ty = ''abort'' then
       act_bind (abort_txn txn) (\<lambda>_. act_bind (get_txn txn) (\<lambda>t. act_bind (WriteOneCell (ended_text ''txn aborted'' t)) (\<lambda>_. set_current None)))
     else act_return ())"

section \<open>Internal commands\<close>

definition CmdDisplayTables :: "'b world \<Rightarrow> ('b inst, unit) act" where
  "CmdDisplayTables w = act_bind (act_get inst_catalog) (\<lambda>c.
     act_bind (act_each emit [BeginTable False, BeginHeader, WriteHeaderCell ''oid'', WriteHeaderCell ''name'', WriteHeaderCell ''cols'', EndHeader]) (\<lambda>_.
     act_bind (act_each (\<lambda>name. act_bind (emit BeginRow) (\<lambda>_. act_bind (act_result (GetTable c name)) (\<lambda>info.
         case info of None \<Rightarrow> act_result (Inl Undefined) | Some t \<Rightarrow>
           act_each emit [WriteCell (nat_to_string (ti_oid t)), WriteCell (ti_name t), WriteCell (Schema_ToString True (ti_schema t)), EndRow])))
       (GetTableNames (w_enum w) c)) (\<lambda>_. emit EndTable)))"

definition CmdDisplayIndices :: "'b world \<Rightarrow> ('b inst, unit) act" where
  "CmdDisplayIndices w = act_bind (act_get inst_catalog) (\<lambda>c.
     act_bind (act_each emit [BeginTable False, BeginHeader, WriteHeaderCell ''table_name'', WriteHeaderCell ''index_oid'', WriteHeaderCell ''index_name'',
       WriteHeaderCell ''index_cols'', EndHeader]) (\<lambda>_.
     act_bind (act_each (\<lambda>name. act_bind (act_result (GetTableIndexes (w_enum w) c name)) (act_each (\<lambda>info.
           act_each emit [BeginRow, WriteCell name, WriteCell (nat_to_string (ii_index_oid info)), WriteCell (ii_name info),
             WriteCell (Schema_ToString True (ii_key_schema info)), EndRow])))
       (GetTableNames (w_enum w) c)) (\<lambda>_. emit EndTable)))"

definition help_text :: string where
  "help_text = concat (map (\<lambda>l. l @ newline) [
     ''Welcome to the BusTub shell!'', [],
     CHR 0x5C # ''dt: show all tables'', CHR 0x5C # ''di: show all indices'', CHR 0x5C # ''dbgmvcc <table>: show version chain of a table'',
     CHR 0x5C # ''help: show this message again'', CHR 0x5C # ''txn: show current txn information'', CHR 0x5C # ''txn <txn_id>: switch to txn'',
     CHR 0x5C # ''txn gc: run garbage collection'', CHR 0x5C # ''txn -1: exit txn mode'', [],
     ''BusTub shell currently only supports a small set of Postgres queries. We'' @ [CHR 0x27] @ ''ll set'',
     ''up a doc describing the current status later. It will silently ignore some parts'',
     ''of the query, so it'' @ [CHR 0x27] @ ''s normal that you'' @ [CHR 0x27] @ ''ll get a wrong result when executing'',
     ''unsupported SQL queries. This shell will be able to run `create table` only'',
     ''after you have completed the buffer pool manager. It will be able to execute SQL'',
     ''queries after you have implemented necessary query executors. Use `explain` to'',
     ''see the execution plan of your query.''])"

definition CmdDisplayHelp :: "('b inst, unit) act" where
  "CmdDisplayHelp = WriteOneCell help_text"

text \<open>\<open>TxnMgrDbg\<close> only prints to the console.\<close>

definition CmdDbgMvcc :: "string list \<Rightarrow> ('b inst, unit) act" where
  "CmdDbgMvcc params = (case params of [cmd, table] \<Rightarrow>
       act_bind (WriteOneCell (''please view the result in the BusTub console (or Chrome DevTools console), table='' @ table)) (\<lambda>_.
       act_bind (act_get inst_catalog) (\<lambda>c. act_bind (act_result (GetTable c table)) (\<lambda>info.
       if info = None then WriteOneCell (''table '' @ table @ '' not found'') else act_return ())))
     | _ \<Rightarrow> WriteOneCell ''please provide a table name'')"

definition find_txn :: "TransactionManager \<Rightarrow> int \<Rightarrow> int option" where
  "find_txn m k = (if txn_map m k \<noteq> None then Some k else if txn_map m (k + TXN_START_ID) \<noteq> None then Some (k + TXN_START_ID) else None)"

definition CmdTxn :: "string list \<Rightarrow> ('b inst, unit) act" where
  "CmdTxn params = act_bind (act_get (\<lambda>i. i)) (\<lambda>i.
     if \<not> managed_txn_mode i then WriteOneCell ''only supported in managed mode, please use bustub-shell''
     else case params of
       [cmd] \<Rightarrow> if current_txn i \<noteq> None then dump_current_txn [] else WriteOneCell ''no active txn, each statement starts a new txn.''
     | [cmd, param1] \<Rightarrow> if param1 = ''gc'' then act_bind (act_result (GarbageCollection (txn_manager i))) (\<lambda>_. WriteOneCell ''GC complete'')
         else act_bind (act_result (stoi param1)) (\<lambda>k.
           if k = - 1 then act_bind (dump_current_txn ''pause current txn '') (\<lambda>_. set_current None)
           else case find_txn (txn_manager i) k of None \<Rightarrow> WriteOneCell ''cannot find txn.''
             | Some txn \<Rightarrow> act_bind (set_current (Some txn)) (\<lambda>_. dump_current_txn ''switch to new txn ''))
     | _ \<Rightarrow> WriteOneCell ''unsupported txn cmd.'')"

section \<open>Running a query text\<close>

text \<open>\<open>Binder::ParseAndSave\<close>.\<close>

definition ParseAndSave :: "'b world \<Rightarrow> string \<Rightarrow> pgstmt list result" where
  "ParseAndSave w query = (case w_parse w query of Inl m \<Rightarrow> Inl (Throw ET_INVALID (''Query failed to parse: '' @ m))
     | Inr None \<Rightarrow> Inr [] | Inr (Some stmts) \<Rightarrow> Inr stmts)"

text \<open>The result set as strings, read with the schema of the plan before its optimisation.\<close>

definition write_row :: "Schema \<Rightarrow> Tuple \<Rightarrow> ('b inst, unit) act" where
  "write_row schema tuple = act_bind (emit BeginRow) (\<lambda>_. act_bind (act_each (\<lambda>k.
     act_bind (act_result (rbind (GetValue tuple schema k) Value_ToString)) (\<lambda>s. emit (WriteCell s))) [0..<GetColumnCount schema]) (\<lambda>_. emit EndRow))"

definition write_result :: "Schema \<Rightarrow> Tuple list \<Rightarrow> ('b inst, unit) act" where
  "write_result schema rows = act_bind (act_each emit ([BeginTable False, BeginHeader] @ map (WriteHeaderCell \<circ> column_name) (columns schema) @ [EndHeader])) (\<lambda>_.
     act_bind (act_each (write_row schema) rows) (\<lambda>_. emit EndTable))"

text \<open>A statement that goes through the planner, the optimizer and the engine.\<close>

definition run_query :: "'b world \<Rightarrow> bool \<Rightarrow> BoundStatement \<Rightarrow> ('b inst, bool) act" where
  "run_query w topn_check statement = act_bind (act_get (\<lambda>i. (inst_catalog i, IsForceStarterRule i))) (\<lambda>(c, force).
     act_bind (act_result (rbind (PlanQuery c (w_room w) statement) (\<lambda>p. rbind (Optimize (w_enum w) c force p) (\<lambda>q. Inr (p, q))))) (\<lambda>(p, q).
     act_bind (act_run (Execute (w_fuel w) (w_mock w) topn_check q (Some []))) (\<lambda>(ok, result_set).
     act_bind (write_result (OutputSchema p) (case result_set of Some rows \<Rightarrow> rows | None \<Rightarrow> [])) (\<lambda>_. act_return ok))))"

text \<open>One statement.  The check options, if any, are moved into the context of the first query.\<close>

definition run_statement :: "'b world \<Rightarrow> int \<Rightarrow> bool option \<Rightarrow> BoundStatement \<Rightarrow> ('b inst, bool \<times> bool option) act" where
  "run_statement w txn check_options statement = (case statement of
       Create_Statement t cs pk \<Rightarrow> act_bind (HandleCreateStatement w t cs pk) (\<lambda>_. act_return (True, check_options))
     | Index_Statement n t cs ty col_options opts \<Rightarrow> act_bind (HandleIndexStatement w n t cs ty) (\<lambda>_. act_return (True, check_options))
     | VariableShow_Statement v \<Rightarrow> act_bind (HandleVariableShowStatement v) (\<lambda>_. act_return (True, check_options))
     | VariableSet_Statement v x \<Rightarrow> act_bind (HandleVariableSetStatement v x) (\<lambda>_. act_return (True, check_options))
     | Explain_Statement s opts \<Rightarrow> act_bind (HandleExplainStatement w s opts) (\<lambda>_. act_return (True, check_options))
     | Transaction_Statement ty \<Rightarrow> act_bind (HandleTxnStatement txn ty) (\<lambda>_. act_return (True, check_options))
     | _ \<Rightarrow> act_bind (run_query w (check_options = Some True) statement) (\<lambda>ok. act_return (ok, None)))"

fun run_statements :: "'b world \<Rightarrow> int \<Rightarrow> pgstmt list \<Rightarrow> nat \<Rightarrow> bool option \<Rightarrow> bool \<Rightarrow> ('b inst, bool) act" where
  "run_statements w txn [] uid check_options is_successful = act_return is_successful"
| "run_statements w txn (stmt # stmts) uid check_options is_successful =
     act_bind (act_get inst_catalog) (\<lambda>c. act_bind (act_result (BindStatement c stmt uid)) (\<lambda>(statement, uid).
     act_bind (run_statement w txn check_options statement) (\<lambda>(ok, check_options).
     run_statements w txn stmts uid check_options (is_successful \<and> ok))))"

definition internal_command :: "'b world \<Rightarrow> string \<Rightarrow> ('b inst, bool) act" where
  "internal_command w sql = (if sql = CHR 0x5C # ''dt'' then act_bind (CmdDisplayTables w) (\<lambda>_. act_return True)
     else if sql = CHR 0x5C # ''di'' then act_bind (CmdDisplayIndices w) (\<lambda>_. act_return True)
     else if sql = CHR 0x5C # ''help'' then act_bind CmdDisplayHelp (\<lambda>_. act_return True)
     else act_bind (act_result (StartsWith sql (CHR 0x5C # ''dbgmvcc''))) (\<lambda>dbg.
       if dbg then act_bind (act_run (map_option Inr (Split_string sql '' ''))) (\<lambda>params. act_bind (CmdDbgMvcc params) (\<lambda>_. act_return True))
       else act_bind (act_result (StartsWith sql (CHR 0x5C # ''txn''))) (\<lambda>txn.
         if txn then act_bind (act_run (map_option Inr (Split_string sql '' ''))) (\<lambda>params. act_bind (CmdTxn params) (\<lambda>_. act_return True))
         else act_result (Inl (Throw ET_INVALID (''unsupported internal command: '' @ sql))))))"

definition ExecuteSqlTxn :: "'b world \<Rightarrow> string \<Rightarrow> int \<Rightarrow> bool option \<Rightarrow> ('b inst, bool) act" where
  "ExecuteSqlTxn w sql txn check_options = (if sql \<noteq> [] \<and> hd sql = CHR 0x5C then internal_command w sql
     else act_bind (act_result (ParseAndSave w sql)) (\<lambda>stmts. run_statements w txn stmts 0 check_options True))"

text \<open>Only a \<open>bustub::Exception\<close> is caught.\<close>

definition catch_exception :: "('s, 'a) act \<Rightarrow> ('s, unit) act \<Rightarrow> ('s, 'a) act" where
  "catch_exception m handler s = (case m s of
       Some (Inl (Throw k msg), s) \<Rightarrow> act_bind handler (\<lambda>_. act_result (Inl (Throw k msg))) s
     | r \<Rightarrow> r)"

definition ExecuteSql :: "'b world \<Rightarrow> string \<Rightarrow> bool option \<Rightarrow> ('b inst, bool) act" where
  "ExecuteSql w sql check_options = act_bind (act_get current_txn) (\<lambda>cur.
     act_bind (case cur of Some txn \<Rightarrow> act_return txn | None \<Rightarrow> begin_txn SNAPSHOT_ISOLATION) (\<lambda>txn.
     catch_exception (act_bind (ExecuteSqlTxn w sql txn check_options) (\<lambda>result.
         act_bind (if cur = None then act_bind (commit_txn txn) (\<lambda>res.
             if res then act_return () else act_result (Inl (Throw ET_INVALID ''failed to commit txn''))) else act_return ()) (\<lambda>_.
         act_return result)))
       (act_bind (abort_txn txn) (\<lambda>_. set_current None))))"

text \<open>\<open>GenerateMockTable\<close>; the result of the commit is ignored.\<close>

definition GenerateMockTable :: "'b world \<Rightarrow> ('b inst, unit) act" where
  "GenerateMockTable w = act_bind (begin_txn SNAPSHOT_ISOLATION) (\<lambda>txn.
     act_bind (act_each (\<lambda>name. act_bind (act_result (GetMockTableSchemaOf name)) (\<lambda>s.
       act_bind (create_table w name s False) (\<lambda>_. act_return ()))) mock_table_list) (\<lambda>_.
     act_bind (commit_txn txn) (\<lambda>_. act_return ())))"

section \<open>What an operation may do to a session\<close>

text \<open>An operation moves the session along a relation.  Every such relation that is reflexive and transitive is kept by the
  sequence of two operations and by the loops.\<close>

definition steps :: "('s \<Rightarrow> 's \<Rightarrow> bool) \<Rightarrow> ('s, 'a) act \<Rightarrow> bool" where
  "steps R m \<longleftrightarrow> (\<forall>s r s'. m s = Some (r, s') \<longrightarrow> R s s')"

named_theorems act_defs

lemmas [act_defs] = act_return_def act_result_def act_bind_def act_get_def act_modify_def act_run_def catch_exception_def

lemma act_bind_simps [simp]:
  "act_bind (act_return x) f = f x"
  "act_bind (act_result (Inr x)) f = f x"
  "act_bind (act_result (Inl e)) f s = Some (Inl e, s)"
  "act_bind (act_get g) f s = f (g s) s"
  "act_bind (act_modify h) k s = k () (h s)"
  by (simp_all add: act_defs fun_eq_iff)

lemma steps_mono: "steps R m \<Longrightarrow> (\<And>s s'. R s s' \<Longrightarrow> R' s s') \<Longrightarrow> steps R' m"
  by (auto simp: steps_def)

lemma steps_if: "(b \<Longrightarrow> steps R m) \<Longrightarrow> (\<not> b \<Longrightarrow> steps R n) \<Longrightarrow> steps R (if b then m else n)"
  by simp

locale act_relation =
  fixes R :: "'s \<Rightarrow> 's \<Rightarrow> bool"
  assumes refl [simp]: "R s s"
    and trans: "R s t \<Longrightarrow> R t u \<Longrightarrow> R s u"
begin

lemma steps_return: "steps R (act_return x)"
  by (simp add: steps_def act_defs)

lemma steps_result: "steps R (act_result x)"
  by (simp add: steps_def act_defs)

lemma steps_get: "steps R (act_get g)"
  by (simp add: steps_def act_defs)

lemma steps_run: "steps R (act_run x)"
  by (auto simp: steps_def act_defs split: option.splits)

lemma steps_bind:
  assumes "steps R m" "\<And>x. steps R (f x)"
  shows "steps R (act_bind m f)"
  using assms trans by (fastforce simp: steps_def act_defs split: option.splits prod.splits sum.splits)

lemma steps_bind_result: "(\<And>x. r = Inr x \<Longrightarrow> steps R (f x)) \<Longrightarrow> steps R (act_bind (act_result r) f)"
  by (cases r) (simp_all add: steps_def)

lemma steps_each: "(\<And>x. steps R (f x)) \<Longrightarrow> steps R (act_each f xs)"
  by (induction xs) (auto intro: steps_return steps_bind)

lemma steps_catch:
  fixes m :: "('s, 'a) act"
  assumes "steps R m" "steps R handler"
  shows "steps R (catch_exception m handler)"
  unfolding steps_def
proof (intro allI impI)
  fix s r s'
  assume a: "catch_exception m handler s = Some (r, s')"
  show "R s s'"
  proof (cases "\<exists>k msg t. m s = Some (Inl (Throw k msg), t)")
    case True
    then obtain k msg t where t: "m s = Some (Inl (Throw k msg), t)" by blast
    moreover have "steps R (act_bind handler (\<lambda>_. act_result (Inl (Throw k msg)) :: ('s, 'a) act))"
      using assms(2) by (intro steps_bind steps_result)
    ultimately have "R t s'" using a by (simp add: catch_exception_def steps_def)
    then show ?thesis using assms(1) t by (auto simp: steps_def intro: trans)
  next
    case False
    then have "m s = Some (r, s')" using a by (auto simp: catch_exception_def split: option.splits prod.splits sum.splits failure.splits)
    then show ?thesis using assms(1) by (auto simp: steps_def)
  qed
qed

lemmas steps_intros = steps_return steps_result steps_get steps_run steps_bind steps_each steps_catch

end

text \<open>Most operations leave the transactions and the mode alone.\<close>

definition same_txns :: "'b inst \<Rightarrow> 'b inst \<Rightarrow> bool" where
  "same_txns i i' \<longleftrightarrow> txn_manager i' = txn_manager i \<and> current_txn i' = current_txn i \<and> managed_txn_mode i' = managed_txn_mode i"

interpretation st: act_relation same_txns
  by unfold_locales (auto simp: same_txns_def)

lemma emit_same_txns: "steps same_txns (emit e)" "steps same_txns (WriteOneCell c)"
  by (simp_all add: steps_def emit_def WriteOneCell_def act_modify_def same_txns_def)

lemma create_same_txns:
  "steps same_txns (create_index w n t s key pk ty)" "steps same_txns (create_table w n s heap)" "steps same_txns (HandleVariableSetStatement v x)"
  by (auto simp: steps_def create_index_def create_table_def HandleVariableSetStatement_def act_modify_def same_txns_def
      split: prod.splits option.splits sum.splits)

lemmas st_intros = st.steps_intros emit_same_txns create_same_txns

lemma Handle_same_txns:
  "steps same_txns (HandleCreateStatement w t cs pk)"
  "steps same_txns (HandleIndexStatement w n bt cols ty)"
  "steps same_txns (HandleVariableShowStatement v)"
  "steps same_txns (HandleExplainStatement w s opts)"
  unfolding HandleCreateStatement_def HandleIndexStatement_def HandleVariableShowStatement_def HandleExplainStatement_def
  by (auto intro!: st_intros split: option.splits prod.splits)

lemma Cmd_same_txns:
  "steps same_txns (CmdDisplayTables w)" "steps same_txns (CmdDisplayIndices w)" "steps same_txns CmdDisplayHelp" "steps same_txns (CmdDbgMvcc ps)"
  unfolding CmdDisplayTables_def CmdDisplayIndices_def CmdDisplayHelp_def CmdDbgMvcc_def
  by (auto intro!: st_intros simp del: act_each.simps split: option.splits list.splits)

lemma run_query_same_txns: "steps same_txns (run_query w tc s)"
  unfolding run_query_def write_result_def write_row_def
  by (auto intro!: st_intros simp del: act_each.simps split: prod.splits)

section \<open>The invariant of a session\<close>

text \<open>A transaction is filed under its id, no commit timestamp is positive (none is ever set), and the current transaction exists.\<close>

definition inst_inv :: "'b inst \<Rightarrow> bool" where
  "inst_inv i \<longleftrightarrow> (\<forall>k t. txn_map (txn_manager i) k = Some t \<longrightarrow> txn_id t = k \<and> commit_ts t \<le> 0) \<and>
     wm_commit_ts (running_txns (txn_manager i)) \<le> 0 \<and> (\<forall>c. current_txn i = Some c \<longrightarrow> txn_map (txn_manager i) c \<noteq> None)"

definition txns_progress :: "'b inst \<Rightarrow> 'b inst \<Rightarrow> bool" where
  "txns_progress i i' \<longleftrightarrow> (\<forall>k t. txn_map (txn_manager i) k = Some t \<longrightarrow> (\<exists>t'. txn_map (txn_manager i') k = Some t' \<and> txn_extends t t'))"

definition progress :: "'b inst \<Rightarrow> 'b inst \<Rightarrow> bool" where
  "progress i i' \<longleftrightarrow> (inst_inv i \<longrightarrow> inst_inv i' \<and> txns_progress i i')"

lemma txns_progress_trans: "txns_progress i i' \<Longrightarrow> txns_progress i' i'' \<Longrightarrow> txns_progress i i''"
  unfolding txns_progress_def by (metis txn_extends_trans)

interpretation pr: act_relation progress
proof unfold_locales
  show "progress s s" for s :: "'a inst" by (auto simp: progress_def txns_progress_def)
  show "progress s t \<Longrightarrow> progress t u \<Longrightarrow> progress s u" for s t u :: "'a inst"
    unfolding progress_def using txns_progress_trans by blast
qed

lemma same_txns_progress: "same_txns i i' \<Longrightarrow> progress i i'"
  by (auto simp: same_txns_def progress_def txns_progress_def inst_inv_def)

lemmas steps_same = steps_mono [OF _ same_txns_progress]

lemmas pr_intros = pr.steps_intros emit_same_txns [THEN steps_same] create_same_txns [THEN steps_same]

lemma begin_txn_progress:
  assumes "begin_txn level i = Some (r, i')"
  shows "progress i i'" "r = Inr new \<Longrightarrow> progress i (i' \<lparr> current_txn := Some new \<rparr>)"
  using assms
  by (auto simp: begin_txn_def Begin_def AddTxn_def Let_def set_txn_def progress_def txns_progress_def inst_inv_def Transaction_ctor_def INVALID_TS_def
      split: sum.splits prod.splits option.splits if_splits)

lemma end_txn_progress: "steps progress (commit_txn txn)" "steps progress (abort_txn txn)" "steps progress (set_current None)"
  by (auto simp: steps_def commit_txn_def abort_txn_def Commit_def Abort_def VerifyTxn_def set_txn_def progress_def txns_progress_def inst_inv_def
      set_current_def act_modify_def RemoveTxn_def UpdateCommitTs_def txn_extends_def state_moves_def
      split: sum.splits prod.splits option.splits if_splits)

lemma dump_same_txns: "steps same_txns (dump_current_txn pre)" "steps same_txns (get_txn txn)"
proof -
  show g: "steps same_txns (get_txn txn)" for txn by (auto simp: steps_def get_txn_def same_txns_def)
  show "steps same_txns (dump_current_txn pre)" unfolding dump_current_txn_def by (auto intro!: st_intros g split: option.splits)
qed

lemmas dump_progress = dump_same_txns(1) [THEN steps_same] dump_same_txns(2) [THEN steps_same]

lemma begin_current_progress:
  assumes "\<And>x. steps progress (k x)"
  shows "steps progress (act_bind (begin_txn level) (\<lambda>new. act_bind (set_current (Some new)) k))"
  unfolding steps_def
proof (intro allI impI)
  fix i r i'
  assume a: "act_bind (begin_txn level) (\<lambda>new. act_bind (set_current (Some new)) k) i = Some (r, i')"
  then obtain r1 i1 where b: "begin_txn level i = Some (r1, i1)" by (auto simp: act_bind_def split: option.splits)
  show "progress i i'"
  proof (cases r1)
    case (Inl e)
    then show ?thesis using a b begin_txn_progress(1) [OF b] by (simp add: act_bind_def)
  next
    case (Inr new)
    then have "k () (i1 \<lparr> current_txn := Some new \<rparr>) = Some (r, i')" using a b by (simp add: act_bind_def set_current_def act_modify_def)
    then show ?thesis using begin_txn_progress(2) [OF b Inr] assms by (auto simp: steps_def intro: pr.trans)
  qed
qed

lemma HandleTxnStatement_progress: "steps progress (HandleTxnStatement txn ty)"
  unfolding HandleTxnStatement_def
  by (intro steps_if begin_current_progress pr_intros end_txn_progress dump_progress)

lemma CmdTxn_progress: "steps progress (CmdTxn params)"
proof -
  have c: "progress i (i \<lparr> current_txn := Some txn \<rparr>)" if "find_txn (txn_manager i) k = Some txn" for i :: "'a inst" and k txn
    using that by (auto simp: find_txn_def progress_def inst_inv_def txns_progress_def split: if_splits)
  have d: "progress i i'" if "dump_current_txn pre (i \<lparr> current_txn := Some txn \<rparr>) = Some (r, i')" "find_txn (txn_manager i) k = Some txn"
    for i i' :: "'a inst" and pre r k txn
  proof -
    have "same_txns (i \<lparr> current_txn := Some txn \<rparr>) i'" using dump_same_txns(1) [of pre] that(1) unfolding steps_def by blast
    then show ?thesis using c [OF that(2)] same_txns_progress pr.trans by blast
  qed
  have s: "steps progress (act_bind (dump_current_txn ''pause current txn '') (\<lambda>_. set_current None) :: ('a inst, unit) act)"
    by (intro pr_intros end_txn_progress dump_progress)
  have o: "steps progress (WriteOneCell m :: ('a inst, unit) act)" for m by (rule emit_same_txns(2) [THEN steps_same])
  have p: "steps progress (dump_current_txn m :: ('a inst, unit) act)" for m by (rule dump_progress(1))
  show ?thesis unfolding steps_def
  proof (intro allI impI)
    fix i :: "'a inst" and r i'
    assume "CmdTxn params i = Some (r, i')"
    moreover have "steps progress (act_bind (act_result (GarbageCollection (txn_manager i))) (\<lambda>_. WriteOneCell ''GC complete'') :: ('a inst, unit) act)"
      by (intro pr_intros)
    ultimately show "progress i i'" using o p s d
      by (auto simp: CmdTxn_def act_bind_def [of "act_result f" for f] act_result_def set_current_def steps_def
          split: if_splits list.splits option.splits sum.splits)
  qed
qed

lemma run_statement_progress: "steps progress (run_statement w txn opts s)"
  unfolding run_statement_def
  by (auto intro!: pr_intros HandleTxnStatement_progress Handle_same_txns [THEN steps_same] run_query_same_txns [THEN steps_same]
      split: BoundStatement.splits)

lemma run_statements_progress: "steps progress (run_statements w txn stmts uid opts ok)"
  by (induction stmts arbitrary: uid opts ok) (auto intro!: pr_intros run_statement_progress split: prod.splits)

lemma ExecuteSqlTxn_progress: "steps progress (ExecuteSqlTxn w sql txn opts)"
  unfolding ExecuteSqlTxn_def internal_command_def
  by (intro steps_if pr_intros run_statements_progress CmdTxn_progress Cmd_same_txns [THEN steps_same])

text \<open>C14: The invariant of a session, and that transactions only move forward: whatever query text or internal command is
  executed, and however it ends, a transaction that existed still exists with its id and its level, an ended one has not
  changed its state, no transaction goes back to running, and the current transaction of the session is one that exists.\<close>

theorem ExecuteSql_keeps_transactions:
  assumes "inst_inv i" "ExecuteSql w sql opts i = Some (r, i')"
  shows "inst_inv i' \<and> (\<forall>k t. txn_map (txn_manager i) k = Some t \<longrightarrow> (\<exists>t'. txn_map (txn_manager i') k = Some t' \<and> txn_extends t t'))"
proof -
  have "steps progress (case cur of Some txn \<Rightarrow> act_return txn | None \<Rightarrow> begin_txn SNAPSHOT_ISOLATION)" for cur
    by (auto intro!: pr_intros split: option.splits) (auto simp: steps_def dest: begin_txn_progress(1))
  then have "steps progress (ExecuteSql w sql opts)" unfolding ExecuteSql_def
    by (intro steps_if pr_intros ExecuteSqlTxn_progress end_txn_progress)
  then show ?thesis using assms by (auto simp: steps_def progress_def txns_progress_def)
qed

definition ex_world :: "(string \<Rightarrow> string + pgstmt list option) \<Rightarrow> unit world" where
  "ex_world parse = \<lparr> w_bpm = \<lparr> NewPage = (\<lambda>b. Inl StdBadAlloc), AcquirePage = (\<lambda>b p. Inl StdBadAlloc), DropPage = (\<lambda>b p d. Inl StdBadAlloc) \<rparr>,
     w_mock = plain_env, w_fmt = ex_fmt, w_enum = (\<lambda>l. l), w_parse = parse, w_hash = (\<lambda>_. 0), w_fuel = 100, w_room = 1 \<rparr>"

definition ex_inst :: "unit inst" where
  "ex_inst = EnableManagedTxn (BusTubInstance_ctor ())"

lemma ex_inst_inv: "inst_inv ex_inst"
  by (simp add: inst_inv_def ex_inst_def EnableManagedTxn_def BusTubInstance_ctor_def TransactionManager_ctor_def Watermark_ctor_def)

lemmas ex_run_defs = ex_world_def ex_inst_def EnableManagedTxn_def BusTubInstance_ctor_def TransactionManager_ctor_def Watermark_ctor_def
  ExecuteSql_def act_defs begin_txn_def Begin_def AddTxn_def Let_def set_txn_def Transaction_ctor_def ExecuteSqlTxn_def ParseAndSave_def
  run_statement_def commit_txn_def Commit_def RemoveTxn_def UpdateCommitTs_def

theorem ExecuteSql_keeps_transactions_witness:
  "\<exists>r i'. ExecuteSql (ex_world (\<lambda>_. Inr (Some [PGTransactionStmt PG_TRANS_STMT_BEGIN]))) ''begin'' None ex_inst = Some (r, i') \<and> inst_inv i' \<and>
     current_txn i' = Some (TXN_START_ID + 1)"
proof -
  let ?e = "ExecuteSql (ex_world (\<lambda>_. Inr (Some [PGTransactionStmt PG_TRANS_STMT_BEGIN]))) ''begin'' None ex_inst"
  have "static_cast I64 (TXN_START_ID + 1) = TXN_START_ID + 1" by (simp add: TXN_START_ID_def static_cast_id in_range_def)
  then have "map_option (current_txn \<circ> snd) ?e = Some (Some (TXN_START_ID + 1))"
    by (simp add: ex_run_defs HandleTxnStatement_def BindTransaction_def GetSessionVariable_def Lower_def isolation_of_def dump_current_txn_def
        set_current_def get_txn_def WriteOneCell_def emit_def)
  then obtain r i' where e: "?e = Some (r, i')" "current_txn i' = Some (TXN_START_ID + 1)" by (cases ?e) auto
  then show ?thesis using ExecuteSql_keeps_transactions [OF ex_inst_inv e(1)] by blast
qed

section \<open>Statements without a transaction of their own\<close>

fun txn_free :: "pgstmt \<Rightarrow> bool" where
  "txn_free (PGRawStmt s) = txn_free s"
| "txn_free (PGTransactionStmt k) = False"
| "txn_free s = True"

lemma BindVariableSet_result: "BindVariableSet n args = Inr b \<Longrightarrow> \<exists>v. b = VariableSet_Statement n v"
proof -
  assume b: "BindVariableSet n args = Inr b"
  then obtain es where es: "BindExpressionList None None args = Inr es" by (auto simp: BindVariableSet_def rbind_Inr_iff)
  show ?thesis
  proof (cases "\<exists>e. es = [e]")
    case True
    then obtain e where "es = [e]" by blast
    then show ?thesis using b es by (cases e) (auto simp: BindVariableSet_def rbind_Inr_iff)
  next
    case False
    then show ?thesis using b es by (cases es rule: remdups_adj.cases) (auto simp: BindVariableSet_def)
  qed
qed

lemma BindStatement_txn_free: "BindStatement c s uid = Inr (b, uid') \<Longrightarrow> txn_free s \<Longrightarrow> b \<noteq> Transaction_Statement ty"
  by (induction c s uid rule: BindStatement.induct)
    (auto simp: rbind_Inr_iff BindCreate_def BindInsert_def BindDelete_def BindUpdate_def BindIndex_def Let_def
      split: prod.splits if_splits option.splits dest: BindVariableSet_result)

lemma run_statement_same_txns: "(\<And>ty. s \<noteq> Transaction_Statement ty) \<Longrightarrow> steps same_txns (run_statement w txn opts s)"
  unfolding run_statement_def
  by (auto intro!: st_intros Handle_same_txns run_query_same_txns split: BoundStatement.splits)

lemma run_statements_same_txns: "list_all txn_free stmts \<Longrightarrow> steps same_txns (run_statements w txn stmts uid opts ok)"
proof (induction stmts arbitrary: uid opts ok)
  case (Cons s stmts)
  have "steps same_txns (act_bind (act_result (BindStatement c s uid)) (\<lambda>(b, uid). act_bind (run_statement w txn opts b) (\<lambda>(ok', opts).
      run_statements w txn stmts uid opts (ok \<and> ok'))))" for c
  proof (rule st.steps_bind_result)
    fix x
    assume x: "BindStatement c s uid = Inr x"
    obtain b u where "x = (b, u)" by (cases x)
    moreover have "steps same_txns (run_statement w txn opts b)" if "x = (b, u)"
      using BindStatement_txn_free [of c s uid b u] x that Cons.prems by (intro run_statement_same_txns) auto
    ultimately show "steps same_txns (case x of (b, uid) \<Rightarrow> act_bind (run_statement w txn opts b) (\<lambda>(ok', opts).
        run_statements w txn stmts uid opts (ok \<and> ok')))"
      using Cons.IH Cons.prems by (auto intro!: st.steps_bind split: prod.splits)
  qed
  then show ?case unfolding run_statements.simps by (rule st.steps_bind [OF st.steps_get])
qed (simp add: st_intros)

lemma ExecuteSqlTxn_same_txns:
  assumes "sql = [] \<or> hd sql \<noteq> CHR 0x5C" "\<And>stmts. ParseAndSave w sql = Inr stmts \<Longrightarrow> list_all txn_free stmts"
  shows "steps same_txns (ExecuteSqlTxn w sql txn opts)"
  using assms by (auto simp: ExecuteSqlTxn_def intro!: st.steps_bind_result run_statements_same_txns)

lemma fresh_Begin:
  assumes "inst_inv i" "txn_map (txn_manager i) (next_txn_id (txn_manager i)) = None"
  obtains m where "Begin (txn_manager i) level = Inr (next_txn_id (txn_manager i), m)"
    "txn_map m = (txn_map (txn_manager i))(next_txn_id (txn_manager i) \<mapsto> Transaction_ctor (next_txn_id (txn_manager i)) level)"
  using assms by (auto simp: Begin_def AddTxn_def inst_inv_def Let_def set_txn_def Transaction_ctor_def)

text \<open>C12: Outside of a transaction every query text runs in one of its own.  When the text contains no transaction statements, and
  however it ends, exactly one transaction has been added, the others are as they were and the session has no current transaction; the
  new one is committed when the call returns and aborted when it ends in an exception of the program's own.  An exception of the
  standard library is not caught and leaves it running.\<close>

theorem ExecuteSql_autocommit:
  assumes "inst_inv i" "txn_map (txn_manager i) (next_txn_id (txn_manager i)) = None" "current_txn i = None"
    and "sql = [] \<or> hd sql \<noteq> CHR 0x5C" "\<forall>stmts. ParseAndSave w sql = Inr stmts \<longrightarrow> list_all txn_free stmts"
    and "ExecuteSql w sql opts i = Some (r, i')"
  shows "\<exists>t. txn_map (txn_manager i') = (txn_map (txn_manager i))(next_txn_id (txn_manager i) \<mapsto> t) \<and> current_txn i' = None \<and>
     txn_state t = (case r of Inr _ \<Rightarrow> COMMITTED | Inl (Throw _ _) \<Rightarrow> ABORTED | Inl _ \<Rightarrow> RUNNING)"
proof -
  let ?n = "next_txn_id (txn_manager i)"
  obtain m where m: "Begin (txn_manager i) SNAPSHOT_ISOLATION = Inr (?n, m)"
    "txn_map m = (txn_map (txn_manager i))(?n \<mapsto> Transaction_ctor ?n SNAPSHOT_ISOLATION)" using fresh_Begin [OF assms(1,2)] by blast
  let ?i = "i \<lparr> txn_manager := m \<rparr>"
  let ?body = "act_bind (ExecuteSqlTxn w sql ?n opts) (\<lambda>result. act_bind (act_bind (commit_txn ?n) (\<lambda>res.
             if res then act_return () else act_result (Inl (Throw ET_INVALID ''failed to commit txn'')))) (\<lambda>_. act_return result))"
  have e: "catch_exception ?body (act_bind (abort_txn ?n) (\<lambda>_. set_current None)) ?i = Some (r, i')"
    using assms(3,6) m(1) by (simp add: ExecuteSql_def act_bind_def [of "begin_txn l" for l] begin_txn_def)
  then obtain r1 i1 where x: "ExecuteSqlTxn w sql ?n opts ?i = Some (r1, i1)"
    by (auto simp: catch_exception_def act_bind_def split: option.splits)
  have s: "txn_manager i1 = m" "current_txn i1 = None"
    using ExecuteSqlTxn_same_txns [OF assms(4), of w ?n opts] assms(3,5) x by (auto simp: steps_def same_txns_def)
  have t: "txn_map (txn_manager i1) ?n = Some (Transaction_ctor ?n SNAPSHOT_ISOLATION)" using s(1) m(2) by simp
  show ?thesis
  proof (cases r1)
    case (Inr b)
    then show ?thesis using e x t s m(2)
      by (auto simp: catch_exception_def act_bind_def commit_txn_def Commit_def Transaction_ctor_def act_return_def set_txn_def VerifyTxn_def)
  next
    case (Inl f)
    then show ?thesis using e x t s m(2)
      by (cases f) (auto simp: catch_exception_def act_bind_def abort_txn_def Abort_def Transaction_ctor_def act_result_def set_current_def act_modify_def set_txn_def)
  qed
qed

lemma ex_inst_fresh: "txn_map (txn_manager ex_inst) (next_txn_id (txn_manager ex_inst)) = None" "current_txn ex_inst = None"
    "next_txn_id (txn_manager ex_inst) = TXN_START_ID"
  by (simp_all add: ex_inst_def EnableManagedTxn_def BusTubInstance_ctor_def TransactionManager_ctor_def)

theorem ExecuteSql_autocommit_witness:
  "\<exists>r i' t. ExecuteSql (ex_world (\<lambda>_. Inr (Some [PGVariableShowStmt ''v'']))) ''show v'' None ex_inst = Some (r, i') \<and>
     txn_map (txn_manager i') TXN_START_ID = Some t \<and> txn_state t = COMMITTED"
proof -
  let ?w = "ex_world (\<lambda>_. Inr (Some [PGVariableShowStmt ''v'']))"
  let ?e = "ExecuteSql ?w ''show v'' None ex_inst"
  have "map_option fst ?e = Some (Inr True)"
    by (simp add: ex_run_defs HandleVariableShowStatement_def WriteOneCell_def emit_def)
  then obtain i' where e: "?e = Some (Inr True, i')" by (cases ?e) auto
  have "\<forall>stmts. ParseAndSave ?w ''show v'' = Inr stmts \<longrightarrow> list_all txn_free stmts" by (simp add: ParseAndSave_def ex_world_def)
  from ExecuteSql_autocommit [OF ex_inst_inv ex_inst_fresh(1,2) _ this e] show ?thesis using e ex_inst_fresh(3) by auto
qed

text \<open>C33: A commit outside of a transaction is carried out and then reported as an error: the transaction of the call is
  committed, the cell that says so is written, and then the call commits it again, which fails, and aborts it, which fails too, so that
  the caller gets the exception of the abort.\<close>

theorem commit_without_transaction:
  assumes "inst_inv i" "txn_map (txn_manager i) (next_txn_id (txn_manager i)) = None" "current_txn i = None"
    and "sql = [] \<or> hd sql \<noteq> CHR 0x5C" "ParseAndSave w sql = Inr [stmt]" "BindStatement (inst_catalog i) stmt 0 = Inr (Transaction_Statement ''commit'', uid)"
  shows "\<exists>i' t c. ExecuteSql w sql opts i = Some (Inl (Throw ET_INVALID ''txn not in running / tainted state''), i') \<and>
     txn_map (txn_manager i') (next_txn_id (txn_manager i)) = Some t \<and> txn_state t = COMMITTED \<and>
     written i' = written i @ [OneCell (''txn committed'' @ c)]"
proof -
  let ?n = "next_txn_id (txn_manager i)"
  obtain m where m: "Begin (txn_manager i) SNAPSHOT_ISOLATION = Inr (?n, m)"
    "txn_map m = (txn_map (txn_manager i))(?n \<mapsto> Transaction_ctor ?n SNAPSHOT_ISOLATION)" using fresh_Begin [OF assms(1,2)] by blast
  let ?t = "Transaction_ctor ?n SNAPSHOT_ISOLATION"
  define m2 where "m2 = (set_txn m ?n (?t \<lparr> txn_state := COMMITTED \<rparr>)) \<lparr> running_txns := RemoveTxn (UpdateCommitTs (running_txns m) (commit_ts ?t)) (read_ts ?t) \<rparr>"
  have c: "Commit m ?n = Inr (True, m2)" "txn_map m2 ?n = Some (?t \<lparr> txn_state := COMMITTED \<rparr>)"
    using m(2) by (simp_all add: Commit_def m2_def Transaction_ctor_def set_txn_def)
  define i2 where "i2 = i \<lparr> txn_manager := m2, current_txn := None,
    written := written i @ [OneCell (ended_text ''txn committed'' (?t \<lparr> txn_state := COMMITTED \<rparr>) @ '', commit_ts='' @ to_string (commit_ts ?t))] \<rparr>"
  have "HandleTxnStatement ?n ''commit'' (i \<lparr> txn_manager := m \<rparr>) = Some (Inr (), i2)"
    using c assms(3) by (simp add: HandleTxnStatement_def act_bind_def [of "commit_txn l" for l] act_bind_def [of "get_txn l" for l] commit_txn_def get_txn_def
        WriteOneCell_def emit_def set_current_def i2_def act_modify_def)
  then have x: "ExecuteSqlTxn w sql ?n opts (i \<lparr> txn_manager := m \<rparr>) = Some (Inr True, i2)"
    using assms(4-6) by (auto simp: ExecuteSqlTxn_def run_statement_def act_bind_def [of "HandleTxnStatement a b" for a b] act_bind_def [of "act_bind p q" for p q] act_return_def)
  have "commit_txn ?n i2 = Some (Inl (Throw ET_INVALID ''txn not in running state''), i2)"
    "abort_txn ?n i2 = Some (Inl (Throw ET_INVALID ''txn not in running / tainted state''), i2)"
    using c(2) by (simp_all add: commit_txn_def abort_txn_def Commit_def Abort_def i2_def)
  then have "ExecuteSql w sql opts i = Some (Inl (Throw ET_INVALID ''txn not in running / tainted state''), i2)"
    using m(1) assms(3) x by (simp add: ExecuteSql_def act_bind_def begin_txn_def catch_exception_def act_get_def)
  then show ?thesis using c(2) by (auto simp: i2_def ended_text_def)
qed

theorem commit_without_transaction_witness:
  "\<exists>i'. ExecuteSql (ex_world (\<lambda>_. Inr (Some [PGTransactionStmt PG_TRANS_STMT_COMMIT]))) ''commit'' None ex_inst =
     Some (Inl (Throw ET_INVALID ''txn not in running / tainted state''), i')"
proof -
  have "ParseAndSave (ex_world (\<lambda>_. Inr (Some [PGTransactionStmt PG_TRANS_STMT_COMMIT]))) ''commit'' = Inr [PGTransactionStmt PG_TRANS_STMT_COMMIT]"
    "BindStatement (inst_catalog ex_inst) (PGTransactionStmt PG_TRANS_STMT_COMMIT) 0 = Inr (Transaction_Statement ''commit'', 0)"
    by (simp_all add: ParseAndSave_def ex_world_def BindTransaction_def)
  from commit_without_transaction [OF ex_inst_inv ex_inst_fresh(1,2) _ this] show ?thesis by auto
qed

section \<open>What the writers make of a result\<close>

text \<open>The calls for one result table.\<close>

definition row_events :: "string list \<Rightarrow> event list" where
  "row_events cells = [BeginRow] @ map WriteCell cells @ [EndRow]"

definition table_events :: "string list \<Rightarrow> string list list \<Rightarrow> event list" where
  "table_events header rows = [BeginTable False, BeginHeader] @ map WriteHeaderCell header @ [EndHeader] @ concat (map row_events rows) @ [EndTable]"

lemma writer_cells: "rfoldM StringVectorWriter (vs @ [r]) (map WriteCell cells) = Inr (vs @ [r @ cells])"
  by (induction cells arbitrary: r) simp_all

lemma writer_headers: "rfoldM StringVectorWriter vs (map WriteHeaderCell cells) = Inr vs"
  by (induction cells) simp_all

lemma writer_rows: "rfoldM StringVectorWriter vs (concat (map row_events rows)) = Inr (vs @ rows)"
  using writer_cells [of vs' "[]" for vs'] by (induction rows arbitrary: vs) (simp_all add: row_events_def rfoldM_append)

lemma row_events_basic: "concat (map (ResultWriter_OneCell \<circ> WriteCell) cells) = map WriteCell cells"
    "concat (map (ResultWriter_OneCell \<circ> WriteHeaderCell) cells) = map WriteHeaderCell cells"
  by (induction cells) simp_all

lemma rows_events_basic: "concat (map ResultWriter_OneCell (concat (map row_events rows))) = concat (map row_events rows)"
  using row_events_basic(1) by (induction rows) (simp_all add: row_events_def)

text \<open>The vector writer holds the rows of the last table that was written, cell by cell, whatever was written before it.\<close>

theorem StringVectorWriter_last_table:
  assumes "vector_rows es = Inr old"
  shows "vector_rows (es @ table_events header rows) = Inr rows"
  using assms by (simp add: vector_rows_def table_events_def rfoldM_append row_events_basic rows_events_basic writer_headers writer_rows)

theorem StringVectorWriter_last_table_witness:
  "vector_rows ([OneCell ''a''] @ table_events [''x'', ''y''] [[''1'', ''2''], [''3'', ''4'']]) = Inr [[''1'', ''2''], [''3'', ''4'']]"
proof -
  have "vector_rows [OneCell ''a''] = Inr [[''a'']]" by (simp add: vector_rows_def)
  then show ?thesis by (rule StringVectorWriter_last_table)
qed

text \<open>How a browser reads the five entities.\<close>

function Unescape :: "string \<Rightarrow> string" where
  "Unescape s = (if s = [] then [] else if take 5 s = ''&amp;'' then CHR ''&'' # Unescape (drop 5 s)
     else if take 6 s = ''&quot;'' then CHR 0x22 # Unescape (drop 6 s) else if take 6 s = ''&apos;'' then CHR 0x27 # Unescape (drop 6 s)
     else if take 4 s = ''&lt;'' then CHR ''<'' # Unescape (drop 4 s) else if take 4 s = ''&gt;'' then CHR ''>'' # Unescape (drop 4 s)
     else hd s # Unescape (tl s))"
  by auto
termination
  by (relation "measure length") auto

declare Unescape.simps [simp del]

lemma Unescape_char: "Unescape (Escape_char ch @ s) = ch # Unescape s"
  by (subst Unescape.simps) auto

text \<open>C40: No cell can break out of its place in the page: the escaped text contains none of the characters that delimit
  tags and attribute values, and reading the entities back gives the cell.\<close>

theorem Escape_roundtrip:
  "Unescape (Escape s) = s \<and> set (Escape s) \<inter> {CHR ''<'', CHR ''>'', CHR 0x22, CHR 0x27} = {}"
proof
  show "Unescape (Escape s) = s"
  proof (induction s)
    case Nil
    then show ?case by (simp add: Escape_def Unescape.simps [of "[]"])
  next
    case (Cons ch s)
    then show ?case using Unescape_char [of ch "Escape s"] by (simp add: Escape_def)
  qed
  have "set (Escape_char ch) \<inter> {CHR ''<'', CHR ''>'', CHR 0x22, CHR 0x27} = {}" for ch by auto
  then show "set (Escape s) \<inter> {CHR ''<'', CHR ''>'', CHR 0x22, CHR 0x27} = {}" unfolding Escape_def by (induction s) (simp, force)
qed

text \<open>The calls that \<open>write_result\<close> makes.\<close>

lemma act_each_emit: "act_each emit es i = Some (Inr (), i \<lparr> written := written i @ es \<rparr>)"
  by (induction es arbitrary: i) (simp_all add: act_return_def emit_def)

definition cells_of :: "Schema \<Rightarrow> Tuple \<Rightarrow> string list result" where
  "cells_of schema tuple = rmapM (\<lambda>k. rbind (GetValue tuple schema k) Value_ToString) [0..<GetColumnCount schema]"

lemma write_cells:
  assumes "rmapM f ks = Inr ss"
  shows "act_each (\<lambda>k. act_bind (act_result (f k)) (\<lambda>s. emit (WriteCell s))) ks i = Some (Inr (), i \<lparr> written := written i @ map WriteCell ss \<rparr>)"
  using assms
proof (induction ks arbitrary: i ss)
  case (Cons k ks)
  then obtain s ss' where "f k = Inr s" "rmapM f ks = Inr ss'" "ss = s # ss'" by (auto simp: rbind_Inr_iff)
  then show ?case using Cons.IH by (simp add: emit_def)
qed (simp add: act_return_def)

lemma write_row_events:
  assumes "cells_of schema tuple = Inr cells"
  shows "write_row schema tuple i = Some (Inr (), i \<lparr> written := written i @ row_events cells \<rparr>)"
  using write_cells [OF assms [unfolded cells_of_def], of "i \<lparr> written := written i @ [BeginRow] \<rparr>"]
  by (simp add: write_row_def row_events_def emit_def act_bind_def act_modify_def)

lemma write_rows_events:
  assumes "list_all2 (\<lambda>t cells. cells_of schema t = Inr cells) tuples rows"
  shows "act_each (write_row schema) tuples i = Some (Inr (), i \<lparr> written := written i @ concat (map row_events rows) \<rparr>)"
  using assms
proof (induction tuples rows arbitrary: i rule: list_all2_induct)
  case (Cons t ts cells rows)
  then show ?case using write_row_events [OF Cons(1), of i] by (simp add: act_bind_def)
qed (simp add: act_return_def)

lemma write_result_events:
  assumes "list_all2 (\<lambda>t cells. cells_of schema t = Inr cells) tuples rows"
  shows "write_result schema tuples i = Some (Inr (), i \<lparr> written := written i @ table_events (map column_name (columns schema)) rows \<rparr>)"
  using write_rows_events [OF assms, of "i \<lparr> written := written i @ BeginTable False # BeginHeader # map (WriteHeaderCell \<circ> column_name) (columns schema) @ [EndHeader] \<rparr>"]
  by (simp add: write_result_def act_bind_def act_each_emit table_events_def emit_def act_modify_def)

section \<open>Transaction statements that end the process\<close>

text \<open>In managed mode a text that begins a transaction may not contain a further transaction statement: the current transaction of the
  session is then not the one of the call, and an assertion fails.\<close>

lemma begin_commit_asserts:
  assumes "inst_inv i" "txns_inv (txn_manager i)" "next_txn_id (txn_manager i) < 2 ^ 63 - 2" "managed_txn_mode i" "current_txn i = None"
    and "session_variables i ''global_isolation_level'' = None" "sql = [] \<or> hd sql \<noteq> CHR 0x5C" "ParseAndSave w sql = Inr (s1 # s2 # others)"
    and "BindStatement (inst_catalog i) s1 0 = Inr (Transaction_Statement ''begin'', u1)"
    and "BindStatement (inst_catalog i) s2 u1 = Inr (Transaction_Statement ty, u2)"
  shows "\<exists>i'. ExecuteSql w sql opts i = Some (Inl AssertFail, i')"
proof -
  let ?n = "next_txn_id (txn_manager i)"
  have n: "static_cast I64 (?n + 1) = ?n + 1"
    using assms(2,3) by (intro static_cast_id) (auto simp: in_range_def txns_inv_def TXN_START_ID_def)
  have k: "txn_map (txn_manager i) k \<noteq> None \<longleftrightarrow> TXN_START_ID \<le> k \<and> k < ?n" for k using assms(2) by (simp add: txns_inv_def)
  have f: "txn_map (txn_manager i) ?n = None" "txn_map (txn_manager i) (?n + 1) = None" using k [of ?n] k [of "?n + 1"] by auto
  have ts: "wm_commit_ts (running_txns (txn_manager i)) \<le> 0" using assms(1) by (simp add: inst_inv_def)
  define m where "m = txn_manager i \<lparr> txn_map := (txn_map (txn_manager i))(?n \<mapsto> Transaction_ctor ?n SNAPSHOT_ISOLATION), next_txn_id := ?n + 1 \<rparr>"
  have b: "begin_txn SNAPSHOT_ISOLATION i = Some (Inr ?n, i \<lparr> txn_manager := m \<rparr>)"
    using f(1) n ts by (simp add: begin_txn_def Begin_def AddTxn_def Let_def set_txn_def m_def Transaction_ctor_def)
  have "\<exists>m2. Begin m SNAPSHOT_ISOLATION = Inr (?n + 1, m2) \<and> txn_map m2 (?n + 1) \<noteq> None"
    using f(2) ts by (simp add: Begin_def AddTxn_def Let_def set_txn_def m_def Transaction_ctor_def)
  then obtain m2 where m2: "Begin m SNAPSHOT_ISOLATION = Inr (?n + 1, m2)" "txn_map m2 (?n + 1) \<noteq> None" by blast
  have "\<exists>i2. HandleTxnStatement ?n ''begin'' (i \<lparr> txn_manager := m \<rparr>) = Some (Inr (), i2) \<and> current_txn i2 = Some (?n + 1) \<and>
      managed_txn_mode i2 \<and> inst_catalog i2 = inst_catalog i"
    using assms(4-6) m2 by (auto simp: HandleTxnStatement_def GetSessionVariable_def Lower_def isolation_of_def begin_txn_def act_bind_def [of "begin_txn l" for l]
        set_current_def dump_current_txn_def get_txn_def act_bind_def [of "get_txn l" for l] WriteOneCell_def emit_def act_modify_def)
  then obtain i2 where i2: "HandleTxnStatement ?n ''begin'' (i \<lparr> txn_manager := m \<rparr>) = Some (Inr (), i2)" "current_txn i2 = Some (?n + 1)"
    "managed_txn_mode i2" "inst_catalog i2 = inst_catalog i" by blast
  have "HandleTxnStatement ?n ty i2 = Some (Inl AssertFail, i2)" using i2(2,3) by (simp add: HandleTxnStatement_def act_result_def)
  then have "ExecuteSqlTxn w sql ?n opts (i \<lparr> txn_manager := m \<rparr>) = Some (Inl AssertFail, i2)"
    using assms(7-10) i2(1,4) by (auto simp: ExecuteSqlTxn_def run_statement_def act_bind_def [of "HandleTxnStatement a b" for a b]
        act_bind_def [of "act_bind p q" for p q] act_return_def)
  then show ?thesis using b assms(5) by (simp add: ExecuteSql_def act_bind_def catch_exception_def act_get_def)
qed

text \<open>Leaving transaction mode outside of a transaction follows a null pointer; switching to something that is not a number raises an
  exception of the standard library, after which the transaction of the call is left running.\<close>

lemma CmdTxn_failures:
  assumes "managed_txn_mode i"
  shows "current_txn i = None \<Longrightarrow> CmdTxn [cmd, ''-1''] i = Some (Inl Undefined, i)"
    and "CmdTxn [cmd, ''x''] i = Some (Inl StdInvalidArgument, i)"
proof -
  have "stoi ''-1'' = Inr (- 1)" "stoi ''x'' = Inl StdInvalidArgument" by code_simp+
  then show "current_txn i = None \<Longrightarrow> CmdTxn [cmd, ''-1''] i = Some (Inl Undefined, i)" "CmdTxn [cmd, ''x''] i = Some (Inl StdInvalidArgument, i)"
    using assms by (simp_all add: CmdTxn_def dump_current_txn_def act_bind_def act_get_def act_result_def)
qed

text \<open>A primary key that is refused leaves the table behind: the statement fails and the catalog has the table.  With a primary key, creating a
  table that exists follows a null pointer.\<close>

lemma HandleCreateStatement_leaves_table:
  assumes "create_table w t (Schema_ctor cols) True i = Some (Inr (Some info), i')" "key_columns (ti_schema info) pk = Inl e" "pk \<noteq> []"
  shows "HandleCreateStatement w t cols pk i = Some (Inl e, i')"
  using assms by (simp add: HandleCreateStatement_def act_bind_def [of "create_table a b c d" for a b c d] act_bind_def [of "act_bind p q" for p q])

lemma HandleCreateStatement_existing:
  assumes "map_of (table_names (inst_catalog i)) t \<noteq> None" "pk \<noteq> []"
  shows "HandleCreateStatement w t cols pk i = Some (Inl Undefined, i)"
  using assms by (simp add: HandleCreateStatement_def act_bind_def [of "create_table a b c d" for a b c d] create_table_def CreateTable_def)

end
