(* ===== verification/Hashing.thy ===== *)
theory Hashing
  imports Expressions Indexes
begin

text \<open>
  Hashing of values: \<open>HashUtil\<close> (common/util/hash_util.h), the key and value of an aggregation with
  their equality and \<open>std::hash\<close> (execution/plans/aggregation_plan.h), and the part of
  \<open>SimpleAggregationHashTable\<close> and \<open>AggregationExecutor\<close> that is implemented
  (execution/executors/aggregation_executor.h).  The hash table \<open>ht_\<close> is a \<open>std::unordered_map\<close>, so
  it relies on equal keys having equal hashes: the lemmas show this for integer keys of any width
  and for strings.
\<close>

unbundle bit_operations_syntax

section \<open>HashUtil\<close>

definition PRIME_FACTOR :: "64 word" where "PRIME_FACTOR = 10000019"

text \<open>One round of \<open>HashBytes\<close>: the byte is read as an \<open>int8_t\<close> and sign-extended to the width of
  \<open>hash_t\<close>.\<close>

definition hash_step :: "64 word \<Rightarrow> char \<Rightarrow> 64 word" where
  "hash_step h c = ((push_bit 5 h XOR drop_bit 27 h) XOR word_of_int (static_cast I8 (of_char c)))"

definition HashBytes :: "buffer \<Rightarrow> 64 word" where
  "HashBytes bytes = foldl hash_step (of_nat (length bytes)) bytes"

definition CombineHashes :: "64 word \<Rightarrow> 64 word \<Rightarrow> 64 word" where
  "CombineHashes l r = HashBytes (le_encode 8 (unat l) @ le_encode 8 (unat r))"

definition SumHashes :: "64 word \<Rightarrow> 64 word \<Rightarrow> 64 word" where
  "SumHashes l r = (l mod PRIME_FACTOR + r mod PRIME_FACTOR) mod PRIME_FACTOR"

text \<open>\<open>Hash<T>(&raw)\<close> for an \<open>int64_t\<close>, a \<open>bool\<close>, a \<open>double\<close> or a \<open>uint64_t\<close>: the bytes of the object.\<close>

definition Hash_int64 :: "int \<Rightarrow> 64 word" where
  "Hash_int64 z = HashBytes (le_encode 8 (nat (z mod 2 ^ 64)))"

definition Hash_bool :: "bool \<Rightarrow> 64 word" where
  "Hash_bool b = HashBytes (le_encode 1 (if b then 1 else 0))"

definition Hash_double :: "double \<Rightarrow> 64 word" where
  "Hash_double d = HashBytes (le_encode 8 (unat d))"

definition Hash_uint64 :: "nat \<Rightarrow> 64 word" where
  "Hash_uint64 n = HashBytes (le_encode 8 n)"

definition HashValue :: "Value \<Rightarrow> 64 word result" where
  "HashValue val = (case GetTypeId val of
       TINYINT \<Rightarrow> Inr (Hash_int64 (GetAs I8 val))
     | SMALLINT \<Rightarrow> Inr (Hash_int64 (GetAs I16 val))
     | INTEGER \<Rightarrow> Inr (Hash_int64 (GetAs I32 val))
     | BIGINT \<Rightarrow> Inr (Hash_int64 (GetAs I64 val))
     | BOOLEAN \<Rightarrow> Inr (Hash_bool (GetAs_bool val))
     | DECIMAL \<Rightarrow> Inr (Hash_double (GetAs_double val))
     | VARCHAR \<Rightarrow> rbind (Value_GetData val) (\<lambda>raw. rbind (Value_GetStorageSize val) (\<lambda>len.
         rbind (deref raw 0 len) (\<lambda>bytes. Inr (HashBytes bytes))))
     | TIMESTAMP \<Rightarrow> Inr (Hash_uint64 (GetAs_uint64 val))
     | _ \<Rightarrow> Inl (LogicError ''Unsupported type.''))"

section \<open>Keys and values of an aggregation\<close>

record AggregateKey =
  group_bys :: "Value list"

record AggregateValue =
  aggregates :: "Value list"

fun AggregateKey_eq_loop :: "Value list \<Rightarrow> nat \<Rightarrow> Value list \<Rightarrow> bool result" where
  "AggregateKey_eq_loop vs i [] = Inr True"
| "AggregateKey_eq_loop vs i (w # ws) = rbind (at vs i) (\<lambda>v. rbind (CompareEquals v w) (\<lambda>c.
     if c \<noteq> CmpTrue then Inr False else AggregateKey_eq_loop vs (i + 1) ws))"

definition AggregateKey_eq :: "AggregateKey \<Rightarrow> AggregateKey \<Rightarrow> bool result" where
  "AggregateKey_eq k other = AggregateKey_eq_loop (group_bys k) 0 (group_bys other)"

definition hash_AggregateKey :: "AggregateKey \<Rightarrow> 64 word result" where
  "hash_AggregateKey agg_key = rfoldM (\<lambda>curr_hash key.
     if IsNull key then Inr curr_hash
     else rbind (HashValue key) (\<lambda>h. Inr (CombineHashes curr_hash h))) 0 (group_bys agg_key)"

section \<open>The aggregation hash table\<close>

record SimpleAggregationHashTable =
  ht :: "(AggregateKey \<times> AggregateValue) list"
  agg_exprs :: "expr list"
  agg_types :: "AggregationType list"

definition SimpleAggregationHashTable_ctor ::
  "expr list \<Rightarrow> AggregationType list \<Rightarrow> SimpleAggregationHashTable" where
  "SimpleAggregationHashTable_ctor exprs types = \<lparr> ht = [], agg_exprs = exprs, agg_types = types \<rparr>"

fun initial_aggregate :: "AggregationType \<Rightarrow> Value result" where
  "initial_aggregate CountStarAggregate = GetIntegerValue 0"
| "initial_aggregate _ = GetNullValueByType INTEGER"

definition GenerateInitialAggregateValue :: "SimpleAggregationHashTable \<Rightarrow> AggregateValue result" where
  "GenerateInitialAggregateValue t =
     rbind (rmapM initial_aggregate (agg_types t)) (\<lambda>vs. Inr \<lparr> aggregates = vs \<rparr>)"

text \<open>The loop reads \<open>agg_types_[i]\<close> for every aggregate expression and leaves \<open>result\<close> alone; then
  the call ends in \<open>UNIMPLEMENTED\<close>.\<close>

definition CombineAggregateValues ::
  "SimpleAggregationHashTable \<Rightarrow> AggregateValue \<Rightarrow> AggregateValue \<Rightarrow> AggregateValue result" where
  "CombineAggregateValues t res input =
     rbind (rmapM (at (agg_types t)) [0..<length (agg_exprs t)]) (\<lambda>_.
       Inl (LogicError ''TODO(P3): Add implementation.''))"

text \<open>The hash of a key that is in the table, as the unordered map buckets it.\<close>

definition bucket_hash :: "AggregateKey \<Rightarrow> nat" where
  "bucket_hash k = (case hash_AggregateKey k of Inr h \<Rightarrow> unat h | Inl e \<Rightarrow> 0)"

definition ht_find :: "SimpleAggregationHashTable \<Rightarrow> AggregateKey \<Rightarrow> nat option result" where
  "ht_find t k = rbind (hash_AggregateKey k) (\<lambda>_. umap_find AggregateKey_eq bucket_hash (ht t) k)"

text \<open>\<open>ht_[agg_key]\<close> after \<open>count\<close> and \<open>insert\<close>: a key that is still not found (a key that is not
  equal to itself) is entered once more, with an empty value.\<close>

definition ht_subscript ::
  "SimpleAggregationHashTable \<Rightarrow> AggregateKey \<Rightarrow> (nat \<times> SimpleAggregationHashTable) result" where
  "ht_subscript t k = rbind (ht_find t k) (\<lambda>p. Inr (case p of Some i \<Rightarrow> (i, t)
     | None \<Rightarrow> (0, t \<lparr> ht := (k, \<lparr> aggregates = [] \<rparr>) # ht t \<rparr>)))"

text \<open>\<open>InsertCombine\<close> changes the table also when it ends in an exception, so the table is
  returned next to the outcome.\<close>

definition ht_insert_new :: "SimpleAggregationHashTable \<Rightarrow> AggregateKey \<Rightarrow> SimpleAggregationHashTable result" where
  "ht_insert_new t agg_key = rbind (ht_find t agg_key) (\<lambda>p. if p \<noteq> None then Inr t else
     rbind (GenerateInitialAggregateValue t) (\<lambda>v. Inr (t \<lparr> ht := (agg_key, v) # ht t \<rparr>)))"

definition InsertCombine ::
  "SimpleAggregationHashTable \<Rightarrow> AggregateKey \<Rightarrow> AggregateValue \<Rightarrow> SimpleAggregationHashTable \<times> unit result" where
  "InsertCombine t agg_key agg_val = (case ht_insert_new t agg_key of
       Inl e \<Rightarrow> (t, Inl e)
     | Inr t1 \<Rightarrow> (case ht_subscript t1 agg_key of
         Inl e \<Rightarrow> (t1, Inl e)
       | Inr (i, t2) \<Rightarrow> (case CombineAggregateValues t2 (snd (ht t2 ! i)) agg_val of
           Inl e \<Rightarrow> (t2, Inl e)
         | Inr v \<Rightarrow> (t2 \<lparr> ht := (ht t2)[i := (fst (ht t2 ! i), v)] \<rparr>, Inr ()))))"

definition AggregationHashTable_Clear :: "SimpleAggregationHashTable \<Rightarrow> SimpleAggregationHashTable" where
  "AggregationHashTable_Clear t = t \<lparr> ht := [] \<rparr>"

definition MakeAggregateKey :: "expr list \<Rightarrow> Schema \<Rightarrow> Tuple \<Rightarrow> AggregateKey result" where
  "MakeAggregateKey group_by_exprs s tuple =
     rbind (rmapM (Evaluate (Some tuple) s) group_by_exprs) (\<lambda>keys. Inr \<lparr> group_bys = keys \<rparr>)"

definition MakeAggregateValue :: "expr list \<Rightarrow> Schema \<Rightarrow> Tuple \<Rightarrow> AggregateValue result" where
  "MakeAggregateValue aggregate_exprs s tuple =
     rbind (rmapM (Evaluate (Some tuple) s) aggregate_exprs) (\<lambda>vals. Inr \<lparr> aggregates = vals \<rparr>)"

section \<open>Equal keys have equal hashes\<close>

text \<open>What an integer or string value stands for, whatever its width.\<close>

definition group_val :: "Value \<Rightarrow> int + string" where
  "group_val v = (if type_id v = VARCHAR then Inr (value_str v) else Inl (int_val v))"

definition groupable :: "bool list \<Rightarrow> AggregateKey \<Rightarrow> bool" where
  "groupable strs k \<longleftrightarrow> list_all2 (\<lambda>b v. orderable v \<and> (type_id v = VARCHAR) = b) strs (group_bys k)"

definition group_of :: "AggregateKey \<Rightarrow> (int + string) list" where
  "group_of k = map group_val (group_bys k)"

lemma CompareEquals_group_val:
  assumes "orderable v" "orderable w" "(type_id v = VARCHAR) = (type_id w = VARCHAR)"
  shows "CompareEquals v w = Inr (GetCmpBool (group_val v = group_val w))"
  using assms(1)
proof (cases rule: orderable_cases)
  case int
  then have w: "int_operand w" using assms(2,3) by (auto elim: orderable_cases)
  show ?thesis using Compare_int_vals [OF int(1) w, of EQ] int(2) assms(3) by (simp add: group_val_def)
next
  case (str s)
  then obtain t where t: "w = str_value t" "length t < 2 ^ 31" using assms(2,3) int_operand_type
    by (auto elim: orderable_cases)
  show ?thesis using Compare_str_vals [OF str(2) t(2), of EQ] str(1) t(1) by (simp add: group_val_def)
qed

text \<open>The hash of a value as a function of what it stands for.\<close>

fun hash_group_val :: "int + string \<Rightarrow> 64 word" where
  "hash_group_val (Inl z) = Hash_int64 z"
| "hash_group_val (Inr s) = HashBytes (s @ [char_of (0::nat)])"

lemma HashValue_group_val:
  assumes "orderable v" shows "HashValue v = Inr (hash_group_val (group_val v))" "\<not> IsNull v"
proof -
  have "HashValue v = Inr (hash_group_val (group_val v)) \<and> \<not> IsNull v"
    using assms
  proof (cases rule: orderable_cases)
    case int
    from int(1) show ?thesis
      by (cases rule: int_operand_cases) (simp_all add: HashValue_def GetTypeId_def group_val_def)
  next
    case (str s)
    then show ?thesis
      by (simp add: HashValue_def GetTypeId_def group_val_def Value_GetData_def VarlenType_GetData_def
          Value_GetStorageSize_def VarlenType_GetStorageSize_def deref_def)
        (simp add: str_value_def Value_ctor_def IsNull_def limit_defs read_at_def)
  qed
  then show "HashValue v = Inr (hash_group_val (group_val v))" "\<not> IsNull v" by simp_all
qed

lemma AggregateKey_eq_loop_groups:
  assumes "list_all2 (\<lambda>v w. orderable v \<and> orderable w \<and> (type_id v = VARCHAR) = (type_id w = VARCHAR)) vs ws"
  shows "AggregateKey_eq_loop (us @ vs) (length us) ws = Inr (map group_val vs = map group_val ws)"
  using assms
proof (induction vs ws arbitrary: us rule: list_all2_induct)
  case (Cons v vs w ws)
  then show ?case using Cons.IH [of "us @ [v]"] by (simp add: CompareEquals_group_val GetCmpBool_def)
qed simp

lemma AggregateKey_eq_groups:
  assumes "groupable strs k" "groupable strs k'"
  shows "AggregateKey_eq k k' = Inr (group_of k = group_of k')"
proof -
  have "list_all2 (\<lambda>v w. orderable v \<and> orderable w \<and> (type_id v = VARCHAR) = (type_id w = VARCHAR)) (group_bys k) (group_bys k')"
    using assms by (auto simp: groupable_def list_all2_conv_all_nth)
  from AggregateKey_eq_loop_groups [OF this, of "[]"] show ?thesis
    by (simp add: AggregateKey_eq_def group_of_def)
qed

definition hash_groups :: "(int + string) list \<Rightarrow> 64 word" where
  "hash_groups gs = foldl (\<lambda>h g. CombineHashes h (hash_group_val g)) 0 gs"

lemma hash_AggregateKey_groups:
  assumes "groupable strs k" shows "hash_AggregateKey k = Inr (hash_groups (group_of k))"
proof -
  have "rfoldM (\<lambda>curr_hash key. if IsNull key then Inr curr_hash
      else rbind (HashValue key) (\<lambda>h. Inr (CombineHashes curr_hash h))) h vs =
      Inr (foldl (\<lambda>h g. CombineHashes h (hash_group_val g)) h (map group_val vs))"
    if "\<And>v. v \<in> set vs \<Longrightarrow> orderable v" for h vs
    using that by (induction vs arbitrary: h) (auto simp: HashValue_group_val)
  moreover have "\<And>v. v \<in> set (group_bys k) \<Longrightarrow> orderable v"
    using assms by (auto simp: groupable_def list_all2_conv_all_nth in_set_conv_nth)
  ultimately show ?thesis by (simp add: hash_AggregateKey_def hash_groups_def group_of_def)
qed

lemma bucket_hash_groups: "groupable strs k \<Longrightarrow> bucket_hash k = unat (hash_groups (group_of k))"
  by (simp add: bucket_hash_def hash_AggregateKey_groups)

text \<open>Two group-by keys that compare equal have the same hash, as \<open>std::unordered_map\<close> requires,
  when every key value is a non-NULL integer (of any width, mixed widths included) or a string; and
  the comparison decides whether the keys stand for the same integers and strings.\<close>

theorem AggregateKey_hash_respects_eq:
  assumes "groupable strs k" "groupable strs k'"
  shows "AggregateKey_eq k k' = Inr (group_of k = group_of k') \<and>
    (AggregateKey_eq k k' = Inr True \<longrightarrow> hash_AggregateKey k = hash_AggregateKey k' \<and> (\<exists>h. hash_AggregateKey k = Inr h))"
  using assms by (simp add: AggregateKey_eq_groups hash_AggregateKey_groups)

theorem AggregateKey_hash_respects_eq_witness:
  "hash_AggregateKey \<lparr> group_bys = [set_int TINYINT I8 (cmin I8) (- 1), str_value ''bo''] \<rparr> =
   hash_AggregateKey \<lparr> group_bys = [set_int BIGINT I64 (cmin I64) (- 1), str_value ''bo''] \<rparr>"
proof -
  let ?k = "\<lparr> group_bys = [set_int TINYINT I8 (cmin I8) (- 1), str_value ''bo''] \<rparr>"
  let ?k' = "\<lparr> group_bys = [set_int BIGINT I64 (cmin I64) (- 1), str_value ''bo''] \<rparr>"
  have g: "groupable [False, True] ?k" "groupable [False, True] ?k'" by code_simp+
  have "group_of ?k = group_of ?k'" by code_simp
  then show ?thesis using AggregateKey_hash_respects_eq [OF g] by simp
qed

lemma hash_byte_inj:
  "(word_of_int (static_cast I8 (of_char c)) :: 64 word) = word_of_int (static_cast I8 (of_char d)) \<longleftrightarrow> c = d"
proof
  let ?b = "\<lambda>c. static_cast I8 (of_char c)"
  assume eq: "(word_of_int (?b c) :: 64 word) = word_of_int (?b d)"
  have b: "?b e mod 2 ^ 8 = of_char e" for e
    by (simp add: static_cast_def signed_take_bit_eq_take_bit_minus take_bit_eq_mod of_char_mod_256)
  have "?b c mod 2 ^ 64 = ?b d mod 2 ^ 64" using eq by (simp add: word_of_int_eq_iff take_bit_eq_mod)
  then have "?b c mod 2 ^ 64 mod 2 ^ 8 = ?b d mod 2 ^ 64 mod 2 ^ 8" by simp
  then have "?b c mod 2 ^ 8 = ?b d mod 2 ^ 8" by (simp add: mod_mod_cancel)
  then show "c = d" using b by simp
qed simp

lemma word_xor_left_cancel: "x XOR a = x XOR b \<longleftrightarrow> a = (b :: 64 word)"
proof
  assume "x XOR a = x XOR b"
  then have "x XOR (x XOR a) = x XOR (x XOR b)" by simp
  then show "a = b" by (simp add: xor.assoc [symmetric])
qed simp

lemma hash_step_inj: "hash_step h c = hash_step h d \<longleftrightarrow> c = d"
proof
  assume "hash_step h c = hash_step h d"
  then have "(word_of_int (static_cast I8 (of_char c)) :: 64 word) = word_of_int (static_cast I8 (of_char d))"
    unfolding hash_step_def by (simp only: word_xor_left_cancel)
  then show "c = d" by (simp only: hash_byte_inj)
qed simp

lemma HashBytes_last: "HashBytes (bs @ [c]) = HashBytes (bs @ [d]) \<longleftrightarrow> c = d"
  by (simp add: HashBytes_def hash_step_inj)

lemma le_encode_numeral: "le_encode (numeral v) k = char_of (k mod 256) # le_encode (pred_numeral v) (k div 256)"
  unfolding numeral_eq_Suc [of v] by simp

lemma Hash_double_zero: "Hash_double 0 \<noteq> Hash_double 0x8000000000000000"
proof -
  have "le_encode 8 0 = le_encode 7 0 @ [char_of (0::nat)]"
    "le_encode 8 9223372036854775808 = le_encode 7 0 @ [char_of (128::nat)]"
    by (simp_all add: le_encode_numeral)
  then show ?thesis using HashBytes_last [of "le_encode 7 0" "char_of (0::nat)" "char_of (128::nat)"]
    by (simp add: Hash_double_def)
qed

lemmas double_eval = cmp_double_def dcmp_def decode_def apply_sign_def

text \<open>A decimal zero and a decimal negative zero compare equal as group-by keys but hash
  differently, so the aggregation hash table can hold both as separate groups.\<close>

theorem AggregateKey_zero_hash:
  "\<exists>k k'. Value_double DECIMAL 0 = Inr k \<and> Value_double DECIMAL 0x8000000000000000 = Inr k' \<and>
     AggregateKey_eq \<lparr> group_bys = [k] \<rparr> \<lparr> group_bys = [k'] \<rparr> = Inr True \<and>
     (\<exists>h h'. HashValue k = Inr h \<and> HashValue k' = Inr h' \<and> h \<noteq> h')"
proof -
  let ?v = "\<lambda>d. (Value_ctor DECIMAL) \<lparr> raw := d, size_len := 0 \<rparr>"
  have v: "Value_double DECIMAL 0 = Inr (?v 0)" "Value_double DECIMAL 0x8000000000000000 = Inr (?v 0x8000000000000000)"
    by (simp_all add: Value_double_def double_eval BUSTUB_DECIMAL_NULL_def DBL_LOWEST_def null_len_def)
  have "Compare EQ (?v 0) (?v 0x8000000000000000) = Inr CmpTrue"
    by (subst Compare_unfold) (simp_all add: Value_ctor_def cmp_guard_def CheckComparable_def IsNull_def limit_defs
        DECIMAL_COMPARE_FUNC_def GetAs_double_def double_eval GetCmpBool_def)
  then have "AggregateKey_eq \<lparr> group_bys = [?v 0] \<rparr> \<lparr> group_bys = [?v 0x8000000000000000] \<rparr> = Inr True"
    by (simp add: AggregateKey_eq_def)
  then show ?thesis using v Hash_double_zero
    by (simp add: HashValue_def GetTypeId_def Value_ctor_def GetAs_double_def)
qed

section \<open>Groups of the hash table\<close>

definition ht_inv :: "bool list \<Rightarrow> SimpleAggregationHashTable \<Rightarrow> bool" where
  "ht_inv strs t \<longleftrightarrow> (\<forall>e \<in> set (ht t). groupable strs (fst e)) \<and> distinct (map (group_of \<circ> fst) (ht t))"

definition ht_groups :: "SimpleAggregationHashTable \<Rightarrow> (int + string) list set" where
  "ht_groups t = (group_of \<circ> fst) ` set (ht t)"

lemma umap_find_groups:
  assumes "groupable strs k" "\<And>e. e \<in> set m \<Longrightarrow> groupable strs (fst e)"
  shows "\<exists>p. umap_find AggregateKey_eq bucket_hash m k = Inr p \<and> (case p of
     None \<Rightarrow> group_of k \<notin> (group_of \<circ> fst) ` set m | Some i \<Rightarrow> i < length m \<and> group_of (fst (m ! i)) = group_of k)"
  using assms(2)
proof (induction m)
  case (Cons e m)
  then obtain p where p: "umap_find AggregateKey_eq bucket_hash m k = Inr p"
    "case p of None \<Rightarrow> group_of k \<notin> (group_of \<circ> fst) ` set m | Some i \<Rightarrow> i < length m \<and> group_of (fst (m ! i)) = group_of k"
    by auto
  have e: "groupable strs (fst e)" using Cons.prems by simp
  show ?case using p AggregateKey_eq_groups [OF assms(1) e] bucket_hash_groups [OF assms(1)]
      bucket_hash_groups [OF e]
    by (auto split: option.splits)
qed simp

lemma ht_find_groups:
  assumes "groupable strs k" "ht_inv strs t"
  shows "\<exists>p. ht_find t k = Inr p \<and> (p = None \<longleftrightarrow> group_of k \<notin> ht_groups t) \<and>
     (\<forall>i. p = Some i \<longrightarrow> i < length (ht t) \<and> group_of (fst (ht t ! i)) = group_of k)"
proof -
  obtain p where p: "umap_find AggregateKey_eq bucket_hash (ht t) k = Inr p" "case p of
     None \<Rightarrow> group_of k \<notin> (group_of \<circ> fst) ` set (ht t) | Some i \<Rightarrow> i < length (ht t) \<and> group_of (fst (ht t ! i)) = group_of k"
    using umap_find_groups [OF assms(1), of "ht t"] assms(2) by (auto simp: ht_inv_def)
  then have "p = None \<longleftrightarrow> group_of k \<notin> ht_groups t"
    by (auto simp: ht_groups_def split: option.splits) (metis comp_apply imageI nth_mem)
  then show ?thesis using p hash_AggregateKey_groups [OF assms(1)]
    by (auto simp: ht_find_def split: option.splits)
qed

lemma ht_subscript_present:
  assumes "groupable strs k" "ht_inv strs t" "group_of k \<in> ht_groups t"
  shows "\<exists>i. ht_subscript t k = Inr (i, t) \<and> i < length (ht t) \<and> group_of (fst (ht t ! i)) = group_of k"
  using ht_find_groups [OF assms(1,2)] assms(3) by (auto simp: ht_subscript_def split: option.splits)

lemma ht_insert_new_groups:
  assumes "groupable strs k" "ht_inv strs t"
  shows "\<exists>t'. ht_insert_new t k = Inr t' \<and> ht_inv strs t' \<and> ht_groups t' = insert (group_of k) (ht_groups t) \<and>
     agg_exprs t' = agg_exprs t \<and> agg_types t' = agg_types t"
proof -
  obtain p where p: "ht_find t k = Inr p" "p = None \<longleftrightarrow> group_of k \<notin> ht_groups t"
    using ht_find_groups [OF assms] by blast
  have "\<exists>v. initial_aggregate a = Inr v" for a
    by (cases a) (simp_all add: GetIntegerValue_def GetNullValueByType_def Value_int32_def)
  then obtain f where "initial_aggregate a = Inr (f a)" for a by metis
  then have "rmapM initial_aggregate (agg_types t) = Inr (map f (agg_types t))" by (intro rmapM_Inr_map)
  with p assms show ?thesis
    by (auto simp: ht_insert_new_def GenerateInitialAggregateValue_def ht_inv_def ht_groups_def)
qed

text \<open>\<open>InsertCombine\<close> enters the group of its key exactly once: over a table whose keys are
  integers and strings, distinct as groups, the table afterwards has the groups it had and that of
  the key, still distinct, although the call itself ends in the \<open>UNIMPLEMENTED\<close> of
  \<open>CombineAggregateValues\<close>.\<close>

theorem InsertCombine_groups:
  assumes "groupable strs k" "ht_inv strs t" "length (agg_types t) = length (agg_exprs t)"
  shows "\<exists>t'. InsertCombine t k v = (t', Inl (LogicError ''TODO(P3): Add implementation.'')) \<and>
     ht_inv strs t' \<and> ht_groups t' = insert (group_of k) (ht_groups t)"
proof -
  obtain t' where t': "ht_insert_new t k = Inr t'" "ht_inv strs t'" "ht_groups t' = insert (group_of k) (ht_groups t)"
    "agg_exprs t' = agg_exprs t" "agg_types t' = agg_types t"
    using ht_insert_new_groups [OF assms(1,2)] by blast
  have "rmapM (at (agg_types t')) [0..<length (agg_exprs t')] = Inr (map ((!) (agg_types t')) [0..<length (agg_exprs t')])"
    using assms(3) t'(4,5) by (intro rmapM_Inr_map) simp
  moreover obtain i where "ht_subscript t' k = Inr (i, t')"
    using ht_subscript_present [OF assms(1) t'(2)] t'(3) by blast
  ultimately show ?thesis using t' by (simp add: InsertCombine_def CombineAggregateValues_def)
qed

theorem InsertCombine_groups_witness:
  "ht_groups (fst (InsertCombine (SimpleAggregationHashTable_ctor [] [])
      \<lparr> group_bys = [str_value ''bo''] \<rparr> \<lparr> aggregates = [] \<rparr>)) = {[Inr ''bo'']}"
proof -
  let ?t = "SimpleAggregationHashTable_ctor [] []" and ?k = "\<lparr> group_bys = [str_value ''bo''] \<rparr>"
  have h: "groupable [True] ?k" "ht_inv [True] ?t" "length (agg_types ?t) = length (agg_exprs ?t)"
    "ht_groups ?t = {}" "group_of ?k = [Inr ''bo'']" by code_simp+
  show ?thesis using InsertCombine_groups [OF h(1-3), of "\<lparr> aggregates = [] \<rparr>"] h(4,5) by auto
qed

end
