(* ===== verification/Sketch.thy ===== *)
theory Sketch
  imports Hashing "HOL-Library.Multiset"
begin

text \<open>
  The count-min sketch (primer/count_min_sketch.h, primer/count_min_sketch.cpp): construction, moves,
  \<open>Insert\<close>, \<open>Count\<close>, \<open>Merge\<close>, \<open>Clear\<close> and \<open>TopK\<close>, and concurrent insertions as interleavings of the
  increments that the mutex makes atomic.

  \<open>std::hash<KeyType>\<close> is left open by the C++ standard, so it is a parameter of the operations; the
  closures in \<open>hash_functions_\<close> capture a seed and the sketch itself, so they are modelled by their
  seeds and read the width of the sketch they belong to.  The matrix is an array of \<open>width_\<close>
  columns with \<open>depth_\<close> counters each, \<open>None\<close> for the null pointer a move leaves behind.
\<close>

section \<open>The sketch and its operations\<close>

record CountMinSketch =
  width :: nat
  depth :: nat
  hash_functions :: "nat list"
  matrix :: "32 word list list option"

definition SEED_BASE :: "64 word" where "SEED_BASE = 15445"

definition cms_HashFunction :: "('k \<Rightarrow> 64 word) \<Rightarrow> nat \<Rightarrow> nat \<Rightarrow> 'k \<Rightarrow> nat result" where
  "cms_HashFunction std_hash w seed item =
     (let h1 = std_hash item; h2 = CombineHashes (of_nat seed) SEED_BASE
      in check Undefined (w \<noteq> 0) (Inr (unat (CombineHashes h1 h2) mod w)))"

text \<open>\<open>matrix_[c][r] = f(matrix_[c][r])\<close>, and the nested loops that visit every cell.\<close>

definition cell_upd :: "(32 word \<Rightarrow> 32 word) \<Rightarrow> 32 word list list \<Rightarrow> nat \<Rightarrow> nat \<Rightarrow> 32 word list list result" where
  "cell_upd f m c r = rbind (at m c) (\<lambda>col. rbind (at col r) (\<lambda>x. Inr (m[c := col[r := f x]])))"

definition cell_at :: "32 word list list \<Rightarrow> nat \<Rightarrow> nat \<Rightarrow> 32 word result" where
  "cell_at m c r = rbind (at m c) (\<lambda>col. at col r)"

definition for_cells :: "nat \<Rightarrow> nat \<Rightarrow> (nat \<Rightarrow> nat \<Rightarrow> 32 word result) \<Rightarrow> (32 word \<Rightarrow> 32 word \<Rightarrow> 32 word) \<Rightarrow>
    32 word list list \<Rightarrow> 32 word list list result" where
  "for_cells w d operand f m = rfoldM (\<lambda>m (i, j). rbind (operand i j) (\<lambda>y. cell_upd (\<lambda>x. f x y) m i j)) m
     (List.product [0..<w] [0..<d])"

definition deref_matrix :: "CountMinSketch \<Rightarrow> 32 word list list result" where
  "deref_matrix s = (case matrix s of None \<Rightarrow> Inl Undefined | Some m \<Rightarrow> Inr m)"

text \<open>The constructor; \<open>fresh\<close> is the contents of the newly allocated, uninitialised columns.\<close>

definition CountMinSketch_ctor :: "(nat \<Rightarrow> nat \<Rightarrow> 32 word) \<Rightarrow> nat \<Rightarrow> nat \<Rightarrow> CountMinSketch result" where
  "CountMinSketch_ctor fresh w d = (if w = 0 \<or> d = 0 then Inl StdInvalidArgument
     else rbind (for_cells w d (\<lambda>_ _. Inr 0) (\<lambda>x y. y) (map (\<lambda>i. map (fresh i) [0..<d]) [0..<w])) (\<lambda>m.
       Inr \<lparr> width = w, depth = d, hash_functions = [0..<d], matrix = Some m \<rparr>))"

text \<open>The state \<open>other\<close> is left in by a move.\<close>

definition cms_moved_from :: CountMinSketch where
  "cms_moved_from = \<lparr> width = 0, depth = 0, hash_functions = [], matrix = None \<rparr>"

text \<open>Move construction and move assignment from another object: the new contents of the target and
  of \<open>other\<close>; the self-assignment changes nothing.\<close>

definition CountMinSketch_move :: "CountMinSketch \<Rightarrow> CountMinSketch \<times> CountMinSketch" where
  "CountMinSketch_move other =
     (\<lparr> width = width other, depth = depth other, hash_functions = [0..<depth other], matrix = matrix other \<rparr>,
      cms_moved_from)"

definition CountMinSketch_move_assign :: "CountMinSketch \<Rightarrow> CountMinSketch \<Rightarrow> bool \<Rightarrow> CountMinSketch \<times> CountMinSketch" where
  "CountMinSketch_move_assign this other same = (if same then (this, this) else
     (\<lparr> width = width other, depth = depth other, hash_functions = [0..<depth other], matrix = matrix other \<rparr>,
      cms_moved_from))"

definition cms_hash :: "('k \<Rightarrow> 64 word) \<Rightarrow> CountMinSketch \<Rightarrow> nat \<Rightarrow> 'k \<Rightarrow> nat result" where
  "cms_hash std_hash s i item = rbind (at (hash_functions s) i) (\<lambda>seed. cms_HashFunction std_hash (width s) seed item)"

definition cms_increment :: "CountMinSketch \<Rightarrow> nat \<Rightarrow> nat \<Rightarrow> CountMinSketch result" where
  "cms_increment s c i = rbind (deref_matrix s) (\<lambda>m. rbind (cell_upd (\<lambda>x. x + 1) m c i) (\<lambda>m'.
     Inr (s \<lparr> matrix := Some m' \<rparr>)))"

definition CountMinSketch_Insert :: "('k \<Rightarrow> 64 word) \<Rightarrow> CountMinSketch \<Rightarrow> 'k \<Rightarrow> CountMinSketch result" where
  "CountMinSketch_Insert std_hash s item = rfoldM (\<lambda>s i.
     rbind (cms_hash std_hash s i item) (\<lambda>hash_value. cms_increment s hash_value i)) s [0..<depth s]"

definition CountMinSketch_Merge :: "CountMinSketch \<Rightarrow> CountMinSketch \<Rightarrow> CountMinSketch result" where
  "CountMinSketch_Merge s other = (if width s \<noteq> width other \<or> depth s \<noteq> depth other then Inl StdInvalidArgument
     else if width s = 0 \<or> depth s = 0 then Inr s
     else rbind (deref_matrix s) (\<lambda>m. rbind (deref_matrix other) (\<lambda>om.
       rbind (for_cells (width s) (depth s) (cell_at om) (+) m) (\<lambda>m'. Inr (s \<lparr> matrix := Some m' \<rparr>)))))"

definition CountMinSketch_Count :: "('k \<Rightarrow> 64 word) \<Rightarrow> CountMinSketch \<Rightarrow> 'k \<Rightarrow> 32 word result" where
  "CountMinSketch_Count std_hash s item = rfoldM (\<lambda>min_value i.
     rbind (cms_hash std_hash s i item) (\<lambda>hash_value. rbind (deref_matrix s) (\<lambda>m. rbind (cell_at m hash_value i) (\<lambda>x.
       Inr (if x < min_value then x else min_value))))) (- 1) [0..<depth s]"

definition CountMinSketch_Clear :: "CountMinSketch \<Rightarrow> CountMinSketch result" where
  "CountMinSketch_Clear s = (if width s = 0 \<or> depth s = 0 then Inr s
     else rbind (deref_matrix s) (\<lambda>m. rbind (for_cells (width s) (depth s) (\<lambda>_ _. Inr 0) (\<lambda>x y. y) m) (\<lambda>m'.
       Inr (s \<lparr> matrix := Some m' \<rparr>))))"

text \<open>\<open>TopK\<close>; \<open>std::sort\<close> leaves the order of equal elements open, so it is a parameter, with the
  contract \<open>sorts\<close> below.\<close>

definition CountMinSketch_TopK :: "(('k \<times> 32 word) list \<Rightarrow> ('k \<times> 32 word) list) \<Rightarrow> ('k \<Rightarrow> 64 word) \<Rightarrow>
    CountMinSketch \<Rightarrow> nat \<Rightarrow> 'k list \<Rightarrow> ('k \<times> 32 word) list result" where
  "CountMinSketch_TopK std_sort std_hash s k candidates =
     rbind (rmapM (\<lambda>c. rbind (CountMinSketch_Count std_hash s c) (\<lambda>n. Inr (c, n))) candidates) (\<lambda>res.
       let sorted_res = std_sort res in Inr (if length sorted_res > k then take k sorted_res else sorted_res))"

definition desc_counts :: "('k \<times> 32 word) list \<Rightarrow> bool" where
  "desc_counts = sorted_wrt (\<lambda>a b. snd b \<le> snd a)"

definition sorts :: "(('k \<times> 32 word) list \<Rightarrow> ('k \<times> 32 word) list) \<Rightarrow> bool" where
  "sorts f \<longleftrightarrow> (\<forall>xs. mset (f xs) = mset xs \<and> desc_counts (f xs))"

section \<open>Matrices as functions\<close>

definition matrix_of :: "nat \<Rightarrow> nat \<Rightarrow> (nat \<Rightarrow> nat \<Rightarrow> 32 word) \<Rightarrow> 32 word list list" where
  "matrix_of w d f = map (\<lambda>c. map (f c) [0..<d]) [0..<w]"

lemma length_matrix_of [simp]: "length (matrix_of w d f) = w"
  by (simp add: matrix_of_def)

lemma matrix_of_cong: "(\<And>c i. c < w \<Longrightarrow> i < d \<Longrightarrow> f c i = g c i) \<Longrightarrow> matrix_of w d f = matrix_of w d g"
  by (simp add: matrix_of_def)

lemma cell_at_matrix_of [simp]: "c < w \<Longrightarrow> i < d \<Longrightarrow> cell_at (matrix_of w d f) c i = Inr (f c i)"
  by (simp add: cell_at_def matrix_of_def)

lemma cell_upd_matrix_of [simp]:
  "c < w \<Longrightarrow> i < d \<Longrightarrow> cell_upd g (matrix_of w d f) c i = Inr (matrix_of w d (f(c := (f c)(i := g (f c i)))))"
  by (auto simp: cell_upd_def matrix_of_def intro!: nth_equalityI simp: nth_list_update)

lemma for_cells_list:
  assumes "\<And>i j. (i, j) \<in> set ps \<Longrightarrow> i < w \<and> j < d \<and> operand i j = Inr (g i j)" "distinct ps"
  shows "rfoldM (\<lambda>m (i, j). rbind (operand i j) (\<lambda>y. cell_upd (\<lambda>x. f x y) m i j)) (matrix_of w d h) ps =
    Inr (matrix_of w d (\<lambda>i j. if (i, j) \<in> set ps then f (h i j) (g i j) else h i j))"
  using assms
proof (induction ps arbitrary: h)
  case (Cons p ps)
  obtain i j where p: "p = (i, j)" by force
  have ij: "i < w" "j < d" "operand i j = Inr (g i j)" using Cons.prems(1) p by auto
  let ?h = "h(i := (h i)(j := f (h i j) (g i j)))"
  have "rfoldM (\<lambda>m (i, j). rbind (operand i j) (\<lambda>y. cell_upd (\<lambda>x. f x y) m i j)) (matrix_of w d ?h) ps =
    Inr (matrix_of w d (\<lambda>i j. if (i, j) \<in> set ps then f (?h i j) (g i j) else ?h i j))"
    using Cons.prems by (intro Cons.IH) auto
  moreover have "matrix_of w d (\<lambda>i j. if (i, j) \<in> set ps then f (?h i j) (g i j) else ?h i j) =
    matrix_of w d (\<lambda>i j. if (i, j) \<in> set (p # ps) then f (h i j) (g i j) else h i j)"
    using Cons.prems(2) p by (intro matrix_of_cong) auto
  ultimately show ?case using ij p by simp
qed simp

lemma for_cells_matrix_of:
  assumes "\<And>i j. i < w \<Longrightarrow> j < d \<Longrightarrow> operand i j = Inr (g i j)"
  shows "for_cells w d operand f (matrix_of w d h) = Inr (matrix_of w d (\<lambda>i j. f (h i j) (g i j)))"
  unfolding for_cells_def using assms
  by (subst for_cells_list [where g = g]) (auto simp: distinct_product intro!: matrix_of_cong)

section \<open>What a sketch counts\<close>

text \<open>The bucket of an item in row \<open>i\<close>, the number of insertions that hit a cell, and the sketch
  that holds exactly those numbers.\<close>

definition bucket :: "('k \<Rightarrow> 64 word) \<Rightarrow> nat \<Rightarrow> nat \<Rightarrow> 'k \<Rightarrow> nat" where
  "bucket std_hash w i item = unat (CombineHashes (std_hash item) (CombineHashes (of_nat i) SEED_BASE)) mod w"

definition hits :: "('k \<Rightarrow> 64 word) \<Rightarrow> nat \<Rightarrow> 'k list \<Rightarrow> nat \<Rightarrow> nat \<Rightarrow> nat" where
  "hits std_hash w xs c i = length (filter (\<lambda>y. bucket std_hash w i y = c) xs)"

definition sketch_with :: "nat \<Rightarrow> nat \<Rightarrow> (nat \<Rightarrow> nat \<Rightarrow> 32 word) \<Rightarrow> CountMinSketch" where
  "sketch_with w d f = \<lparr> width = w, depth = d, hash_functions = [0..<d], matrix = Some (matrix_of w d f) \<rparr>"

definition sketch_of :: "('k \<Rightarrow> 64 word) \<Rightarrow> nat \<Rightarrow> nat \<Rightarrow> 'k list \<Rightarrow> CountMinSketch" where
  "sketch_of std_hash w d xs = sketch_with w d (\<lambda>c i. of_nat (hits std_hash w xs c i))"

lemma sketch_with_sel [simp]:
  "width (sketch_with w d f) = w" "depth (sketch_with w d f) = d" "hash_functions (sketch_with w d f) = [0..<d]"
  "deref_matrix (sketch_with w d f) = Inr (matrix_of w d f)"
  "sketch_with w d f \<lparr> matrix := Some (matrix_of w d g) \<rparr> = sketch_with w d g"
  by (simp_all add: sketch_with_def deref_matrix_def)

lemma sketch_with_cong: "(\<And>c i. c < w \<Longrightarrow> i < d \<Longrightarrow> f c i = g c i) \<Longrightarrow> sketch_with w d f = sketch_with w d g"
  unfolding sketch_with_def by (simp cong: matrix_of_cong)

lemma bucket_less [simp]: "0 < w \<Longrightarrow> bucket std_hash w i x < w"
  by (simp add: bucket_def)

lemma cms_hash_sketch [simp]: "0 < w \<Longrightarrow> i < d \<Longrightarrow> cms_hash std_hash (sketch_with w d f) i x = Inr (bucket std_hash w i x)"
  by (simp add: cms_hash_def cms_HashFunction_def bucket_def)

lemma cms_increment_sketch [simp]:
  "c < w \<Longrightarrow> i < d \<Longrightarrow> cms_increment (sketch_with w d f) c i = Inr (sketch_with w d (f(c := (f c)(i := f c i + 1))))"
  by (simp add: cms_increment_def)

lemma CountMinSketch_ctor_new:
  "0 < w \<Longrightarrow> 0 < d \<Longrightarrow> CountMinSketch_ctor fresh w d = Inr (sketch_with w d (\<lambda>_ _. 0))"
  using for_cells_matrix_of [of w d "\<lambda>_ _. Inr 0" "\<lambda>_ _. 0" "\<lambda>x y. y" fresh]
  by (simp add: CountMinSketch_ctor_def matrix_of_def [symmetric] sketch_with_def)

lemma sketch_of_Nil: "sketch_of std_hash w d [] = sketch_with w d (\<lambda>_ _. 0)"
  by (simp add: sketch_of_def hits_def)

lemma Insert_rows:
  assumes "0 < w" "distinct is" "\<And>i. i \<in> set is \<Longrightarrow> i < d"
  shows "rfoldM (\<lambda>s i. rbind (cms_hash std_hash s i x) (\<lambda>hash_value. cms_increment s hash_value i)) (sketch_with w d f) is =
    Inr (sketch_with w d (\<lambda>c i. f c i + (if i \<in> set is \<and> bucket std_hash w i x = c then 1 else 0)))"
  using assms(2,3)
proof (induction "is" arbitrary: f)
  case (Cons i "is")
  let ?b = "bucket std_hash w i x"
  let ?g = "f(?b := (f ?b)(i := f ?b i + 1))"
  have "rfoldM (\<lambda>s i. rbind (cms_hash std_hash s i x) (\<lambda>hash_value. cms_increment s hash_value i)) (sketch_with w d ?g) is =
    Inr (sketch_with w d (\<lambda>c j. ?g c j + (if j \<in> set is \<and> bucket std_hash w j x = c then 1 else 0)))"
    using Cons by simp
  moreover have "sketch_with w d (\<lambda>c j. ?g c j + (if j \<in> set is \<and> bucket std_hash w j x = c then 1 else 0)) =
    sketch_with w d (\<lambda>c j. f c j + (if j \<in> set (i # is) \<and> bucket std_hash w j x = c then 1 else 0))"
    using Cons.prems(1) by (intro sketch_with_cong) auto
  ultimately show ?case using assms(1) Cons.prems by simp
qed (simp cong: sketch_with_cong)

lemma Insert_sketch_with:
  "0 < w \<Longrightarrow> CountMinSketch_Insert std_hash (sketch_with w d f) x =
    Inr (sketch_with w d (\<lambda>c i. f c i + (if bucket std_hash w i x = c then 1 else 0)))"
  unfolding CountMinSketch_Insert_def sketch_with_sel
  by (subst Insert_rows) (auto intro!: sketch_with_cong)

lemma Insert_sketch_of:
  "0 < w \<Longrightarrow> CountMinSketch_Insert std_hash (sketch_of std_hash w d xs) x = Inr (sketch_of std_hash w d (xs @ [x]))"
  unfolding sketch_of_def by (simp add: Insert_sketch_with) (auto intro!: sketch_with_cong simp: hits_def)

lemma Insert_all:
  "0 < w \<Longrightarrow> rfoldM (CountMinSketch_Insert std_hash) (sketch_of std_hash w d xs) ys = Inr (sketch_of std_hash w d (xs @ ys))"
  by (induction ys arbitrary: xs) (simp_all add: Insert_sketch_of)

text \<open>The sketch after constructing it and inserting the items \<open>xs\<close> in order.\<close>

definition cms_run :: "(nat \<Rightarrow> nat \<Rightarrow> 32 word) \<Rightarrow> ('k \<Rightarrow> 64 word) \<Rightarrow> nat \<Rightarrow> nat \<Rightarrow> 'k list \<Rightarrow> CountMinSketch result" where
  "cms_run fresh std_hash w d xs = rbind (CountMinSketch_ctor fresh w d) (\<lambda>s. rfoldM (CountMinSketch_Insert std_hash) s xs)"

lemma cms_run_sketch: "0 < w \<Longrightarrow> 0 < d \<Longrightarrow> cms_run fresh std_hash w d xs = Inr (sketch_of std_hash w d xs)"
  using Insert_all [of w std_hash d "[]" xs] by (simp add: cms_run_def CountMinSketch_ctor_new sketch_of_Nil)

lemma Count_rows:
  assumes "0 < w" "\<And>i. i \<in> set is \<Longrightarrow> i < d"
  shows "rfoldM (\<lambda>min_value i. rbind (cms_hash std_hash (sketch_with w d f) i x) (\<lambda>hash_value.
      rbind (deref_matrix (sketch_with w d f)) (\<lambda>m. rbind (cell_at m hash_value i) (\<lambda>x.
       Inr (if x < min_value then x else min_value))))) a is =
    Inr (foldl min a (map (\<lambda>i. f (bucket std_hash w i x) i) is))"
  using assms by (induction "is" arbitrary: a) (auto simp: min_def)

lemma foldl_min_Min: "foldl min (a :: 'a::linorder) xs = Min (insert a (set xs))"
proof (induction xs arbitrary: a)
  case (Cons x xs)
  then show ?case by (cases "set xs = {}") (simp_all add: min.assoc)
qed simp

lemma Count_sketch:
  assumes "0 < w" "0 < d"
  shows "CountMinSketch_Count std_hash (sketch_with w d f) x = Inr (Min ((\<lambda>i. f (bucket std_hash w i x) i) ` {..<d}))"
proof -
  let ?A = "(\<lambda>i. f (bucket std_hash w i x) i) ` {..<d}"
  have "Min (insert (- 1) ?A) = Min ?A" using assms(2)
    by (subst Min_insert) (auto intro!: min_absorb2)
  then show ?thesis using assms unfolding CountMinSketch_Count_def sketch_with_sel(2)
    by (subst Count_rows) (auto simp: foldl_min_Min atLeast0LessThan)
qed

lemma Min_of_nat_words:
  assumes "finite I" "I \<noteq> {}" "\<And>i. i \<in> I \<Longrightarrow> g i < 2 ^ 32"
  shows "unat (Min ((\<lambda>i. of_nat (g i) :: 32 word) ` I)) = Min (g ` I)"
proof -
  have "mono (unat :: 32 word \<Rightarrow> nat)" by (simp add: mono_def word_le_nat_alt)
  then have "unat (Min ((\<lambda>i. of_nat (g i) :: 32 word) ` I)) = Min (unat ` (\<lambda>i. of_nat (g i) :: 32 word) ` I)"
    using assms by (intro mono_Min_commute) auto
  also have "unat ` (\<lambda>i. of_nat (g i) :: 32 word) ` I = g ` I"
    unfolding image_image using assms(3) by (intro image_cong) (auto simp: unat_of_nat)
  finally show ?thesis .
qed

lemma hits_bounds: "count_list xs x \<le> hits std_hash w xs (bucket std_hash w i x) i" "hits std_hash w xs c i \<le> length xs"
  unfolding hits_def by (induction xs) (auto intro: le_SucI)

text \<open>C30: A count-min sketch of valid dimensions that has taken fewer than \<open>2^32\<close> insertions answers
  every \<open>Count\<close>, never below the number of times the item was inserted and never above the number
  of insertions; it is the least number of insertions that share the item's bucket in some row.\<close>

theorem CountMinSketch_Count_bounds:
  assumes "0 < w" "0 < d" "length xs < 2 ^ 32"
  shows "\<exists>s n. cms_run fresh std_hash w d xs = Inr s \<and> CountMinSketch_Count std_hash s x = Inr n \<and>
    count_list xs x \<le> unat n \<and> unat n \<le> length xs \<and>
    unat n = Min ((\<lambda>i. hits std_hash w xs (bucket std_hash w i x) i) ` {..<d})"
proof -
  let ?A = "(\<lambda>i. hits std_hash w xs (bucket std_hash w i x) i) ` {..<d}"
  let ?n = "Min ((\<lambda>i. of_nat (hits std_hash w xs (bucket std_hash w i x) i)) ` {..<d}) :: 32 word"
  have n: "CountMinSketch_Count std_hash (sketch_of std_hash w d xs) x = Inr ?n"
    unfolding sketch_of_def by (rule Count_sketch [OF assms(1,2)])
  have nat: "unat ?n = Min ?A" using assms(2,3)
    by (intro Min_of_nat_words) (auto intro: le_less_trans [OF hits_bounds(2)])
  have fin: "finite ?A" "?A \<noteq> {}" using assms(2) by auto
  have "Min ?A \<in> ?A" using fin by (rule Min_in)
  then have "count_list xs x \<le> Min ?A" "Min ?A \<le> length xs" using hits_bounds by fastforce+
  then show ?thesis using n nat cms_run_sketch [OF assms(1,2)]
    by (intro exI [of _ "sketch_of std_hash w d xs"] exI [of _ ?n]) simp
qed

theorem CountMinSketch_Count_bounds_witness:
  "\<exists>s n. cms_run (\<lambda>_ _. 7) of_nat 5 2 [3, 8, 3 :: nat] = Inr s \<and> CountMinSketch_Count of_nat s 3 = Inr n \<and>
    2 \<le> unat n \<and> unat n \<le> 3"
  using CountMinSketch_Count_bounds [of 5 2 "[3, 8, 3 :: nat]" "\<lambda>_ _. 7" of_nat 3] by auto

lemma Merge_sketch_with:
  assumes "0 < w" "0 < d"
  shows "CountMinSketch_Merge (sketch_with w d f) (sketch_with w d g) = Inr (sketch_with w d (\<lambda>c i. f c i + g c i))"
  using assms for_cells_matrix_of [of w d "cell_at (matrix_of w d g)" g "(+)" f]
  by (simp add: CountMinSketch_Merge_def)

lemma Merge_sketch_of:
  assumes "0 < w" "0 < d"
  shows "CountMinSketch_Merge (sketch_of std_hash w d xs) (sketch_of std_hash w d ys) = Inr (sketch_of std_hash w d (xs @ ys))"
  unfolding sketch_of_def using assms by (simp add: Merge_sketch_with) (auto intro!: sketch_with_cong simp: hits_def)

text \<open>Merging the sketch of one sequence of insertions with the sketch of another gives the sketch of
  the concatenated sequence, also where the counters wrap around.\<close>

theorem CountMinSketch_Merge_concat:
  assumes "0 < w" "0 < d"
  shows "\<exists>s t u. cms_run fresh std_hash w d xs = Inr s \<and> cms_run fresh' std_hash w d ys = Inr t \<and>
    CountMinSketch_Merge s t = Inr u \<and> cms_run fresh'' std_hash w d (xs @ ys) = Inr u"
  using cms_run_sketch [OF assms] Merge_sketch_of [OF assms] by metis

theorem CountMinSketch_Merge_concat_witness:
  "\<exists>s t u. cms_run (\<lambda>_ _. 7) of_nat 5 2 [3 :: nat, 8] = Inr s \<and> cms_run (\<lambda>_ _. 9) of_nat 5 2 [4 :: nat] = Inr t \<and>
    CountMinSketch_Merge s t = Inr u \<and> cms_run (\<lambda>_ _. 0) of_nat 5 2 [3 :: nat, 8, 4] = Inr u"
  using CountMinSketch_Merge_concat [of 5 2 "\<lambda>_ _. 7" of_nat "[3 :: nat, 8]" "\<lambda>_ _. 9" "[4]" "\<lambda>_ _. 0"] by simp

lemma Clear_sketch:
  assumes "0 < w" "0 < d"
  shows "CountMinSketch_Clear (sketch_with w d f) = CountMinSketch_ctor fresh w d"
  using assms for_cells_matrix_of [of w d "\<lambda>_ _. Inr 0" "\<lambda>_ _. 0" "\<lambda>x y. y" f]
  by (simp add: CountMinSketch_Clear_def CountMinSketch_ctor_new)

text \<open>A move hands the counts over: the target answers as the source did, and the source, of width and
  depth zero, answers every \<open>Count\<close> with \<open>UINT32_MAX\<close> and ignores insertions.\<close>

lemma CountMinSketch_move_sketch:
  "CountMinSketch_move (sketch_of std_hash w d xs) = (sketch_of std_hash w d xs, cms_moved_from)"
  "CountMinSketch_move_assign t (sketch_of std_hash w d xs) False = (sketch_of std_hash w d xs, cms_moved_from)"
  "CountMinSketch_Count std_hash cms_moved_from x = Inr (- 1)"
  "CountMinSketch_Insert std_hash cms_moved_from x = Inr cms_moved_from"
  by (simp_all add: CountMinSketch_move_def CountMinSketch_move_assign_def sketch_of_def sketch_with_def
      CountMinSketch_Count_def CountMinSketch_Insert_def cms_moved_from_def)

section \<open>TopK\<close>

lemma desc_counts_take:
  assumes "desc_counts ys" "p \<in> set (take k ys)" "q \<in> set (drop k ys)" shows "snd q \<le> snd p"
proof -
  have "sorted_wrt (\<lambda>a b. snd b \<le> snd a) (take k ys @ drop k ys)" using assms(1) by (simp add: desc_counts_def)
  then show ?thesis using assms(2,3) unfolding sorted_wrt_append by blast
qed

text \<open>\<open>TopK\<close> returns the \<open>k\<close> best candidates, or all when there are no more than \<open>k\<close>: each with its
  estimated count, in descending order, and no candidate left out has a higher count than one
  returned; for every implementation of \<open>std::sort\<close> that sorts.\<close>

theorem CountMinSketch_TopK_best:
  assumes "sorts std_sort" "0 < w" "0 < d" "cms_run fresh std_hash w d xs = Inr s"
  shows "\<exists>res rest. CountMinSketch_TopK std_sort std_hash s k cands = Inr res \<and>
    mset (map fst res @ map fst rest) = mset cands \<and>
    (\<forall>(c, n) \<in> set (res @ rest). CountMinSketch_Count std_hash s c = Inr n) \<and>
    desc_counts res \<and> length res = min k (length cands) \<and>
    (\<forall>p \<in> set res. \<forall>q \<in> set rest. snd q \<le> snd p)"
proof -
  have s: "s = sketch_of std_hash w d xs" using assms(4) cms_run_sketch [OF assms(2,3), of fresh std_hash xs] by simp
  define cnt where "cnt c = (Min ((\<lambda>i. of_nat (hits std_hash w xs (bucket std_hash w i c) i)) ` {..<d}) :: 32 word)" for c
  have cnt: "CountMinSketch_Count std_hash s c = Inr (cnt c)" for c
    unfolding s sketch_of_def cnt_def by (rule Count_sketch [OF assms(2,3)])
  let ?ys = "std_sort (map (\<lambda>c. (c, cnt c)) cands)"
  have ys: "mset ?ys = mset (map (\<lambda>c. (c, cnt c)) cands)" "desc_counts ?ys" using assms(1) by (auto simp: sorts_def)
  have len: "length ?ys = length cands" using ys(1) by (metis length_map mset_eq_length)
  have "rmapM (\<lambda>c. rbind (CountMinSketch_Count std_hash s c) (\<lambda>n. Inr (c, n))) cands = Inr (map (\<lambda>c. (c, cnt c)) cands)"
    by (rule rmapM_Inr_map) (simp add: cnt)
  then have run: "CountMinSketch_TopK std_sort std_hash s k cands = Inr (take k ?ys)"
    by (simp add: CountMinSketch_TopK_def Let_def)
  have "mset (map fst (take k ?ys) @ map fst (drop k ?ys)) = image_mset fst (mset ?ys)"
    unfolding map_append [symmetric] append_take_drop_id by simp
  also have "\<dots> = mset cands" by (simp add: ys(1) multiset.map_comp comp_def)
  finally have perm: "mset (map fst (take k ?ys) @ map fst (drop k ?ys)) = mset cands" .
  have "set ?ys = (\<lambda>c. (c, cnt c)) ` set cands" using ys(1) by (metis set_map set_mset_mset)
  then have counts: "\<forall>(c, n) \<in> set (take k ?ys @ drop k ?ys). CountMinSketch_Count std_hash s c = Inr n"
    unfolding append_take_drop_id by (auto simp: cnt)
  have "desc_counts (take k ?ys)" using ys(2) by (simp add: desc_counts_def sorted_wrt_take)
  then show ?thesis using run perm counts len desc_counts_take [OF ys(2)]
    by (intro exI [of _ "take k ?ys"] exI [of _ "drop k ?ys"]) simp
qed

lemma sorts_sort_key: "sorts (\<lambda>xs. rev (sort_key snd xs))"
proof -
  have "desc_counts (rev (sort_key snd xs))" for xs :: "('a \<times> 32 word) list"
    using sorted_sort_key [of snd xs] by (simp add: desc_counts_def sorted_wrt_rev sorted_wrt_map)
  then show ?thesis by (simp add: sorts_def)
qed

theorem CountMinSketch_TopK_best_witness:
  "\<exists>s res. cms_run (\<lambda>_ _. 7) of_nat 5 2 [3 :: nat, 8, 3] = Inr s \<and>
    CountMinSketch_TopK (\<lambda>xs. rev (sort_key snd xs)) of_nat s 1 [3, 8] = Inr res \<and> length res = 1"
proof -
  obtain s where s: "cms_run (\<lambda>_ _. 7) of_nat 5 2 [3 :: nat, 8, 3] = Inr s"
    using cms_run_sketch [of 5 2 "\<lambda>_ _. 7" of_nat "[3 :: nat, 8, 3]"] by auto
  show ?thesis using CountMinSketch_TopK_best [OF sorts_sort_key _ _ s, of 1 "[3, 8]"] s by auto
qed

section \<open>Concurrent insertions\<close>

text \<open>\<open>Insert\<close> computes each bucket without the lock, from the item and the fixed dimensions only, and
  holds the mutex for one increment at a time.  A thread is therefore a list of pending increments,
  and a step lets one thread perform its next one.\<close>

definition insert_ops :: "('k \<Rightarrow> 64 word) \<Rightarrow> CountMinSketch \<Rightarrow> 'k \<Rightarrow> (nat \<times> nat) list result" where
  "insert_ops std_hash s item = rmapM (\<lambda>i. rbind (cms_hash std_hash s i item) (\<lambda>c. Inr (c, i))) [0..<depth s]"

definition thread_ops :: "('k \<Rightarrow> 64 word) \<Rightarrow> CountMinSketch \<Rightarrow> 'k list \<Rightarrow> (nat \<times> nat) list result" where
  "thread_ops std_hash s items = rbind (rmapM (insert_ops std_hash s) items) (\<lambda>ops. Inr (concat ops))"

type_synonym threads = "(nat \<times> nat) list list"

inductive cms_step :: "CountMinSketch \<times> threads \<Rightarrow> CountMinSketch \<times> threads \<Rightarrow> bool" where
  increment: "t < length ps \<Longrightarrow> ps ! t = (c, i) # rest \<Longrightarrow> cms_increment s c i = Inr s' \<Longrightarrow>
    cms_step (s, ps) (s', ps[t := rest])"

inductive_cases cms_stepE: "cms_step (s, ps) st"

definition finished :: "threads \<Rightarrow> bool" where "finished ps \<longleftrightarrow> (\<forall>p \<in> set ps. p = [])"

definition pending :: "threads \<Rightarrow> nat \<times> nat \<Rightarrow> nat" where
  "pending ps q = sum_list (map (\<lambda>p. count_list p q) ps)"

definition ops_in :: "nat \<Rightarrow> nat \<Rightarrow> threads \<Rightarrow> bool" where
  "ops_in w d ps \<longleftrightarrow> (\<forall>p \<in> set ps. \<forall>(c, i) \<in> set p. c < w \<and> i < d)"

definition conc_inv :: "nat \<Rightarrow> nat \<Rightarrow> (nat \<Rightarrow> nat \<Rightarrow> 32 word) \<Rightarrow> CountMinSketch \<times> threads \<Rightarrow> bool" where
  "conc_inv w d tot st \<longleftrightarrow> ops_in w d (snd st) \<and>
     fst st = sketch_with w d (\<lambda>c i. tot c i - of_nat (pending (snd st) (c, i)))"

lemma pending_step:
  assumes "t < length ps" "ps ! t = q # rest"
  shows "pending ps q' = pending (ps[t := rest]) q' + (if q = q' then 1 else 0)"
proof -
  let ?f = "\<lambda>p. count_list p q'"
  have "sum_list (map ?f ps) = sum_list (map ?f (take t ps)) + ?f (ps ! t) + sum_list (map ?f (drop (Suc t) ps))"
    by (subst id_take_nth_drop [OF assms(1)]) simp
  moreover have "sum_list (map ?f (ps[t := rest])) = sum_list (map ?f (take t ps)) + ?f rest + sum_list (map ?f (drop (Suc t) ps))"
    by (subst upd_conv_take_nth_drop [OF assms(1)]) simp
  ultimately show ?thesis using assms(2) by (auto simp: pending_def)
qed

lemma conc_inv_step:
  assumes "cms_step st st'" "conc_inv w d tot st" shows "conc_inv w d tot st'"
  using assms
proof (cases rule: cms_step.cases)
  case (increment t ps c i rest s s')
  let ?f = "\<lambda>ps c i. tot c i - of_nat (pending ps (c, i)) :: 32 word"
  have s: "s = sketch_with w d (?f ps)" and ops: "ops_in w d ps" using assms(2) increment(1) by (auto simp: conc_inv_def)
  have "(c, i) \<in> set (ps ! t)" "ps ! t \<in> set ps" using increment(3,4) nth_mem [of t ps] by auto
  then have ci: "c < w" "i < d" using ops by (auto simp: ops_in_def)
  have "?f (ps[t := rest]) c' i' = ((?f ps)(c := (?f ps c)(i := ?f ps c i + 1))) c' i'" for c' i'
    using pending_step [OF increment(3,4), of "(c', i')"] by auto
  then have upd: "sketch_with w d ((?f ps)(c := (?f ps c)(i := ?f ps c i + 1))) = sketch_with w d (?f (ps[t := rest]))"
    by (intro sketch_with_cong) (simp only:)
  have "Inr s' = cms_increment s c i" using increment(5) by (rule sym)
  also have "\<dots> = Inr (sketch_with w d (?f (ps[t := rest])))"
    unfolding s cms_increment_sketch [OF ci] upd by (rule refl)
  finally have "s' = sketch_with w d (?f (ps[t := rest]))" by (rule Inr_inject)
  moreover have sub: "set (ps[t := rest]) \<subseteq> insert rest (set ps)" by (rule set_update_subset_insert)
  have "\<forall>(c, i) \<in> set rest. c < w \<and> i < d"
    using ops \<open>ps ! t \<in> set ps\<close> increment(4) unfolding ops_in_def by fastforce
  then have "ops_in w d (ps[t := rest])" using ops sub unfolding ops_in_def by blast
  ultimately show ?thesis using increment(2) by (simp add: conc_inv_def)
qed

lemma conc_inv_reachable: "cms_step\<^sup>*\<^sup>* st st' \<Longrightarrow> conc_inv w d tot st \<Longrightarrow> conc_inv w d tot st'"
  by (induction rule: rtranclp_induct) (auto intro: conc_inv_step)

lemma insert_ops_sketch:
  "0 < w \<Longrightarrow> insert_ops std_hash (sketch_with w d f) x = Inr (map (\<lambda>i. (bucket std_hash w i x, i)) [0..<d])"
  unfolding insert_ops_def by (subst rmapM_Inr_map) auto

lemma thread_ops_sketch:
  "0 < w \<Longrightarrow> thread_ops std_hash (sketch_with w d f) xs =
     Inr (concat (map (\<lambda>x. map (\<lambda>i. (bucket std_hash w i x, i)) [0..<d]) xs))"
  unfolding thread_ops_def by (subst rmapM_Inr_map) (auto simp: insert_ops_sketch)

lemma count_insert_ops:
  "i < d \<Longrightarrow> count_list (map (\<lambda>i. (bucket std_hash w i x, i)) [0..<d]) (c, i) = (if bucket std_hash w i x = c then 1 else 0)"
proof -
  assume i: "i < d"
  have 0: "count_list (map (\<lambda>i. (bucket std_hash w i x, i)) js) (c, i) = 0" if "i \<notin> set js" for js
    using that by (auto simp: count_list_0_iff)
  have "[0..<d] = [0..<i] @ i # [Suc i..<d]" using i
    using upt_add_eq_append [of 0 i "d - i"] upt_conv_Cons [of i d] by simp
  then show ?thesis by (auto simp: 0)
qed

lemma count_thread_ops:
  "i < d \<Longrightarrow> count_list (concat (map (\<lambda>x. map (\<lambda>i. (bucket std_hash w i x, i)) [0..<d]) xs)) (c, i) = hits std_hash w xs c i"
  by (induction xs) (simp_all add: hits_def count_list_append count_insert_ops)

lemma conc_start:
  assumes "0 < w" "rmapM (thread_ops std_hash (sketch_of std_hash w d zs)) xss = Inr ps"
  shows "conc_inv w d (\<lambda>c i. of_nat (hits std_hash w (zs @ concat xss) c i)) (sketch_of std_hash w d zs, ps)"
proof -
  let ?ops = "\<lambda>xs. concat (map (\<lambda>x. map (\<lambda>i. (bucket std_hash w i x, i)) [0..<d]) xs)"
  have ps: "ps = map ?ops xss"
    using assms(2) rmapM_Inr_map [of xss "thread_ops std_hash (sketch_of std_hash w d zs)" ?ops]
    by (simp add: sketch_of_def thread_ops_sketch [OF assms(1)])
  have "pending ps (c, i) = hits std_hash w (concat xss) c i" if "i < d" for c i
    unfolding ps pending_def using that by (induction xss) (simp_all add: count_thread_ops, simp_all add: hits_def)
  then have "sketch_of std_hash w d zs = sketch_with w d (\<lambda>c i. of_nat (hits std_hash w (zs @ concat xss) c i) - of_nat (pending ps (c, i)))"
    unfolding sketch_of_def by (intro sketch_with_cong) (simp add: hits_def)
  moreover have "ops_in w d ps" using assms(1) by (auto simp: ops_in_def ps)
  ultimately show ?thesis by (simp add: conc_inv_def)
qed

lemma conc_finished:
  assumes "conc_inv w d (\<lambda>c i. of_nat (hits std_hash w xs c i)) (s, ps)" "finished ps"
  shows "s = sketch_of std_hash w d xs"
proof -
  have "pending ps q = 0" for q using assms(2) by (induction ps) (auto simp: pending_def finished_def)
  then show ?thesis using assms(1) by (simp add: conc_inv_def sketch_of_def)
qed

lemma conc_progress:
  assumes "conc_inv w d tot (s, ps)" "\<not> finished ps" shows "\<exists>st. cms_step (s, ps) st"
proof -
  obtain t c i rest where t: "t < length ps" "ps ! t = (c, i) # rest"
    using assms(2) unfolding finished_def by (metis in_set_conv_nth list.exhaust surj_pair)
  then have "(c, i) \<in> set (ps ! t)" "ps ! t \<in> set ps" using nth_mem [of t ps] by auto
  then have "c < w" "i < d" using assms(1) by (auto simp: conc_inv_def ops_in_def)
  then have "\<exists>s'. cms_increment s c i = Inr s'" using assms(1) by (simp add: conc_inv_def)
  then show ?thesis using cms_step.increment [OF t] by blast
qed

lemma cms_step_decreases: "cms_step st st' \<Longrightarrow> sum_list (map length (snd st')) < sum_list (map length (snd st))"
proof (induction rule: cms_step.induct)
  case (increment t ps c i rest s s')
  have "sum_list (map length ps) = sum_list (map length (take t ps)) + length (ps ! t) + sum_list (map length (drop (Suc t) ps))"
    by (subst id_take_nth_drop [OF increment(1)]) simp
  moreover have "sum_list (map length (ps[t := rest])) =
      sum_list (map length (take t ps)) + length rest + sum_list (map length (drop (Suc t) ps))"
    by (subst upd_conv_take_nth_drop [OF increment(1)]) simp
  ultimately show ?case using increment(2) by simp
qed



end
