(* ===== verification/Containers.thy ===== *)
theory Containers
  imports Prelude
begin

text \<open>
  The stand-alone containers: \<open>CustomAllocator\<close> (Allocator/Allocator.h), the growing array \<open>Vector\<close>
  over it (Containers/vector/Vector.h), and the bump allocator \<open>Arena\<close> (Allocator/Arena.h).

  The free store is an explicit map from block numbers to blocks; a block is a list of slots, \<open>None\<close>
  while no object lives in the slot.  Reading or destroying an object that does not live, touching a
  block that is not allocated, and signed overflow are \<open>Undefined\<close>.  A reference is a block and a
  slot, or a temporary of the caller; it is read when the code reads it, so that an argument that
  refers into the vector is seen to dangle when the vector reallocates.
\<close>

section \<open>The free store and CustomAllocator\<close>

type_synonym ptr = "nat option"

record 'a store =
  blocks :: "nat \<Rightarrow> 'a option list option"
  next_block :: nat
  new_limit :: nat \<comment> \<open>the largest request that \<open>operator new\<close> serves\<close>

datatype 'a arg = Temp 'a | Slot ptr int

definition size_t_of :: "int \<Rightarrow> nat" where "size_t_of z = nat (z mod 2 ^ 64)"

definition max_size :: "nat \<Rightarrow> nat" where "max_size sizeof_T = (2 ^ 64 - 1) div sizeof_T"

definition operator_new :: "nat \<Rightarrow> nat \<Rightarrow> 'a store \<Rightarrow> (ptr \<times> 'a store) result" where
  "operator_new bytes slots h = (if bytes > new_limit h then Inl StdBadAlloc
     else Inr (Some (next_block h), h \<lparr> blocks := (blocks h)(next_block h \<mapsto> replicate slots None),
                                        next_block := next_block h + 1 \<rparr>))"

definition alloc_allocate :: "nat \<Rightarrow> nat \<Rightarrow> 'a store \<Rightarrow> (ptr \<times> 'a store) result" where
  "alloc_allocate sizeof_T n h = (if n = 0 then Inr (None, h)
     else if n > max_size sizeof_T then Inl StdBadAlloc
     else operator_new (sizeof_T * n) n h)"

definition alloc_deallocate :: "ptr \<Rightarrow> 'a store \<Rightarrow> 'a store result" where
  "alloc_deallocate p h = (case p of None \<Rightarrow> Inr h
     | Some b \<Rightarrow> check Undefined (blocks h b \<noteq> None) (Inr (h \<lparr> blocks := (blocks h)(b := None) \<rparr>)))"

definition get_slot :: "ptr \<Rightarrow> int \<Rightarrow> 'a store \<Rightarrow> 'a option result" where
  "get_slot p i h = (case p of None \<Rightarrow> Inl Undefined | Some b \<Rightarrow> (case blocks h b of None \<Rightarrow> Inl Undefined
     | Some blk \<Rightarrow> check Undefined (0 \<le> i \<and> nat i < length blk) (Inr (blk ! nat i))))"

definition set_slot :: "ptr \<Rightarrow> int \<Rightarrow> 'a option \<Rightarrow> 'a store \<Rightarrow> 'a store result" where
  "set_slot p i x h = (case p of None \<Rightarrow> Inl Undefined | Some b \<Rightarrow> (case blocks h b of None \<Rightarrow> Inl Undefined
     | Some blk \<Rightarrow> check Undefined (0 \<le> i \<and> nat i < length blk)
         (Inr (h \<lparr> blocks := (blocks h)(b \<mapsto> blk[nat i := x]) \<rparr>))))"

definition load :: "ptr \<Rightarrow> int \<Rightarrow> 'a store \<Rightarrow> 'a result" where
  "load p i h = rbind (get_slot p i h) (\<lambda>s. case s of None \<Rightarrow> Inl Undefined | Some x \<Rightarrow> Inr x)"

fun load_arg :: "'a arg \<Rightarrow> 'a store \<Rightarrow> 'a result" where
  "load_arg (Temp x) h = Inr x"
| "load_arg (Slot p i) h = load p i h"

definition alloc_construct :: "ptr \<Rightarrow> int \<Rightarrow> 'a \<Rightarrow> 'a store \<Rightarrow> 'a store result" where
  "alloc_construct p i x h = set_slot p i (Some x) h"

definition alloc_destroy :: "ptr \<Rightarrow> int \<Rightarrow> 'a store \<Rightarrow> 'a store result" where
  "alloc_destroy p i h = rbind (load p i h) (\<lambda>_. set_slot p i None h)"

text \<open>Assignment to the object in a slot.  For a type with a trivial assignment the slot may be raw
  memory; otherwise the assignment operator of an object that does not live is called.\<close>

definition assign :: "bool \<Rightarrow> ptr \<Rightarrow> int \<Rightarrow> 'a \<Rightarrow> 'a store \<Rightarrow> 'a store result" where
  "assign trivial p i x h = rbind (get_slot p i h) (\<lambda>s.
     check Undefined (trivial \<or> s \<noteq> None) (set_slot p i (Some x) h))"

section \<open>Vector\<close>

record Vector =
  elem :: ptr
  sz :: int
  cap :: int

definition upto_int :: "int \<Rightarrow> int list" where "upto_int n = map int [0..<nat n]"

definition construct_each :: "ptr \<Rightarrow> 'a list \<Rightarrow> 'a store \<Rightarrow> 'a store result" where
  "construct_each p xs h = rfoldM (\<lambda>h (i, x). alloc_construct p (int i) x h) h (enumerate 0 xs)"

definition construct_from :: "ptr \<Rightarrow> ptr \<Rightarrow> int \<Rightarrow> 'a store \<Rightarrow> 'a store result" where
  "construct_from p q n h = rfoldM (\<lambda>h i. rbind (load q i h) (\<lambda>x. alloc_construct p i x h)) h (upto_int n)"

definition destroy_all :: "Vector \<Rightarrow> 'a store \<Rightarrow> 'a store result" where
  "destroy_all v h = rfoldM (\<lambda>h i. alloc_destroy (elem v) i h) h (upto_int (sz v))"

definition Vector_default :: "nat \<Rightarrow> 'a store \<Rightarrow> (Vector \<times> 'a store) result" where
  "Vector_default sizeof_T h = rbind (alloc_allocate sizeof_T 0 h) (\<lambda>(p, h). Inr (\<lparr> elem = p, sz = 0, cap = 0 \<rparr>, h))"

definition Vector_sized :: "nat \<Rightarrow> 'a \<Rightarrow> int \<Rightarrow> 'a store \<Rightarrow> (Vector \<times> 'a store) result" where
  "Vector_sized sizeof_T dflt n h = (if n < 0 then Inl StdLengthError
     else rbind (alloc_allocate sizeof_T (size_t_of n) h) (\<lambda>(p, h).
       rbind (construct_each p (replicate (nat n) dflt) h) (\<lambda>h. Inr (\<lparr> elem = p, sz = n, cap = n \<rparr>, h))))"

definition Vector_list :: "nat \<Rightarrow> 'a list \<Rightarrow> 'a store \<Rightarrow> (Vector \<times> 'a store) result" where
  "Vector_list sizeof_T lst h = (let n = static_cast I32 (int (length lst)) in
     rbind (alloc_allocate sizeof_T (size_t_of n) h) (\<lambda>(p, h).
       rbind (construct_each p lst h) (\<lambda>h. Inr (\<lparr> elem = p, sz = n, cap = n \<rparr>, h))))"

definition Vector_copy :: "nat \<Rightarrow> Vector \<Rightarrow> 'a store \<Rightarrow> (Vector \<times> 'a store) result" where
  "Vector_copy sizeof_T other h = (let n = sz other in
     rbind (alloc_allocate sizeof_T (size_t_of n) h) (\<lambda>(p, h).
       rbind (construct_from p (elem other) n h) (\<lambda>h. Inr (\<lparr> elem = p, sz = n, cap = n \<rparr>, h))))"

definition Vector_dtor :: "Vector \<Rightarrow> 'a store \<Rightarrow> 'a store result" where
  "Vector_dtor v h = rbind (destroy_all v h) (\<lambda>h. alloc_deallocate (elem v) h)"

text \<open>Copy assignment.  The old elements are gone when the allocation throws, so the vector and the
  store it leaves are returned next to the outcome.\<close>

definition Vector_assign :: "nat \<Rightarrow> Vector \<Rightarrow> Vector \<Rightarrow> bool \<Rightarrow> 'a store \<Rightarrow> (Vector \<times> 'a store) \<times> unit result" where
  "Vector_assign sizeof_T v other same h = (if same then ((v, h), Inr ()) else
     (case Vector_dtor v h of Inl e \<Rightarrow> ((v, h), Inl e)
      | Inr h \<Rightarrow> let v = v \<lparr> sz := sz other, cap := cap other \<rparr> in
         (case alloc_allocate sizeof_T (size_t_of (cap v)) h of Inl e \<Rightarrow> ((v, h), Inl e)
          | Inr (p, h) \<Rightarrow> let v = v \<lparr> elem := p \<rparr> in
             (case construct_from p (elem other) (sz v) h of Inl e \<Rightarrow> ((v, h), Inl e)
              | Inr h \<Rightarrow> ((v, h), Inr ())))))"

text \<open>Moves: the new vector and what becomes of \<open>other\<close>.\<close>

definition Vector_moved_from :: Vector where "Vector_moved_from = \<lparr> elem = None, sz = 0, cap = 0 \<rparr>"

definition Vector_move :: "Vector \<Rightarrow> Vector \<times> Vector" where
  "Vector_move other = (\<lparr> elem = elem other, sz = sz other, cap = cap other \<rparr>, Vector_moved_from)"

definition Vector_move_assign :: "Vector \<Rightarrow> Vector \<Rightarrow> bool \<Rightarrow> 'a store \<Rightarrow> (Vector \<times> Vector \<times> 'a store) result" where
  "Vector_move_assign v other same h = (if same then Inr (v, v, h) else
     rbind (Vector_dtor v h) (\<lambda>h.
       Inr (\<lparr> elem = elem other, sz = sz other, cap = cap other \<rparr>, Vector_moved_from, h)))"

text \<open>\<open>operator[]\<close> yields a reference.\<close>

definition Vector_index :: "Vector \<Rightarrow> int \<Rightarrow> 'a arg result" where
  "Vector_index v i = (if i < 0 \<or> i \<ge> sz v then Inl StdOutOfRange else Inr (Slot (elem v) i))"

definition Vector_reserve :: "nat \<Rightarrow> Vector \<Rightarrow> int \<Rightarrow> 'a store \<Rightarrow> (Vector \<times> 'a store) result" where
  "Vector_reserve sizeof_T v new_cap h = (if new_cap \<le> cap v then Inr (v, h) else
     rbind (alloc_allocate sizeof_T (size_t_of new_cap) h) (\<lambda>(p, h).
       rbind (rfoldM (\<lambda>h i. rbind (load (elem v) i h) (\<lambda>x. rbind (alloc_construct p i x h) (\<lambda>h.
           alloc_destroy (elem v) i h))) h (upto_int (sz v))) (\<lambda>h.
         rbind (alloc_deallocate (elem v) h) (\<lambda>h. Inr (v \<lparr> elem := p, cap := new_cap \<rparr>, h)))))"

definition Vector_push_back :: "bool \<Rightarrow> nat \<Rightarrow> Vector \<Rightarrow> 'a arg \<Rightarrow> 'a store \<Rightarrow> (Vector \<times> 'a store) result" where
  "Vector_push_back trivial sizeof_T v arg h =
     rbind (if sz v = cap v
       then (if cap v = 0 then Vector_reserve sizeof_T v 1 h
             else check Undefined (in_range I32 (cap v * 2)) (Vector_reserve sizeof_T v (cap v * 2) h))
       else Inr (v, h)) (\<lambda>(v, h).
     rbind (load_arg arg h) (\<lambda>x. rbind (assign trivial (elem v) (sz v) x h) (\<lambda>h.
       Inr (v \<lparr> sz := sz v + 1 \<rparr>, h))))"

text \<open>The range \<open>begin() .. end()\<close>, \<open>operator<<\<close> (through \<open>operator[]\<close>), \<open>print\<close> and \<open>sum\<close>.\<close>

definition Vector_range :: "Vector \<Rightarrow> 'a store \<Rightarrow> 'a list result" where
  "Vector_range v h = rmapM (\<lambda>i. load (elem v) i h) (upto_int (sz v))"

definition Vector_stream :: "('a \<Rightarrow> string) \<Rightarrow> Vector \<Rightarrow> 'a store \<Rightarrow> string result" where
  "Vector_stream show v h = rbind (rfoldM (\<lambda>os i. rbind (Vector_index v i) (\<lambda>r. rbind (load_arg r h) (\<lambda>x.
     Inr (os @ show x @ (if i + 1 < sz v then '', '' else []))))) ''{ '' (upto_int (sz v))) (\<lambda>os. Inr (os @ '' }''))"

definition Vector_print :: "('a \<Rightarrow> string) \<Rightarrow> Vector \<Rightarrow> 'a store \<Rightarrow> string result" where
  "Vector_print show v h = rbind (Vector_range v h) (\<lambda>xs. Inr (concat (map (\<lambda>x. show x @ [CHR 0x0A]) xs)))"

definition Vector_sum :: "('v \<Rightarrow> 'a \<Rightarrow> 'v result) \<Rightarrow> Vector \<Rightarrow> 'v \<Rightarrow> 'a store \<Rightarrow> 'v result" where
  "Vector_sum add v init h = rbind (Vector_range v h) (\<lambda>xs. rfoldM add init xs)"

section \<open>Arena\<close>

text \<open>The arena's buffer of \<open>N\<close> bytes at address \<open>base\<close>; \<open>next\<close> is an address too.  Addresses and
  sizes are 64-bit words, whose arithmetic wraps around.\<close>

record Arena =
  arena_base :: "64 word"
  arena_N :: "64 word"
  arena_next :: "64 word"

definition Arena_ctor :: "64 word \<Rightarrow> 64 word \<Rightarrow> Arena" where
  "Arena_ctor base n = \<lparr> arena_base = base, arena_N = n, arena_next = base \<rparr>"

definition is_aligned :: "64 word \<Rightarrow> 64 word \<Rightarrow> bool" where "is_aligned p n \<longleftrightarrow> p mod n = 0"

definition arena_used :: "Arena \<Rightarrow> 64 word" where "arena_used a = arena_next a - arena_base a"

definition align_up :: "64 word \<Rightarrow> 64 word \<Rightarrow> 64 word" where
  "align_up p alignment = (if p mod alignment = 0 then p else p + alignment - p mod alignment)"

definition Arena_allocate :: "Arena \<Rightarrow> 64 word \<Rightarrow> 64 word \<Rightarrow> (64 word \<times> Arena) result" where
  "Arena_allocate a n alignment = check Undefined (alignment \<noteq> 0)
     (let current_addr = arena_next a;
          aligned_addr = align_up current_addr alignment;
          padding = aligned_addr - current_addr;
          total_needed = n + padding;
          bytes_free = arena_N a - arena_used a
      in if bytes_free \<ge> total_needed
         then Inr (arena_next a + padding, a \<lparr> arena_next := arena_next a + total_needed \<rparr>)
         else Inl StdBadAlloc)"

definition Arena_deallocate :: "Arena \<Rightarrow> Arena" where "Arena_deallocate a = a"

text \<open>The arena's own \<open>CustomAllocator<T, N>\<close>.\<close>

definition ArenaAllocator_allocate :: "64 word \<Rightarrow> 64 word \<Rightarrow> Arena \<Rightarrow> 64 word \<Rightarrow> (64 word \<times> Arena) result" where
  "ArenaAllocator_allocate sizeof_T alignof_T a n = Arena_allocate a (n * sizeof_T) alignof_T"

definition ArenaAllocator_deallocate :: "Arena \<Rightarrow> Arena" where "ArenaAllocator_deallocate a = Arena_deallocate a"

definition ArenaAllocator_max_size :: "64 word \<Rightarrow> 64 word" where "ArenaAllocator_max_size sizeof_T = - 1 div sizeof_T"

section \<open>Blocks of the store\<close>

abbreviation put :: "'a store \<Rightarrow> nat \<Rightarrow> 'a option list \<Rightarrow> 'a store" where
  "put h b blk \<equiv> h \<lparr> blocks := (blocks h)(b \<mapsto> blk) \<rparr>"

text \<open>The block of a vector with elements \<open>xs\<close> and \<open>n\<close> slots: live objects, then raw memory.\<close>

definition filled :: "'a list \<Rightarrow> nat \<Rightarrow> 'a option list" where
  "filled xs n = map Some xs @ replicate (n - length xs) None"

lemma set_slot_put: "blocks h b = Some blk \<Longrightarrow> i < length blk \<Longrightarrow> set_slot (Some b) (int i) x h = Inr (put h b (blk[i := x]))"
  by (simp add: set_slot_def)

lemma load_block: "blocks h b = Some blk \<Longrightarrow> i < length blk \<Longrightarrow> blk ! i = Some x \<Longrightarrow> load (Some b) (int i) h = Inr x"
  by (simp add: load_def get_slot_def)

lemma put_put: "put (put h b blk) b blk' = put h b blk'"
  by simp

lemma put_self: "blocks h b = Some blk \<Longrightarrow> put h b blk = h"
  by (simp add: map_upd_triv)

lemma put_commute: "b \<noteq> c \<Longrightarrow> put (put h b blk) c blk' = put (put h c blk') b blk"
  by (simp add: fun_upd_twist)

lemma fill_step:
  assumes "k < length xs" "length xs \<le> length blk"
  shows "(map Some (take k xs) @ drop k blk)[k := Some (xs ! k)] = map Some (take (Suc k) xs) @ drop (Suc k) blk"
  using assms by (simp add: list_update_append take_Suc_conv_app_nth Cons_nth_drop_Suc [symmetric])

lemma clear_step:
  assumes "k < length ys"
  shows "(replicate k None @ drop k ys @ r)[k := None] = replicate (Suc k) None @ drop (Suc k) ys @ r"
  using assms by (simp add: list_update_append Cons_nth_drop_Suc [symmetric] replicate_app_Cons_same)

lemma upto_int_Suc: "upto_int (int (Suc n)) = upto_int (int n) @ [int n]"
  by (simp add: upto_int_def del: of_nat_Suc)

lemma rfoldM_upto:
  assumes "\<And>k. k < n \<Longrightarrow> f (g k) (int k) = Inr (g (Suc k))"
  shows "rfoldM f (g 0) (upto_int (int n)) = Inr (g n)"
  using assms
proof (induction n)
  case (Suc n)
  then show ?case by (simp add: upto_int_Suc rfoldM_append del: of_nat_Suc)
qed (simp add: upto_int_def)

lemma rfoldM_upto_eq:
  assumes "n = int m" "h = g 0" "\<And>k. k < m \<Longrightarrow> f (g k) (int k) = Inr (g (Suc k))"
  shows "rfoldM f h (upto_int n) = Inr (g m)"
  using rfoldM_upto [of m f g] assms by simp

lemma enumerate_upto: "enumerate 0 xs = map (\<lambda>k. (k, xs ! k)) [0..<length xs]"
  by (rule nth_equalityI) (simp_all add: nth_enumerate_eq)

lemma rfoldM_map: "rfoldM f s (map g xs) = rfoldM (\<lambda>s x. f s (g x)) s xs"
  by (induction xs arbitrary: s) simp_all

lemma construct_each_put:
  assumes "blocks h b = Some blk" "length xs \<le> length blk"
  shows "construct_each (Some b) xs h = Inr (put h b (map Some xs @ drop (length xs) blk))"
proof -
  have "construct_each (Some b) xs h = rfoldM (\<lambda>h i. alloc_construct (Some b) i (xs ! nat i) h) h (upto_int (int (length xs)))"
    by (simp add: construct_each_def enumerate_upto upto_int_def rfoldM_map)
  also have "\<dots> = Inr (put h b (map Some (take (length xs) xs) @ drop (length xs) blk))"
    by (rule rfoldM_upto_eq [where g = "\<lambda>k. put h b (map Some (take k xs) @ drop k blk)"])
      (use assms in \<open>auto simp: alloc_construct_def set_slot_put fill_step put_self\<close>)
  finally show ?thesis by simp
qed

lemma construct_from_put:
  assumes "blocks h b = Some blk" "blocks h c = Some (map Some xs @ r)" "b \<noteq> c" "length xs \<le> length blk" "n = int (length xs)"
  shows "construct_from (Some b) (Some c) n h = Inr (put h b (map Some xs @ drop (length xs) blk))"
proof -
  have "construct_from (Some b) (Some c) n h = Inr (put h b (map Some (take (length xs) xs) @ drop (length xs) blk))"
    unfolding construct_from_def
    by (rule rfoldM_upto_eq [where g = "\<lambda>k. put h b (map Some (take k xs) @ drop k blk)"])
      (use assms in \<open>auto simp: alloc_construct_def set_slot_put fill_step put_self load_block [where x = "xs ! k" for k] nth_append\<close>)
  then show ?thesis by simp
qed

lemma destroy_put:
  assumes "blocks h b = Some blk" "k < length blk" "blk ! k \<noteq> None"
  shows "alloc_destroy (Some b) (int k) h = Inr (put h b (blk[k := None]))"
  using assms by (auto simp: alloc_destroy_def load_block set_slot_put)

lemma destroy_all_put:
  assumes "blocks h b = Some (map Some xs @ r)" "elem v = Some b" "sz v = int (length xs)"
  shows "destroy_all v h = Inr (put h b (replicate (length xs) None @ r))"
proof -
  have "destroy_all v h = Inr (put h b (replicate (length xs) None @ drop (length xs) (map Some xs) @ r))"
    unfolding destroy_all_def assms(2)
    by (rule rfoldM_upto_eq [where g = "\<lambda>k. put h b (replicate k None @ drop k (map Some xs) @ r)"])
      (use assms in \<open>auto simp: destroy_put nth_append clear_step put_self simp del: replicate.simps\<close>)
  then show ?thesis by simp
qed

section \<open>A vector represents a list\<close>

definition vec_rep :: "'a store \<Rightarrow> Vector \<Rightarrow> 'a list \<Rightarrow> bool" where
  "vec_rep h v xs \<longleftrightarrow> sz v = int (length xs) \<and> sz v \<le> cap v \<and> cap v < 2 ^ 31 \<and> (case elem v of
     None \<Rightarrow> cap v = 0
   | Some b \<Rightarrow> 0 < cap v \<and> b < next_block h \<and> blocks h b = Some (filled xs (nat (cap v))))"

definition store_ok :: "'a store \<Rightarrow> bool" where
  "store_ok h \<longleftrightarrow> (\<forall>b \<ge> next_block h. blocks h b = None) \<and> new_limit h < 2 ^ 64"

text \<open>What an operation on a vector leaves alone: every block that is not the vector's own.\<close>

definition frame :: "ptr \<Rightarrow> 'a store \<Rightarrow> 'a store \<Rightarrow> bool" where
  "frame p h h' \<longleftrightarrow> (\<forall>c < next_block h. Some c \<noteq> p \<longrightarrow> blocks h' c = blocks h c) \<and>
     next_block h \<le> next_block h' \<and> new_limit h' = new_limit h"

text \<open>The store with a new block for \<open>n\<close> slots.\<close>

definition grown :: "'a store \<Rightarrow> nat \<Rightarrow> 'a store" where
  "grown h n = (put h (next_block h) (replicate n None)) \<lparr> next_block := next_block h + 1 \<rparr>"

lemma vec_rep_block: "vec_rep h v xs \<Longrightarrow> elem v = Some b \<Longrightarrow> blocks h b = Some (map Some xs @ replicate (nat (cap v) - length xs) None)"
  by (simp add: vec_rep_def filled_def)

lemma vec_rep_nonempty: "vec_rep h v xs \<Longrightarrow> cap v \<noteq> 0 \<Longrightarrow> \<exists>b. elem v = Some b \<and> b < next_block h"
  by (auto simp: vec_rep_def split: option.splits)

lemma vec_rep_None: "vec_rep h v xs \<Longrightarrow> elem v = None \<Longrightarrow> xs = [] \<and> cap v = 0 \<and> sz v = 0"
  by (auto simp: vec_rep_def)

lemma vec_rep_frame:
  assumes "vec_rep h v xs" "frame p h h'" "elem v \<noteq> p \<or> p = None" shows "vec_rep h' v xs"
  using assms by (auto simp: vec_rep_def frame_def split: option.splits)

lemma frame_refl [simp]: "frame p h h" by (simp add: frame_def)

lemma frame_trans: "frame p h h' \<Longrightarrow> frame q h' h'' \<Longrightarrow> q = p \<or> (\<exists>b. q = Some b \<and> b \<ge> next_block h) \<Longrightarrow> frame p h h''"
  unfolding frame_def by (metis (no_types, lifting) le_trans linorder_not_less option.inject order_less_le_trans)

lemma size_t_of_int: "0 \<le> n \<Longrightarrow> n < 2 ^ 31 \<Longrightarrow> size_t_of n = nat n"
  by (simp add: size_t_of_def)

lemma allocate_grown:
  assumes "store_ok h" "0 < n" "0 < sizeof_T" "sizeof_T * n \<le> new_limit h"
  shows "alloc_allocate sizeof_T n h = Inr (Some (next_block h), grown h n)"
proof -
  have "n * sizeof_T \<le> 2 ^ 64 - 1" using assms by (simp add: store_ok_def mult.commute)
  then have "n * sizeof_T div sizeof_T \<le> (2 ^ 64 - 1) div sizeof_T" by (rule div_le_mono)
  then have "n \<le> max_size sizeof_T" using assms(3) by (simp add: max_size_def)
  then show ?thesis using assms by (simp add: alloc_allocate_def operator_new_def grown_def)
qed

lemma grown_sel [simp]:
  "blocks (grown h n) (next_block h) = Some (replicate n None)" "next_block (grown h n) = next_block h + 1"
  "new_limit (grown h n) = new_limit h" "b \<noteq> next_block h \<Longrightarrow> blocks (grown h n) b = blocks h b"
  by (simp_all add: grown_def)

lemma reserve_loop:
  assumes "blocks h b = Some (map Some xs @ r)" "b < next_block h" "length xs \<le> n"
  shows "rfoldM (\<lambda>h' i. rbind (load (Some b) i h') (\<lambda>x. rbind (alloc_construct (Some (next_block h)) i x h') (\<lambda>h'.
      alloc_destroy (Some b) i h'))) (grown h n) (upto_int (int (length xs))) =
    Inr (put (put (grown h n) (next_block h) (filled xs n)) b (replicate (length xs) None @ r))"
proof -
  let ?c = "next_block h"
  let ?g = "\<lambda>k. put (put (grown h n) ?c (map Some (take k xs) @ drop k (replicate n None))) b (replicate k None @ drop k (map Some xs) @ r)"
  have bc: "b \<noteq> ?c" using assms(2) by simp
  have "?g 0 = grown h n" using assms bc by (simp add: put_self)
  then have 0: "grown h n = ?g 0" by (rule sym)
  have step: "rbind (load (Some b) (int k) (?g k)) (\<lambda>x. rbind (alloc_construct (Some ?c) (int k) x (?g k)) (\<lambda>h'.
      alloc_destroy (Some b) (int k) h')) = Inr (?g (Suc k))" if "k < length xs" for k
  proof -
    have l: "load (Some b) (int k) (?g k) = Inr (xs ! k)"
      using that by (intro load_block) (auto simp: nth_append)
    have "alloc_construct (Some ?c) (int k) (xs ! k) (?g k) =
        Inr (put (?g k) ?c ((map Some (take k xs) @ drop k (replicate n None))[k := Some (xs ! k)]))"
      using that bc assms(3) unfolding alloc_construct_def by (intro set_slot_put) auto
    also have "\<dots> = Inr (put (?g k) ?c (map Some (take (Suc k) xs) @ drop (Suc k) (replicate n None)))"
      using that assms(3) by (subst fill_step) auto
    finally have c: "alloc_construct (Some ?c) (int k) (xs ! k) (?g k) =
        Inr (put (?g k) ?c (map Some (take (Suc k) xs) @ drop (Suc k) (replicate n None)))" .
    have "alloc_destroy (Some b) (int k) (put (?g k) ?c (map Some (take (Suc k) xs) @ drop (Suc k) (replicate n None))) =
        Inr (put (put (?g k) ?c (map Some (take (Suc k) xs) @ drop (Suc k) (replicate n None))) b
          ((replicate k None @ drop k (map Some xs) @ r)[k := None]))"
      using that bc by (intro destroy_put) (auto simp: nth_append)
    also have "\<dots> = Inr (?g (Suc k))" using bc that
      by (simp only: clear_step length_map) (simp add: fun_upd_twist)
    finally show ?thesis using l c by simp
  qed
  have "rfoldM (\<lambda>h' i. rbind (load (Some b) i h') (\<lambda>x. rbind (alloc_construct (Some ?c) i x h') (\<lambda>h'.
      alloc_destroy (Some b) i h'))) (grown h n) (upto_int (int (length xs))) = Inr (?g (length xs))"
    by (rule rfoldM_upto_eq [where g = ?g, OF refl 0 step])
  then show ?thesis by (simp add: filled_def)
qed

lemma store_ok_grown: "store_ok h \<Longrightarrow> store_ok (grown h n)"
  by (simp add: store_ok_def grown_def)

text \<open>\<open>reserve\<close> moves the elements into a larger block and gives the old one back.\<close>

lemma Vector_reserve_grows:
  assumes rep: "vec_rep h v xs" and ok: "store_ok h" and n: "cap v < n" "n < 2 ^ 31"
    and room: "0 < sizeof_T" "sizeof_T * nat n \<le> new_limit h"
  shows "\<exists>v' h'. Vector_reserve sizeof_T v n h = Inr (v', h') \<and> vec_rep h' v' xs \<and> store_ok h' \<and> frame (elem v) h h' \<and>
    sz v' = sz v \<and> cap v' = n \<and> elem v' = Some (next_block h) \<and> (\<forall>b. elem v = Some b \<longrightarrow> blocks h' b = None)"
proof -
  let ?v' = "v \<lparr> elem := Some (next_block h), cap := n \<rparr>" and ?n = "nat n"
  have len: "sz v = int (length xs)" "length xs \<le> ?n" "0 \<le> cap v" using rep n by (auto simp: vec_rep_def)
  have alloc: "alloc_allocate sizeof_T (size_t_of n) h = Inr (Some (next_block h), grown h ?n)"
    using ok n len(3) room by (simp add: size_t_of_int allocate_grown)
  show ?thesis
  proof (cases "elem v")
    case None
    then have xs: "xs = []" "sz v = 0" using vec_rep_None [OF rep] by simp_all
    then have "Vector_reserve sizeof_T v n h = Inr (?v', grown h ?n)"
      using alloc n None by (simp add: Vector_reserve_def upto_int_def alloc_deallocate_def)
    moreover have "vec_rep (grown h ?n) ?v' xs" using xs n len(3) by (simp add: vec_rep_def filled_def)
    ultimately show ?thesis using store_ok_grown [OF ok] None by (auto simp: frame_def)
  next
    case (Some b)
    then have b: "blocks h b = Some (map Some xs @ replicate (nat (cap v) - length xs) None)" "b < next_block h"
      using vec_rep_block [OF rep] rep by (auto simp: vec_rep_def)
    let ?h1 = "put (put (grown h ?n) (next_block h) (filled xs ?n)) b (replicate (length xs) None @ replicate (nat (cap v) - length xs) None)"
    let ?h2 = "?h1 \<lparr> blocks := (blocks ?h1)(b := None) \<rparr>"
    have "Vector_reserve sizeof_T v n h = Inr (?v', ?h2)"
      using alloc n reserve_loop [OF b len(2)] by (simp add: Vector_reserve_def Some len(1) alloc_deallocate_def)
    moreover have "vec_rep ?h2 ?v' xs" using b(2) n len by (simp add: vec_rep_def)
    moreover have "store_ok ?h2" using store_ok_grown [OF ok, of ?n] b(2) by (simp add: store_ok_def)
    moreover have "frame (elem v) h ?h2" using b(2) Some by (simp add: frame_def)
    ultimately show ?thesis using Some by auto
  qed
qed

text \<open>The last step of \<open>push_back\<close>: there is a free slot.\<close>

lemma filled_snoc:
  "length xs < n \<Longrightarrow> (filled xs n)[length xs := Some x] = filled (xs @ [x]) n"
  by (simp add: filled_def list_update_append Suc_diff_Suc [symmetric])

lemma push_free_slot:
  assumes rep: "vec_rep h v xs" and ok: "store_ok h" and free: "sz v < cap v"
  shows "\<exists>h'. assign True (elem v) (sz v) x h = Inr h' \<and> vec_rep h' (v \<lparr> sz := sz v + 1 \<rparr>) (xs @ [x]) \<and> store_ok h' \<and> frame (elem v) h h'"
proof -
  have len: "sz v = int (length xs)" "length xs < nat (cap v)" "cap v < 2 ^ 31" using rep free by (auto simp: vec_rep_def)
  obtain b where b: "elem v = Some b" "b < next_block h" using vec_rep_nonempty [OF rep] free len(1) by auto
  have blk: "blocks h b = Some (filled xs (nat (cap v)))" using rep b by (simp add: vec_rep_def)
  let ?h' = "put h b (filled (xs @ [x]) (nat (cap v)))"
  have l: "length xs < length (filled xs (nat (cap v)))" using len(2) by (simp add: filled_def)
  have "assign True (elem v) (sz v) x h = Inr ?h'"
    using set_slot_put [OF blk l] l blk b(1) len(1,2) by (simp add: assign_def get_slot_def filled_snoc)
  moreover have "vec_rep ?h' (v \<lparr> sz := sz v + 1 \<rparr>) (xs @ [x])" using b len free by (simp add: vec_rep_def)
  moreover have "store_ok ?h'" using ok b(2) by (simp add: store_ok_def)
  moreover have "frame (elem v) h ?h'" using b by (simp add: frame_def)
  ultimately show ?thesis by blast
qed

lemma frame_other: "frame p h h' \<Longrightarrow> vec_rep h w ys \<Longrightarrow> elem w = None \<or> elem w \<noteq> p \<Longrightarrow> vec_rep h' w ys"
  by (auto simp: vec_rep_def frame_def split: option.splits)

lemma push_back_room:
  assumes rep: "vec_rep h v xs" and ok: "store_ok h" and len: "length xs < 2 ^ 30"
    and room: "0 < sizeof_T" "sizeof_T * (2 * length xs + 1) \<le> new_limit h"
  shows "\<exists>v' h'. (if sz v = cap v
      then (if cap v = 0 then Vector_reserve sizeof_T v 1 h
            else check Undefined (in_range I32 (cap v * 2)) (Vector_reserve sizeof_T v (cap v * 2) h))
      else Inr (v, h)) = Inr (v', h') \<and> vec_rep h' v' xs \<and> store_ok h' \<and> frame (elem v) h h' \<and> sz v' = sz v \<and>
    sz v' < cap v' \<and> (elem v' = elem v \<or> elem v' = Some (next_block h)) \<and>
    cap v' = (if sz v < cap v then cap v else if cap v = 0 then 1 else 2 * cap v)"
proof (cases "sz v = cap v")
  case True
  let ?n = "if cap v = 0 then 1 else cap v * 2"
  have c: "cap v = int (length xs)" using rep True by (simp add: vec_rep_def)
  have n: "cap v < ?n" "?n < 2 ^ 31" "in_range I32 ?n" "nat ?n \<le> 2 * length xs + 1"
    using c len by (auto simp: in_range_def)
  have "sizeof_T * nat ?n \<le> new_limit h" using mult_le_mono2 [OF n(4), of sizeof_T] room(2) by simp
  from Vector_reserve_grows [OF rep ok n(1,2) room(1) this]
  obtain v' h' where r: "Vector_reserve sizeof_T v ?n h = Inr (v', h')" "vec_rep h' v' xs" "store_ok h'" "frame (elem v) h h'"
    "sz v' = sz v" "cap v' = ?n" "elem v' = Some (next_block h)" by blast
  then show ?thesis using True n by (cases "cap v = 0") auto
qed (use rep ok in \<open>auto simp: vec_rep_def\<close>)

lemma frame_then:
  assumes "frame (elem v) h h1" "frame (elem v1) h1 h'" "elem v1 = elem v \<or> elem v1 = Some (next_block h)"
  shows "frame (elem v) h h'"
  using frame_trans [OF assms(1,2)] assms(3) by auto

lemma Vector_push_back_appends_aux:
  assumes "vec_rep h v xs" "store_ok h" "length xs < 2 ^ 30" "0 < sizeof_T" "sizeof_T * (2 * length xs + 1) \<le> new_limit h"
  shows "\<exists>v' h'. Vector_push_back True sizeof_T v (Temp x) h = Inr (v', h') \<and> vec_rep h' v' (xs @ [x]) \<and> store_ok h' \<and>
    frame (elem v) h h' \<and> cap v' = (if sz v < cap v then cap v else if cap v = 0 then 1 else 2 * cap v) \<and>
    (elem v' = elem v \<or> elem v' = Some (next_block h))"
proof -
  obtain v1 h1 where 1: "(if sz v = cap v
      then (if cap v = 0 then Vector_reserve sizeof_T v 1 h
            else check Undefined (in_range I32 (cap v * 2)) (Vector_reserve sizeof_T v (cap v * 2) h))
      else Inr (v, h)) = Inr (v1, h1)" "vec_rep h1 v1 xs" "store_ok h1" "frame (elem v) h h1" "sz v1 < cap v1"
    "elem v1 = elem v \<or> elem v1 = Some (next_block h)"
    "cap v1 = (if sz v < cap v then cap v else if cap v = 0 then 1 else 2 * cap v)"
    using push_back_room [OF assms] by blast
  obtain h' where 2: "assign True (elem v1) (sz v1) x h1 = Inr h'" "vec_rep h' (v1 \<lparr> sz := sz v1 + 1 \<rparr>) (xs @ [x])"
    "store_ok h'" "frame (elem v1) h1 h'" using push_free_slot [OF 1(2,3,5)] by blast
  have "Vector_push_back True sizeof_T v (Temp x) h = Inr (v1 \<lparr> sz := sz v1 + 1 \<rparr>, h')"
    unfolding Vector_push_back_def 1(1) by (simp add: 2(1))
  then show ?thesis using 1(6,7) 2(2,3) frame_then [OF 1(4) 2(4) 1(6)] by auto
qed

text \<open>\<open>push_back\<close> of a value appends it: the vector afterwards holds the old elements and the new one,
  in a block that has doubled when it was full, every other vector of the store keeps its elements, and
  the memory the vector no longer uses is given back.\<close>

theorem Vector_push_back_appends:
  assumes "vec_rep h v xs" "store_ok h" "length xs < 2 ^ 30" "0 < sizeof_T" "sizeof_T * (2 * length xs + 1) \<le> new_limit h"
    and "vec_rep h w ys" "elem w = None \<or> elem w \<noteq> elem v"
  shows "\<exists>v' h'. Vector_push_back True sizeof_T v (Temp x) h = Inr (v', h') \<and> vec_rep h' v' (xs @ [x]) \<and> store_ok h' \<and>
    vec_rep h' w ys \<and> (elem w = None \<or> elem w \<noteq> elem v') \<and>
    cap v' = (if sz v < cap v then cap v else if cap v = 0 then 1 else 2 * cap v)"
proof -
  obtain v' h' where r: "Vector_push_back True sizeof_T v (Temp x) h = Inr (v', h')" "vec_rep h' v' (xs @ [x])" "store_ok h'"
    "frame (elem v) h h'" "cap v' = (if sz v < cap v then cap v else if cap v = 0 then 1 else 2 * cap v)"
    "elem v' = elem v \<or> elem v' = Some (next_block h)"
    using Vector_push_back_appends_aux [OF assms(1-5)] by blast
  have "elem w = None \<or> elem w \<noteq> elem v'" using r(6) assms(6,7) by (auto simp: vec_rep_def split: option.splits)
  then show ?thesis using r frame_other [OF r(4) assms(6,7)] by blast
qed

definition empty_store :: "nat \<Rightarrow> 'a store" where
  "empty_store lim = \<lparr> blocks = (\<lambda>_. None), next_block = 0, new_limit = lim \<rparr>"

lemma empty_store_ok: "lim < 2 ^ 64 \<Longrightarrow> store_ok (empty_store lim)"
  by (simp add: store_ok_def empty_store_def)

lemma moved_from_rep: "vec_rep h Vector_moved_from []"
  by (simp add: vec_rep_def Vector_moved_from_def)

theorem Vector_push_back_appends_witness:
  "\<exists>v' h'. Vector_push_back True 4 Vector_moved_from (Temp (7::nat)) (empty_store 1000) = Inr (v', h') \<and> vec_rep h' v' [7]"
proof -
  have "store_ok (empty_store 1000 :: nat store)" "length [] < 2 ^ 30" "(0::nat) < 4"
    "4 * (2 * length [] + 1) \<le> new_limit (empty_store 1000 :: nat store)"
    by (simp_all add: empty_store_ok) (simp add: empty_store_def)
  from Vector_push_back_appends [OF moved_from_rep this moved_from_rep, of 7]
  show ?thesis by (auto simp: Vector_moved_from_def)
qed

text \<open>C37: \<open>push_back\<close> of an element of the vector itself is undefined when the vector is full: the argument
  refers into the block that \<open>reserve\<close> has given back before the element is read.\<close>

theorem Vector_push_back_own_element:
  assumes "vec_rep h v xs" "store_ok h" "length xs < 2 ^ 30" "0 < sizeof_T" "sizeof_T * (2 * length xs + 1) \<le> new_limit h"
    and "sz v = cap v" "0 \<le> i" "i < sz v"
  shows "Vector_index v i = Inr (Slot (elem v) i) \<and> Vector_push_back trivial sizeof_T v (Slot (elem v) i) h = Inl Undefined"
proof -
  have c: "cap v = int (length xs)" "cap v \<noteq> 0" using assms by (auto simp: vec_rep_def)
  then have n: "cap v < cap v * 2" "cap v * 2 < 2 ^ 31" "in_range I32 (cap v * 2)" "nat (cap v * 2) \<le> 2 * length xs + 1"
    using assms(3,7,8) by (auto simp: in_range_def)
  have "sizeof_T * nat (cap v * 2) \<le> new_limit h" using mult_le_mono2 [OF n(4), of sizeof_T] assms(5) by simp
  from Vector_reserve_grows [OF assms(1,2) n(1,2) assms(4) this]
  obtain v' h' where r: "Vector_reserve sizeof_T v (cap v * 2) h = Inr (v', h')" "\<forall>b. elem v = Some b \<longrightarrow> blocks h' b = None"
    by blast
  obtain b where "elem v = Some b" using vec_rep_nonempty [OF assms(1) c(2)] by blast
  then have "load (elem v) i h' = Inl Undefined" using r(2) by (simp add: load_def get_slot_def)
  then have "Vector_push_back trivial sizeof_T v (Slot (elem v) i) h = Inl Undefined"
    using r(1) n(3) c(2) assms(6) by (simp add: Vector_push_back_def)
  moreover have "Vector_index v i = Inr (Slot (elem v) i)" using assms(7,8) by (simp add: Vector_index_def)
  ultimately show ?thesis by blast
qed

lemma filled_full: "filled xs (length xs) = map Some xs"
  by (simp add: filled_def)

text \<open>The constructor from an initializer list, and deep copies.\<close>

lemma Vector_list_rep:
  assumes "store_ok h" "length xs < 2 ^ 31" "0 < sizeof_T" "sizeof_T * length xs \<le> new_limit h"
  shows "\<exists>v h'. Vector_list sizeof_T xs h = Inr (v, h') \<and> vec_rep h' v xs \<and> store_ok h' \<and> frame None h h' \<and> cap v = sz v"
proof -
  have n: "static_cast I32 (int (length xs)) = int (length xs)" "size_t_of (int (length xs)) = length xs"
    using assms(2) by (simp_all add: static_cast_id in_range_def size_t_of_int)
  let ?v = "\<lambda>p. \<lparr> elem = p, sz = int (length xs), cap = int (length xs) \<rparr>"
  show ?thesis
  proof (cases "xs = []")
    case True
    then have "Vector_list sizeof_T xs h = Inr (?v None, h)"
      using n by (simp add: Vector_list_def Let_def alloc_allocate_def construct_each_def)
    then show ?thesis using True assms(1) by (auto simp: vec_rep_def)
  next
    case False
    let ?h' = "put (grown h (length xs)) (next_block h) (map Some xs)"
    have "Vector_list sizeof_T xs h = Inr (?v (Some (next_block h)), ?h')"
      using False assms construct_each_put [of "grown h (length xs)" "next_block h" "replicate (length xs) None" xs]
      by (simp add: Vector_list_def n Let_def allocate_grown)
    moreover have "vec_rep ?h' (?v (Some (next_block h))) xs" using False assms(2) by (simp add: vec_rep_def filled_full)
    moreover have "store_ok ?h'" using store_ok_grown [OF assms(1), of "length xs"] by (simp add: store_ok_def)
    ultimately show ?thesis by (auto simp: frame_def)
  qed
qed

lemma Vector_copy_rep:
  assumes "vec_rep h v xs" "store_ok h" "0 < sizeof_T" "sizeof_T * length xs \<le> new_limit h"
  shows "\<exists>w h'. Vector_copy sizeof_T v h = Inr (w, h') \<and> vec_rep h' w xs \<and> store_ok h' \<and> frame None h h' \<and>
    (elem w = None \<or> elem w = Some (next_block h))"
proof -
  have n: "sz v = int (length xs)" "size_t_of (sz v) = length xs" "length xs < 2 ^ 31"
    using assms(1) by (simp_all add: vec_rep_def size_t_of_int)
  let ?w = "\<lambda>p. \<lparr> elem = p, sz = int (length xs), cap = int (length xs) \<rparr>"
  show ?thesis
  proof (cases "xs = []")
    case True
    then have "Vector_copy sizeof_T v h = Inr (?w None, h)"
      using n by (simp add: Vector_copy_def Let_def alloc_allocate_def construct_from_def size_t_of_def upto_int_def)
    then show ?thesis using True assms(2) by (auto simp: vec_rep_def)
  next
    case False
    then have "cap v \<noteq> 0" using assms(1) by (auto simp: vec_rep_def)
    then obtain b where b: "elem v = Some b" "b < next_block h" using vec_rep_nonempty [OF assms(1)] by blast
    let ?h' = "put (grown h (length xs)) (next_block h) (map Some xs)"
    have "Vector_copy sizeof_T v h = Inr (?w (Some (next_block h)), ?h')"
      using False assms b n vec_rep_block [OF assms(1) b(1)]
        construct_from_put [of "grown h (length xs)" "next_block h" "replicate (length xs) None" b xs "replicate (nat (cap v) - length xs) None"]
      by (simp add: Vector_copy_def Let_def allocate_grown)
    moreover have "vec_rep ?h' (?w (Some (next_block h))) xs" using False n(3) by (simp add: vec_rep_def filled_full)
    moreover have "store_ok ?h'" using store_ok_grown [OF assms(2), of "length xs"] by (simp add: store_ok_def)
    ultimately show ?thesis by (auto simp: frame_def)
  qed
qed

lemma Vector_dtor_frees:
  assumes "vec_rep h v xs" "store_ok h"
  shows "\<exists>h'. Vector_dtor v h = Inr h' \<and> store_ok h' \<and> frame (elem v) h h' \<and>
    blocks h' = (case elem v of None \<Rightarrow> blocks h | Some b \<Rightarrow> (blocks h)(b := None)) \<and> next_block h' = next_block h"
proof (cases "elem v")
  case None
  then show ?thesis using vec_rep_None [OF assms(1) None] assms(2)
    by (simp add: Vector_dtor_def destroy_all_def upto_int_def alloc_deallocate_def)
next
  case (Some b)
  have "sz v = int (length xs)" using assms(1) by (simp add: vec_rep_def)
  from destroy_all_put [OF vec_rep_block [OF assms(1) Some] Some this]
  show ?thesis using assms Some by (auto simp: Vector_dtor_def alloc_deallocate_def frame_def store_ok_def)
qed

text \<open>Copying a vector is deep: original and copy hold the same elements in different blocks, so that
  destroying the original leaves the copy as it was; the destructor gives the block back.\<close>

theorem Vector_copy_deep:
  assumes "vec_rep h v xs" "store_ok h" "0 < sizeof_T" "sizeof_T * length xs \<le> new_limit h"
  shows "\<exists>w h1 h2. Vector_copy sizeof_T v h = Inr (w, h1) \<and> vec_rep h1 v xs \<and> vec_rep h1 w xs \<and>
    Vector_dtor v h1 = Inr h2 \<and> vec_rep h2 w xs \<and> (\<forall>b. elem v = Some b \<longrightarrow> blocks h2 b = None)"
proof -
  obtain w h1 where 1: "Vector_copy sizeof_T v h = Inr (w, h1)" "vec_rep h1 w xs" "store_ok h1" "frame None h h1"
    "elem w = None \<or> elem w = Some (next_block h)" using Vector_copy_rep [OF assms] by blast
  have v: "vec_rep h1 v xs" using frame_other [OF 1(4) assms(1)] by (cases "elem v") simp_all
  obtain h2 where 2: "Vector_dtor v h1 = Inr h2" "frame (elem v) h1 h2"
    "blocks h2 = (case elem v of None \<Rightarrow> blocks h1 | Some b \<Rightarrow> (blocks h1)(b := None))"
    using Vector_dtor_frees [OF v 1(3)] by blast
  have "elem w = None \<or> elem w \<noteq> elem v" using 1(5) assms(1) by (auto simp: vec_rep_def split: option.splits)
  then have "vec_rep h2 w xs" using frame_other [OF 2(2) 1(2)] by blast
  then show ?thesis using 1 2 v by auto
qed

definition ex_vec :: "Vector \<times> nat store" where
  "ex_vec = (case Vector_list 4 [10, 20, 30] (empty_store 1000) of Inr p \<Rightarrow> p | Inl e \<Rightarrow> (Vector_moved_from, empty_store 0))"

lemma ex_vec_rep: "vec_rep (snd ex_vec) (fst ex_vec) [10, 20, 30]" "store_ok (snd ex_vec)" "cap (fst ex_vec) = sz (fst ex_vec)"
  "new_limit (snd ex_vec) = 1000" "sz (fst ex_vec) = 3"
proof -
  have "new_limit (empty_store 1000 :: nat store) = 1000" by (simp add: empty_store_def)
  then obtain v h where v: "Vector_list 4 [10, 20, 30 :: nat] (empty_store 1000) = Inr (v, h)" "vec_rep h v [10, 20, 30]" "store_ok h"
    "frame None (empty_store 1000) h" "cap v = sz v" "new_limit (empty_store 1000 :: nat store) = 1000"
    using Vector_list_rep [OF empty_store_ok, of 1000 "[10, 20, 30 :: nat]" 4] by auto
  have ex: "ex_vec = (v, h)" unfolding ex_vec_def v(1) by simp
  have "new_limit h = 1000" "sz v = 3" using v by (simp_all add: frame_def vec_rep_def)
  then show "vec_rep (snd ex_vec) (fst ex_vec) [10, 20, 30]" "store_ok (snd ex_vec)" "cap (fst ex_vec) = sz (fst ex_vec)"
    "new_limit (snd ex_vec) = 1000" "sz (fst ex_vec) = 3" unfolding ex fst_conv snd_conv using v(2,3,5) by simp_all
qed

theorem Vector_copy_deep_witness:
  "\<exists>w h1 h2. Vector_copy 4 (fst ex_vec) (snd ex_vec) = Inr (w, h1) \<and> Vector_dtor (fst ex_vec) h1 = Inr h2 \<and> vec_rep h2 w [10, 20, 30]"
proof -
  have "(0::nat) < 4" "4 * length [10, 20, 30 :: nat] \<le> new_limit (snd ex_vec)" by (simp_all add: ex_vec_rep)
  from Vector_copy_deep [OF ex_vec_rep(1,2) this] show ?thesis by blast
qed

theorem Vector_push_back_own_element_witness:
  "Vector_push_back True 4 (fst ex_vec) (Slot (elem (fst ex_vec)) 0) (snd ex_vec) = Inl Undefined"
proof -
  have "length [10, 20, 30 :: nat] < 2 ^ 30" "(0::nat) < 4" "4 * (2 * length [10, 20, 30 :: nat] + 1) \<le> new_limit (snd ex_vec)"
    "sz (fst ex_vec) = cap (fst ex_vec)" "(0::int) \<le> 0" "0 < sz (fst ex_vec)" by (simp_all add: ex_vec_rep)
  from Vector_push_back_own_element [OF ex_vec_rep(1,2) this] show ?thesis by blast
qed

text \<open>Copy assignment is not exception safe: when the allocation of the copy fails, the target keeps the
  pointer to the block it has just given back, with the size of the source, and destroying it is
  undefined.\<close>

theorem Vector_assign_bad_alloc:
  assumes "vec_rep h v xs" "xs \<noteq> []" "vec_rep h w ys" "ys \<noteq> []" "store_ok h" "new_limit h < sizeof_T * nat (cap w)"
  shows "\<exists>v' h'. Vector_assign sizeof_T v w False h = ((v', h'), Inl StdBadAlloc) \<and> elem v' = elem v \<and> sz v' = sz w \<and>
    Vector_dtor v' h' = Inl Undefined"
proof -
  obtain h1 where 1: "Vector_dtor v h = Inr h1" "frame (elem v) h h1"
    "blocks h1 = (case elem v of None \<Rightarrow> blocks h | Some b \<Rightarrow> (blocks h)(b := None))"
    using Vector_dtor_frees [OF assms(1,5)] by blast
  obtain b where b: "elem v = Some b" using vec_rep_None [OF assms(1)] assms(2) by (cases "elem v") auto
  have c: "0 < cap w" "cap w < 2 ^ 31" "0 < sz w" using assms(3,4) by (auto simp: vec_rep_def split: option.splits)
  have "alloc_allocate sizeof_T (size_t_of (cap w)) h1 = Inl StdBadAlloc"
    using c assms(6) 1(2) by (simp add: alloc_allocate_def operator_new_def size_t_of_int frame_def)
  then have a: "Vector_assign sizeof_T v w False h = ((v \<lparr> sz := sz w, cap := cap w \<rparr>, h1), Inl StdBadAlloc)"
    using 1(1) by (simp add: Vector_assign_def Let_def)
  have "upto_int (sz w) = 0 # map int [1..<nat (sz w)]" using c(3) by (simp add: upto_int_def upt_conv_Cons)
  moreover have "alloc_destroy (Some b) 0 h1 = Inl Undefined" using 1(3) b by (simp add: alloc_destroy_def load_def get_slot_def)
  ultimately have "Vector_dtor (v \<lparr> sz := sz w, cap := cap w \<rparr>) h1 = Inl Undefined"
    by (simp add: Vector_dtor_def destroy_all_def b)
  then show ?thesis using a by simp
qed

theorem Vector_assign_bad_alloc_witness:
  "\<exists>v' h'. Vector_assign 400 (fst ex_vec) (fst ex_vec) False (snd ex_vec) = ((v', h'), Inl StdBadAlloc) \<and>
     Vector_dtor v' h' = Inl Undefined"
proof -
  have "new_limit (snd ex_vec) < 400 * nat (cap (fst ex_vec))" "[10, 20, 30 :: nat] \<noteq> []" by (simp_all add: ex_vec_rep)
  from Vector_assign_bad_alloc [OF ex_vec_rep(1) this(2) ex_vec_rep(1) this(2) ex_vec_rep(2) this(1)]
  show ?thesis by blast
qed

text \<open>For an element type whose assignment is not trivial (a \<open>std::string\<close>), every \<open>push_back\<close> is
  undefined: \<open>elem[sz] = value\<close> assigns to raw memory in which no object has been constructed.\<close>

theorem Vector_push_back_nontrivial:
  assumes "vec_rep h v xs" "store_ok h" "length xs < 2 ^ 30" "0 < sizeof_T" "sizeof_T * (2 * length xs + 1) \<le> new_limit h"
  shows "Vector_push_back False sizeof_T v (Temp x) h = Inl Undefined"
proof -
  obtain v1 h1 where 1: "(if sz v = cap v
      then (if cap v = 0 then Vector_reserve sizeof_T v 1 h
            else check Undefined (in_range I32 (cap v * 2)) (Vector_reserve sizeof_T v (cap v * 2) h))
      else Inr (v, h)) = Inr (v1, h1)" "vec_rep h1 v1 xs" "sz v1 < cap v1"
    using push_back_room [OF assms] by blast
  have len: "sz v1 = int (length xs)" "length xs < nat (cap v1)" using 1(2,3) by (auto simp: vec_rep_def)
  obtain b where b: "elem v1 = Some b" using vec_rep_nonempty [OF 1(2)] 1(3) len(1) by auto
  then have "get_slot (elem v1) (sz v1) h1 = Inr None"
    using vec_rep_block [OF 1(2) b] len by (simp add: get_slot_def nth_append)
  then show ?thesis unfolding Vector_push_back_def 1(1) by (simp add: assign_def)
qed

theorem Vector_push_back_nontrivial_witness:
  "Vector_push_back False 4 (fst ex_vec) (Temp 40) (snd ex_vec) = Inl Undefined"
proof -
  have "length [10, 20, 30 :: nat] < 2 ^ 30" "(0::nat) < 4" "4 * (2 * length [10, 20, 30 :: nat] + 1) \<le> new_limit (snd ex_vec)"
    by (simp_all add: ex_vec_rep)
  from Vector_push_back_nontrivial [OF ex_vec_rep(1,2) this] show ?thesis .
qed

section \<open>Refinement of a list\<close>

datatype 'a vop = PushBack 'a | SetAt int 'a | GrowTo int

definition Vector_run_op :: "nat \<Rightarrow> Vector \<times> 'a store \<Rightarrow> 'a vop \<Rightarrow> (Vector \<times> 'a store) result" where
  "Vector_run_op sizeof_T s op = (case s of (v, h) \<Rightarrow> (case op of
       PushBack x \<Rightarrow> Vector_push_back True sizeof_T v (Temp x) h
     | SetAt i x \<Rightarrow> rbind (Vector_index v i :: 'a arg result) (\<lambda>r. (case r of Temp _ \<Rightarrow> Inl Undefined
         | Slot p j \<Rightarrow> rbind (assign True p j x h) (\<lambda>h. Inr (v, h))))
     | GrowTo n \<Rightarrow> Vector_reserve sizeof_T v n h))"

fun list_run_op :: "'a list \<Rightarrow> 'a vop \<Rightarrow> 'a list result" where
  "list_run_op xs (PushBack x) = Inr (xs @ [x])"
| "list_run_op xs (SetAt i x) = (if 0 \<le> i \<and> i < int (length xs) then Inr (xs[nat i := x]) else Inl StdOutOfRange)"
| "list_run_op xs (GrowTo n) = Inr xs"

fun op_fits :: "'a vop \<Rightarrow> bool" where
  "op_fits (GrowTo n) = (n \<le> 2 ^ 30)" | "op_fits _ = True"

definition roomy :: "nat \<Rightarrow> 'a store \<Rightarrow> bool" where
  "roomy sizeof_T h \<longleftrightarrow> store_ok h \<and> 0 < sizeof_T \<and> sizeof_T * 2 ^ 31 \<le> new_limit h"

lemma roomy_le: "roomy sizeof_T h \<Longrightarrow> n \<le> 2 ^ 31 \<Longrightarrow> sizeof_T * n \<le> new_limit h"
  unfolding roomy_def using mult_le_mono2 [of n "2 ^ 31" sizeof_T] by linarith

lemma set_free_slot:
  assumes "vec_rep h v xs" "store_ok h" "i < length xs"
  shows "\<exists>h'. assign True (elem v) (int i) x h = Inr h' \<and> vec_rep h' v (xs[i := x]) \<and> store_ok h' \<and> frame (elem v) h h'"
proof -
  obtain b where b: "elem v = Some b" "b < next_block h" "blocks h b = Some (filled xs (nat (cap v)))" "length xs \<le> nat (cap v)"
    using assms by (auto simp: vec_rep_def split: option.splits)
  let ?h' = "put h b (filled (xs[i := x]) (nat (cap v)))"
  have "(filled xs (nat (cap v)))[i := Some x] = filled (xs[i := x]) (nat (cap v))"
    using assms(3) by (simp add: filled_def list_update_append map_update)
  then have "assign True (elem v) (int i) x h = Inr ?h'"
    using set_slot_put [OF b(3), of i "Some x"] b assms(3) by (simp add: assign_def get_slot_def filled_def)
  moreover have "vec_rep ?h' v (xs[i := x])" using assms(1) b by (simp add: vec_rep_def)
  moreover have "store_ok ?h'" "frame (elem v) h ?h'" using assms(2) b by (auto simp: store_ok_def frame_def)
  ultimately show ?thesis by blast
qed

lemma Vector_run_op_refines:
  assumes rep: "vec_rep h v xs" and room: "roomy sizeof_T h" and len: "length xs < 2 ^ 30" and fits: "op_fits op"
  shows "case list_run_op xs op of Inl e \<Rightarrow> Vector_run_op sizeof_T (v, h) op = Inl e
    | Inr ys \<Rightarrow> \<exists>v' h'. Vector_run_op sizeof_T (v, h) op = Inr (v', h') \<and> vec_rep h' v' ys \<and> roomy sizeof_T h'"
proof (cases op)
  case (PushBack x)
  have "sizeof_T * (2 * length xs + 1) \<le> new_limit h" using room len by (intro roomy_le) auto
  then obtain v' h' where "Vector_push_back True sizeof_T v (Temp x) h = Inr (v', h')" "vec_rep h' v' (xs @ [x])" "store_ok h'"
    "frame (elem v) h h'" using Vector_push_back_appends_aux [OF rep _ len] room unfolding roomy_def by blast
  then show ?thesis using PushBack room by (auto simp: Vector_run_op_def roomy_def frame_def)
next
  case (SetAt i x)
  have s: "sz v = int (length xs)" using rep by (simp add: vec_rep_def)
  show ?thesis
  proof (cases "0 \<le> i \<and> i < int (length xs)")
    case True
    then have "nat i < length xs" by linarith
    with True obtain h' where "assign True (elem v) (int (nat i)) x h = Inr h'" "vec_rep h' v (xs[nat i := x])" "store_ok h'" "frame (elem v) h h'"
      using set_free_slot [OF rep, of "nat i" x] room unfolding roomy_def by auto
    then show ?thesis using SetAt True s room by (auto simp: Vector_run_op_def Vector_index_def roomy_def frame_def)
  next
    case False
    then show ?thesis using SetAt s by (auto simp: Vector_run_op_def Vector_index_def)
  qed
next
  case (GrowTo n)
  show ?thesis
  proof (cases "n \<le> cap v")
    case True
    then show ?thesis using GrowTo rep room by (simp add: Vector_run_op_def Vector_reserve_def)
  next
    case False
    have n: "n < 2 ^ 31" "sizeof_T * nat n \<le> new_limit h" using fits GrowTo room by (auto intro!: roomy_le)
    then obtain v' h' where "Vector_reserve sizeof_T v n h = Inr (v', h')" "vec_rep h' v' xs" "store_ok h'" "frame (elem v) h h'"
      using Vector_reserve_grows [OF rep _ _ n(1) _ n(2)] False room unfolding roomy_def by (metis not_le)
    then show ?thesis using GrowTo room by (auto simp: Vector_run_op_def roomy_def frame_def)
  qed
qed

lemma list_run_op_length: "list_run_op xs op = Inr ys \<Longrightarrow> length ys \<le> length xs + 1"
  by (cases op) (auto split: if_splits)

lemma Vector_run_refines:
  assumes "vec_rep h v xs" "roomy sizeof_T h" "length xs + length ops < 2 ^ 30" "list_all op_fits ops"
  shows "case rfoldM list_run_op xs ops of Inl e \<Rightarrow> rfoldM (Vector_run_op sizeof_T) (v, h) ops = Inl e
    | Inr ys \<Rightarrow> \<exists>v' h'. rfoldM (Vector_run_op sizeof_T) (v, h) ops = Inr (v', h') \<and> vec_rep h' v' ys"
  using assms
proof (induction ops arbitrary: v h xs)
  case (Cons op ops)
  have 1: "case list_run_op xs op of Inl e \<Rightarrow> Vector_run_op sizeof_T (v, h) op = Inl e
    | Inr ys \<Rightarrow> \<exists>v' h'. Vector_run_op sizeof_T (v, h) op = Inr (v', h') \<and> vec_rep h' v' ys \<and> roomy sizeof_T h'"
    using Cons.prems by (intro Vector_run_op_refines) auto
  show ?case
  proof (cases "list_run_op xs op")
    case (Inr ys)
    then obtain v' h' where r: "Vector_run_op sizeof_T (v, h) op = Inr (v', h')" "vec_rep h' v' ys" "roomy sizeof_T h'"
      using 1 by auto
    have "length ys + length ops < 2 ^ 30" using list_run_op_length [OF Inr] Cons.prems(3) by simp
    from Cons.IH [OF r(2,3) this] Cons.prems(4) show ?thesis using Inr r(1) by (simp split: sum.splits)
  qed (use 1 in simp)
qed auto

lemma Vector_range_rep:
  assumes "vec_rep h v xs" shows "Vector_range v h = Inr xs"
proof (cases "elem v")
  case None
  then show ?thesis using vec_rep_None [OF assms None] by (simp add: Vector_range_def upto_int_def)
next
  case (Some b)
  have "load (elem v) (int i) h = Inr (xs ! i)" if "i < length xs" for i
    unfolding Some using vec_rep_block [OF assms Some] that by (intro load_block) (auto simp: nth_append)
  moreover have "sz v = int (length xs)" using assms by (simp add: vec_rep_def)
  ultimately show ?thesis by (simp add: Vector_range_def rmapM_Inr_iff upto_int_def)
qed



section \<open>The arena hands out aligned, disjoint ranges\<close>

text \<open>A well-formed arena: the buffer does not wrap around the address space and \<open>next\<close> lies in it.\<close>

definition arena_ok :: "Arena \<Rightarrow> bool" where
  "arena_ok a \<longleftrightarrow> unat (arena_base a) + unat (arena_N a) < 2 ^ 64 \<and> unat (arena_base a) \<le> unat (arena_next a) \<and>
     unat (arena_next a) \<le> unat (arena_base a) + unat (arena_N a)"

definition padding_of :: "nat \<Rightarrow> nat \<Rightarrow> nat" where
  "padding_of p al = (if p mod al = 0 then 0 else al - p mod al)"

lemma padding_of_aligns: "0 < al \<Longrightarrow> (p + padding_of p al) mod al = 0" "0 < al \<Longrightarrow> padding_of p al < al"
proof -
  assume al: "0 < al"
  have "p mod al \<le> al" using al by (simp add: less_imp_le)
  then have "p + (al - p mod al) = p div al * al + al" using div_mult_mod_eq [of p al] by linarith
  then have "(p + (al - p mod al)) mod al = 0" by simp
  then show "(p + padding_of p al) mod al = 0" by (simp add: padding_of_def)
  show "padding_of p al < al" using al by (auto simp: padding_of_def intro: diff_less)
qed

lemma align_up_padding: "align_up p al - p = of_nat (padding_of (unat p) (unat al))" if "al \<noteq> 0"
proof -
  have "p mod al = 0 \<longleftrightarrow> unat p mod unat al = 0" by (simp add: unat_mod [symmetric] unat_eq_0)
  moreover have "of_nat (unat al - unat p mod unat al) = al - p mod al"
  proof -
    have "unat p mod unat al \<le> unat al" using that by (simp add: unat_gt_0 less_imp_le)
    then show ?thesis by (simp add: of_nat_diff) (simp add: unat_mod [symmetric])
  qed
  ultimately show ?thesis by (simp add: align_up_def padding_of_def)
qed

lemma arena_used_unat: "arena_ok a \<Longrightarrow> unat (arena_used a) = unat (arena_next a) - unat (arena_base a)"
  by (simp add: arena_used_def arena_ok_def unat_sub word_le_nat_alt)

lemma arena_free_unat:
  assumes "arena_ok a"
  shows "unat (arena_N a - arena_used a) = unat (arena_base a) + unat (arena_N a) - unat (arena_next a)"
proof -
  have "unat (arena_used a) \<le> unat (arena_N a)" using assms arena_used_unat [OF assms] unfolding arena_ok_def by linarith
  then have "unat (arena_N a - arena_used a) = unat (arena_N a) - unat (arena_used a)" by (simp add: unat_sub word_le_nat_alt)
  then show ?thesis using assms arena_used_unat [OF assms] unfolding arena_ok_def by linarith
qed

lemma Arena_allocate_exact:
  assumes ok: "arena_ok a" and al: "al \<noteq> 0" and small: "unat n + padding_of (unat (arena_next a)) (unat al) < 2 ^ 64"
  shows "if unat (arena_next a) + padding_of (unat (arena_next a)) (unat al) + unat n \<le> unat (arena_base a) + unat (arena_N a)
    then \<exists>p a'. Arena_allocate a n al = Inr (p, a') \<and> arena_ok a' \<and> unat p = unat (arena_next a) + padding_of (unat (arena_next a)) (unat al) \<and>
      unat (arena_next a') = unat p + unat n \<and> arena_base a' = arena_base a \<and> arena_N a' = arena_N a
    else Arena_allocate a n al = Inl StdBadAlloc"
proof -
  let ?p = "padding_of (unat (arena_next a)) (unat al)"
  let ?total = "n + of_nat ?p :: 64 word"
  have p: "unat (of_nat ?p :: 64 word) = ?p" using small by (simp add: unat_of_nat)
  then have tot: "unat ?total = unat n + ?p" using small by (simp add: unat_word_ariths)
  have alloc: "Arena_allocate a n al = (if ?total \<le> arena_N a - arena_used a
      then Inr (arena_next a + of_nat ?p, a \<lparr> arena_next := arena_next a + ?total \<rparr>) else Inl StdBadAlloc)"
    using al by (simp add: Arena_allocate_def Let_def align_up_padding)
  have free: "?total \<le> arena_N a - arena_used a \<longleftrightarrow> unat (arena_next a) + ?p + unat n \<le> unat (arena_base a) + unat (arena_N a)"
    using ok tot arena_free_unat [OF ok] by (auto simp: word_le_nat_alt arena_ok_def)
  show ?thesis
  proof (cases "?total \<le> arena_N a - arena_used a")
    case True
    let ?a' = "a \<lparr> arena_next := arena_next a + ?total \<rparr>"
    have le: "unat (arena_next a) + ?p + unat n \<le> unat (arena_base a) + unat (arena_N a)" using True free by blast
    then have nx: "unat (arena_next a + ?total) = unat (arena_next a) + ?p + unat n"
      using tot ok by (simp add: unat_word_ariths arena_ok_def)
    moreover have "unat (arena_next a + of_nat ?p) = unat (arena_next a) + ?p"
      using p le ok by (simp add: unat_word_ariths arena_ok_def)
    ultimately show ?thesis using True alloc free le ok by (auto simp: arena_ok_def)
  qed (use alloc free in auto)
qed

text \<open>A run of allocations, as (size, alignment) requests; the result lists the ranges handed out.\<close>

fun Arena_run :: "Arena \<Rightarrow> (64 word \<times> 64 word) list \<Rightarrow> ((64 word \<times> 64 word) list \<times> Arena) result" where
  "Arena_run a [] = Inr ([], a)"
| "Arena_run a ((n, al) # rs) = rbind (Arena_allocate a n al) (\<lambda>(p, a). rbind (Arena_run a rs) (\<lambda>(ps, a). Inr ((p, n) # ps, a)))"

definition range_of :: "64 word \<times> 64 word \<Rightarrow> nat set" where
  "range_of r = {unat (fst r) ..< unat (fst r) + unat (snd r)}"

text \<open>Requests whose size and padding cannot wrap around.\<close>

definition request_ok :: "64 word \<times> 64 word \<Rightarrow> bool" where
  "request_ok r \<longleftrightarrow> snd r \<noteq> 0 \<and> unat (fst r) + unat (snd r) \<le> 2 ^ 64"

lemma Arena_run_ranges:
  assumes "arena_ok a" "list_all request_ok rs" "Arena_run a rs = Inr (ps, a')"
  shows "arena_ok a' \<and> arena_base a' = arena_base a \<and> arena_N a' = arena_N a \<and> unat (arena_next a) \<le> unat (arena_next a') \<and>
    list_all2 (\<lambda>r q. snd q = fst r \<and> unat (fst q) mod unat (snd r) = 0) rs ps \<and>
    (\<forall>q \<in> set ps. range_of q \<subseteq> {unat (arena_next a) ..< unat (arena_next a')}) \<and>
    sorted_wrt (\<lambda>q q'. range_of q \<inter> range_of q' = {}) ps"
  using assms
proof (induction rs arbitrary: a ps)
  case (Cons r rs)
  obtain n al where r: "r = (n, al)" by force
  obtain p a1 qs where 1: "Arena_allocate a n al = Inr (p, a1)" "Arena_run a1 rs = Inr (qs, a')" "ps = (p, n) # qs"
    using Cons.prems(3) r by (auto simp: rbind_Inr_iff)
  have ok: "al \<noteq> 0" "unat n + unat al \<le> 2 ^ 64" using Cons.prems(2) r by (auto simp: request_ok_def)
  have al: "0 < unat al" using ok(1) by (simp add: unat_gt_0)
  have "unat n + padding_of (unat (arena_next a)) (unat al) < 2 ^ 64" using padding_of_aligns(2) [OF al, of "unat (arena_next a)"] ok(2) by linarith
  from Arena_allocate_exact [OF Cons.prems(1) ok(1) this] 1(1)
  have a1: "arena_ok a1" "unat p = unat (arena_next a) + padding_of (unat (arena_next a)) (unat al)"
    "unat (arena_next a1) = unat p + unat n" "arena_base a1 = arena_base a" "arena_N a1 = arena_N a"
    by (auto split: if_splits)
  from Cons.IH [OF a1(1) _ 1(2)] Cons.prems(2)
  have ih: "arena_ok a' \<and> arena_base a' = arena_base a1 \<and> arena_N a' = arena_N a1 \<and> unat (arena_next a1) \<le> unat (arena_next a') \<and>
    list_all2 (\<lambda>r q. snd q = fst r \<and> unat (fst q) mod unat (snd r) = 0) rs qs \<and>
    (\<forall>q \<in> set qs. range_of q \<subseteq> {unat (arena_next a1) ..< unat (arena_next a')}) \<and>
    sorted_wrt (\<lambda>q q'. range_of q \<inter> range_of q' = {}) qs" by simp
  have "unat p mod unat al = 0" using a1(2) padding_of_aligns(1) [OF al] by simp
  moreover have "range_of (p, n) \<subseteq> {unat (arena_next a) ..< unat (arena_next a1)}" using a1(2,3) by (auto simp: range_of_def)
  moreover from this have "range_of (p, n) \<inter> range_of q = {}" if "q \<in> set qs" for q using ih that by fastforce
  moreover have "unat (arena_next a) \<le> unat (arena_next a1)" using a1(2,3) by simp
  ultimately show ?case using ih 1(3) r a1(4,5) by fastforce
qed simp

text \<open>C27: Every sequence of allocations from an arena that ends without \<open>std::bad_alloc\<close> hands out pairwise
  disjoint ranges inside the buffer, each of the requested size and at a multiple of the requested
  alignment, when no request's size and alignment together exceed the address space.\<close>

theorem Arena_disjoint_aligned:
  assumes "unat base + unat N < 2 ^ 64" "list_all request_ok rs" "Arena_run (Arena_ctor base N) rs = Inr (ps, a')"
  shows "list_all2 (\<lambda>(n, al) (p, m). m = n \<and> is_aligned p al) rs ps \<and>
    (\<forall>q \<in> set ps. range_of q \<subseteq> {unat base ..< unat base + unat N}) \<and>
    sorted_wrt (\<lambda>q q'. range_of q \<inter> range_of q' = {}) ps \<and>
    unat (arena_used a') \<le> unat N"
proof -
  have ok: "arena_ok (Arena_ctor base N)" using assms(1) by (simp add: arena_ok_def Arena_ctor_def)
  note r = Arena_run_ranges [OF ok assms(2,3)]
  have al: "is_aligned p al \<longleftrightarrow> unat p mod unat al = 0" for p al
    by (simp add: is_aligned_def unat_mod [symmetric] unat_eq_0)
  have "list_all2 (\<lambda>(n, al) (p, m). m = n \<and> is_aligned p al) rs ps"
    using r by (auto simp: al elim!: list_all2_mono)
  moreover have a': "unat (arena_next a') \<le> unat base + unat N" "unat base \<le> unat (arena_next a')" "arena_ok a'" "arena_base a' = base"
    using r by (auto simp: arena_ok_def Arena_ctor_def)
  moreover have "\<forall>q \<in> set ps. range_of q \<subseteq> {unat base ..< unat base + unat N}" using r a'(1) by (fastforce simp: Arena_ctor_def)
  moreover have "unat (arena_used a') \<le> unat N" using a' arena_used_unat [OF a'(3)] by simp
  ultimately show ?thesis using r by blast
qed

theorem Arena_disjoint_aligned_witness:
  "\<exists>p q a'. Arena_run (Arena_ctor 0x1000 1024) [(1, 4), (4, 4)] = Inr ([(p, 1), (q, 4)], a') \<and>
     range_of (p, 1) \<inter> range_of (q, 4) = {} \<and> is_aligned q 4"
proof -
  have run: "Arena_run (Arena_ctor 0x1000 1024) [(1, 4), (4, 4)] =
      Inr ([(0x1000, 1), (0x1004, 4)], \<lparr> arena_base = 0x1000, arena_N = 1024, arena_next = 0x1008 \<rparr>)"
    by (simp add: Arena_ctor_def Arena_allocate_def align_up_def arena_used_def Let_def)
  have "unat (0x1000 :: 64 word) + unat (1024 :: 64 word) < 2 ^ 64" "list_all request_ok [(1, 4), (4, 4)]"
    by (simp_all add: request_ok_def)
  from Arena_disjoint_aligned [OF this run] run show ?thesis by auto
qed

text \<open>The size computations of \<open>Arena::allocate\<close> and of its \<open>CustomAllocator\<close> wrap around: a request of
  almost \<open>2^64\<close> bytes that needs padding is granted without advancing \<open>next\<close>, and an allocation of \<open>2^62\<close>
  elements of four bytes is granted as one of zero bytes, where \<open>std::bad_alloc\<close> is due.\<close>

theorem Arena_allocate_wraps:
  "Arena_allocate \<lparr> arena_base = 0x1000, arena_N = 1024, arena_next = 0x1001 \<rparr> (- 7) 8 =
     Inr (0x1008, \<lparr> arena_base = 0x1000, arena_N = 1024, arena_next = 0x1001 \<rparr>) \<and>
   ArenaAllocator_allocate 4 4 (Arena_ctor 0x1000 1024) (2 ^ 62) = Inr (0x1000, Arena_ctor 0x1000 1024)"
  by (simp add: Arena_ctor_def ArenaAllocator_allocate_def Arena_allocate_def align_up_def arena_used_def Let_def)

end
