(* ===== verification/Spec2Isabelle.thy ===== *)
theory Spec2Isabelle
  imports Instance Sketch Containers
begin

text \<open>
  A verification library for BusTub, the relational database in \<open>src/bustub\<close>, and for the vector and the
  arena allocator of \<open>src/Containers\<close> and \<open>src/Allocator\<close>.

  \<^bold>\<open>The program.\<close>  A statement is bound, planned and optimised into a tree of executors; executors
  evaluate expressions over tuples of typed values; tuples live in slotted pages of a table heap; pages
  are fetched through a buffer pool from a disk manager; the versions of a tuple are linked by the transaction manager.
  An instance runs the statements of a query text in a transaction and hands the results to a writer.
  The library covers this stack from the bottom (values, schemas and tuples, table pages, disk managers, the table heap,
  indexes and the catalog) and from the top (instance, binder, planner, optimizer, executors), and the two meet in the last
  sections of this theory, where a query is followed from its bound statement to its answer, and from its text to the
  cells of the result.

  \<^bold>\<open>The theories\<close>, in the order of their imports:

  \<^item> \<open>Prelude\<close>: failures (thrown exceptions, failed assertions, \<open>std::terminate\<close>, undefined behaviour)
    and the result type that carries them; signed integers of the C++ widths with their conversions;
    byte buffers with bounds-checked reads and writes; \<open>std::to_string\<close> and \<open>std::stoi\<close>.
  \<^item> \<open>Double\<close>: the binary64 arithmetic of \<open>double\<close> on its bit patterns, with rounding, comparison,
    conversions, printing and parsing.
  \<^item> \<open>Values\<close>: \<open>Value\<close> (src/bustub/src/type/value.cpp, include/type/value.h) with its constructors, the
    limits and NULL markers of include/type/limits.h, and the static functions of \<open>Type\<close>.
  \<^item> \<open>TypeOps\<close>: copying, printing, storage and serialisation of every type of src/bustub/src/type.
  \<^item> \<open>TypeCasts\<close>, \<open>TypeCompare\<close>, \<open>TypeArith\<close>: \<open>CastAs\<close>, the six comparisons and the arithmetic
    (\<open>Add\<close>, \<open>Subtract\<close>, \<open>Multiply\<close>, \<open>Divide\<close>, \<open>Modulo\<close>, \<open>Min\<close>, \<open>Max\<close>, \<open>Sqrt\<close>) of every type, one definition
    per method, with the dispatch of \<open>Value\<close>.
  \<^item> \<open>ValueFactory\<close>: include/type/value_factory.h, the timestamp parser included.
  \<^item> \<open>Schemas\<close>: columns and schemas with their offsets (src/bustub/src/catalog).
  \<^item> \<open>Tuples\<close>: RIDs and the byte layout of tuples (src/bustub/src/storage/table/tuple.cpp).
  \<^item> \<open>TablePage\<close>: the slotted page (src/bustub/src/storage/page/table_page.cpp) on the bytes of its frame.
  \<^item> \<open>Disk\<close>: the three disk managers (src/bustub/src/storage/disk) and the locale \<open>page_device\<close>, their
    contract, interpreted for the file-backed and the unlimited in-memory manager.
  \<^item> \<open>BufferPool\<close>: the interface of the buffer pool as the locale \<open>buffer_pool\<close>; the pool itself is not
    implemented in the repository, so its operations are a parameter, and every page device is shown to
    give a pool that keeps the contract.
  \<^item> \<open>Heap\<close>: the table heap and its iterator (src/bustub/src/storage/table), proved over every pool that
    keeps the contract (locale \<open>heap_on_pool\<close>) and interpreted on both disk managers.
  \<^item> \<open>Expressions\<close>: the expression classes of include/execution/expressions with both evaluators, and the
    factories of the planner.
  \<^item> \<open>Indexes\<close>: index keys and their comparator, the ordered and the unordered in-memory index
    (include/storage/index).  The laws of a key order and of a key equality are the locales \<open>ordered_keys\<close> and \<open>hashed_keys\<close>,
    the contract of an index is the locale \<open>key_index\<close>, and each is interpreted on the code's definitions.
  \<^item> \<open>Catalog\<close>: include/catalog/catalog.h, the population of a new index from its table included.
  \<^item> \<open>StringUtil\<close>: src/bustub/src/common/util/string_util.cpp.
  \<^item> \<open>Plans\<close>: the plan nodes (include/execution/plans, execution/plan_node.cpp) and a reference semantics of
    plans as lists of rows.
  \<^item> \<open>Optimizer\<close>: the rules and pipelines of src/bustub/src/optimizer; a rule that keeps the rows of a node is the
    locale \<open>rewrite_rule\<close>, interpreted for each rule that merges nodes.
  \<^item> \<open>MockScan\<close>: the tables of execution/mock_scan_executor.cpp.
  \<^item> \<open>Executors\<close>: the implemented executors of src/bustub/src/execution, their factory and the execution
    engine; the contract of an executor is the locale \<open>executor_contract\<close>, interpreted for every tree of executors.
  \<^item> \<open>Hashing\<close>: include/common/util/hash_util.h and the hash table of the aggregation executor.
  \<^item> \<open>Bound\<close>, \<open>Binder\<close>: the bound expressions, table references and statements of include/binder, and the
    binder of src/bustub/src/binder over the parse trees of the vendored parser, which are datatypes here.
  \<^item> \<open>Planner\<close>: src/bustub/src/planner, its context and the rewriting of aggregate calls inside the statement included.
  \<^item> \<open>PlanSemantics\<close>: a reference semantics of bound queries as lists of rows, and that the planner implements it.
  \<^item> \<open>FrontEnd\<close>: what the binder and the planner owe each other.
  \<^item> \<open>Transactions\<close>: transactions, undo logs and links, the watermark and the transaction manager
    (src/bustub/src/concurrency), with the operations of the heap that run under a page lock.
  \<^item> \<open>Printing\<close>: the text of plans and bound statements (execution/fmt_impl.cpp, binder/fmt_impl.cpp, binder/statement).
  \<^item> \<open>Instance\<close>: the session (common/bustub_instance.cpp, common/bustub_ddl.cpp) with its statements, internal commands and
    transactions, and the writers of include/common/bustub_instance.h.  An operation is a function of the session that keeps its changes when it
    throws; a relation that every operation keeps is the locale \<open>act_relation\<close>, interpreted for the operations
    that leave the transactions alone and for those that only move them forward.
  \<^item> \<open>Sketch\<close>: the count-min sketch (src/bustub/src/primer/count_min_sketch.cpp), concurrent insertions included.
  \<^item> \<open>Containers\<close>: \<open>src/Containers/vector/Vector.h\<close> and \<open>src/Allocator/Allocator.h\<close> on an explicit store of raw
    memory, and \<open>src/Allocator/Arena.h\<close> on 64-bit addresses.

  \<^bold>\<open>How state and effects are rendered.\<close>  A class is a record, an operation a function from the state
  to a result that carries the new state; a reference parameter the code writes is returned.  Exceptions,
  assertions (kept in the default build), terminations and undefined behaviour are values of \<open>failure\<close>,
  so a theorem that an operation returns also says that no assertion fails and no access leaves its
  buffer.  Signed overflow wraps, as the compilers of the default build make it; narrowing conversions
  are written out.  What the operating system does to one I/O call is an argument of the call.  Latches are not
  part of the state: the operations of the disk manager and the insertion of the heap hold theirs
  from the first to the last access, so each is one step.

  \<^bold>\<open>Loops and fuel.\<close>  The loop of \<open>TableHeap::InsertTuple\<close> takes fuel; two units are shown to be
  enough for every tuple the heap accepts.  The scan over an iterator, and the loop that populates an index, take fuel; one
  more than the number of rows is shown to be enough.  \<open>Next\<close> on a tree of executors takes fuel for its levels and
  for the turns of a filter, bounded by \<open>cost\<close>; polling takes one unit more than there are rows.  The
  two loops of \<open>StringUtil\<close> that do not end for an empty pattern are partial functions, and shown to
  return exactly for the other patterns.  The planner recurses into the queries of CTEs; its parameter \<open>room\<close> bounds how
  deep, any bound is shown to do for queries without CTEs, and a query for which none is enough is exhibited.
  Every other loop is structural recursion or has a measure.

  \<^bold>\<open>What is shown.\<close>  For the types: the exact conditions under which integer arithmetic returns the
  mathematical result, raises an error or yields NULL; comparison agrees with the order of the
  represented numbers and with the lexicographic order of strings; casts and serialisation round-trip;
  timestamps round-trip through their text.  For storage: a tuple built from values reads back those values,
  page operations act on a list of tuples and stay in the frame, the disk manager refines a map from page
  ids to pages, and a table heap on a freshly opened database returns, in order, exactly the rows that were
  inserted.  Several theorems record behaviour that the code does not intend (an addition that yields NULL, a cast of a NULL
  string that throws, page offsets that wrap for tuples above 440 bytes, files above two gigabytes that become unreadable).

  For queries: the ordered and the unordered index refine a map from keys to RIDs, and a new index holds the
  rows of its table; the lookups of the catalog agree with each other in every reachable catalog; expressions of a
  checked type evaluate to a value of that type; the optimizer keeps the rows of a plan; and the
  engine returns, in order, the rows that the reference semantics gives to the plan, for all plans of the
  implemented executors.  Here too some theorems record behaviour that is not intended (NULL keys that equal every key, a filter
  merged into a left join, a constant NULL taken for true, a filter that is initialised again in the middle of a batch).

  The planner is shown to implement the semantics of bound queries, every column that the binder resolves is found by
  the planner, and from both, the optimizer and the engine follows that a query is answered with its rows.  For
  transactions: ended transactions stay as they are, the links of versions refine a map, the first of several
  writers that check the link wins, and a tuple and its link are changed together or not at all.  The sketch never
  counts too little and at most as much as its collisions add, and every interleaving of insertions ends in the sketch of a
  sequential run.  The vector refines a list, and an arena returns disjoint aligned blocks.  Here the theorems on unintended
  behaviour are a query whose planning never ends, an element of a vector pushed back into it, and arena sizes that wrap.

  For sessions: a query text that parses to a plain select is answered with the printed rows of the query and runs in a
  transaction that is committed; every other text outside of a transaction runs in one of its own too, which is committed or
  aborted unless an exception of the standard library escapes; transactions only move forward whatever is
  executed; the text of a plan is its outline; the vector writer holds the last table and the HTML writer escapes what it
  shows.  A commit outside of a transaction is carried out and reported as an error.

  \<^bold>\<open>What is not modelled.\<close>  The buffer pool, the replacement policies, the disk scheduler, the B+ tree and the
  extendible hash table, the executors of scans, joins, sorts and aggregations, the lock manager and the
  recovery code are unimplemented in the repository: they throw or do nothing, and where a modelled component calls them the model
  throws too, or takes them as a parameter with their documented contract.  The parser is vendored code, and so
  is the formatting library; both are parameters of a session.  The writer over the vendored table printer, the console output of version
  chains, the shells and other tools, the generator of test tables, the stand-alone exercises, the vendored libraries and the tests are
  outside the library.
\<close>

section \<open>From a query to its answer\<close>

lemma exec_ok_lengths:
  assumes "exec_ok env table other q" "plan_rows table other q = Inr rows"
  shows "list_all (\<lambda>row. length row = GetColumnCount (OutputSchema q)) rows"
proof -
  obtain cs where cs: "OutputSchema q = Schema_ctor cs" "list_all (row_fits cs) rows" using assms by (cases q) auto
  have "length (columns (Schema_ctor cs)) = length cs" using arg_cong [OF schema_names_ctor, of length cs] by (simp add: schema_names_def)
  then show ?thesis using cs by (auto simp: list_all_iff row_fits_def GetColumnCount_def intro!: list_all2_lengthD [symmetric])
qed

lemma query_result:
  assumes "PlanQuery catalog room (Select_Statement s) = Inr p" "plain_select s"
    and "sem_select (base_rows catalog table other) s = Inr rows"
    and "plan_ok catalog table other p" "\<And>n. GetTableIndexes enum catalog n = Inr []"
    and "\<And>q. Optimize enum catalog force_starter_rule p = Inr q \<Longrightarrow> exec_ok env table other q"
  shows "\<exists>q tuples enough. Optimize enum catalog force_starter_rule p = Inr q \<and>
     list_all2 (\<lambda>row t. \<forall>i. GetValue t (OutputSchema p) i = at row i) rows tuples \<and>
     (\<forall>fuel\<ge>enough. Execute fuel env topn_check q (Some []) = Some (Inr (True, Some tuples))) \<and>
     list_all (\<lambda>row. length row = GetColumnCount (OutputSchema p)) rows"
proof -
  obtain q where q: "Optimize enum catalog force_starter_rule p = Inr q" "plan_rows table other q = plan_rows table other p" "OutputSchema q = OutputSchema p"
    using Optimize_rows [OF assms(4,5)] by blast
  have r: "plan_rows table other q = Inr rows"
    using q(2) assms(3) PlanQuery_sem [OF assms(1,2)] by simp
  from Execute_rows [OF assms(6) [OF q(1)] r, of topn_check "[]"] exec_ok_lengths [OF assms(6) [OF q(1)] r] q(1,3) show ?thesis by auto
qed


definition ex_small_query :: SelectStatement where
  "ex_small_query = ex_select (ex_values_ref ''v'' [1, 2]) [BoundBinaryOp ''+'' (BoundColumnRef [''v'', ''0'']) (ex_const 10)]
     (BoundBinaryOp ''='' (BoundColumnRef [''v'', ''0'']) (ex_const 2))"

definition ex_small_values :: plan where
  "ex_small_values = Plan (Schema_ctor [int_column ''v.0'']) (ValuesPlanNode [[ConstantValueExpression (ex_int 1)], [ConstantValueExpression (ex_int 2)]]) []"

definition ex_small_filter :: plan where
  "ex_small_filter = Plan (Schema_ctor [int_column ''v.0'']) (FilterPlanNode (ComparisonExpression Equal
     (ColumnValueExpression 0 0 (int_column ''v.0'')) (ConstantValueExpression (ex_int 2)))) [ex_small_values]"

definition ex_small_plan :: plan where
  "ex_small_plan = Plan (Schema_ctor [int_column ''__unnamed#0'']) (ProjectionPlanNode [ArithmeticExpression Plus
     (ColumnValueExpression 0 0 (int_column ''v.0'')) (ConstantValueExpression (ex_int 10))]) [ex_small_filter]"

lemma ex_small_rows:
  "plan_rows (\<lambda>_. Inr []) ex_other ex_small_values = Inr [[ex_int 1], [ex_int 2]]"
  "plan_rows (\<lambda>_. Inr []) ex_other ex_small_filter = Inr [[ex_int 2]]"
  "plan_rows (\<lambda>_. Inr []) ex_other ex_small_plan = Inr [[ex_int 12]]"
  "list_all (row_fits [int_column ''v.0'']) [[ex_int 1], [ex_int 2]]" "list_all (row_fits [int_column ''v.0'']) [[ex_int 2]]"
    "list_all (row_fits [int_column ''__unnamed#0'']) [[ex_int 12]]"
  by code_simp+

lemma ex_small_plans: "PlanQuery Catalog_ctor 0 (Select_Statement ex_small_query) = Inr ex_small_plan"
   "Optimize (\<lambda>l. l) Catalog_ctor False ex_small_plan = Inr ex_small_plan"
  subgoal by code_simp
  subgoal by (simp add: Optimize_def OptimizeCustom_def OptimizeMergeProjection_def OptimizeMergeFilterNLJ_def OptimizeMergeFilterScan_def
      OptimizeNLJAsHashJoin_def OptimizeSortLimitAsTopN_def OptimizeSeqScanAsIndexScan_def OptimizeNLJAsIndexJoin_def OptimizeOrderByAsIndexScan_def
      ex_small_plan_def ex_small_filter_def ex_small_values_def merge_projection_def merge_filter_nlj_def merge_filter_scan_def
      nlj_as_index_join_def order_by_as_index_scan_def is_identical_def)
  done

lemma ex_small_sem:
   "sem_select (base_rows Catalog_ctor (\<lambda>_. Inr []) ex_other) ex_small_query = Inr [[ex_int 12]]" "plain_select ex_small_query"
  by code_simp+

lemma ex_small_schema: "OutputSchema ex_small_values = Schema_ctor [int_column ''v.0'']"
  by (simp add: ex_small_values_def)

lemma ex_small_ok: "exec_ok plain_env (\<lambda>_. Inr []) ex_other ex_small_plan" "plan_ok Catalog_ctor (\<lambda>_. Inr []) ex_other ex_small_plan"
proof -
  have v: "exec_ok plain_env (\<lambda>_. Inr []) ex_other ex_small_values"
    using ex_small_rows by (auto simp: ex_small_values_def)
  then have f: "exec_ok plain_env (\<lambda>_. Inr []) ex_other ex_small_filter"
    using ex_small_rows unfolding ex_small_filter_def by (auto simp: ex_small_schema)
  then show "exec_ok plain_env (\<lambda>_. Inr []) ex_other ex_small_plan" using ex_small_rows unfolding ex_small_plan_def by auto
  have v: "plan_ok Catalog_ctor (\<lambda>_. Inr []) ex_other ex_small_values"
    using ex_small_rows(1) by (auto simp: ex_small_values_def node_ok_def)
  then have f: "plan_ok Catalog_ctor (\<lambda>_. Inr []) ex_other ex_small_filter"
    using ex_small_rows(2) by (auto simp: ex_small_filter_def node_ok_def pred_ok_def Optimizer.width_def ex_small_schema)
  then show "plan_ok Catalog_ctor (\<lambda>_. Inr []) ex_other ex_small_plan" using ex_small_rows(3) unfolding ex_small_plan_def by (auto simp: node_ok_def)
qed


section \<open>From the text of a query to the cells of its result\<close>

lemma run_query_events:
  assumes "PlanQuery (inst_catalog i) (w_room w) s = Inr p" "Optimize (w_enum w) (inst_catalog i) (IsForceStarterRule i) p = Inr q"
    and "Execute (w_fuel w) (w_mock w) topn_check q (Some []) = Some (Inr (True, Some tuples))"
    and "list_all2 (\<lambda>t cells. cells_of (OutputSchema p) t = Inr cells) tuples rows"
  shows "run_query w topn_check s i = Some (Inr True, i \<lparr> written := written i @ table_events (map column_name (columns (OutputSchema p))) rows \<rparr>)"
  using assms(1-3) write_result_events [OF assms(4), of i]
  by (simp add: run_query_def act_bind_def [of "act_run r" for r] act_run_def act_bind_def [of "write_result a b" for a b] act_return_def)

text \<open>A session without a transaction of its own that runs one select: the query in a new transaction, which is committed.\<close>

lemma ExecuteSql_select:
  assumes "inst_inv i" "txn_map (txn_manager i) (next_txn_id (txn_manager i)) = None" "current_txn i = None"
    and "sql = [] \<or> hd sql \<noteq> CHR 0x5C" "ParseAndSave w sql = Inr [stmt]" "BindStatement (inst_catalog i) stmt 0 = Inr (Select_Statement s, uid)"
    and "\<And>m. run_query w (opts = Some True) (Select_Statement s) (i \<lparr> txn_manager := m \<rparr>) = Some (Inr ok, i \<lparr> txn_manager := m, written := written i @ es \<rparr>)"
  shows "\<exists>i' t. ExecuteSql w sql opts i = Some (Inr ok, i') \<and> written i' = written i @ es \<and> inst_catalog i' = inst_catalog i \<and>
     txn_map (txn_manager i') = (txn_map (txn_manager i))(next_txn_id (txn_manager i) \<mapsto> t) \<and> txn_state t = COMMITTED"
proof -
  let ?n = "next_txn_id (txn_manager i)"
  obtain m where m: "Begin (txn_manager i) SNAPSHOT_ISOLATION = Inr (?n, m)"
    "txn_map m = (txn_map (txn_manager i))(?n \<mapsto> Transaction_ctor ?n SNAPSHOT_ISOLATION)" using fresh_Begin [OF assms(1,2)] by blast
  let ?i = "i \<lparr> txn_manager := m, written := written i @ es \<rparr>"
  have "ExecuteSqlTxn w sql ?n opts (i \<lparr> txn_manager := m \<rparr>) = Some (Inr ok, ?i)"
    using assms(4-7) by (auto simp: ExecuteSqlTxn_def run_statement_def act_bind_def [of "run_query a b c" for a b c]
        act_bind_def [of "act_bind p q" for p q] act_return_def)
  moreover have "Commit m ?n = Inr (True, m')" if "m' = (set_txn m ?n ((Transaction_ctor ?n SNAPSHOT_ISOLATION) \<lparr> txn_state := COMMITTED \<rparr>))
      \<lparr> running_txns := RemoveTxn (UpdateCommitTs (running_txns m) (commit_ts (Transaction_ctor ?n SNAPSHOT_ISOLATION))) (read_ts (Transaction_ctor ?n SNAPSHOT_ISOLATION)) \<rparr>" for m'
    using m(2) that by (simp add: Commit_def Transaction_ctor_def)
  ultimately show ?thesis using m assms(3)
    by (simp add: ExecuteSql_def act_bind_def begin_txn_def catch_exception_def act_get_def commit_txn_def act_return_def set_txn_def)
      (intro exI [of _ "(Transaction_ctor ?n SNAPSHOT_ISOLATION) \<lparr> txn_state := COMMITTED \<rparr>"] conjI refl, simp_all add: Transaction_ctor_def)
qed

text \<open>The cells of a tuple that holds a row.\<close>

lemma cells_of_row:
  assumes "\<And>k. GetValue t sch k = at row k" "length row = GetColumnCount sch" "rmapM Value_ToString row = Inr cells"
  shows "cells_of sch t = Inr cells"
  using assms by (auto simp: cells_of_def rmapM_Inr_iff at_def)


definition ex_text :: SelectStatement where
  "ex_text = SelectStatement TableEmpty [BoundAlias ''n'' (BoundConstant (ex_int 1))] BoundInvalid [] BoundInvalid BoundInvalid BoundInvalid [] [] False"

definition ex_text_values :: plan where
  "ex_text_values = Plan (Schema_ctor []) (ValuesPlanNode [[]]) []"

definition ex_text_plan :: plan where
  "ex_text_plan = Plan (Schema_ctor [int_column ''n'']) (ProjectionPlanNode [ConstantValueExpression (ex_int 1)]) [ex_text_values]"

lemma ex_text_bound:
  "BindStatement Catalog_ctor (PGSelect (ex_one ''n'' 1)) 0 = Inr (Select_Statement ex_text, 0)"
  "PlanQuery Catalog_ctor 1 (Select_Statement ex_text) = Inr ex_text_plan"
  "plain_select ex_text" "sem_select (base_rows Catalog_ctor (\<lambda>_. Inr []) ex_other) ex_text = Inr [[ex_int 1]]"
  "rmapM (rmapM Value_ToString) [[ex_int 1]] = Inr [[''1'']]" "map column_name (columns (OutputSchema ex_text_plan)) = [''n'']"
  by code_simp+

lemma ex_text_rows:
  "plan_rows (\<lambda>_. Inr []) ex_other ex_text_values = Inr [[]]" "plan_rows (\<lambda>_. Inr []) ex_other ex_text_plan = Inr [[ex_int 1]]"
  "list_all (row_fits []) [[]]" "columns (Schema_ctor []) = []" "list_all (row_fits [int_column ''n'']) [[ex_int 1]]"
  by code_simp+

lemma ex_text_optimized: "Optimize (\<lambda>l. l) Catalog_ctor False ex_text_plan = Inr ex_text_plan"
  by (simp add: Optimize_def OptimizeCustom_def OptimizeMergeProjection_def OptimizeMergeFilterNLJ_def OptimizeMergeFilterScan_def
      OptimizeNLJAsHashJoin_def OptimizeSortLimitAsTopN_def OptimizeSeqScanAsIndexScan_def OptimizeNLJAsIndexJoin_def OptimizeOrderByAsIndexScan_def
      ex_text_plan_def ex_text_values_def merge_projection_def merge_filter_nlj_def merge_filter_scan_def
      nlj_as_index_join_def order_by_as_index_scan_def is_identical_def)

lemma ex_text_ok: "exec_ok plain_env (\<lambda>_. Inr []) ex_other ex_text_plan" "plan_ok Catalog_ctor (\<lambda>_. Inr []) ex_other ex_text_plan"
proof -
  have "exec_ok plain_env (\<lambda>_. Inr []) ex_other ex_text_values" using ex_text_rows by (auto simp: ex_text_values_def)
  then show "exec_ok plain_env (\<lambda>_. Inr []) ex_other ex_text_plan" using ex_text_rows unfolding ex_text_plan_def by auto
  have "plan_ok Catalog_ctor (\<lambda>_. Inr []) ex_other ex_text_values" using ex_text_rows(1,4) by (auto simp: ex_text_values_def node_ok_def)
  then show "plan_ok Catalog_ctor (\<lambda>_. Inr []) ex_other ex_text_plan" using ex_text_rows(2) unfolding ex_text_plan_def by (auto simp: node_ok_def)
qed


end
